(* ===== verification/Prelude.thy ===== *)
theory Prelude
  imports Main "HOL-Library.List_Lexorder" "HOL-Library.Char_ord" "HOL-Library.Product_Lexorder"
begin

text \<open>
  Shared ground of the development: Python exceptions as values of a sum type, the
  sequencing of fallible statements, insertion-ordered dictionaries, ordered sets as
  duplicate-free sorted lists, and reachability for step relations.

  A Python function that may raise is a HOL function into \<open>('e, 'a) res\<close>: \<open>Inl\<close>
  carries the exception, \<open>Inr\<close> the returned value. \<open>'e\<close> is the exception class the
  component itself declares; exceptions of the Python runtime (a failing \<open>int(..)\<close>, a
  missing key, an unhashable set element) are the second constructor.
\<close>

subsection \<open>Lemma collections\<close>

named_theorems res_simps \<open>success and failure of sequenced fallible statements\<close>
named_theorems dict_simps \<open>lookups after dictionary updates\<close>
named_theorems char_class \<open>membership of characters in the ASCII classes\<close>

subsection \<open>Exceptions as values\<close>

datatype py_exn = TypeError | ValueError | KeyError | IndexError | AttributeError | OSError

datatype 'e exn = Raise 'e | Py py_exn

type_synonym ('e, 'a) res = "'e exn + 'a"

definition bindR :: "('e, 'a) res \<Rightarrow> ('a \<Rightarrow> ('e, 'b) res) \<Rightarrow> ('e, 'b) res" where
  "bindR m f = (case m of Inl e \<Rightarrow> Inl e | Inr x \<Rightarrow> f x)"

text \<open>\<open>if c: raise e\<close> as a statement.\<close>

definition raise_if :: "bool \<Rightarrow> 'e \<Rightarrow> ('e, unit) res" where
  "raise_if c e = (if c then Inl (Raise e) else Inr ())"

text \<open>\<open>except E as error: raise F(error)\<close>: exceptions of the component's own class are
  translated, exceptions of the runtime pass through.\<close>

fun map_exn :: "('e \<Rightarrow> 'f) \<Rightarrow> 'e exn \<Rightarrow> 'f exn" where
  "map_exn h (Raise e) = Raise (h e)"
| "map_exn h (Py x) = Py x"

definition catch_as :: "('e \<Rightarrow> 'f) \<Rightarrow> ('e, 'a) res \<Rightarrow> ('f, 'a) res" where
  "catch_as h m = (case m of Inl e \<Rightarrow> Inl (map_exn h e) | Inr x \<Rightarrow> Inr x)"

text \<open>A \<open>for\<close> loop whose body may raise, collecting the body's values.\<close>

fun mapR :: "('a \<Rightarrow> ('e, 'b) res) \<Rightarrow> 'a list \<Rightarrow> ('e, 'b list) res" where
  "mapR f [] = Inr []"
| "mapR f (x # xs) = bindR (f x) (\<lambda>y. bindR (mapR f xs) (\<lambda>ys. Inr (y # ys)))"

text \<open>A comprehension with a condition that may raise, and a search for the first match.\<close>

fun filterR :: "('a \<Rightarrow> ('e, bool) res) \<Rightarrow> 'a list \<Rightarrow> ('e, 'a list) res" where
  "filterR p [] = Inr []"
| "filterR p (x # xs) = bindR (p x) (\<lambda>b. bindR (filterR p xs) (\<lambda>ys. Inr (if b then x # ys else ys)))"

fun findR :: "('a \<Rightarrow> ('e, bool) res) \<Rightarrow> 'a list \<Rightarrow> ('e, 'a option) res" where
  "findR p [] = Inr None"
| "findR p (x # xs) = bindR (p x) (\<lambda>b. if b then Inr (Some x) else findR p xs)"

text \<open>Short-circuit \<open>and\<close>.\<close>

definition andR :: "('e, bool) res \<Rightarrow> ('e, bool) res \<Rightarrow> ('e, bool) res" where
  "andR a b = bindR a (\<lambda>x. if x then b else Inr False)"

text \<open>A \<open>for\<close> loop whose body may raise and updates an accumulator.\<close>

fun foldR :: "('a \<Rightarrow> 's \<Rightarrow> ('e, 's) res) \<Rightarrow> 'a list \<Rightarrow> 's \<Rightarrow> ('e, 's) res" where
  "foldR f [] s = Inr s"
| "foldR f (x # xs) s = bindR (f x s) (foldR f xs)"

subsection \<open>Statements that change an object and may raise\<close>

text \<open>
  A method that mutates its object and may raise returns its outcome together with the
  state at the point of return or of the exception: what was assigned before a \<open>raise\<close>
  stays assigned.
\<close>

type_synonym ('s, 'e, 'a) st = "'s \<Rightarrow> ('e, 'a) res \<times> 's"

definition retS :: "'a \<Rightarrow> ('s, 'e, 'a) st" where
  "retS x s = (Inr x, s)"

definition liftS :: "('e, 'a) res \<Rightarrow> ('s, 'e, 'a) st" where
  "liftS r s = (r, s)"

definition bindS :: "('s, 'e, 'a) st \<Rightarrow> ('a \<Rightarrow> ('s, 'e, 'b) st) \<Rightarrow> ('s, 'e, 'b) st" where
  "bindS m f s = (case m s of (Inl e, s') \<Rightarrow> (Inl e, s') | (Inr x, s') \<Rightarrow> f x s')"

text \<open>A read of the object's own attributes.\<close>

definition readS :: "('s \<Rightarrow> ('e, 'a) res) \<Rightarrow> ('s, 'e, 'a) st" where
  "readS f s = (f s, s)"

fun forS :: "('a \<Rightarrow> ('s, 'e, unit) st) \<Rightarrow> 'a list \<Rightarrow> ('s, 'e, unit) st" where
  "forS f [] = retS ()"
| "forS f (x # xs) = bindS (f x) (\<lambda>_. forS f xs)"

subsection \<open>Insertion-ordered dictionaries\<close>

text \<open>
  A Python dict is an association list in insertion order with distinct keys.
  \<open>d[k] = v\<close> keeps the position of an existing key and appends a new one.
\<close>

type_synonym ('k, 'v) dict = "('k \<times> 'v) list"

fun dict_set :: "'k \<Rightarrow> 'v \<Rightarrow> ('k, 'v) dict \<Rightarrow> ('k, 'v) dict" where
  "dict_set k v [] = [(k, v)]"
| "dict_set k v ((k', v') # d) = (if k' = k then (k, v) # d else (k', v') # dict_set k v d)"

text \<open>A dict built by a comprehension or a literal: later pairs overwrite earlier ones.\<close>

definition dict_of :: "('k \<times> 'v) list \<Rightarrow> ('k, 'v) dict" where
  "dict_of kvs = foldl (\<lambda>d kv. dict_set (fst kv) (snd kv) d) [] kvs"

text \<open>In-place update of the object stored under a key (\<open>d[k].update(..)\<close>).\<close>

definition dict_mod :: "'k \<Rightarrow> ('v \<Rightarrow> 'v) \<Rightarrow> ('k, 'v) dict \<Rightarrow> ('k, 'v) dict" where
  "dict_mod k f d = map (\<lambda>kv. if fst kv = k then (fst kv, f (snd kv)) else kv) d"

abbreviation dict_keys :: "('k, 'v) dict \<Rightarrow> 'k list" where
  "dict_keys d \<equiv> map fst d"

abbreviation dict_values :: "('k, 'v) dict \<Rightarrow> 'v list" where
  "dict_values d \<equiv> map snd d"

subsection \<open>Sets of strings and order\<close>

text \<open>\<open>sorted(a - b)\<close> on sets given by lists of their elements.\<close>

definition sorted_diff :: "'a::linorder list \<Rightarrow> 'a list \<Rightarrow> 'a list" where
  "sorted_diff a b = sort (remdups (filter (\<lambda>x. x \<notin> set b) a))"

text \<open>\<open>sorted(set(a))\<close>.\<close>

definition sorted_set :: "'a::linorder list \<Rightarrow> 'a list" where
  "sorted_set a = sort (remdups a)"

text \<open>First occurrences in order: the loop with a \<open>seen\<close> set that the code writes as
  \<open>_dedupe\<close>, and \<open>dict.fromkeys\<close>.\<close>

fun dedupe_from :: "'a set \<Rightarrow> 'a list \<Rightarrow> 'a list" where
  "dedupe_from seen [] = []"
| "dedupe_from seen (x # xs) =
     (if x \<in> seen then dedupe_from seen xs else x # dedupe_from (insert x seen) xs)"

definition dedupe :: "'a list \<Rightarrow> 'a list" where
  "dedupe xs = dedupe_from {} xs"

subsection \<open>Reachable states of a step relation\<close>

inductive reach :: "('s \<Rightarrow> bool) \<Rightarrow> ('s \<Rightarrow> 's \<Rightarrow> bool) \<Rightarrow> 's \<Rightarrow> bool"
  for init :: "'s \<Rightarrow> bool" and step :: "'s \<Rightarrow> 's \<Rightarrow> bool" where
  reach_init: "init s \<Longrightarrow> reach init step s"
| reach_step: "reach init step s \<Longrightarrow> step s t \<Longrightarrow> reach init step t"

subsection \<open>Laws of sequencing\<close>

lemma bindR_simps [simp]:
  "bindR (Inl e) f = Inl e"
  "bindR (Inr x) f = f x"
  by (simp_all add: bindR_def)

lemma bindR_Inr_iff [res_simps]:
  "bindR m f = Inr y \<longleftrightarrow> (\<exists>x. m = Inr x \<and> f x = Inr y)"
  by (cases m) simp_all

lemma bindR_Inl_iff:
  "bindR m f = Inl e \<longleftrightarrow> m = Inl e \<or> (\<exists>x. m = Inr x \<and> f x = Inl e)"
  by (cases m) simp_all

lemma bindR_assoc: "bindR (bindR m f) g = bindR m (\<lambda>x. bindR (f x) g)"
  by (cases m) simp_all

lemma raise_if_Inr [res_simps]: "raise_if c e = Inr u \<longleftrightarrow> \<not> c"
  by (simp add: raise_if_def)

lemma raise_if_Inl [res_simps]: "raise_if c e = Inl x \<longleftrightarrow> c \<and> x = Raise e"
  by (auto simp: raise_if_def)

lemma raise_if_simps [simp]:
  "raise_if True e = Inl (Raise e)"
  "raise_if False e = Inr ()"
  by (simp_all add: raise_if_def)

lemma catch_as_Inr [res_simps]: "catch_as h m = Inr x \<longleftrightarrow> m = Inr x"
  by (auto simp: catch_as_def split: sum.splits)

lemma mapR_Inr_iff:
  "mapR f xs = Inr ys \<longleftrightarrow> list_all2 (\<lambda>x y. f x = Inr y) xs ys"
  by (induction xs arbitrary: ys) (auto simp: bindR_Inr_iff list_all2_Cons1)

lemma mapR_member: "mapR f xs = Inr ys \<Longrightarrow> x \<in> set xs \<Longrightarrow> \<exists>y \<in> set ys. f x = Inr y"
  by (induction xs arbitrary: ys) (auto simp: bindR_Inr_iff)

lemma mapR_raise_if [res_simps]:
  "mapR (\<lambda>x. raise_if (P x) (e x)) xs = Inr us \<longleftrightarrow> (\<forall>x \<in> set xs. \<not> P x) \<and> us = map (\<lambda>_. ()) xs"
  by (induction xs arbitrary: us) (auto simp: res_simps)

lemma filterR_pure: "\<forall>x \<in> set xs. p x = Inr (q x) \<Longrightarrow> filterR p xs = Inr (filter q xs)"
  by (induction xs) simp_all

lemma filterR_Inr: "filterR p xs = Inr ys \<longleftrightarrow> (\<forall>x \<in> set xs. \<exists>b. p x = Inr b) \<and> ys = filter (\<lambda>x. p x = Inr True) xs"
proof (induction xs arbitrary: ys)
  case (Cons x xs)
  show ?case
  proof (cases "p x")
    case (Inr b)
    then show ?thesis by (auto simp: bindR_Inr_iff Cons.IH)
  qed simp
qed auto

lemma findR_pure: "\<forall>x \<in> set xs. p x = Inr (q x) \<Longrightarrow> findR p xs = Inr (find q xs)"
  by (induction xs) simp_all

lemma andR_Inr [res_simps]: "andR a b = Inr True \<longleftrightarrow> a = Inr True \<and> b = Inr True"
  by (auto simp: andR_def bindR_Inr_iff split: if_splits)

lemma andR_simps [simp]: "andR (Inr x) b = (if x then b else Inr False)" "andR (Inl e) b = Inl e"
  by (simp_all add: andR_def)

lemma foldR_append:
  "foldR f (xs @ ys) s = bindR (foldR f xs s) (foldR f ys)"
proof (induction xs arbitrary: s)
  case (Cons x xs)
  then have "foldR f (xs @ ys) = (\<lambda>s. bindR (foldR f xs s) (foldR f ys))" by (rule ext)
  then show ?case by (simp add: bindR_assoc)
qed simp

lemma foldR_invariant:
  assumes step: "\<And>x s s'. x \<in> set xs \<Longrightarrow> P s \<Longrightarrow> f x s = Inr s' \<Longrightarrow> P s'"
    and "P s" and "foldR f xs s = Inr s'"
  shows "P s'"
  using assms
proof (induction xs arbitrary: s)
  case Nil
  then show ?case by simp
next
  case (Cons x xs)
  from Cons.prems(3) obtain s1 where s1: "f x s = Inr s1" "foldR f xs s1 = Inr s'"
    by (auto simp: bindR_Inr_iff)
  then have "P s1" using Cons.prems(1) [of x s s1] Cons.prems(2) by simp
  moreover have "\<And>x s s'. x \<in> set xs \<Longrightarrow> P s \<Longrightarrow> f x s = Inr s' \<Longrightarrow> P s'"
    using Cons.prems(1) by (meson list.set_intros(2))
  ultimately show ?case using Cons.IH s1(2) by blast
qed

lemma bindS_cases:
  "bindS m f s = (r, s') \<longleftrightarrow>
     (\<exists>e. m s = (Inl e, s') \<and> r = Inl e) \<or> (\<exists>x s1. m s = (Inr x, s1) \<and> f x s1 = (r, s'))"
  by (auto simp: bindS_def split: prod.splits sum.splits)

lemma st_simps [simp]:
  "retS x s = (Inr x, s)" "liftS r s = (r, s)" "readS f s = (f s, s)"
  by (simp_all add: retS_def liftS_def readS_def)

text \<open>What a statement keeps of the state, whether it returns or raises.\<close>

definition keepsS :: "('s \<Rightarrow> bool) \<Rightarrow> ('s, 'e, 'a) st \<Rightarrow> bool" where
  "keepsS P m \<longleftrightarrow> (\<forall>s. P s \<longrightarrow> P (snd (m s)))"

lemma keepsS_pure [intro, simp]:
  "keepsS P (retS x)" "keepsS P (liftS r)" "keepsS P (readS f)"
  by (simp_all add: keepsS_def)

lemma keepsS_bind [intro]: "keepsS P m \<Longrightarrow> (\<And>x. keepsS P (f x)) \<Longrightarrow> keepsS P (bindS m f)"
  unfolding keepsS_def bindS_def by (fastforce split: prod.splits sum.splits)

lemma keepsS_for [intro]: "(\<And>x. keepsS P (f x)) \<Longrightarrow> keepsS P (forS f xs)"
  by (induction xs) (auto intro: keepsS_bind)

subsection \<open>Laws of dictionaries\<close>

lemma map_of_dict_set [dict_simps]: "map_of (dict_set k v d) = (map_of d)(k \<mapsto> v)"
  by (induction d) auto

lemma dict_keys_set [dict_simps]:
  "dict_keys (dict_set k v d) = (if k \<in> set (dict_keys d) then dict_keys d else dict_keys d @ [k])"
  by (induction k v d rule: dict_set.induct) auto

lemma distinct_dict_set [intro]:
  "distinct (dict_keys d) \<Longrightarrow> distinct (dict_keys (dict_set k v d))"
  by (simp add: dict_keys_set)

lemma set_dict_set:
  "distinct (dict_keys d) \<Longrightarrow>
   set (dict_set k v d) = insert (k, v) {kv \<in> set d. fst kv \<noteq> k}"
proof (induction k v d rule: dict_set.induct)
  case (2 k v k' v' d)
  then show ?case by (auto simp: image_iff)
qed auto

lemma dict_values_set_cases:
  "x \<in> set (dict_values (dict_set k v d)) \<Longrightarrow> x = v \<or> x \<in> set (dict_values d)"
  by (induction k v d rule: dict_set.induct) (auto split: if_splits)

lemma map_of_dict_mod [dict_simps]:
  "map_of (dict_mod k f d) = (map_of d)(k := map_option f (map_of d k))"
  unfolding dict_mod_def by (induction d) (auto simp: fun_eq_iff)

lemma dict_keys_mod [dict_simps]: "dict_keys (dict_mod k f d) = dict_keys d"
  by (simp add: dict_mod_def)

lemma map_of_dict_of_aux:
  "map_of (foldl (\<lambda>d kv. dict_set (fst kv) (snd kv) d) d kvs) = map_of d ++ map_of (rev kvs)"
  by (induction kvs arbitrary: d) (auto simp: dict_simps fun_eq_iff map_add_def split: option.splits)

lemma map_of_dict_of [dict_simps]: "map_of (dict_of kvs) = map_of (rev kvs)"
  by (simp add: dict_of_def map_of_dict_of_aux)

lemma distinct_dict_of [simp, intro]: "distinct (dict_keys (dict_of kvs))"
proof -
  have "distinct (dict_keys d) \<Longrightarrow>
      distinct (dict_keys (foldl (\<lambda>d kv. dict_set (fst kv) (snd kv) d) d kvs))" for d :: "('a \<times> 'b) list"
    by (induction kvs arbitrary: d) (auto simp: distinct_dict_set)
  then show ?thesis by (simp add: dict_of_def)
qed

lemma dict_of_keys: "set (dict_keys (dict_of kvs)) = set (dict_keys kvs)"
proof -
  have "dom (map_of (dict_of kvs)) = dom (map_of (rev kvs))" by (simp add: map_of_dict_of)
  then show ?thesis by (simp add: dom_map_of_conv_image_fst)
qed

text \<open>The dictionary interface that the stores rely on: lookups after a write and the
  preservation of key distinctness.\<close>

locale keyed_store =
  fixes look :: "'d \<Rightarrow> 'k \<Rightarrow> 'v option"
    and put :: "'k \<Rightarrow> 'v \<Rightarrow> 'd \<Rightarrow> 'd"
    and modify :: "'k \<Rightarrow> ('v \<Rightarrow> 'v) \<Rightarrow> 'd \<Rightarrow> 'd"
    and wf :: "'d \<Rightarrow> bool"
  assumes look_put: "look (put k v d) = (look d)(k \<mapsto> v)"
    and look_modify: "look (modify k f d) = (look d)(k := map_option f (look d k))"
    and wf_put: "wf d \<Longrightarrow> wf (put k v d)"
    and wf_modify: "wf d \<Longrightarrow> wf (modify k f d)"
begin

lemma put_same: "look (put k v d) k = Some v"
  by (simp add: look_put)

lemma put_other: "k' \<noteq> k \<Longrightarrow> look (put k v d) k' = look d k'"
  by (simp add: look_put)

lemma modify_same: "look d k = Some v \<Longrightarrow> look (modify k f d) k = Some (f v)"
  by (simp add: look_modify)

lemma modify_other: "k' \<noteq> k \<Longrightarrow> look (modify k f d) k' = look d k'"
  by (simp add: look_modify)

lemma modify_absent: "look d k = None \<Longrightarrow> look (modify k f d) = look d"
  by (auto simp: look_modify)

lemma modify_dom: "dom (look (modify k f d)) = dom (look d)"
  by (auto simp: look_modify dom_def)

end

interpretation pydict: keyed_store map_of dict_set dict_mod "\<lambda>d. distinct (dict_keys d)"
  by unfold_locales (simp_all add: dict_simps)

subsection \<open>Laws of the set operations\<close>

lemma sorted_diff_Nil_iff [simp]: "sorted_diff a b = [] \<longleftrightarrow> set a \<subseteq> set b"
  by (auto simp: sorted_diff_def filter_empty_conv simp flip: set_empty)

lemma set_sorted_diff [simp]: "set (sorted_diff a b) = set a - set b"
  by (auto simp: sorted_diff_def)

lemma sorted_set_props [simp]:
  "set (sorted_set a) = set a" "distinct (sorted_set a)" "sorted (sorted_set a)"
  by (auto simp: sorted_set_def)

lemma set_map_filter: "set (List.map_filter f xs) = {y. \<exists>x \<in> set xs. f x = Some y}"
  by (induction xs) (auto simp: List.map_filter_simps split: option.splits)

lemma map_filter_concat:
  "List.map_filter f xs = concat (map (\<lambda>x. case f x of None \<Rightarrow> [] | Some y \<Rightarrow> [y]) xs)"
  by (induction xs) (auto simp: List.map_filter_simps split: option.splits)

lemma map_filter_total:
  "\<forall>x \<in> set xs. f x \<noteq> None \<Longrightarrow> List.map_filter f xs = map (\<lambda>x. the (f x)) xs"
  by (induction xs) (auto simp: List.map_filter_simps)

lemma set_dedupe_from: "set (dedupe_from seen xs) = set xs - seen"
  by (induction seen xs rule: dedupe_from.induct) auto

lemma distinct_dedupe_from: "distinct (dedupe_from seen xs)"
  by (induction seen xs rule: dedupe_from.induct) (auto simp: set_dedupe_from)

lemma set_dedupe [simp]: "set (dedupe xs) = set xs"
  by (simp add: dedupe_def set_dedupe_from)

lemma distinct_dedupe [simp]: "distinct (dedupe xs)"
  by (simp add: dedupe_def distinct_dedupe_from)

lemma dedupe_Nil_iff [simp]: "dedupe xs = [] \<longleftrightarrow> xs = []"
  by (simp flip: set_empty)

lemma dedupe_from_distinct:
  "distinct xs \<Longrightarrow> set xs \<inter> seen = {} \<Longrightarrow> dedupe_from seen xs = xs"
  by (induction seen xs rule: dedupe_from.induct) auto

lemma dedupe_distinct: "distinct xs \<Longrightarrow> dedupe xs = xs"
  by (simp add: dedupe_def dedupe_from_distinct)

subsection \<open>Invariants\<close>

text \<open>An invariant that holds initially and is kept by every step holds in every
  reachable state.\<close>

locale invariant_system =
  fixes init :: "'s \<Rightarrow> bool" and step :: "'s \<Rightarrow> 's \<Rightarrow> bool" and inv :: "'s \<Rightarrow> bool"
  assumes inv_init: "init s \<Longrightarrow> inv s"
    and inv_step: "inv s \<Longrightarrow> step s t \<Longrightarrow> inv t"
begin

lemma reach_inv: "reach init step s \<Longrightarrow> inv s"
  by (induction rule: reach.induct) (blast intro: inv_init inv_step)+

end

subsection \<open>Budgets\<close>

text \<open>The caller of a budget that goes on after refusals: the total it was granted, and the
  final state.\<close>

fun spend :: "(int \<Rightarrow> ('s, 'e, unit) st) \<Rightarrow> int list \<Rightarrow> 's \<Rightarrow> int \<times> 's" where
  "spend bump [] s = (0, s)"
| "spend bump (n # ns) s =
     (case bump n s of
        (Inl _, s') \<Rightarrow> spend bump ns s'
      | (Inr _, s') \<Rightarrow> (let (g, t) = spend bump ns s' in (n + g, t)))"

text \<open>What a counter with a cap promises: a non-negative amount that fits is added, everything
  else is refused and leaves the state alone.\<close>

locale budget_counter =
  fixes cnt :: "'s \<Rightarrow> int" and bump :: "int \<Rightarrow> 's \<Rightarrow> ('e, unit) res \<times> 's"
    and cap :: "'s \<Rightarrow> int" and usable :: "'s \<Rightarrow> bool"
  assumes bump_fits: "usable s \<Longrightarrow> 0 \<le> n \<Longrightarrow> cnt s + n \<le> cap s \<Longrightarrow>
      \<exists>s'. bump n s = (Inr (), s') \<and> usable s' \<and> cnt s' = cnt s + n \<and> cap s' = cap s"
    and bump_refused: "usable s \<Longrightarrow> n < 0 \<or> cap s < cnt s + n \<Longrightarrow> \<exists>e. bump n s = (Inl e, s)"
begin

lemma spend_accounted:
  "usable s \<Longrightarrow> spend bump ns s = (g, s') \<Longrightarrow>
   cnt s' = cnt s + g \<and> 0 \<le> g \<and> cap s' = cap s \<and> usable s' \<and> (cnt s \<le> cap s \<longrightarrow> cnt s' \<le> cap s)"
proof (induction ns arbitrary: s g s')
  case (Cons n ns)
  show ?case
  proof (cases "0 \<le> n \<and> cnt s + n \<le> cap s")
    case True
    then obtain s1 where s1: "bump n s = (Inr (), s1)" "usable s1" "cnt s1 = cnt s + n" "cap s1 = cap s"
      using bump_fits Cons.prems(1) by blast
    with Cons.prems(2) obtain tot where "spend bump ns s1 = (tot, s')" "g = n + tot"
      by (auto split: prod.splits)
    with Cons.IH [OF s1(2)] s1 True show ?thesis by auto
  next
    case False
    then have "n < 0 \<or> cap s < cnt s + n" by auto
    then obtain e where "bump n s = (Inl e, s)" using bump_refused [OF Cons.prems(1)] by blast
    then have "spend bump ns s = (g, s')" using Cons.prems(2) by simp
    then show ?thesis by (rule Cons.IH [OF Cons.prems(1)])
  qed
qed simp

lemma spend_all:
  "usable s \<Longrightarrow> \<forall>n \<in> set ns. 0 \<le> n \<Longrightarrow> cnt s + sum_list ns \<le> cap s \<Longrightarrow> fst (spend bump ns s) = sum_list ns"
proof (induction ns arbitrary: s)
  case (Cons n ns)
  have nonneg: "0 \<le> sum_list ns" using Cons.prems(2) by (simp add: sum_list_nonneg)
  then have "cnt s + n \<le> cap s" using Cons.prems(3) by simp
  then obtain s1 where s1: "bump n s = (Inr (), s1)" "usable s1" "cnt s1 = cnt s + n" "cap s1 = cap s"
    using bump_fits Cons.prems by (metis list.set_intros(1))
  then have "fst (spend bump ns s1) = sum_list ns" using Cons by auto
  with s1(1) show ?case by (simp add: case_prod_beta)
qed simp

end

end
