(* ===== verification/Py_Strings.thy ===== *)
theory Py_Strings
  imports Prelude
begin

text \<open>
  The Python string operations the program uses, on \<open>string\<close> (lists of characters).
  Strings are sequences of ASCII characters: \<open>casefold\<close>, \<open>isalpha\<close>, \<open>isdigit\<close> and
  \<open>strip\<close> are given their Python meaning on code points below 128.
\<close>

subsection \<open>Character classes\<close>

abbreviation ord_of :: "char \<Rightarrow> int" where
  "ord_of c \<equiv> of_char c"

definition is_upper :: "char \<Rightarrow> bool" where
  "is_upper c \<longleftrightarrow> 65 \<le> ord_of c \<and> ord_of c \<le> 90"

definition is_lower :: "char \<Rightarrow> bool" where
  "is_lower c \<longleftrightarrow> 97 \<le> ord_of c \<and> ord_of c \<le> 122"

definition is_digit :: "char \<Rightarrow> bool" where
  "is_digit c \<longleftrightarrow> 48 \<le> ord_of c \<and> ord_of c \<le> 57"

definition is_alpha :: "char \<Rightarrow> bool" where
  "is_alpha c \<longleftrightarrow> is_upper c \<or> is_lower c"

definition is_space :: "char \<Rightarrow> bool" where
  "is_space c \<longleftrightarrow> (9 \<le> ord_of c \<and> ord_of c \<le> 13) \<or> (28 \<le> ord_of c \<and> ord_of c \<le> 32)"

text \<open>\<open>\w\<close> of the \<open>re\<close> module.\<close>

definition is_word :: "char \<Rightarrow> bool" where
  "is_word c \<longleftrightarrow> is_alpha c \<or> is_digit c \<or> c = CHR ''_''"

definition lower_char :: "char \<Rightarrow> char" where
  "lower_char c = (if is_upper c then char_of (ord_of c + 32) else c)"

definition casefold :: "string \<Rightarrow> string" where
  "casefold s = map lower_char s"

subsection \<open>Trimming, prefixes, searching\<close>

definition lstrip :: "(char \<Rightarrow> bool) \<Rightarrow> string \<Rightarrow> string" where
  "lstrip P s = dropWhile P s"

definition rstrip :: "(char \<Rightarrow> bool) \<Rightarrow> string \<Rightarrow> string" where
  "rstrip P s = rev (dropWhile P (rev s))"

definition strip_chars :: "(char \<Rightarrow> bool) \<Rightarrow> string \<Rightarrow> string" where
  "strip_chars P s = rstrip P (lstrip P s)"

definition strip :: "string \<Rightarrow> string" where
  "strip s = strip_chars is_space s"

definition startswith :: "string \<Rightarrow> string \<Rightarrow> bool" where
  "startswith p s \<longleftrightarrow> take (length p) s = p"

definition removeprefix :: "string \<Rightarrow> string \<Rightarrow> string" where
  "removeprefix p s = (if startswith p s then drop (length p) s else s)"

text \<open>\<open>sub in s\<close>.\<close>

fun contains :: "string \<Rightarrow> string \<Rightarrow> bool" where
  "contains sub [] \<longleftrightarrow> sub = []"
| "contains sub (c # s) \<longleftrightarrow> startswith sub (c # s) \<or> contains sub s"

fun join :: "string \<Rightarrow> string list \<Rightarrow> string" where
  "join sep [] = []"
| "join sep [x] = x"
| "join sep (x # y # ys) = x @ sep @ join sep (y # ys)"

text \<open>\<open>re.sub(r"[..]+", r, s)\<close>: every maximal run of characters of the class is
  replaced by \<open>r\<close>.\<close>

function sub_runs :: "(char \<Rightarrow> bool) \<Rightarrow> string \<Rightarrow> string \<Rightarrow> string" where
  "sub_runs P r [] = []"
| "sub_runs P r (c # cs) =
     (if P c then r @ sub_runs P r (dropWhile P cs) else c # sub_runs P r cs)"
  by pat_completeness auto
termination
  by (relation "measure (\<lambda>(P, r, s). length s)") (auto simp: le_imp_less_Suc length_dropWhile_le)

subsection \<open>Decimal numbers\<close>

definition digit_char :: "int \<Rightarrow> char" where
  "digit_char d = char_of (48 + d)"

function dec_str :: "int \<Rightarrow> string" where
  "dec_str i = (if i < 10 then [digit_char i] else dec_str (i div 10) @ [digit_char (i mod 10)])"
  by pat_completeness auto
termination
  by (relation "measure nat") auto

declare dec_str.simps [simp del]

definition int_str :: "int \<Rightarrow> string" where
  "int_str i = (if i < 0 then CHR ''-'' # dec_str (- i) else dec_str i)"

text \<open>Zero-padded decimal of a non-negative number, as in \<open>f"{n:0{w}d}"\<close>.\<close>

definition pad_int :: "nat \<Rightarrow> int \<Rightarrow> string" where
  "pad_int w n = (let s = dec_str n in replicate (w - length s) (CHR ''0'') @ s)"

definition digits_val :: "string \<Rightarrow> int" where
  "digits_val s = foldl (\<lambda>n c. 10 * n + (ord_of c - 48)) 0 s"

text \<open>\<open>int(s)\<close> on a string: surrounding white space, an optional sign and decimal
  digits, with single underscores between digits.\<close>

fun digit_groups_ok :: "bool \<Rightarrow> string \<Rightarrow> bool" where
  "digit_groups_ok prev [] \<longleftrightarrow> prev"
| "digit_groups_ok prev (c # cs) \<longleftrightarrow>
     (if is_digit c then digit_groups_ok True cs
      else c = CHR ''_'' \<and> prev \<and> digit_groups_ok False cs)"

definition str_to_int :: "string \<Rightarrow> int option" where
  "str_to_int s =
     (let t = strip s;
          neg = (t \<noteq> [] \<and> hd t = CHR ''-'');
          body = (if t \<noteq> [] \<and> (hd t = CHR ''-'' \<or> hd t = CHR ''+'') then tl t else t)
      in if digit_groups_ok False body
         then (let v = digits_val (filter is_digit body) in Some (if neg then - v else v))
         else None)"

subsection \<open>Facts about characters\<close>

lemma is_lower_imp [char_class]: "is_lower c \<Longrightarrow> \<not> is_upper c \<and> \<not> is_digit c \<and> is_alpha c"
  by (auto simp: is_lower_def is_upper_def is_digit_def is_alpha_def)

lemma lower_char_not_upper [simp]: "\<not> is_upper (lower_char c)"
  by (auto simp: lower_char_def is_upper_def)

lemma lower_char_id: "\<not> is_upper c \<Longrightarrow> lower_char c = c"
  by (simp add: lower_char_def)

lemma lower_char_idem [simp]: "lower_char (lower_char c) = lower_char c"
  by (simp add: lower_char_id)

lemma casefold_idem [simp]: "casefold (casefold s) = casefold s"
  by (simp add: casefold_def)

lemma casefold_id: "\<forall>c \<in> set s. \<not> is_upper c \<Longrightarrow> casefold s = s"
  by (simp add: casefold_def lower_char_id map_idI)

lemma length_casefold [simp]: "length (casefold s) = length s"
  by (simp add: casefold_def)

subsection \<open>Facts about trimming\<close>

lemma set_strip_chars: "set (strip_chars P s) \<subseteq> set s"
  unfolding strip_chars_def rstrip_def lstrip_def
  by (metis set_dropWhileD set_rev subsetI)

lemma length_strip_chars: "length (strip_chars P s) \<le> length s"
  unfolding strip_chars_def rstrip_def lstrip_def
  by (metis length_dropWhile_le length_rev order_trans)

lemma rstrip_append_keep: "\<not> P c \<Longrightarrow> rstrip P (xs @ [c]) = xs @ [c]"
  by (simp add: rstrip_def)

lemma rstrip_prefix: "\<exists>ys. s = rstrip P s @ ys"
  unfolding rstrip_def by (metis rev_append rev_rev_ident takeWhile_dropWhile_id)

lemma rstrip_Cons_keep: "\<not> P c \<Longrightarrow> rstrip P (c # s) = c # rstrip P s"
proof (induction s rule: rev_induct)
  case Nil
  then show ?case by (simp add: rstrip_def)
next
  case (snoc x xs)
  then show ?case by (cases "P x") (simp_all add: rstrip_def)
qed

lemma strip_chars_Cons_keep: "\<not> P c \<Longrightarrow> strip_chars P (c # s) = c # rstrip P s"
  by (simp add: strip_chars_def lstrip_def rstrip_Cons_keep)

lemma rstrip_Nil_iff: "rstrip P s = [] \<longleftrightarrow> (\<forall>c \<in> set s. P c)"
  by (simp add: rstrip_def dropWhile_eq_Nil_conv)

lemma last_rstrip: "rstrip P s \<noteq> [] \<Longrightarrow> \<not> P (last (rstrip P s))"
  unfolding rstrip_def by (metis hd_dropWhile last_rev rev_is_Nil_conv)

lemma hd_strip_chars: "strip_chars P s \<noteq> [] \<Longrightarrow> \<not> P (hd (strip_chars P s))"
proof (cases "lstrip P s")
  case (Cons c cs)
  then have "\<not> P c" unfolding lstrip_def by (metis hd_dropWhile list.distinct(1) list.sel(1))
  then show ?thesis by (simp add: strip_chars_def Cons rstrip_Cons_keep)
qed (simp add: strip_chars_def rstrip_def)

lemma last_strip_chars: "strip_chars P s \<noteq> [] \<Longrightarrow> \<not> P (last (strip_chars P s))"
  by (simp add: strip_chars_def last_rstrip)

lemma strip_chars_id:
  assumes "s = [] \<or> (\<not> P (hd s) \<and> \<not> P (last s))"
  shows "strip_chars P s = s"
proof (cases s)
  case (Cons c cs)
  with assms have "dropWhile P (rev s) = rev s"
    by (metis dropWhile.simps(2) hd_Cons_tl hd_rev list.distinct(1) rev_is_Nil_conv)
  with Cons assms show ?thesis by (simp add: strip_chars_def lstrip_def rstrip_def)
qed (simp add: strip_chars_def lstrip_def rstrip_def)

lemma strip_idem [simp]: "strip (strip s) = strip s"
  unfolding strip_def
  by (rule strip_chars_id) (metis hd_strip_chars last_strip_chars)

lemma strip_Nil [simp]: "strip [] = []"
  by (simp add: strip_def strip_chars_def lstrip_def rstrip_def)

subsection \<open>Facts about searching and replacing\<close>

lemma startswith_append [simp]: "startswith p (p @ s)"
  by (simp add: startswith_def)

lemma startswith_iff: "startswith p s \<longleftrightarrow> (\<exists>t. s = p @ t)"
  unfolding startswith_def by (metis append_eq_conv_conj append_take_drop_id)

lemma contains_iff: "contains sub s \<longleftrightarrow> (\<exists>u v. s = u @ sub @ v)"
proof (induction s)
  case (Cons c s)
  show ?case
  proof
    assume "contains sub (c # s)"
    then consider "startswith sub (c # s)" | "contains sub s" by auto
    then show "\<exists>u v. c # s = u @ sub @ v"
    proof cases
      case 1
      then show ?thesis by (metis append_Nil startswith_iff)
    next
      case 2
      then show ?thesis using Cons.IH by (metis append_Cons)
    qed
  next
    assume "\<exists>u v. c # s = u @ sub @ v"
    then obtain u v where uv: "c # s = u @ sub @ v" by blast
    show "contains sub (c # s)"
    proof (cases u)
      case Nil
      with uv have "startswith sub (c # s)" by (auto simp: startswith_iff)
      then show ?thesis by simp
    next
      case (Cons x xs)
      with uv Cons.IH show ?thesis by auto
    qed
  qed
qed auto

lemma set_sub_runs: "c \<in> set (sub_runs P r s) \<Longrightarrow> (\<not> P c \<and> c \<in> set s) \<or> c \<in> set r"
  by (induction P r s rule: sub_runs.induct) (auto split: if_splits dest: set_dropWhileD)

lemma sub_runs_id: "\<forall>c \<in> set s. \<not> P c \<Longrightarrow> sub_runs P r s = s"
  by (induction s) auto

lemma contains_trans: "contains a b \<Longrightarrow> contains b c \<Longrightarrow> contains a c"
  unfolding contains_iff by (metis append.assoc)

lemma contains_casefold: "contains a b \<Longrightarrow> contains (casefold a) (casefold b)"
  unfolding contains_iff casefold_def by (metis map_append)

lemma contains_join: "x \<in> set xs \<Longrightarrow> contains x (join sep xs)"
proof (induction sep xs rule: join.induct)
  case (3 sep y z zs)
  then consider "x = y" | "contains x (join sep (z # zs))" by auto
  then show ?case
  proof cases
    case 1
    then show ?thesis unfolding contains_iff by (metis append_Nil join.simps(3))
  next
    case 2
    then show ?thesis unfolding contains_iff by (metis append.assoc join.simps(3))
  qed
next
  case (2 sep y)
  then show ?case unfolding contains_iff by (metis append_Nil append_Nil2 join.simps(2) empty_iff list.set(1) set_ConsD)
qed simp

end
