(* ===== verification/Py_Json.thy ===== *)
theory Py_Json
  imports Py_Strings
begin

text \<open>
  JSON documents as the program sees them after \<open>json.loads\<close>: tasks, composition
  contexts, tenant authority and runtime profiles are all \<open>Mapping[str, Any]\<close>. The
  operations below are the Python built-ins the program applies to such values: \<open>get\<close>,
  subscription, \<open>isinstance\<close> tests, \<open>str\<close>, \<open>int\<close>, truth value, equality, \<open>in\<close> and
  iteration. The documents of the modelled components carry integers only, so there is no
  constructor for fractional numbers.
\<close>

datatype json =
    JNull
  | JBool bool
  | JInt int
  | JStr string
  | JList "json list"
  | JObj "(string \<times> json) list"

type_synonym obj = "(string \<times> json) list"

subsection \<open>Access\<close>

text \<open>\<open>m.get(k, d)\<close>, \<open>m.get(k)\<close> and \<open>m[k]\<close>.\<close>

definition get_or :: "obj \<Rightarrow> string \<Rightarrow> json \<Rightarrow> json" where
  "get_or m k d = (case map_of m k of None \<Rightarrow> d | Some v \<Rightarrow> v)"

definition get :: "obj \<Rightarrow> string \<Rightarrow> json" where
  "get m k = get_or m k JNull"

definition getitem :: "obj \<Rightarrow> string \<Rightarrow> ('e, json) res" where
  "getitem m k = (case map_of m k of None \<Rightarrow> Inl (Py KeyError) | Some v \<Rightarrow> Inr v)"

text \<open>\<open>isinstance(v, Mapping)\<close>, \<open>isinstance(v, list)\<close>, \<open>isinstance(v, str)\<close>, together
  with the value found.\<close>

fun as_obj :: "json \<Rightarrow> obj option" where
  "as_obj (JObj m) = Some m"
| "as_obj v = None"

fun as_list :: "json \<Rightarrow> json list option" where
  "as_list (JList xs) = Some xs"
| "as_list v = None"

fun as_str :: "json \<Rightarrow> string option" where
  "as_str (JStr s) = Some s"
| "as_str v = None"

definition is_obj :: "json \<Rightarrow> bool" where
  "is_obj v \<longleftrightarrow> as_obj v \<noteq> None"

text \<open>\<open>v if isinstance(v, Mapping) else {}\<close>.\<close>

definition obj_or_empty :: "json \<Rightarrow> obj" where
  "obj_or_empty v = (case as_obj v of None \<Rightarrow> [] | Some m \<Rightarrow> m)"

text \<open>\<open>tuple(v for v in values if isinstance(v, Mapping))\<close>, with \<open>()\<close> when \<open>values\<close> is not
  a list.\<close>

definition mappings :: "json \<Rightarrow> obj list" where
  "mappings v = (case as_list v of None \<Rightarrow> [] | Some xs \<Rightarrow> List.map_filter as_obj xs)"

subsection \<open>Truth value, equality, membership\<close>

fun truthy :: "json \<Rightarrow> bool" where
  "truthy JNull = False"
| "truthy (JBool b) = b"
| "truthy (JInt i) = (i \<noteq> 0)"
| "truthy (JStr s) = (s \<noteq> [])"
| "truthy (JList xs) = (xs \<noteq> [])"
| "truthy (JObj m) = (m \<noteq> [])"

text \<open>\<open>a == b\<close>: \<open>True == 1\<close> and \<open>False == 0\<close>, lists elementwise, dicts without regard to
  order.\<close>

function py_eq :: "json \<Rightarrow> json \<Rightarrow> bool" where
  "py_eq JNull b = (b = JNull)"
| "py_eq (JBool x) b =
     (case b of JBool y \<Rightarrow> x = y | JInt j \<Rightarrow> (if x then 1 else 0) = j | _ \<Rightarrow> False)"
| "py_eq (JInt i) b =
     (case b of JBool y \<Rightarrow> i = (if y then 1 else 0) | JInt j \<Rightarrow> i = j | _ \<Rightarrow> False)"
| "py_eq (JStr s) b = (b = JStr s)"
| "py_eq (JList xs) b =
     (case b of
        JList ys \<Rightarrow> length xs = length ys \<and> (\<forall>p \<in> set (zip xs ys). py_eq (fst p) (snd p))
      | _ \<Rightarrow> False)"
| "py_eq (JObj m) b =
     (case b of
        JObj n \<Rightarrow> length m = length n \<and>
          (\<forall>kv \<in> set m. case map_of n (fst kv) of None \<Rightarrow> False | Some v \<Rightarrow> py_eq (snd kv) v)
      | _ \<Rightarrow> False)"
  by pat_completeness auto
termination
proof (relation "measure (\<lambda>(a, b). size a)", goal_cases)
  case (2 xs b ys p)
  then have "fst p \<in> set xs" by (metis prod.collapse set_zip_leftD)
  then have "size (fst p) < Suc (size_list size xs)"
    by (simp add: size_list_estimation' less_Suc_eq_le)
  then show ?case by (simp add: case_prod_beta)
next
  case (3 m b n kv v)
  then have "size (snd kv) \<le> size_prod (\<lambda>_. 0) size kv" by (cases kv) simp
  also have "\<dots> \<le> size_list (size_prod (\<lambda>_. 0) size) m"
    using 3 by (simp add: size_list_estimation')
  finally show ?case by simp
qed simp

text \<open>\<open>s in c\<close> for a string \<open>s\<close>.\<close>

fun str_in :: "string \<Rightarrow> json \<Rightarrow> ('e, bool) res" where
  "str_in s (JList xs) = Inr (JStr s \<in> set xs)"
| "str_in s (JObj m) = Inr (s \<in> set (dict_keys m))"
| "str_in s (JStr t) = Inr (contains s t)"
| "str_in s v = Inl (Py TypeError)"

text \<open>\<open>v in S\<close> for a set \<open>S\<close> of strings: lists and dicts are not hashable.\<close>

fun in_strings :: "json \<Rightarrow> string list \<Rightarrow> ('e, bool) res" where
  "in_strings (JStr s) S = Inr (s \<in> set S)"
| "in_strings (JList xs) S = Inl (Py TypeError)"
| "in_strings (JObj m) S = Inl (Py TypeError)"
| "in_strings v S = Inr False"

text \<open>Dictionary keys and set members must be hashable.\<close>

fun hashable :: "json \<Rightarrow> ('e, json) res" where
  "hashable (JList xs) = Inl (Py TypeError)"
| "hashable (JObj m) = Inl (Py TypeError)"
| "hashable v = Inr v"

text \<open>\<open>m.update(fields)\<close>.\<close>

definition update :: "obj \<Rightarrow> obj \<Rightarrow> obj" where
  "update fields m = foldl (\<lambda>m kv. dict_set (fst kv) (snd kv) m) m fields"

subsection \<open>Conversions\<close>

definition hex_char :: "int \<Rightarrow> char" where
  "hex_char d = (if d < 10 then char_of (48 + d) else char_of (87 + d))"

definition repr_char :: "char \<Rightarrow> char \<Rightarrow> string" where
  "repr_char q c =
     (if c = q \<or> c = CHR 92 then [CHR 92, c]
      else if c = CHR 10 then [CHR 92, CHR ''n'']
      else if c = CHR 13 then [CHR 92, CHR ''r'']
      else if c = CHR 9 then [CHR 92, CHR ''t'']
      else if ord_of c < 32 \<or> ord_of c = 127
      then [CHR 92, CHR ''x'', hex_char (ord_of c div 16), hex_char (ord_of c mod 16)]
      else [c])"

definition repr_str :: "string \<Rightarrow> string" where
  "repr_str s =
     (let q = (if CHR 39 \<in> set s \<and> CHR 34 \<notin> set s then CHR 34 else CHR 39)
      in q # concat (map (repr_char q) s) @ [q])"

fun py_repr :: "json \<Rightarrow> string" where
  "py_repr JNull = ''None''"
| "py_repr (JBool b) = (if b then ''True'' else ''False'')"
| "py_repr (JInt i) = int_str i"
| "py_repr (JStr s) = repr_str s"
| "py_repr (JList xs) = ''['' @ join '', '' (map py_repr xs) @ '']''"
| "py_repr (JObj m) =
     CHR 123 # join '', '' (map (\<lambda>kv. repr_str (fst kv) @ '': '' @ py_repr (snd kv)) m) @ [CHR 125]"

fun py_str :: "json \<Rightarrow> string" where
  "py_str (JStr s) = s"
| "py_str v = py_repr v"

fun py_int :: "json \<Rightarrow> ('e, int) res" where
  "py_int (JInt i) = Inr i"
| "py_int (JBool b) = Inr (if b then 1 else 0)"
| "py_int (JStr s) = (case str_to_int s of None \<Rightarrow> Inl (Py ValueError) | Some i \<Rightarrow> Inr i)"
| "py_int v = Inl (Py TypeError)"

text \<open>\<open>for x in v\<close>.\<close>

fun py_iter :: "json \<Rightarrow> ('e, json list) res" where
  "py_iter (JList xs) = Inr xs"
| "py_iter (JStr s) = Inr (map (\<lambda>c. JStr [c]) s)"
| "py_iter (JObj m) = Inr (map (\<lambda>kv. JStr (fst kv)) m)"
| "py_iter v = Inl (Py TypeError)"

text \<open>\<open>_string_set\<close>, which three modules define alike: the non-blank strings of a list.\<close>

definition string_set :: "json \<Rightarrow> string list" where
  "string_set v =
     (case as_list v of
        None \<Rightarrow> []
      | Some xs \<Rightarrow> filter (\<lambda>s. strip s \<noteq> []) (map py_str xs))"

definition opt_str :: "string option \<Rightarrow> json" where
  "opt_str x = (case x of None \<Rightarrow> JNull | Some s \<Rightarrow> JStr s)"

definition str_list :: "string list \<Rightarrow> json" where
  "str_list xs = JList (map JStr xs)"

subsection \<open>Laws\<close>

lemma get_or_simps [simp]:
  "get_or [] k d = d"
  "get_or ((k', v) # m) k d = (if k = k' then v else get_or m k d)"
  by (auto simp: get_or_def)

lemma get_simps [simp]:
  "get [] k = JNull"
  "get ((k', v) # m) k = (if k = k' then v else get m k)"
  by (auto simp: get_def)

lemma getitem_simps [simp]:
  "getitem [] k = Inl (Py KeyError)"
  "getitem ((k', v) # m) k = (if k = k' then Inr v else getitem m k)"
  by (auto simp: getitem_def)

lemma as_obj_iff: "as_obj v = Some m \<longleftrightarrow> v = JObj m"
  by (cases v) auto

lemma as_list_iff: "as_list v = Some xs \<longleftrightarrow> v = JList xs"
  by (cases v) auto

lemma as_str_iff: "as_str v = Some s \<longleftrightarrow> v = JStr s"
  by (cases v) auto

lemma opt_str_simps [simp]: "opt_str None = JNull" "opt_str (Some s) = JStr s"
  by (simp_all add: opt_str_def)

lemma in_strings_True [res_simps]:
  "in_strings v S = Inr b \<longleftrightarrow>
     (\<exists>s. v = JStr s \<and> b = (s \<in> set S)) \<or> (\<not> b \<and> (v = JNull \<or> (\<exists>x. v = JBool x) \<or> (\<exists>i. v = JInt i)))"
  by (cases v) auto

lemma py_eq_refl_str [simp]: "py_eq v (JStr s) \<longleftrightarrow> v = JStr s"
  by (cases v) auto

lemma map_of_update: "map_of (update fields m) = map_of m ++ map_of (rev fields)"
  by (simp add: update_def map_of_dict_of_aux)

lemma get_update: "get (update fields m) k = (case map_of (rev fields) k of None \<Rightarrow> get m k | Some v \<Rightarrow> v)"
  by (simp add: get_def get_or_def map_of_update map_add_def split: option.splits)

lemma get_or_update:
  "get_or (update fields m) k d = (case map_of (rev fields) k of None \<Rightarrow> get_or m k d | Some v \<Rightarrow> v)"
  by (simp add: get_or_def map_of_update map_add_def split: option.splits)

lemma getitem_update:
  "getitem (update fields m) k = (case map_of (rev fields) k of None \<Rightarrow> getitem m k | Some v \<Rightarrow> Inr v)"
  by (simp add: getitem_def map_of_update map_add_def split: option.splits)

lemma hashable_Inr: "hashable v = Inr w \<Longrightarrow> w = v"
  by (cases v) simp_all

lemma mappings_JList: "mappings (JList xs) = List.map_filter as_obj xs"
  by (simp add: mappings_def)

lemma set_mappings: "m \<in> set (mappings v) \<longleftrightarrow> (\<exists>xs. v = JList xs \<and> JObj m \<in> set xs)"
  by (cases v) (auto simp: mappings_def List.map_filter_def as_obj_iff image_iff)

lemma string_set_strs:
  "string_set (str_list xs) = filter (\<lambda>s. strip s \<noteq> []) xs"
  by (simp add: string_set_def str_list_def comp_def)

lemma string_set_strs_id: "\<forall>s \<in> set xs. strip s \<noteq> [] \<Longrightarrow> string_set (str_list xs) = xs"
  by (simp add: string_set_strs)

lemma string_set_nonblank: "s \<in> set (string_set v) \<Longrightarrow> strip s \<noteq> []"
  by (cases v) (auto simp: string_set_def)

end
