(* ===== verification/Models.thy ===== *)
theory Models
  imports Py_Json
begin

text \<open>
  \<open>runtime/models.py\<close>: the closed vocabularies of the runtime (queue statuses, run
  statuses, stop reasons, recomposition reasons), identifiers (\<open>slug_id\<close>), timestamps
  (\<open>iso_timestamp\<close>), the choice check and the projection of a profile to its selected
  modules.
\<close>

subsection \<open>Vocabularies\<close>

datatype runtime_status = RQueued | RRunning | RSucceeded | RFailed | RCancelled

datatype queue_status =
    Queued | Claiming | Running | Succeeded | Failed | Cancelled | RetryScheduled | DeadLettered

datatype stop_reason =
    Completed | MaxTokens | MaxDuration | MaxToolCalls | MaxDataReads | MaxMemoryOps
  | MaxRecompositions | PolicyDenied | ValidatorFailed | ToolError | StopCancelled
  | NeedsRecomposition | ComposerFailure | RuntimeErrorStop

fun queue_status_name :: "queue_status \<Rightarrow> string" where
  "queue_status_name Queued = ''queued''"
| "queue_status_name Claiming = ''claiming''"
| "queue_status_name Running = ''running''"
| "queue_status_name Succeeded = ''succeeded''"
| "queue_status_name Failed = ''failed''"
| "queue_status_name Cancelled = ''cancelled''"
| "queue_status_name RetryScheduled = ''retry_scheduled''"
| "queue_status_name DeadLettered = ''dead_lettered''"

definition RECOMPOSITION_REASONS :: "string list" where
  "RECOMPOSITION_REASONS =
     [''task_reclassified'', ''missing_capability'', ''policy_change'', ''budget_exhausted'',
      ''validator_failure'']"

subsection \<open>Choices\<close>

definition require_choice :: "string \<Rightarrow> string list \<Rightarrow> ('e, unit) res" where
  "require_choice value allowed = (if value \<notin> set allowed then Inl (Py ValueError) else Inr ())"

subsection \<open>Recomposition requests\<close>

record recomposition_request =
  rr_source_run_id :: string
  rr_task_id :: string
  rr_parent_profile_id :: string
  rr_requested_profile_generation :: int
  rr_recomposition_reason :: string

definition as_event_result :: "recomposition_request \<Rightarrow> obj" where
  "as_event_result r =
     [(''source_run_id'', JStr (rr_source_run_id r)),
      (''task_id'', JStr (rr_task_id r)),
      (''parent_profile_id'', JStr (rr_parent_profile_id r)),
      (''requested_profile_generation'', JInt (rr_requested_profile_generation r)),
      (''recomposition_reason'', JStr (rr_recomposition_reason r))]"

definition recomposition_request_from_mapping ::
  "obj \<Rightarrow> ('e, recomposition_request) res" where
  "recomposition_request_from_mapping value =
     bindR (getitem value ''recomposition_reason'') (\<lambda>reason.
     bindR (require_choice (py_str reason) RECOMPOSITION_REASONS) (\<lambda>_.
     bindR (getitem value ''source_run_id'') (\<lambda>src.
     bindR (getitem value ''task_id'') (\<lambda>task.
     bindR (getitem value ''parent_profile_id'') (\<lambda>parent.
     bindR (getitem value ''requested_profile_generation'') (\<lambda>g.
     bindR (py_int g) (\<lambda>gen.
       Inr \<lparr>rr_source_run_id = py_str src, rr_task_id = py_str task,
            rr_parent_profile_id = py_str parent, rr_requested_profile_generation = gen,
            rr_recomposition_reason = py_str reason\<rparr>)))))))"

subsection \<open>Timestamps\<close>

text \<open>
  A UTC \<open>datetime\<close> is its number of microseconds since the first day of year 1, the
  epoch of \<open>datetime.toordinal\<close>; \<open>timedelta(seconds=n)\<close> is \<open>n\<close> million of them. The
  conversion to a calendar date is the one \<open>datetime\<close> performs.
\<close>

type_synonym datetime = int

definition seconds :: "int \<Rightarrow> datetime" where
  "seconds n = n * 1000000"

definition days_before_month :: "bool \<Rightarrow> int list" where
  "days_before_month leap =
     (if leap then [0, 31, 60, 91, 121, 152, 182, 213, 244, 274, 305, 335]
      else [0, 31, 59, 90, 120, 151, 181, 212, 243, 273, 304, 334])"

definition month_day :: "bool \<Rightarrow> int \<Rightarrow> int \<times> int" where
  "month_day leap n =
     (let before = filter (\<lambda>d. d \<le> n) (days_before_month leap)
      in (int (length before), n - last before + 1))"

definition ord2ymd :: "int \<Rightarrow> int \<times> int \<times> int" where
  "ord2ymd n =
     (let n400 = n div 146097; r400 = n mod 146097;
          n100 = r400 div 36524; r100 = r400 mod 36524;
          n4 = r100 div 1461; r4 = r100 mod 1461;
          n1 = r4 div 365; r1 = r4 mod 365;
          year = n400 * 400 + n100 * 100 + n4 * 4 + n1 + 1
      in if n1 = 4 \<or> n100 = 4 then (year - 1, 12, 31)
         else (let leap = (n1 = 3 \<and> (n4 \<noteq> 24 \<or> n100 = 3)); md = month_day leap r1
               in (year, fst md, snd md)))"

definition iso_timestamp :: "datetime \<Rightarrow> string" where
  "iso_timestamp t =
     (let us = t mod 1000000; s = t div 1000000; sod = s mod 86400;
          (y, m, d) = ord2ymd (s div 86400)
      in pad_int 4 y @ ''-'' @ pad_int 2 m @ ''-'' @ pad_int 2 d @ ''T'' @
         pad_int 2 (sod div 3600) @ '':'' @ pad_int 2 (sod div 60 mod 60) @ '':'' @
         pad_int 2 (sod mod 60) @ (if us = 0 then [] else ''.'' @ pad_int 6 us) @ ''Z'')"

subsection \<open>Identifiers\<close>

definition is_dash :: "char \<Rightarrow> bool" where
  "is_dash c \<longleftrightarrow> c = CHR ''-''"

definition slug_base :: "string \<Rightarrow> string" where
  "slug_base value =
     (let slug = strip_chars is_dash
            (sub_runs (\<lambda>c. \<not> (is_lower c \<or> is_digit c)) ''-'' (casefold value));
          slug = sub_runs is_dash ''-'' slug;
          slug = (if slug = [] then ''item'' else slug)
      in if \<not> is_alpha (hd slug) then ''id-'' @ slug else slug)"

definition slug_id_max :: "string \<Rightarrow> string option \<Rightarrow> nat \<Rightarrow> string" where
  "slug_id_max value prefix max_length =
     (let slug = slug_base value;
          slug = (case prefix of
                    None \<Rightarrow> slug
                  | Some p \<Rightarrow> if p \<noteq> [] \<and> \<not> startswith (p @ ''-'') slug then p @ ''-'' @ slug else slug)
      in strip_chars is_dash (take max_length slug))"

text \<open>The call with the default \<open>max_length = 96\<close>, which every caller uses.\<close>

definition slug_id :: "string \<Rightarrow> string option \<Rightarrow> string" where
  "slug_id value prefix = slug_id_max value prefix 96"

definition selected_modules :: "obj \<Rightarrow> string list" where
  "selected_modules profile =
     concat (map (\<lambda>field.
        case as_list (get_or profile field (JList [])) of
          None \<Rightarrow> []
        | Some values \<Rightarrow> map py_str values)
      [''instructions'', ''skills'', ''tools'', ''knowledge_scopes'', ''data_scopes'',
       ''memory_scopes'', ''policies'', ''validators''])"

subsection \<open>Well-formed identifiers\<close>

text \<open>What the identifiers are for: lower-case kebab strings that start with a letter and do
  not end with a dash, safe as record keys and as path segments.\<close>

definition slug_char :: "char \<Rightarrow> bool" where
  "slug_char c \<longleftrightarrow> is_lower c \<or> is_digit c \<or> is_dash c"

definition is_slug :: "string \<Rightarrow> bool" where
  "is_slug s \<longleftrightarrow> s \<noteq> [] \<and> is_lower (hd s) \<and> list_all slug_char s \<and> \<not> is_dash (last s)"

lemma lower_not_dash: "is_lower c \<Longrightarrow> \<not> is_dash c"
  by (auto simp: is_lower_def is_dash_def)

lemma slug_char_dash [simp]: "slug_char (CHR ''-'')"
  by (simp add: slug_char_def is_dash_def)

lemma hd_sub_runs_keep: "s \<noteq> [] \<Longrightarrow> \<not> P (hd s) \<Longrightarrow> sub_runs P r s \<noteq> [] \<and> hd (sub_runs P r s) = hd s"
  by (cases s) simp_all

lemma slug_base_chars: "c \<in> set (slug_base v) \<Longrightarrow> slug_char c"
proof -
  let ?s = "strip_chars is_dash (sub_runs (\<lambda>c. \<not> (is_lower c \<or> is_digit c)) ''-'' (casefold v))"
  let ?t = "sub_runs is_dash ''-'' ?s"
  have s: "slug_char c" if "c \<in> set ?s" for c
  proof -
    have "c \<in> set (sub_runs (\<lambda>c. \<not> (is_lower c \<or> is_digit c)) ''-'' (casefold v))"
      using that set_strip_chars by blast
    then show ?thesis by (auto simp: slug_char_def is_dash_def dest: set_sub_runs)
  qed
  have "slug_char c" if "c \<in> set ?t" for c
    using that s by (auto dest: set_sub_runs)
  moreover have "slug_char c" if "c \<in> set ''item'' \<union> set ''id-''" for c
    using that by (auto simp: slug_char_def is_lower_def is_dash_def)
  moreover assume "c \<in> set (slug_base v)"
  ultimately show ?thesis by (auto simp: slug_base_def Let_def split: if_splits)
qed

lemma slug_base_hd: "slug_base v \<noteq> [] \<and> is_lower (hd (slug_base v))"
proof -
  let ?s = "strip_chars is_dash (sub_runs (\<lambda>c. \<not> (is_lower c \<or> is_digit c)) ''-'' (casefold v))"
  let ?t = "sub_runs is_dash ''-'' ?s"
  have hd_t: "is_lower (hd ?t)" if "?t \<noteq> []" "is_alpha (hd ?t)"
  proof -
    from that(1) have "?s \<noteq> []" by auto
    then have "\<not> is_dash (hd ?s)" using hd_strip_chars [of is_dash] by blast
    with \<open>?s \<noteq> []\<close> have "hd ?t = hd ?s" by (metis hd_sub_runs_keep)
    moreover have "hd ?s \<in> set (sub_runs (\<lambda>c. \<not> (is_lower c \<or> is_digit c)) ''-'' (casefold v))"
      using \<open>?s \<noteq> []\<close> set_strip_chars hd_in_set by blast
    ultimately have "is_lower (hd ?t) \<or> is_digit (hd ?t)"
      using \<open>\<not> is_dash (hd ?s)\<close> by (auto simp: is_dash_def dest: set_sub_runs)
    then show ?thesis using that(2) by (auto simp: is_alpha_def is_digit_def is_lower_def is_upper_def)
  qed
  have "is_lower (CHR ''i'')" "is_alpha (CHR ''i'')" by (simp_all add: is_lower_def is_alpha_def)
  with hd_t show ?thesis by (simp add: slug_base_def Let_def)
qed

lemma strip_dash_slug:
  assumes "s \<noteq> []" "is_lower (hd s)" "list_all slug_char s"
  shows "is_slug (strip_chars is_dash s)"
proof -
  obtain c cs where s: "s = c # cs" using assms(1) by (cases s) auto
  with assms(2) have keep: "strip_chars is_dash s = c # rstrip is_dash cs"
    using strip_chars_Cons_keep [of is_dash c cs] lower_not_dash by simp
  then have "\<not> is_dash (last (strip_chars is_dash s))"
    using last_strip_chars [of is_dash s] by simp
  moreover have "list_all slug_char (strip_chars is_dash s)"
    using assms(3) set_strip_chars [of is_dash s] by (auto simp: list_all_iff)
  ultimately show ?thesis using keep s assms(2) by (simp add: is_slug_def)
qed

lemma length_slug_id_max: "length (slug_id_max v p m) \<le> m"
proof -
  have "length (slug_id_max v p m) \<le> length (take m s)" if "slug_id_max v p m = strip_chars is_dash (take m s)" for s
    using that length_strip_chars by metis
  then show ?thesis by (simp add: slug_id_max_def Let_def order_trans [OF length_strip_chars])
qed

lemma slug_id_is_slug:
  fixes v :: string
  assumes "prefix = None \<or> (\<exists>p. prefix = Some p \<and> p \<noteq> [] \<and> is_lower (hd p) \<and> list_all slug_char p)"
  shows "is_slug (slug_id v prefix) \<and> length (slug_id v prefix) \<le> 96"
proof -
  define s where "s = (case prefix of
      None \<Rightarrow> slug_base v
    | Some p \<Rightarrow> if p \<noteq> [] \<and> \<not> startswith (p @ ''-'') (slug_base v)
        then p @ ''-'' @ slug_base v else slug_base v)"
  have chars: "list_all slug_char (slug_base v)"
    using slug_base_chars by (auto simp: list_all_iff)
  have "s \<noteq> []" "is_lower (hd s)" "list_all slug_char s"
    using assms chars slug_base_hd [of v] by (auto simp: s_def split: if_splits)
  then have "take 96 s \<noteq> []" "is_lower (hd (take 96 s))" "list_all slug_char (take 96 s)"
    by (auto simp: list_all_iff dest: in_set_takeD)
  then have "is_slug (strip_chars is_dash (take 96 s))" by (rule strip_dash_slug)
  moreover have "slug_id v prefix = strip_chars is_dash (take 96 s)"
    by (simp add: slug_id_def slug_id_max_def s_def Let_def)
  ultimately show ?thesis using length_slug_id_max [of v prefix 96] by (simp add: slug_id_def)
qed

text \<open>Identifiers are fixed points: deriving an identifier from an identifier changes nothing.\<close>

fun single_dashes :: "string \<Rightarrow> bool" where
  "single_dashes (c # d # s) \<longleftrightarrow> \<not> (is_dash c \<and> is_dash d) \<and> single_dashes (d # s)"
| "single_dashes s \<longleftrightarrow> True"

lemma single_dashes_Cons: "single_dashes (c # s) \<longleftrightarrow> single_dashes s \<and> (s \<noteq> [] \<longrightarrow> \<not> (is_dash c \<and> is_dash (hd s)))"
  by (cases s) auto

lemma single_dashes_append:
  "single_dashes (s @ t) \<longleftrightarrow> single_dashes s \<and> single_dashes t \<and> (s \<noteq> [] \<and> t \<noteq> [] \<longrightarrow> \<not> (is_dash (last s) \<and> is_dash (hd t)))"
  by (induction s) (auto simp: single_dashes_Cons)

lemma single_dashes_sub_runs: "single_dashes (sub_runs is_dash ''-'' s)"
proof (induction "is_dash" "''-''" s rule: sub_runs.induct)
  case (2 c cs)
  show ?case
  proof (cases "is_dash c")
    case True
    let ?r = "dropWhile is_dash cs"
    have "sub_runs is_dash ''-'' ?r \<noteq> [] \<Longrightarrow> \<not> is_dash (hd (sub_runs is_dash ''-'' ?r))"
      by (metis hd_dropWhile hd_sub_runs_keep sub_runs.simps(1))
    then show ?thesis using True 2(1) by (simp add: single_dashes_Cons)
  next
    case False
    then show ?thesis using 2(2) by (simp add: single_dashes_Cons)
  qed
qed simp

lemma single_dashes_prefix: "single_dashes (s @ t) \<Longrightarrow> single_dashes s"
  by (simp add: single_dashes_append)

lemma single_dashes_take: "single_dashes s \<Longrightarrow> single_dashes (take n s)"
  by (metis append_take_drop_id single_dashes_prefix)

lemma single_dashes_slug_base: "single_dashes (slug_base v)"
proof -
  have "single_dashes (''id-'' @ s)" if "single_dashes s" "s \<noteq> []" "\<not> is_dash (hd s)" for s
    using that by (simp add: single_dashes_Cons is_dash_def)
  moreover have "single_dashes ''item''" by (simp add: is_dash_def)
  ultimately show ?thesis
  proof (cases "sub_runs is_dash ''-'' (strip_chars is_dash
        (sub_runs (\<lambda>c. \<not> (is_lower c \<or> is_digit c)) ''-'' (casefold v))) = []")
    case False
    let ?s = "strip_chars is_dash (sub_runs (\<lambda>c. \<not> (is_lower c \<or> is_digit c)) ''-'' (casefold v))"
    from False have ne: "?s \<noteq> []" by (metis sub_runs.simps(1))
    have nd: "\<not> is_dash (hd ?s)" by (rule hd_strip_chars [OF ne])
    have "\<not> is_dash (hd (sub_runs is_dash ''-'' ?s))"
      using hd_sub_runs_keep [where P = is_dash and r = "''-''", OF ne nd] nd by simp
    then have "single_dashes (''id-'' @ sub_runs is_dash ''-'' ?s)"
      using False single_dashes_sub_runs [of ?s] by (simp only: single_dashes_append) (simp add: is_dash_def)
    then show ?thesis using False single_dashes_sub_runs [of ?s]
      unfolding slug_base_def Let_def by (simp only: if_False split: if_split) blast
  qed (simp add: slug_base_def Let_def is_alpha_def is_lower_def is_dash_def)
qed

lemma sub_runs_single:
  assumes "single_dashes s" and "list_all slug_char s" and "\<And>c. slug_char c \<Longrightarrow> P c \<longleftrightarrow> is_dash c"
  shows "sub_runs P ''-'' s = s"
  using assms(1,2)
proof (induction s)
  case (Cons c s)
  have IH: "sub_runs P ''-'' s = s" using Cons by (simp add: single_dashes_Cons)
  show ?case
  proof (cases "is_dash c")
    case True
    then have "dropWhile P s = s" using Cons.prems assms(3) by (cases s) auto
    then show ?thesis using True IH Cons.prems assms(3) by (simp add: is_dash_def)
  next
    case False
    then show ?thesis using IH Cons.prems assms(3) by simp
  qed
qed simp

lemma slug_id_fixed:
  assumes "is_slug s" and "single_dashes s" and "length s \<le> 96"
  shows "slug_id s None = s"
proof -
  have cs: "list_all slug_char s" "s \<noteq> []" "is_lower (hd s)" "\<not> is_dash (last s)"
    using assms(1) by (simp_all add: is_slug_def)
  have up: "casefold s = s"
    using cs(1) by (intro casefold_id) (auto simp: list_all_iff slug_char_def is_lower_def is_upper_def is_digit_def is_dash_def)
  have strip: "strip_chars is_dash s = s"
    using cs lower_not_dash by (intro strip_chars_id) auto
  have runs: "sub_runs (\<lambda>c. \<not> (is_lower c \<or> is_digit c)) ''-'' s = s" "sub_runs is_dash ''-'' s = s"
    by (rule sub_runs_single [OF assms(2) cs(1)], auto simp: slug_char_def is_lower_def is_digit_def is_dash_def)+
  have "slug_base s = s" unfolding slug_base_def up runs(1) strip runs(2) Let_def using cs(2,3) by (simp add: is_alpha_def)
  then show ?thesis using assms(3) by (simp add: slug_id_def slug_id_max_def strip)
qed

lemma slug_id_idem: "slug_id (slug_id v None) None = slug_id v None"
proof (rule slug_id_fixed)
  show "is_slug (slug_id v None)" "length (slug_id v None) \<le> 96" using slug_id_is_slug [of None v] by simp_all
  have "slug_id v None = strip_chars is_dash (take 96 (slug_base v))" by (simp add: slug_id_def slug_id_max_def)
  also have "\<dots> = rstrip is_dash (take 96 (slug_base v))"
    using slug_base_hd [of v] lower_not_dash
    by (cases "slug_base v") (auto simp: strip_chars_Cons_keep rstrip_Cons_keep)
  finally show "single_dashes (slug_id v None)"
    by (metis rstrip_prefix single_dashes_prefix single_dashes_slug_base single_dashes_take)
qed

text \<open>Every identifier the runtime derives is well-formed: whatever the text it is derived from
  and for every lower-case prefix, \<open>slug_id\<close> returns a non-empty string of at most 96
  lower-case letters, digits and dashes that starts with a letter and does not end with a
  dash.\<close>

theorem slug_id_well_formed:
  fixes v :: string
  assumes "prefix = None \<or> (\<exists>p. prefix = Some p \<and> p \<noteq> [] \<and> is_lower (hd p) \<and> list_all slug_char p)"
  shows "is_slug (slug_id v prefix) \<and> length (slug_id v prefix) \<le> 96"
  by (rule slug_id_is_slug [OF assms])

theorem slug_id_well_formed_witness:
  "is_slug (slug_id ''Fix: the 1st BUG!'' (Some ''queue'')) \<and>
   length (slug_id ''Fix: the 1st BUG!'' (Some ''queue'')) \<le> 96 \<and>
   slug_id ''Fix: the 1st BUG!'' (Some ''queue'') = ''queue-fix-the-1st-bug''"
proof -
  have "list_all slug_char ''queue'' \<and> is_lower (hd ''queue'')" by code_simp
  then have "is_slug (slug_id ''Fix: the 1st BUG!'' (Some ''queue'')) \<and>
      length (slug_id ''Fix: the 1st BUG!'' (Some ''queue'')) \<le> 96"
    by (intro slug_id_well_formed) simp
  moreover have "slug_id ''Fix: the 1st BUG!'' (Some ''queue'') = ''queue-fix-the-1st-bug''"
    by code_simp
  ultimately show ?thesis by simp
qed

text \<open>Recomposition requests survive the event log: reading back the payload that
  \<open>as_event_result\<close> writes yields the same request, for every request whose reason is one
  of the declared reasons, and fails with \<open>ValueError\<close> for every other reason.\<close>

theorem recomposition_request_roundtrip:
  "recomposition_request_from_mapping (as_event_result r) =
     (if rr_recomposition_reason r \<in> set RECOMPOSITION_REASONS then Inr r else Inl (Py ValueError))"
  by (simp add: recomposition_request_from_mapping_def as_event_result_def require_choice_def)

text \<open>Timestamps are compared as strings by the queue, but \<open>isoformat\<close> leaves out the
  fraction when it is zero, so the string order is not the order of time: half a second
  past a full second sorts before the full second itself.\<close>

theorem iso_timestamp_order_anomaly:
  "\<exists>t u. t < u \<and> iso_timestamp u < iso_timestamp t"
proof -
  have "iso_timestamp (seconds 63839664000 + 500000) = ''2024-01-01T00:00:00.500000Z''"
    and "iso_timestamp (seconds 63839664000) = ''2024-01-01T00:00:00Z''"
    by code_simp+
  moreover have "''2024-01-01T00:00:00.500000Z'' < ''2024-01-01T00:00:00Z''" by code_simp
  ultimately have "iso_timestamp (seconds 63839664000 + 500000) < iso_timestamp (seconds 63839664000)"
    by metis
  moreover have "seconds 63839664000 < seconds 63839664000 + 500000" by simp
  ultimately show ?thesis by blast
qed

end
