(* ===== verification/Registry.thy ===== *)
theory Registry
  imports Models
begin

text \<open>
  \<open>registries/modules.py\<close>: the in-memory module registry. Modules are indexed by name and version, resolved to
  their highest semantic version, discovered by query, filtered by policy and validated as a dependency graph. A
  frozen set is a HOL set. The scoring of candidates is floating-point arithmetic and is left out, with the two
  metadata fields only it reads; so is the reading of module files.

  The recursive searches thread their sets and lists as a state. Both call themselves on the state that earlier
  calls returned, so their termination rests on the growth of the set of names already seen.
\<close>

subsection \<open>Metadata\<close>

record module_metadata =
  mm_name :: string
  mm_version :: string
  mm_kind :: string
  mm_description :: string
  mm_runtime_role :: "string option"
  mm_capability_class :: string
  mm_domain_tags :: "string set"
  mm_task_types :: "string set"
  mm_risk_levels :: "string set"
  mm_task_domains :: "string set"
  mm_required_inputs :: "string set"
  mm_required_tools :: "string list"
  mm_optional_tools :: "string list"
  mm_knowledge_scopes :: "string list"
  mm_data_scopes :: "string list"
  mm_policies :: "string list"
  mm_validators :: "string list"
  mm_selection_mode :: string
  mm_requires_all_policies :: bool

record module_reference =
  mr_source_name :: string
  mr_field :: string
  mr_target_name :: string
  mr_expected_kind :: string

definition MODULE_REFERENCE_KINDS :: "(string \<times> string \<times> (module_metadata \<Rightarrow> string list)) list" where
  "MODULE_REFERENCE_KINDS =
     [(''required_tools'', ''tool'', mm_required_tools),
      (''optional_tools'', ''tool'', mm_optional_tools),
      (''knowledge_scopes'', ''knowledge_scope'', mm_knowledge_scopes),
      (''data_scopes'', ''data_scope'', mm_data_scopes),
      (''policies'', ''policy'', mm_policies),
      (''validators'', ''validator'', mm_validators)]"

definition module_references :: "module_metadata \<Rightarrow> module_reference list" where
  "module_references m =
     concat (map (\<lambda>(field, expected_kind, sel).
       map (\<lambda>target. \<lparr>mr_source_name = mm_name m, mr_field = field, mr_target_name = target,
                      mr_expected_kind = expected_kind\<rparr>) (sel m)) MODULE_REFERENCE_KINDS)"

definition runtime_role_of :: "obj \<Rightarrow> string option" where
  "runtime_role_of m =
     (if get m ''runtime_role'' \<noteq> JNull then Some (py_str (get m ''runtime_role''))
      else case as_obj (get m ''runtime_roles'') of
             None \<Rightarrow> None
           | Some rs \<Rightarrow> if get rs ''default'' \<noteq> JNull then Some (py_str (get rs ''default'')) else None)"

definition module_tests :: "obj \<Rightarrow> string list" where
  "module_tests m =
     (case get_or m ''tests'' (JList []) of
        JObj tests \<Rightarrow> concat (map (\<lambda>field. case as_list (get_or tests field (JList [])) of
          None \<Rightarrow> [] | Some vs \<Rightarrow> map py_str vs) [''contract'', ''runtime'', ''fixtures''])
      | JList vs \<Rightarrow> map py_str vs
      | _ \<Rightarrow> [])"

subsection \<open>Construction\<close>

datatype registry_error =
    DuplicateModule string string
  | UnknownModuleVersion string string
  | UnknownModule string

type_synonym semver = "int \<times> int \<times> int"

fun split_char :: "char \<Rightarrow> string \<Rightarrow> string list" where
  "split_char d [] = [[]]"
| "split_char d (c # s) =
     (if c = d then [] # split_char d s
      else case split_char d s of [] \<Rightarrow> [[c]] | p # ps \<Rightarrow> (c # p) # ps)"

definition parse_int :: "string \<Rightarrow> ('e, int) res" where
  "parse_int s = py_int (JStr s)"

definition semver_key :: "string \<Rightarrow> ('e, semver) res" where
  "semver_key version =
     (case split_char (CHR ''.'') version of
        [major, minor, patch] \<Rightarrow>
          bindR (parse_int major) (\<lambda>a. bindR (parse_int minor) (\<lambda>b. bindR (parse_int patch) (\<lambda>c. Inr (a, b, c))))
      | _ \<Rightarrow> Inl (Py ValueError))"

record registry =
  rg_by_name_version :: "(string \<times> string, module_metadata) dict"
  rg_by_name :: "(string, module_metadata list) dict"

text \<open>\<open>sorted(.., key=.., reverse=True)\<close>: a stable sort by the negated key.\<close>

definition negate :: "semver \<Rightarrow> semver" where
  "negate k = (case k of (a, b, c) \<Rightarrow> (- a, - b, - c))"

definition with_keys :: "module_metadata list \<Rightarrow> ('e, (semver \<times> module_metadata) list) res" where
  "with_keys ms = mapR (\<lambda>m. bindR (semver_key (mm_version m)) (\<lambda>k. Inr (k, m))) ms"

definition newest_first :: "module_metadata list \<Rightarrow> ('e, module_metadata list) res" where
  "newest_first versions =
     bindR (with_keys versions) (\<lambda>keyed. Inr (map snd (sort_key (\<lambda>km. negate (fst km)) keyed)))"

definition add_module :: "module_metadata \<Rightarrow> registry \<Rightarrow> (registry_error, registry) res" where
  "add_module m r =
     (let key = (mm_name m, mm_version m) in
      if key \<in> set (dict_keys (rg_by_name_version r)) then Inl (Raise (DuplicateModule (mm_name m) (mm_version m)))
      else Inr \<lparr>rg_by_name_version = dict_set key m (rg_by_name_version r),
                rg_by_name = dict_set (mm_name m)
                  ((case map_of (rg_by_name r) (mm_name m) of None \<Rightarrow> [] | Some ms \<Rightarrow> ms) @ [m]) (rg_by_name r)\<rparr>)"

definition registry_init :: "module_metadata list \<Rightarrow> (registry_error, registry) res" where
  "registry_init modules =
     bindR (foldR add_module modules \<lparr>rg_by_name_version = [], rg_by_name = []\<rparr>) (\<lambda>r.
     bindR (mapR (\<lambda>kv. bindR (newest_first (snd kv)) (\<lambda>vs. Inr (fst kv, vs))) (rg_by_name r)) (\<lambda>by_name.
     Inr (r\<lparr>rg_by_name := by_name\<rparr>)))"

subsection \<open>Queries\<close>

definition all_modules :: "registry \<Rightarrow> (registry_error, module_metadata list) res" where
  "all_modules r =
     bindR (with_keys (dict_values (rg_by_name_version r))) (\<lambda>keyed.
     Inr (map snd (sort_key (\<lambda>km. (mm_name (snd km), fst km)) keyed)))"

record registry_query =
  rq_kinds :: "string set"
  rq_capability_classes :: "string set"
  rq_domains :: "string set"
  rq_task_types :: "string set"
  rq_available_inputs :: "string set"
  rq_require_available_inputs :: bool

definition matches_query :: "module_metadata \<Rightarrow> registry_query \<Rightarrow> bool" where
  "matches_query m q =
     (if mm_selection_mode m = ''dependency_only'' then False
      else if rq_kinds q \<noteq> {} \<and> mm_kind m \<notin> rq_kinds q then False
      else if rq_capability_classes q \<noteq> {} \<and> mm_capability_class m \<notin> rq_capability_classes q then False
      else if rq_domains q \<noteq> {} \<and> (mm_domain_tags m \<union> mm_task_domains m) \<inter> rq_domains q = {} then False
      else if rq_task_types q \<noteq> {} \<and> mm_task_types m \<inter> rq_task_types q = {} then False
      else \<not> (rq_require_available_inputs q \<and> \<not> mm_required_inputs m \<subseteq> rq_available_inputs q))"

definition discover :: "registry \<Rightarrow> registry_query \<Rightarrow> (registry_error, module_metadata list) res" where
  "discover r q = bindR (all_modules r) (\<lambda>ms. Inr (filter (\<lambda>m. matches_query m q) ms))"

record policy_context =
  pc_allowed_policy_ids :: "string set"
  pc_denied_module_ids :: "string set"
  pc_denied_kinds :: "string set"
  pc_denied_capability_classes :: "string set"

datatype policy_effect = Allow | Deny | NeedsClarification

record policy_decision =
  pd_module :: module_metadata
  pd_effect :: policy_effect
  pd_reasons :: "string list"

definition filter_candidate :: "module_metadata \<Rightarrow> policy_context \<Rightarrow> policy_decision" where
  "filter_candidate m ctx =
     (if mm_name m \<in> pc_denied_module_ids ctx
      then \<lparr>pd_module = m, pd_effect = Deny, pd_reasons = [''module is explicitly denied'']\<rparr>
      else if mm_kind m \<in> pc_denied_kinds ctx
      then \<lparr>pd_module = m, pd_effect = Deny, pd_reasons = [''kind is denied: '' @ mm_kind m]\<rparr>
      else if mm_capability_class m \<in> pc_denied_capability_classes ctx
      then \<lparr>pd_module = m, pd_effect = Deny, pd_reasons = [''capability class is denied: '' @ mm_capability_class m]\<rparr>
      else let missing_policies = sort (remdups (filter (\<lambda>p. p \<notin> pc_allowed_policy_ids ctx) (mm_policies m))) in
        if mm_requires_all_policies m \<and> missing_policies \<noteq> []
        then \<lparr>pd_module = m, pd_effect = NeedsClarification,
              pd_reasons = [''missing required policies: '' @ join '', '' missing_policies]\<rparr>
        else \<lparr>pd_module = m, pd_effect = Allow, pd_reasons = [''policy context allows candidate'']\<rparr>)"

definition resolve :: "registry \<Rightarrow> string \<Rightarrow> string option \<Rightarrow> (registry_error, module_metadata) res" where
  "resolve r name version =
     (case version of
        Some v \<Rightarrow> (case map_of (rg_by_name_version r) (name, v) of
                    None \<Rightarrow> Inl (Raise (UnknownModuleVersion name v)) | Some m \<Rightarrow> Inr m)
      | None \<Rightarrow> (case map_of (rg_by_name r) name of
                   Some (m # ms) \<Rightarrow> Inr m | _ \<Rightarrow> Inl (Raise (UnknownModule name))))"

subsection \<open>The dependency graph\<close>

definition known :: "registry \<Rightarrow> string \<Rightarrow> bool" where
  "known r name \<longleftrightarrow> name \<in> set (dict_keys (rg_by_name r))"

text \<open>\<open>self.resolve(name).references()\<close>. The searches only resolve known names, and in a registry that was
  constructed every known name has a version.\<close>

definition references_of :: "registry \<Rightarrow> string \<Rightarrow> module_reference list" where
  "references_of r name = (case resolve r name None of Inr m \<Rightarrow> module_references m | Inl _ \<Rightarrow> [])"

definition missing_reference :: "module_reference \<Rightarrow> string" where
  "missing_reference ref = mr_source_name ref @ ''.'' @ mr_field ref @ '' references missing '' @ mr_expected_kind ref @ '': '' @ mr_target_name ref"

text \<open>The loop of \<open>_collect_reachable\<close> over the references of a module; the state holds the reachable names, newest
  first, and the errors.\<close>

type_synonym reach_state = "string list \<times> string list"

function collect :: "registry \<Rightarrow> module_reference list \<Rightarrow> reach_state \<Rightarrow> reach_state" where
  "collect r [] st = st"
| "collect r (ref # refs) st =
     collect r refs
       (if \<not> known r (mr_target_name ref) then (fst st, snd st @ [missing_reference ref])
        else if mr_target_name ref \<in> set (fst st) then st
        else collect r (references_of r (mr_target_name ref)) (mr_target_name ref # fst st, snd st))"
  by pat_completeness auto

lemma collect_grows_dom: "collect_dom (r, refs, st) \<Longrightarrow> set (fst st) \<subseteq> set (fst (collect r refs st))"
proof (induction r refs st rule: collect.pinduct)
  case (2 r ref refs st)
  then show ?case by (auto simp: collect.psimps split: if_splits)
qed (simp add: collect.psimps)

definition unseen :: "registry \<Rightarrow> string list \<Rightarrow> nat" where
  "unseen r seen = card (set (dict_keys (rg_by_name r)) - set seen)"

lemma unseen_mono: "set seen \<subseteq> set seen' \<Longrightarrow> unseen r seen' \<le> unseen r seen"
  unfolding unseen_def by (intro card_mono) auto

lemma unseen_less: "known r name \<Longrightarrow> name \<notin> set seen \<Longrightarrow> unseen r (name # seen) < unseen r seen"
  unfolding unseen_def known_def by (intro psubset_card_mono) auto

lemma measures_le: "f x \<le> f y \<Longrightarrow> g x < g y \<Longrightarrow> (x, y) \<in> measures [f, g]"
  by auto

termination collect
proof (relation "measures [\<lambda>(r, refs, st). unseen r (fst st), \<lambda>(r, refs, st). length refs]", goal_cases)
  case (3 r ref refs st)
  have "unseen r (fst (if \<not> known r (mr_target_name ref) then (fst st, snd st @ [missing_reference ref])
        else if mr_target_name ref \<in> set (fst st) then st
        else collect r (references_of r (mr_target_name ref)) (mr_target_name ref # fst st, snd st))) \<le> unseen r (fst st)"
    using 3 collect_grows_dom [of r "references_of r (mr_target_name ref)" "(mr_target_name ref # fst st, snd st)"]
    by (auto intro!: unseen_mono)
  then show ?case by auto
qed (auto simp: unseen_less)

lemma collect_grows: "set (fst st) \<subseteq> set (fst (collect r refs st))"
  by (induction r refs st rule: collect.induct) (auto split: if_splits)

definition collect_reachable :: "registry \<Rightarrow> string \<Rightarrow> reach_state \<Rightarrow> reach_state" where
  "collect_reachable r name st =
     (if name \<in> set (fst st) \<or> \<not> known r name then st
      else collect r (references_of r name) (name # fst st, snd st))"

record cycle_state =
  cs_errors :: "string list"
  cs_visiting :: "string set"
  cs_visited :: "string list"
  cs_path :: "string list"

type_synonym dependency_graph = "(string, string list) dict"

definition targets :: "dependency_graph \<Rightarrow> string \<Rightarrow> string list" where
  "targets g name = (case map_of g name of None \<Rightarrow> [] | Some ts \<Rightarrow> ts)"

definition cycle_error :: "string list \<Rightarrow> string \<Rightarrow> string" where
  "cycle_error path name = ''circular dependency: '' @ join '' -> '' (dropWhile (\<lambda>n. n \<noteq> name) path @ [name])"

definition enter :: "string \<Rightarrow> cycle_state \<Rightarrow> cycle_state" where
  "enter name st = st\<lparr>cs_visiting := insert name (cs_visiting st), cs_path := cs_path st @ [name]\<rparr>"

definition leave :: "string \<Rightarrow> cycle_state \<Rightarrow> cycle_state" where
  "leave name st = st\<lparr>cs_path := butlast (cs_path st), cs_visiting := cs_visiting st - {name}, cs_visited := name # cs_visited st\<rparr>"

function visit_all :: "dependency_graph \<Rightarrow> string list \<Rightarrow> cycle_state \<Rightarrow> cycle_state" where
  "visit_all g [] st = st"
| "visit_all g (name # names) st =
     visit_all g names
       (if name \<notin> set (dict_keys g) then st
        else if name \<in> cs_visiting st then st\<lparr>cs_errors := cs_errors st @ [cycle_error (cs_path st) name]\<rparr>
        else if name \<in> set (cs_visited st) then st
        else leave name (visit_all g (targets g name) (enter name st)))"
  by pat_completeness auto

lemma visit_all_dom_keeps:
  "visit_all_dom (g, names, st) \<Longrightarrow>
     cs_visiting (visit_all g names st) = cs_visiting st \<and> set (cs_visited st) \<subseteq> set (cs_visited (visit_all g names st)) \<and>
     cs_path (visit_all g names st) = cs_path st"
proof (induction g names st rule: visit_all.pinduct)
  case (2 g name names st)
  then show ?case by (auto simp: visit_all.psimps enter_def leave_def split: if_splits)
qed (simp add: visit_all.psimps)

definition unfinished :: "dependency_graph \<Rightarrow> cycle_state \<Rightarrow> nat" where
  "unfinished g st = card (set (dict_keys g) - (cs_visiting st \<union> set (cs_visited st)))"

lemma unfinished_mono:
  "cs_visiting st \<subseteq> cs_visiting st' \<Longrightarrow> set (cs_visited st) \<subseteq> set (cs_visited st') \<Longrightarrow> unfinished g st' \<le> unfinished g st"
  unfolding unfinished_def by (intro card_mono) auto

lemma unfinished_enter:
  "name \<in> set (dict_keys g) \<Longrightarrow> name \<notin> cs_visiting st \<Longrightarrow> name \<notin> set (cs_visited st) \<Longrightarrow>
     unfinished g (enter name st) < unfinished g st"
  unfolding unfinished_def enter_def by (intro psubset_card_mono) auto

termination visit_all
proof (relation "measures [\<lambda>(g, names, st). unfinished g st, \<lambda>(g, names, st). length names]", goal_cases)
  case (3 g name names st)
  let ?st = "if name \<notin> set (dict_keys g) then st
        else if name \<in> cs_visiting st then st\<lparr>cs_errors := cs_errors st @ [cycle_error (cs_path st) name]\<rparr>
        else if name \<in> set (cs_visited st) then st
        else leave name (visit_all g (targets g name) (enter name st))"
  have "unfinished g ?st \<le> unfinished g st"
    using 3 visit_all_dom_keeps [of g "targets g name" "enter name st"]
    by (intro unfinished_mono) (auto simp: enter_def leave_def)
  then show ?case by (intro measures_le) (simp_all only: prod.case list.size add_Suc_right less_add_same_cancel1 lessI add_0_right)
qed (auto simp: unfinished_enter)

lemma visit_all_keeps:
  "cs_visiting (visit_all g names st) = cs_visiting st" "set (cs_visited st) \<subseteq> set (cs_visited (visit_all g names st))"
  "cs_path (visit_all g names st) = cs_path st"
  by (induction g names st rule: visit_all.induct) (auto simp: enter_def leave_def split: if_splits)

definition graph_of :: "registry \<Rightarrow> string list \<Rightarrow> dependency_graph" where
  "graph_of r module_names = dict_of (map (\<lambda>name. (name, map mr_target_name (references_of r name))) module_names)"

definition cycle_errors :: "registry \<Rightarrow> string list \<Rightarrow> string list" where
  "cycle_errors r module_names =
     cs_errors (visit_all (graph_of r module_names) module_names
       \<lparr>cs_errors = [], cs_visiting = {}, cs_visited = [], cs_path = []\<rparr>)"

record graph_validation =
  gv_is_valid :: bool
  gv_errors :: "string list"
  gv_reachable_modules :: "string list"

definition reference_errors :: "registry \<Rightarrow> module_reference \<Rightarrow> string list" where
  "reference_errors r ref =
     (if \<not> known r (mr_target_name ref) then [missing_reference ref]
      else case resolve r (mr_target_name ref) None of
        Inl _ \<Rightarrow> []
      | Inr target \<Rightarrow>
          if mm_kind target \<noteq> mr_expected_kind ref
          then [mr_source_name ref @ ''.'' @ mr_field ref @ '' references '' @ mr_target_name ref @ '' as '' @
                mr_expected_kind ref @ '', got '' @ mm_kind target]
          else [])"

definition module_errors :: "registry \<Rightarrow> policy_context option \<Rightarrow> string \<Rightarrow> string list" where
  "module_errors r policy_context name =
     (case resolve r name None of
        Inl _ \<Rightarrow> []
      | Inr m \<Rightarrow>
          concat (map (reference_errors r) (module_references m)) @
          (case policy_context of
             None \<Rightarrow> []
           | Some ctx \<Rightarrow>
               if mm_capability_class m \<in> pc_denied_capability_classes ctx
               then [''reachable module '' @ mm_name m @ '' uses denied capability '' @ mm_capability_class m] else []))"

definition validate_graph :: "registry \<Rightarrow> string list \<Rightarrow> policy_context option \<Rightarrow> graph_validation" where
  "validate_graph r selected_module_names policy_context =
     (let selected = dedupe selected_module_names;
          errors0 = map (\<lambda>name. ''missing selected module: '' @ name) (filter (\<lambda>name. \<not> known r name) selected);
          st = fold (collect_reachable r) selected ([], errors0);
          reachable = sort (fst st);
          errors = snd st @ concat (map (module_errors r policy_context) reachable) @ cycle_errors r reachable
      in \<lparr>gv_is_valid = (errors = []), gv_errors = dedupe errors, gv_reachable_modules = reachable\<rparr>)"

end
