(* ===== verification/Registry_Graph.thy ===== *)
theory Registry_Graph
  imports Registry
begin

text \<open>
  What the registry of \<open>registries/modules.py\<close> guarantees: resolution yields the newest version, the collected
  modules are exactly those that are reachable, the search for cycles is exact, and a graph is valid precisely when
  it satisfies the declarative specification.
\<close>

subsection \<open>Reachable modules\<close>

definition depends :: "registry \<Rightarrow> (string \<times> string) set" where
  "depends r = {(a, b). known r b \<and> b \<in> mr_target_name ` set (references_of r a)}"

definition pointing_at :: "string \<Rightarrow> module_reference" where
  "pointing_at name = \<lparr>mr_source_name = [], mr_field = [], mr_target_name = name, mr_expected_kind = []\<rparr>"

lemma fold_collect: "fold (collect_reachable r) names st = collect r (map pointing_at (filter (known r) names)) st"
  by (induction names arbitrary: st) (auto simp: collect_reachable_def pointing_at_def)

lemma collect_sound:
  "x \<in> set (fst (collect r refs st)) \<Longrightarrow>
     x \<in> set (fst st) \<or> (\<exists>ref \<in> set refs. known r (mr_target_name ref) \<and> (mr_target_name ref, x) \<in> (depends r)\<^sup>*)"
proof (induction r refs st rule: collect.induct)
  case (2 r ref refs st)
  let ?t = "mr_target_name ref"
  note IH2 = 2(2) [OF 2(3) [unfolded collect.simps(2)]]
  show ?case
  proof (cases "known r ?t \<and> ?t \<notin> set (fst st)")
    case True
    have "x \<in> set (fst st) \<or> (?t, x) \<in> (depends r)\<^sup>*"
      if "x \<in> set (fst (collect r (references_of r ?t) (?t # fst st, snd st)))"
    proof -
      from 2(1) [OF _ _ that] True consider "x = ?t" | "x \<in> set (fst st)"
        | ref' where "ref' \<in> set (references_of r ?t)" "known r (mr_target_name ref')" "(mr_target_name ref', x) \<in> (depends r)\<^sup>*"
        by auto
      then show ?thesis
      proof cases
        case 3
        then have "(?t, mr_target_name ref') \<in> depends r" by (auto simp: depends_def)
        with 3(3) show ?thesis by (meson converse_rtrancl_into_rtrancl)
      qed auto
    qed
    with True IH2 show ?thesis by auto
  qed (use IH2 in \<open>auto split: if_splits\<close>)
qed auto

lemma collect_complete:
  "(\<forall>ref \<in> set refs. known r (mr_target_name ref) \<longrightarrow> mr_target_name ref \<in> set (fst (collect r refs st))) \<and>
   (\<forall>x \<in> set (fst (collect r refs st)) - set (fst st). \<forall>y. (x, y) \<in> depends r \<longrightarrow> y \<in> set (fst (collect r refs st)))"
proof (induction r refs st rule: collect.induct)
  case (2 r ref refs st)
  let ?t = "mr_target_name ref"
  let ?st = "if \<not> known r ?t then (fst st, snd st @ [missing_reference ref]) else if ?t \<in> set (fst st) then st
      else collect r (references_of r ?t) (?t # fst st, snd st)"
  let ?R = "set (fst (collect r refs ?st))"
  have grow: "set (fst ?st) \<subseteq> ?R" by (rule collect_grows)
  have t: "?t \<in> set (fst ?st)" if "known r ?t"
    using that collect_grows [of "(?t # fst st, snd st)" r "references_of r ?t"] by auto
  have new: "y \<in> set (fst ?st)" if "x \<in> set (fst ?st) - set (fst st)" "(x, y) \<in> depends r" for x y
  proof -
    from that(1) have fresh: "known r ?t" "?t \<notin> set (fst st)" by (auto split: if_splits)
    note IH = 2(1) [unfolded not_not fst_conv, OF fresh]
    show ?thesis
    proof (cases "x = ?t")
      case True
      with that(2) obtain ref' where "ref' \<in> set (references_of r ?t)" "y = mr_target_name ref'" "known r y"
        by (auto simp: depends_def)
      then have "y \<in> set (fst (collect r (references_of r ?t) (?t # fst st, snd st)))" using conjunct1 [OF IH] by blast
      with fresh show ?thesis by simp
    next
      case False
      with that fresh have "x \<in> set (fst (collect r (references_of r ?t) (?t # fst st, snd st))) - set (?t # fst st)" by simp
      with that(2) have "y \<in> set (fst (collect r (references_of r ?t) (?t # fst st, snd st)))" using conjunct2 [OF IH] by blast
      with fresh show ?thesis by simp
    qed
  qed
  have "?R = set (fst (collect r (ref # refs) st))" by simp
  moreover have "mr_target_name ref' \<in> ?R" if "ref' \<in> set (ref # refs)" "known r (mr_target_name ref')" for ref'
    using that 2(2) t grow by auto
  moreover have "y \<in> ?R" if "x \<in> ?R - set (fst st)" "(x, y) \<in> depends r" for x y
    using that 2(2) new grow by blast
  ultimately show ?case by blast
qed auto

lemma collect_distinct: "distinct (fst st) \<Longrightarrow> distinct (fst (collect r refs st))"
  by (induction r refs st rule: collect.induct) (auto split: if_splits)

lemma collect_known: "\<forall>x \<in> set (fst st). known r x \<Longrightarrow> \<forall>x \<in> set (fst (collect r refs st)). known r x"
proof (induction r refs st rule: collect.induct)
  case (2 r ref refs st)
  show ?case unfolding collect.simps(2) by (rule 2(2)) (use 2(1,3) in \<open>simp split: if_split\<close>)
qed simp

lemma collect_errors:
  "e \<in> set (snd (collect r refs st)) \<Longrightarrow>
     e \<in> set (snd st) \<or> (\<exists>ref. \<not> known r (mr_target_name ref) \<and> e = missing_reference ref \<and>
        (ref \<in> set refs \<or> (\<exists>x \<in> set (fst (collect r refs st)). ref \<in> set (references_of r x))))"
proof (induction r refs st rule: collect.induct)
  case (2 r ref refs st)
  let ?t = "mr_target_name ref"
  let ?st = "if \<not> known r ?t then (fst st, snd st @ [missing_reference ref]) else if ?t \<in> set (fst st) then st
      else collect r (references_of r ?t) (?t # fst st, snd st)"
  have grow: "set (fst ?st) \<subseteq> set (fst (collect r refs ?st))" by (rule collect_grows)
  have inner: "e \<in> set (snd st) \<or> (\<exists>ref'. \<not> known r (mr_target_name ref') \<and> e = missing_reference ref' \<and>
      (ref' = ref \<or> (\<exists>x \<in> set (fst ?st). ref' \<in> set (references_of r x))))" if e: "e \<in> set (snd ?st)"
  proof (cases "known r ?t \<and> ?t \<notin> set (fst st)")
    case True
    have "?t \<in> set (fst ?st)" using True collect_grows [of "(?t # fst st, snd st)" r "references_of r ?t"] by auto
    with 2(1) e True show ?thesis by auto
  qed (use e in \<open>auto split: if_splits\<close>)
  from 2(2) 2(3) have "e \<in> set (snd ?st) \<or> (\<exists>ref'. \<not> known r (mr_target_name ref') \<and> e = missing_reference ref' \<and>
      (ref' \<in> set refs \<or> (\<exists>x \<in> set (fst (collect r refs ?st)). ref' \<in> set (references_of r x))))" by simp
  then show ?case unfolding collect.simps(2)
  proof
    assume "e \<in> set (snd ?st)"
    from inner [OF this] grow show "e \<in> set (snd st) \<or> (\<exists>ref'. \<not> known r (mr_target_name ref') \<and> e = missing_reference ref' \<and>
        (ref' \<in> set (ref # refs) \<or> (\<exists>x \<in> set (fst (collect r refs ?st)). ref' \<in> set (references_of r x))))" by fastforce
  next
    assume "\<exists>ref'. \<not> known r (mr_target_name ref') \<and> e = missing_reference ref' \<and>
        (ref' \<in> set refs \<or> (\<exists>x \<in> set (fst (collect r refs ?st)). ref' \<in> set (references_of r x)))"
    then show "e \<in> set (snd st) \<or> (\<exists>ref'. \<not> known r (mr_target_name ref') \<and> e = missing_reference ref' \<and>
        (ref' \<in> set (ref # refs) \<or> (\<exists>x \<in> set (fst (collect r refs ?st)). ref' \<in> set (references_of r x))))" by fastforce
  qed
qed auto

text \<open>All names that can be reached from the known selected ones.\<close>

definition reachable_from :: "registry \<Rightarrow> string list \<Rightarrow> string set" where
  "reachable_from r names = {x. \<exists>n \<in> set names. known r n \<and> (n, x) \<in> (depends r)\<^sup>*}"

lemma collected:
  "set (fst (fold (collect_reachable r) names ([], errors))) = reachable_from r names"
  "distinct (fst (fold (collect_reachable r) names ([], errors)))"
  "x \<in> reachable_from r names \<Longrightarrow> known r x"
proof -
  let ?R = "set (fst (collect r (map pointing_at (filter (known r) names)) ([], errors)))"
  note complete = collect_complete [of "map pointing_at (filter (known r) names)" r "([], errors)"]
  have start: "n \<in> ?R" if "n \<in> set names" "known r n" for n
    using complete that by (fastforce simp: pointing_at_def)
  have closed: "y \<in> ?R" if "(x, y) \<in> (depends r)\<^sup>*" "x \<in> ?R" for x y
    using that by (induction rule: rtrancl_induct) (use complete in auto)
  have "?R \<subseteq> reachable_from r names"
    by (fastforce simp: reachable_from_def pointing_at_def dest: collect_sound)
  moreover have "reachable_from r names \<subseteq> ?R" using start closed by (auto simp: reachable_from_def)
  ultimately have eq: "?R = reachable_from r names" by blast
  then show "set (fst (fold (collect_reachable r) names ([], errors))) = reachable_from r names" by (simp add: fold_collect)
  show "distinct (fst (fold (collect_reachable r) names ([], errors)))" by (simp add: fold_collect collect_distinct)
  have "\<forall>x \<in> ?R. known r x" by (rule collect_known) simp
  then show "x \<in> reachable_from r names \<Longrightarrow> known r x" using eq by blast
qed

subsection \<open>Cycles\<close>

definition edges :: "dependency_graph \<Rightarrow> (string \<times> string) set" where
  "edges g = {(a, b). a \<in> set (dict_keys g) \<and> b \<in> set (dict_keys g) \<and> b \<in> set (targets g a)}"

text \<open>Finished names, newest first: everything a finished name depends on was finished before it.\<close>

fun finished_in_order :: "dependency_graph \<Rightarrow> string list \<Rightarrow> bool" where
  "finished_in_order g [] \<longleftrightarrow> True"
| "finished_in_order g (u # us) \<longleftrightarrow> (\<forall>v. (u, v) \<in> edges g \<longrightarrow> v \<in> set us) \<and> finished_in_order g us"

fun finish_rank :: "string list \<Rightarrow> string \<Rightarrow> nat" where
  "finish_rank [] x = 0"
| "finish_rank (u # us) x = (if x \<in> set us then finish_rank us x else if x = u then Suc (length us) else 0)"

lemma finish_rank_le: "finish_rank us x \<le> length us"
  by (induction us) auto

lemma finished_rank:
  assumes "finished_in_order g us" and "u \<in> set us" and "(u, v) \<in> edges g"
  shows "v \<in> set us \<and> finish_rank us v < finish_rank us u"
  using assms
proof (induction us)
  case (Cons w us)
  show ?case
  proof (cases "u \<in> set us")
    case False
    with Cons.prems have "u = w" "v \<in> set us" by auto
    with False show ?thesis using finish_rank_le [of us v] by simp
  qed (use Cons in auto)
qed simp

lemma finished_acyclic:
  assumes "finished_in_order g us" and "set (dict_keys g) \<subseteq> set us"
  shows "acyclic (edges g)"
proof -
  have "finish_rank us v < finish_rank us u" if e: "(u, v) \<in> edges g" for u v
  proof -
    from e assms(2) have "u \<in> set us" by (auto simp: edges_def)
    from finished_rank [OF assms(1) this e] show ?thesis by simp
  qed
  then have "(edges g)\<inverse> \<subseteq> measure (finish_rank us)" by auto
  then have "acyclic ((edges g)\<inverse>)" by (rule acyclic_subset [OF wf_acyclic [OF wf_measure]])
  then show ?thesis by (simp add: acyclic_converse)
qed

lemma errors_grow: "\<exists>es. cs_errors (visit_all g names st) = cs_errors st @ es"
proof (induction g names st rule: visit_all.induct)
  case (2 g name names st)
  let ?st = "if name \<notin> set (dict_keys g) then st
      else if name \<in> cs_visiting st then st\<lparr>cs_errors := cs_errors st @ [cycle_error (cs_path st) name]\<rparr>
      else if name \<in> set (cs_visited st) then st else leave name (visit_all g (targets g name) (enter name st))"
  have "\<exists>es. cs_errors ?st = cs_errors st @ es" using 2(1) by (auto simp: enter_def leave_def)
  with 2(2) show ?case unfolding visit_all.simps(2) by (metis append.assoc)
qed simp

text \<open>A search that reports nothing has finished everything it was asked to visit, in order.\<close>

lemma silent_search_finishes:
  "cs_errors (visit_all g names st) = [] \<Longrightarrow> finished_in_order g (cs_visited st) \<Longrightarrow>
     finished_in_order g (cs_visited (visit_all g names st)) \<and>
     (\<forall>n \<in> set names. n \<in> set (dict_keys g) \<longrightarrow> n \<in> set (cs_visited (visit_all g names st)))"
proof (induction g names st rule: visit_all.induct)
  case (2 g name names st)
  let ?in = "visit_all g (targets g name) (enter name st)"
  let ?st = "if name \<notin> set (dict_keys g) then st
      else if name \<in> cs_visiting st then st\<lparr>cs_errors := cs_errors st @ [cycle_error (cs_path st) name]\<rparr>
      else if name \<in> set (cs_visited st) then st else leave name ?in"
  have quiet: "cs_errors ?st = []" using errors_grow [of g names ?st] 2(3) by auto
  have grow: "set (cs_visited ?st) \<subseteq> set (cs_visited (visit_all g names ?st))" by (rule visit_all_keeps)
  have step: "finished_in_order g (cs_visited ?st) \<and> (name \<in> set (dict_keys g) \<longrightarrow> name \<in> set (cs_visited ?st))"
  proof (cases "name \<in> set (dict_keys g) \<and> name \<notin> cs_visiting st \<and> name \<notin> set (cs_visited st)")
    case True
    then have st: "?st = leave name ?in" by simp
    then have "cs_errors ?in = []" using quiet by (simp add: leave_def)
    moreover have "finished_in_order g (cs_visited (enter name st))" using 2(4) by (simp add: enter_def)
    ultimately have inner: "finished_in_order g (cs_visited ?in)"
      "\<forall>n \<in> set (targets g name). n \<in> set (dict_keys g) \<longrightarrow> n \<in> set (cs_visited ?in)"
      using 2(1) True by auto
    have "v \<in> set (cs_visited ?in)" if "(name, v) \<in> edges g" for v using inner(2) that by (simp add: edges_def)
    with inner(1) show ?thesis unfolding st by (simp add: leave_def)
  qed (use 2(4) quiet in \<open>auto split: if_splits\<close>)
  have "finished_in_order g (cs_visited (visit_all g names ?st)) \<and>
      (\<forall>n \<in> set names. n \<in> set (dict_keys g) \<longrightarrow> n \<in> set (cs_visited (visit_all g names ?st)))"
    by (rule 2(2) [OF 2(3) [unfolded visit_all.simps(2)] conjunct1 [OF step]])
  moreover have "name \<in> set (dict_keys g) \<longrightarrow> name \<in> set (cs_visited (visit_all g names ?st))" using step grow by blast
  ultimately show ?case unfolding visit_all.simps(2) list.set(2) by blast
qed simp

lemma chain_reaches:
  "successively (\<lambda>a b. (a, b) \<in> E) path \<Longrightarrow> x \<in> set path \<Longrightarrow> (x, last path) \<in> E\<^sup>*"
proof (induction path arbitrary: x)
  case (Cons a path)
  show ?case
  proof (cases "path = []")
    case False
    then have c: "(a, hd path) \<in> E" "successively (\<lambda>a b. (a, b) \<in> E) path" using Cons.prems(1) by (auto simp: successively_Cons)
    show ?thesis
    proof (cases "x = a")
      case True
      have "(hd path, last path) \<in> E\<^sup>*" using Cons.IH [OF c(2), of "hd path"] False by simp
      with c(1) True False show ?thesis by (simp add: converse_rtrancl_into_rtrancl)
    qed (use Cons c False in auto)
  qed (use Cons.prems in auto)
qed simp

text \<open>The path of the search is a chain of dependencies, so in a graph without cycles nothing is reported.\<close>

definition search_path_ok :: "dependency_graph \<Rightarrow> string list \<Rightarrow> cycle_state \<Rightarrow> bool" where
  "search_path_ok g names st \<longleftrightarrow> cs_visiting st = set (cs_path st) \<and> set (cs_path st) \<subseteq> set (dict_keys g) \<and>
     successively (\<lambda>a b. (a, b) \<in> edges g) (cs_path st) \<and>
     (\<forall>n \<in> set names. n \<in> set (dict_keys g) \<and> cs_path st \<noteq> [] \<longrightarrow> (last (cs_path st), n) \<in> edges g)"

lemma acyclic_search_silent:
  "acyclic (edges g) \<Longrightarrow> search_path_ok g names st \<Longrightarrow> cs_errors (visit_all g names st) = cs_errors st"
proof (induction g names st rule: visit_all.induct)
  case (2 g name names st)
  let ?in = "visit_all g (targets g name) (enter name st)"
  let ?st = "if name \<notin> set (dict_keys g) then st
      else if name \<in> cs_visiting st then st\<lparr>cs_errors := cs_errors st @ [cycle_error (cs_path st) name]\<rparr>
      else if name \<in> set (cs_visited st) then st else leave name ?in"
  have no_back: "name \<notin> cs_visiting st" if "name \<in> set (dict_keys g)"
  proof
    assume v: "name \<in> cs_visiting st"
    then have "(name, last (cs_path st)) \<in> (edges g)\<^sup>*" "(last (cs_path st), name) \<in> edges g"
      using 2(4) that chain_reaches [of "edges g" "cs_path st" name] by (auto simp: search_path_ok_def)
    then have "(name, name) \<in> (edges g)\<^sup>+" by (rule rtrancl_into_trancl1)
    with 2(3) show False by (simp add: acyclic_def)
  qed
  have entered: "search_path_ok g (targets g name) (enter name st)" if "name \<in> set (dict_keys g)"
    using 2(4) that by (auto simp: search_path_ok_def enter_def edges_def successively_append_iff)
  have same: "cs_errors ?st = cs_errors st \<and> cs_visiting ?st = cs_visiting st \<and> cs_path ?st = cs_path st"
  proof (cases "name \<in> set (dict_keys g) \<and> name \<notin> set (cs_visited st)")
    case True
    with no_back have st: "?st = leave name ?in" by simp
    have "cs_errors ?in = cs_errors (enter name st)" using 2(1) [OF _ _ _ 2(3) entered] True no_back by simp
    then show ?thesis unfolding st using no_back True by (auto simp: leave_def enter_def visit_all_keeps)
  qed (use no_back in auto)
  then have "search_path_ok g names ?st" using 2(4) by (auto simp: search_path_ok_def)
  from 2(2) [OF 2(3) this] same show ?case unfolding visit_all.simps(2) by simp
qed simp

lemma graph_of_keys: "set (dict_keys (graph_of r names)) = set names"
  unfolding graph_of_def dict_of_keys by (simp add: comp_def)

lemma graph_of_targets: "n \<in> set names \<Longrightarrow> targets (graph_of r names) n = map mr_target_name (references_of r n)"
proof -
  have "map_of (map (\<lambda>name. (name, f name)) xs) n = Some (f n)" if "n \<in> set xs" for xs and f :: "string \<Rightarrow> string list"
    using that by (induction xs) auto
  moreover assume "n \<in> set names"
  ultimately show ?thesis by (simp add: targets_def graph_of_def dict_simps rev_map)
qed

lemma cycle_errors_exact: "cycle_errors r names = [] \<longleftrightarrow> acyclic (edges (graph_of r names))"
proof
  let ?st = "\<lparr>cs_errors = [], cs_visiting = {}, cs_visited = [], cs_path = []\<rparr>"
  let ?g = "graph_of r names"
  assume "cycle_errors r names = []"
  then have "cs_errors (visit_all ?g names ?st) = []" by (simp add: cycle_errors_def)
  from silent_search_finishes [OF this] have fin: "finished_in_order ?g (cs_visited (visit_all ?g names ?st))"
    "\<forall>n \<in> set names. n \<in> set (dict_keys ?g) \<longrightarrow> n \<in> set (cs_visited (visit_all ?g names ?st))" by simp_all
  from fin(2) have "set (dict_keys ?g) \<subseteq> set (cs_visited (visit_all ?g names ?st))" unfolding graph_of_keys by blast
  with fin(1) show "acyclic (edges ?g)" by (rule finished_acyclic)
next
  assume a: "acyclic (edges (graph_of r names))"
  show "cycle_errors r names = []"
    unfolding cycle_errors_def by (subst acyclic_search_silent [OF a]) (simp_all add: search_path_ok_def)
qed

subsection \<open>Construction\<close>

definition versions :: "registry \<Rightarrow> string \<Rightarrow> module_metadata list" where
  "versions r name = (case map_of (rg_by_name r) name of None \<Rightarrow> [] | Some ms \<Rightarrow> ms)"

definition module_key :: "module_metadata \<Rightarrow> string \<times> string" where
  "module_key m = (mm_name m, mm_version m)"

lemma add_module_Inr:
  "add_module m r = Inr r' \<longleftrightarrow> module_key m \<notin> set (dict_keys (rg_by_name_version r)) \<and>
     r' = \<lparr>rg_by_name_version = dict_set (module_key m) m (rg_by_name_version r),
           rg_by_name = dict_set (mm_name m) (versions r (mm_name m) @ [m]) (rg_by_name r)\<rparr>"
  by (auto simp: add_module_def module_key_def versions_def Let_def)

lemma add_modules:
  assumes "foldR add_module ms r0 = Inr r" and "\<forall>n. map_of (rg_by_name r0) n \<noteq> Some []"
  shows "versions r n = versions r0 n @ filter (\<lambda>m. mm_name m = n) ms"
    and "\<forall>n. map_of (rg_by_name r) n \<noteq> Some []"
    and "set (dict_keys (rg_by_name_version r)) = set (dict_keys (rg_by_name_version r0)) \<union> set (map module_key ms)"
    and "distinct (map module_key ms)" and "set (map module_key ms) \<inter> set (dict_keys (rg_by_name_version r0)) = {}"
    and "m \<in> set ms \<Longrightarrow> map_of (rg_by_name_version r) (module_key m) = Some m"
    and "k \<in> set (dict_keys (rg_by_name_version r0)) \<Longrightarrow> map_of (rg_by_name_version r) k = map_of (rg_by_name_version r0) k"
proof -
  have "versions r n = versions r0 n @ filter (\<lambda>m. mm_name m = n) ms \<and> (\<forall>n. map_of (rg_by_name r) n \<noteq> Some []) \<and>
     set (dict_keys (rg_by_name_version r)) = set (dict_keys (rg_by_name_version r0)) \<union> set (map module_key ms) \<and>
     distinct (map module_key ms) \<and> set (map module_key ms) \<inter> set (dict_keys (rg_by_name_version r0)) = {} \<and>
     (\<forall>m \<in> set ms. map_of (rg_by_name_version r) (module_key m) = Some m) \<and>
     (\<forall>k \<in> set (dict_keys (rg_by_name_version r0)). map_of (rg_by_name_version r) k = map_of (rg_by_name_version r0) k)"
    using assms
  proof (induction ms arbitrary: r0)
    case (Cons m ms)
    let ?r1 = "\<lparr>rg_by_name_version = dict_set (module_key m) m (rg_by_name_version r0),
        rg_by_name = dict_set (mm_name m) (versions r0 (mm_name m) @ [m]) (rg_by_name r0)\<rparr>"
    from Cons.prems(1) have new: "module_key m \<notin> set (dict_keys (rg_by_name_version r0))" and fold1: "foldR add_module ms ?r1 = Inr r"
      by (auto simp: bindR_Inr_iff add_module_Inr)
    have "\<forall>n. map_of (rg_by_name ?r1) n \<noteq> Some []" using Cons.prems(2) by (simp add: dict_simps)
    note IH = Cons.IH [OF fold1 this]
    have keys1: "set (dict_keys (rg_by_name_version ?r1)) = insert (module_key m) (set (dict_keys (rg_by_name_version r0)))"
      using new by (simp only: registry.select_convs dict_keys_set) simp
    have "versions ?r1 n = (if n = mm_name m then versions r0 n @ [m] else versions r0 n)"
      by (simp add: versions_def dict_simps)
    then have "versions r n = versions r0 n @ filter (\<lambda>m. mm_name m = n) (m # ms)" using IH by auto
    moreover have kept: "map_of (rg_by_name_version r) k = map_of (rg_by_name_version ?r1) k"
      if "k \<in> insert (module_key m) (set (dict_keys (rg_by_name_version r0)))" for k
      using IH that unfolding keys1 by blast
    have "map_of (rg_by_name_version r) k = map_of (rg_by_name_version r0) k" if "k \<in> set (dict_keys (rg_by_name_version r0))" for k
    proof -
      from that new have "k \<noteq> module_key m" by blast
      then show ?thesis using kept [of k] that by (simp add: dict_simps)
    qed
    moreover have "map_of (rg_by_name_version r) (module_key m) = Some m" using kept [of "module_key m"] by (simp add: dict_simps)
    ultimately show ?case using IH new unfolding keys1 by auto
  qed simp
  then show "versions r n = versions r0 n @ filter (\<lambda>m. mm_name m = n) ms"
    "\<forall>n. map_of (rg_by_name r) n \<noteq> Some []"
    "set (dict_keys (rg_by_name_version r)) = set (dict_keys (rg_by_name_version r0)) \<union> set (map module_key ms)"
    "distinct (map module_key ms)" "set (map module_key ms) \<inter> set (dict_keys (rg_by_name_version r0)) = {}"
    "m \<in> set ms \<Longrightarrow> map_of (rg_by_name_version r) (module_key m) = Some m"
    "k \<in> set (dict_keys (rg_by_name_version r0)) \<Longrightarrow> map_of (rg_by_name_version r) k = map_of (rg_by_name_version r0) k"
    by blast+
qed

definition version_key :: "module_metadata \<Rightarrow> semver" where
  "version_key m = (case (semver_key (mm_version m) :: (registry_error, semver) res) of Inr k \<Rightarrow> k | Inl _ \<Rightarrow> (0, 0, 0))"

lemma negate_le: "negate a \<le> negate b \<longleftrightarrow> b \<le> a"
  by (cases a; cases b) (auto simp: negate_def less_eq_prod_def)

lemma with_keys_Inr:
  "with_keys ms = (Inr kms :: (registry_error, (semver \<times> module_metadata) list) res) \<Longrightarrow> kms = map (\<lambda>m. (version_key m, m)) ms"
  unfolding with_keys_def
  by (induction ms arbitrary: kms) (auto simp: bindR_Inr_iff version_key_def)

lemma newest_first_Inr:
  assumes "newest_first ms = (Inr vs :: (registry_error, module_metadata list) res)"
  shows "set vs = set ms" and "vs = v # vs' \<Longrightarrow> m \<in> set ms \<Longrightarrow> version_key m \<le> version_key v"
proof -
  from assms obtain kms where k: "with_keys ms = (Inr kms :: (registry_error, (semver \<times> module_metadata) list) res)"
    and vs: "vs = map snd (sort_key (\<lambda>km. negate (fst km)) kms)" by (auto simp: newest_first_def bindR_Inr_iff)
  from with_keys_Inr [OF k] have kms: "kms = map (\<lambda>m. (version_key m, m)) ms" .
  show set_vs: "set vs = set ms" by (simp add: vs kms image_image)
  have pairs: "\<forall>km \<in> set (sort_key (\<lambda>km. negate (fst km)) kms). fst km = version_key (snd km)" by (auto simp: kms)
  have "sorted (map (\<lambda>km. negate (fst km)) (sort_key (\<lambda>km. negate (fst km)) kms))" by simp
  moreover have "map (\<lambda>km. negate (fst km)) (sort_key (\<lambda>km. negate (fst km)) kms) = map (\<lambda>m. negate (version_key m)) vs"
    unfolding vs map_map comp_def by (rule map_cong [OF refl]) (use pairs in simp)
  ultimately have "sorted (map (\<lambda>m. negate (version_key m)) vs)" by simp
  then show "vs = v # vs' \<Longrightarrow> m \<in> set ms \<Longrightarrow> version_key m \<le> version_key v"
    using set_vs by (auto simp: negate_le)
qed

lemma mapR_values:
  assumes "mapR (\<lambda>kv. bindR (f (snd kv)) (\<lambda>v. Inr (fst kv, v))) d = Inr d'"
  shows "dict_keys d' = dict_keys d" and "map_of d k = None \<Longrightarrow> map_of d' k = None"
    and "map_of d k = Some x \<Longrightarrow> \<exists>y. map_of d' k = Some y \<and> f x = Inr y"
  using assms by (induction d arbitrary: d') (auto simp: bindR_Inr_iff split: if_splits)

lemma registry_init_facts:
  assumes "registry_init modules = Inr r"
  shows "distinct (map module_key modules)"
    and "m \<in> set modules \<Longrightarrow> map_of (rg_by_name_version r) (module_key m) = Some m"
    and "set (versions r n) = {m \<in> set modules. mm_name m = n}"
    and "map_of (rg_by_name r) n \<noteq> Some []"
    and "versions r n = v # vs \<Longrightarrow> m \<in> set modules \<Longrightarrow> mm_name m = n \<Longrightarrow> version_key m \<le> version_key v"
proof -
  let ?empty = "\<lparr>rg_by_name_version = [], rg_by_name = []\<rparr>"
  from assms obtain r1 by_name where r1: "foldR add_module modules ?empty = Inr r1"
    and by_name: "mapR (\<lambda>kv. bindR (newest_first (snd kv)) (\<lambda>vs. Inr (fst kv, vs))) (rg_by_name r1) = (Inr by_name :: (registry_error, _) res)"
    and r: "r = r1\<lparr>rg_by_name := by_name\<rparr>" by (auto simp: registry_init_def bindR_Inr_iff)
  note added = add_modules [OF r1]
  show "distinct (map module_key modules)" using added(4) by simp
  show "m \<in> set modules \<Longrightarrow> map_of (rg_by_name_version r) (module_key m) = Some m" using added(6) by (simp add: r)
  have filtered: "versions r1 n = filter (\<lambda>m. mm_name m = n) modules" using added(1) by (simp add: versions_def)
  note vals = mapR_values [OF by_name]
  have newest: "versions r n = [] \<and> versions r1 n = [] \<and> map_of (rg_by_name r) n = None \<or>
      newest_first (versions r1 n) = (Inr (versions r n) :: (registry_error, _) res) \<and> map_of (rg_by_name r) n = Some (versions r n) \<and> versions r1 n \<noteq> []"
  proof (cases "map_of (rg_by_name r1) n")
    case None
    then show ?thesis using vals(2) [OF None] by (simp add: versions_def r)
  next
    case (Some ms)
    then show ?thesis using vals(3) [OF Some] added(2) by (auto simp: versions_def r)
  qed
  then have s: "set (versions r n) = set (versions r1 n)" using newest_first_Inr(1) by auto
  then show "set (versions r n) = {m \<in> set modules. mm_name m = n}" by (auto simp: filtered)
  show "map_of (rg_by_name r) n \<noteq> Some []" using newest newest_first_Inr(1) by fastforce
  show "versions r n = v # vs \<Longrightarrow> m \<in> set modules \<Longrightarrow> mm_name m = n \<Longrightarrow> version_key m \<le> version_key v"
    using newest newest_first_Inr(2) [of "versions r1 n"] by (auto simp: filtered)
qed

subsection \<open>Properties\<close>

lemma resolve_versions: "resolve r n None = (case versions r n of [] \<Rightarrow> Inl (Raise (UnknownModule n)) | m # _ \<Rightarrow> Inr m)"
  by (auto simp: resolve_def versions_def split: option.splits list.splits)

lemma known_versions:
  assumes "registry_init modules = Inr r"
  shows "known r n \<longleftrightarrow> versions r n \<noteq> []"
proof -
  have "known r n \<longleftrightarrow> map_of (rg_by_name r) n \<noteq> None" by (simp add: known_def map_of_eq_None_iff)
  then show ?thesis using registry_init_facts(4) [OF assms, of n] by (auto simp: versions_def split: option.splits)
qed

lemma known_resolves:
  assumes "registry_init modules = Inr r" and "known r n"
  obtains m where "resolve r n None = Inr m" "references_of r n = module_references m"
  using assms(2) unfolding known_versions [OF assms(1)]
  by (cases "versions r n") (auto simp: resolve_versions references_of_def)

text \<open>Resolution is complete and picks the newest version: a registry that was constructed has no two modules with
  the same name and version, returns every module under its name and version, resolves a bare name to a module of
  that name whose semantic version is at least that of every other one, and refuses exactly the unknown names.\<close>

theorem resolve_newest:
  assumes "registry_init modules = Inr r"
  shows "distinct (map module_key modules) \<and>
     (\<forall>m \<in> set modules. resolve r (mm_name m) (Some (mm_version m)) = Inr m) \<and>
     (if \<exists>m \<in> set modules. mm_name m = name
      then \<exists>m \<in> set modules. resolve r name None = Inr m \<and> mm_name m = name \<and>
             (\<forall>m' \<in> set modules. mm_name m' = name \<longrightarrow> version_key m' \<le> version_key m)
      else resolve r name None = Inl (Raise (UnknownModule name)))"
proof (intro conjI ballI)
  note facts = registry_init_facts [OF assms]
  show "distinct (map module_key modules)" by (rule facts(1))
  show "resolve r (mm_name m) (Some (mm_version m)) = Inr m" if "m \<in> set modules" for m
    using facts(2) [OF that] by (simp add: resolve_def module_key_def)
  show "if \<exists>m \<in> set modules. mm_name m = name
      then \<exists>m \<in> set modules. resolve r name None = Inr m \<and> mm_name m = name \<and>
             (\<forall>m' \<in> set modules. mm_name m' = name \<longrightarrow> version_key m' \<le> version_key m)
      else resolve r name None = Inl (Raise (UnknownModule name))"
  proof (cases "versions r name")
    case Nil
    then show ?thesis using facts(3) [of name] by (auto simp: resolve_versions)
  next
    case (Cons v vs)
    then have "v \<in> set modules" "mm_name v = name" using facts(3) [of name] by auto
    then show ?thesis using facts(5) [OF Cons] Cons by (auto simp: resolve_versions)
  qed
qed

text \<open>What it means for a selection to be a sound dependency graph.\<close>

definition graph_ok :: "registry \<Rightarrow> string list \<Rightarrow> policy_context option \<Rightarrow> bool" where
  "graph_ok r selected policy_context \<longleftrightarrow>
     (\<forall>n \<in> set selected. known r n) \<and>
     (\<forall>x \<in> reachable_from r selected. \<forall>ref \<in> set (references_of r x).
        \<exists>target. resolve r (mr_target_name ref) None = Inr target \<and> mm_kind target = mr_expected_kind ref) \<and>
     (\<forall>ctx m. policy_context = Some ctx \<longrightarrow> (\<forall>x \<in> reachable_from r selected.
        resolve r x None = Inr m \<longrightarrow> mm_capability_class m \<notin> pc_denied_capability_classes ctx)) \<and>
     acyclic (depends r \<inter> reachable_from r selected \<times> reachable_from r selected)"

lemma reference_errors_none:
  assumes "registry_init modules = Inr r"
  shows "reference_errors r ref = [] \<longleftrightarrow>
     (\<exists>target. resolve r (mr_target_name ref) None = Inr target \<and> mm_kind target = mr_expected_kind ref)"
proof (cases "known r (mr_target_name ref)")
  case True
  then obtain m where "resolve r (mr_target_name ref) None = Inr m" using known_resolves [OF assms] by metis
  with True show ?thesis by (simp add: reference_errors_def)
next
  case False
  then have "versions r (mr_target_name ref) = []" using known_versions [OF assms] by blast
  with False show ?thesis by (simp add: reference_errors_def resolve_versions)
qed

lemma module_errors_none:
  assumes "registry_init modules = Inr r" and "known r x"
  shows "module_errors r ctx x = [] \<longleftrightarrow> (\<forall>ref \<in> set (references_of r x). reference_errors r ref = []) \<and>
     (\<forall>c m. ctx = Some c \<longrightarrow> resolve r x None = Inr m \<longrightarrow> mm_capability_class m \<notin> pc_denied_capability_classes c)"
proof -
  obtain m where "resolve r x None = Inr m" "references_of r x = module_references m"
    using known_resolves [OF assms] by blast
  then show ?thesis by (auto simp: module_errors_def split: option.splits)
qed

lemma edges_reachable:
  assumes "set names = reachable_from r selected"
  shows "edges (graph_of r names) = depends r \<inter> reachable_from r selected \<times> reachable_from r selected"
  using collected(3) [of _ r selected] unfolding edges_def graph_of_keys by (auto simp: graph_of_targets depends_def assms)

lemma reachable_dedupe: "reachable_from r (dedupe names) = reachable_from r names"
  by (simp add: reachable_from_def)

lemma validation_errors_none:
  assumes "registry_init modules = Inr r"
  defines "st sel \<equiv> fold (collect_reachable r) sel ([], map (\<lambda>n. ''missing selected module: '' @ n) (filter (\<lambda>n. \<not> known r n) sel))"
  shows "snd (st sel) = [] \<and> concat (map (module_errors r ctx) (sort (fst (st sel)))) = [] \<and> cycle_errors r (sort (fst (st sel))) = []
     \<longleftrightarrow> graph_ok r sel ctx"
proof -
  have R: "set (sort (fst (st sel))) = reachable_from r sel" by (simp add: st_def collected)
  have cyc: "cycle_errors r (sort (fst (st sel))) = [] \<longleftrightarrow> acyclic (depends r \<inter> reachable_from r sel \<times> reachable_from r sel)"
    by (simp add: cycle_errors_exact edges_reachable [OF R])
  have modl: "concat (map (module_errors r ctx) (sort (fst (st sel)))) = [] \<longleftrightarrow>
      (\<forall>x \<in> reachable_from r sel. module_errors r ctx x = [])" unfolding R [symmetric] by simp
  have grow: "\<exists>es. snd (collect r refs st0) = snd st0 @ es" for refs st0
  proof (induction r refs st0 rule: collect.induct)
    case (2 r ref refs st0)
    let ?s = "if \<not> known r (mr_target_name ref) then (fst st0, snd st0 @ [missing_reference ref])
        else if mr_target_name ref \<in> set (fst st0) then st0
        else collect r (references_of r (mr_target_name ref)) (mr_target_name ref # fst st0, snd st0)"
    have "\<exists>es. snd ?s = snd st0 @ es" using 2(1) by auto
    with 2(2) show ?case unfolding collect.simps(2) by (metis append.assoc)
  qed simp
  have errs: "snd (st sel) = []" if "\<forall>n \<in> set sel. known r n" "\<forall>x \<in> reachable_from r sel. \<forall>ref \<in> set (references_of r x). reference_errors r ref = []"
  proof (rule ccontr)
    assume "snd (st sel) \<noteq> []"
    then obtain e where e: "e \<in> set (snd (st sel))" by (meson last_in_set)
    have init: "filter (\<lambda>n. \<not> known r n) sel = []" using that(1) by (simp add: filter_empty_conv)
    from e obtain ref where "\<not> known r (mr_target_name ref)" "ref \<in> set (map pointing_at (filter (known r) sel)) \<or>
        (\<exists>x \<in> set (fst (st sel)). ref \<in> set (references_of r x))"
      using collect_errors [of e r "map pointing_at (filter (known r) sel)" "([], [])"]
      unfolding st_def fold_collect init list.map by auto
    moreover from this(1) have "reference_errors r ref \<noteq> []" by (simp add: reference_errors_def)
    ultimately show False using that(2) R by (auto simp: pointing_at_def)
  qed
  have sel: "\<forall>n \<in> set sel. known r n" if "snd (st sel) = []"
    using that grow [of "map pointing_at (filter (known r) sel)"
        "([], map (\<lambda>n. ''missing selected module: '' @ n) (filter (\<lambda>n. \<not> known r n) sel))"]
    by (auto simp: st_def fold_collect filter_empty_conv)
  note none = module_errors_none [OF assms(1) collected(3)] reference_errors_none [OF assms(1)]
  show ?thesis unfolding cyc modl graph_ok_def using sel errs by (auto simp: none) blast
qed

text \<open>C13. Graph validation is exact: it accepts a selection precisely when every selected module exists, every
  reference of every reachable module resolves to a module of the expected kind, no reachable module has a denied
  capability class, and the dependencies among the reachable modules contain no cycle; and the modules it reports are
  exactly the reachable ones, sorted and without duplicates.\<close>

theorem validate_graph_exact:
  assumes "registry_init modules = Inr r"
  shows "(gv_is_valid (validate_graph r selected ctx) \<longleftrightarrow> graph_ok r selected ctx) \<and>
     set (gv_reachable_modules (validate_graph r selected ctx)) = reachable_from r selected \<and>
     sorted (gv_reachable_modules (validate_graph r selected ctx)) \<and> distinct (gv_reachable_modules (validate_graph r selected ctx))"
proof -
  have "graph_ok r (dedupe selected) ctx = graph_ok r selected ctx"
    by (simp add: graph_ok_def reachable_dedupe)
  then show ?thesis
    using validation_errors_none [OF assms, of "dedupe selected" ctx]
    by (simp add: validate_graph_def Let_def collected reachable_dedupe)
qed

subsection \<open>Samples\<close>

definition sample_module :: "string \<Rightarrow> string \<Rightarrow> string \<Rightarrow> string list \<Rightarrow> string list \<Rightarrow> module_metadata" where
  "sample_module name version kind tools policies =
     \<lparr>mm_name = name, mm_version = version, mm_kind = kind, mm_description = [], mm_runtime_role = None,
      mm_capability_class = ''analysis'', mm_domain_tags = {}, mm_task_types = {}, mm_risk_levels = {}, mm_task_domains = {},
      mm_required_inputs = {}, mm_required_tools = tools, mm_optional_tools = [], mm_knowledge_scopes = [], mm_data_scopes = [],
      mm_policies = policies, mm_validators = [], mm_selection_mode = ''direct'', mm_requires_all_policies = True\<rparr>"

definition sample_modules :: "module_metadata list" where
  "sample_modules =
     [sample_module ''review'' ''1.9.0'' ''skill'' [] [], sample_module ''review'' ''1.10.0'' ''skill'' [''reader''] [''audit''],
      sample_module ''reader'' ''0.1.0'' ''tool'' [] [''audit''], sample_module ''audit'' ''2.0.0'' ''policy'' [] [],
      sample_module ''loop'' ''1.0.0'' ''tool'' [''loop''] []]"

definition sample_registry :: registry where
  "sample_registry = (case registry_init sample_modules of Inr r \<Rightarrow> r | Inl _ \<Rightarrow> \<lparr>rg_by_name_version = [], rg_by_name = []\<rparr>)"

lemma sample_registry_init: "registry_init sample_modules = Inr sample_registry"
proof -
  have "case registry_init sample_modules of Inr r \<Rightarrow> True | Inl _ \<Rightarrow> False" by code_simp
  then show ?thesis by (auto simp: sample_registry_def split: sum.splits)
qed

theorem resolve_newest_witness:
  "\<exists>m \<in> set sample_modules. resolve sample_registry ''review'' None = Inr m \<and> mm_name m = ''review'' \<and>
     version_key (sample_module ''review'' ''1.10.0'' ''skill'' [''reader''] [''audit'']) \<le> version_key m"
proof -
  let ?m = "sample_module ''review'' ''1.10.0'' ''skill'' [''reader''] [''audit'']"
  have m: "?m \<in> set sample_modules" "mm_name ?m = ''review''" by (simp_all add: sample_modules_def sample_module_def)
  then have "\<exists>m \<in> set sample_modules. mm_name m = ''review''" by blast
  with resolve_newest [OF sample_registry_init, of "''review''"] m show ?thesis by (simp only: if_True) blast
qed

theorem validate_graph_exact_witness:
  "graph_ok sample_registry [''review''] None \<and> \<not> graph_ok sample_registry [''loop''] None \<and>
   reachable_from sample_registry [''review''] = {''audit'', ''reader'', ''review''}"
proof -
  have "gv_is_valid (validate_graph sample_registry [''review''] None)" "\<not> gv_is_valid (validate_graph sample_registry [''loop''] None)"
    "gv_reachable_modules (validate_graph sample_registry [''review''] None) = [''audit'', ''reader'', ''review'']" by code_simp+
  then show ?thesis
    using validate_graph_exact [OF sample_registry_init, of "[''review'']" None] validate_graph_exact [OF sample_registry_init, of "[''loop'']" None]
    by auto
qed

end
