(* ===== verification/Tenant_Resolution.thy ===== *)
theory Tenant_Resolution
  imports Models
begin

text \<open>
  \<open>control_plane/tenant_resolution.py\<close>: hostnames are normalised, indexed by tenant configuration and resolved to the
  authority of one active tenant. The reading of tenant files is left out.
\<close>

subsection \<open>Normalisation\<close>

datatype hostname_error =
    FieldRequired string
  | HostnamesNotList string
  | HostnameRecordNotObject string
  | DuplicateHostname string
  | ExpectedOriginInvalid string
  | ProxyFlagInvalid string
  | UnknownHostname string
  | HostnameNotActive string
  | SchemeIncluded
  | PathIncluded
  | PortInvalid
  | HostnameRequired

type_synonym 'a hres = "(hostname_error, 'a) res"

definition is_colon :: "char \<Rightarrow> bool" where
  "is_colon c \<longleftrightarrow> c = CHR '':''"

text \<open>\<open>s.rpartition(":")\<close>: the text before and after the last colon.\<close>

definition rpartition_colon :: "string \<Rightarrow> string \<times> string" where
  "rpartition_colon s =
     (let after = takeWhile (\<lambda>c. \<not> is_colon c) (rev s); before = dropWhile (\<lambda>c. \<not> is_colon c) (rev s)
      in (rev (tl before), rev after))"

definition is_dot :: "char \<Rightarrow> bool" where
  "is_dot c \<longleftrightarrow> c = CHR ''.''"

definition drop_port :: "string \<Rightarrow> string hres" where
  "drop_port v =
     (if \<exists>c \<in> set v. is_colon c then
        let (host, port) = rpartition_colon v in
        bindR (raise_if (host = [] \<or> \<not> (port \<noteq> [] \<and> list_all is_digit port)) PortInvalid) (\<lambda>_. Inr host)
      else Inr v)"

definition normalize_hostname :: "string \<Rightarrow> string hres" where
  "normalize_hostname hostname =
     (let v = casefold (strip hostname) in
      bindR (raise_if (startswith ''http://'' v \<or> startswith ''https://'' v) SchemeIncluded) (\<lambda>_.
      bindR (raise_if (CHR ''/'' \<in> set v) PathIncluded) (\<lambda>_.
      bindR (drop_port v) (\<lambda>host.
      let name = rstrip is_dot host in
      bindR (raise_if (name = []) HostnameRequired) (\<lambda>_. Inr name)))))"

definition required_string :: "obj \<Rightarrow> string \<Rightarrow> string hres" where
  "required_string m k =
     (case as_str (get m k) of
        None \<Rightarrow> Inl (Raise (FieldRequired k))
      | Some s \<Rightarrow> if strip s = [] then Inl (Raise (FieldRequired k)) else Inr (strip s))"

subsection \<open>The resolver\<close>

record hostname_authority =
  ha_tenant_id :: string
  ha_area_id :: string
  ha_hostname :: string
  ha_purpose :: string
  ha_status :: string
  ha_expected_origin :: "string option"
  ha_cloudflare_proxy_expected :: bool

type_synonym resolver = "(string, hostname_authority) dict"

definition ACTIVE_TENANT_STATUSES :: "string list" where
  "ACTIVE_TENANT_STATUSES = [''setup'', ''active'']"

definition expected_origin_of :: "string \<Rightarrow> obj \<Rightarrow> string option hres" where
  "expected_origin_of hostname r =
     (case get r ''expected_origin'' of
        JNull \<Rightarrow> Inr None
      | JStr s \<Rightarrow> Inr (Some s)
      | _ \<Rightarrow> Inl (Raise (ExpectedOriginInvalid hostname)))"

definition proxy_flag_of :: "string \<Rightarrow> obj \<Rightarrow> bool hres" where
  "proxy_flag_of hostname r =
     (case get r ''cloudflare_proxy_expected'' of JBool b \<Rightarrow> Inr b | _ \<Rightarrow> Inl (Raise (ProxyFlagInvalid hostname)))"

definition add_hostname :: "string \<Rightarrow> string \<Rightarrow> string \<Rightarrow> json \<Rightarrow> resolver \<Rightarrow> resolver hres" where
  "add_hostname tenant area status hostname_record d =
     (case as_obj hostname_record of
        None \<Rightarrow> Inl (Raise (HostnameRecordNotObject tenant))
      | Some r \<Rightarrow>
          bindR (required_string r ''hostname'') (\<lambda>raw.
          bindR (normalize_hostname raw) (\<lambda>hostname.
          bindR (raise_if (map_of d hostname \<noteq> None) (DuplicateHostname hostname)) (\<lambda>_.
          bindR (expected_origin_of hostname r) (\<lambda>expected_origin.
          bindR (proxy_flag_of hostname r) (\<lambda>proxy.
          bindR (required_string r ''purpose'') (\<lambda>purpose.
          Inr (dict_set hostname
            \<lparr>ha_tenant_id = tenant, ha_area_id = area, ha_hostname = hostname, ha_purpose = purpose, ha_status = status,
             ha_expected_origin = expected_origin, ha_cloudflare_proxy_expected = proxy\<rparr> d))))))))"

definition add_tenant :: "obj \<Rightarrow> resolver \<Rightarrow> resolver hres" where
  "add_tenant t d =
     bindR (required_string t ''tenant_id'') (\<lambda>tenant.
     bindR (required_string t ''area_id'') (\<lambda>area.
     bindR (required_string t ''status'') (\<lambda>status.
     case as_list (get t ''hostnames'') of
       None \<Rightarrow> Inl (Raise (HostnamesNotList tenant))
     | Some hostnames \<Rightarrow> foldR (add_hostname tenant area status) hostnames d)))"

definition resolver_init :: "obj list \<Rightarrow> resolver hres" where
  "resolver_init tenants = foldR add_tenant tenants []"

definition resolve_hostname :: "resolver \<Rightarrow> string \<Rightarrow> hostname_authority hres" where
  "resolve_hostname d hostname =
     bindR (normalize_hostname hostname) (\<lambda>normalized.
     case map_of d normalized of
       None \<Rightarrow> Inl (Raise (UnknownHostname normalized))
     | Some authority \<Rightarrow>
         bindR (raise_if (ha_status authority \<notin> set ACTIVE_TENANT_STATUSES) (HostnameNotActive normalized)) (\<lambda>_. Inr authority))"

subsection \<open>One tenant per hostname\<close>

text \<open>The normalised hostname that a record configures, and those of a tenant.\<close>

definition configured :: "json \<Rightarrow> string option" where
  "configured hostname_record =
     (case as_obj hostname_record of
        None \<Rightarrow> None
      | Some r \<Rightarrow> (case bindR (required_string r ''hostname'') normalize_hostname of Inr h \<Rightarrow> Some h | Inl _ \<Rightarrow> None))"

definition hostnames_of :: "obj \<Rightarrow> string list" where
  "hostnames_of t = List.map_filter configured (case as_list (get t ''hostnames'') of None \<Rightarrow> [] | Some hs \<Rightarrow> hs)"

definition owns :: "obj \<Rightarrow> hostname_authority \<Rightarrow> bool" where
  "owns t a \<longleftrightarrow> required_string t ''tenant_id'' = Inr (ha_tenant_id a) \<and> required_string t ''area_id'' = Inr (ha_area_id a) \<and>
     required_string t ''status'' = Inr (ha_status a) \<and> ha_hostname a \<in> set (hostnames_of t)"

lemma dict_set_new: "map_of d k = None \<Longrightarrow> dict_set k v d = d @ [(k, v)]"
  by (induction k v d rule: dict_set.induct) (auto split: if_splits)

lemma add_hostname_Inr:
  assumes "add_hostname tenant area status hr d = Inr d'"
  shows "\<exists>h a. configured hr = Some h \<and> d' = d @ [(h, a)] \<and> map_of d h = None \<and> ha_hostname a = h \<and>
     ha_tenant_id a = tenant \<and> ha_area_id a = area \<and> ha_status a = status"
  using assms by (auto simp: add_hostname_def res_simps configured_def dict_set_new split: option.splits)

lemma add_hostnames_Inr:
  assumes "foldR (add_hostname tenant area status) hs d = Inr d'" and "distinct (dict_keys d)"
  shows "dict_keys d' = dict_keys d @ List.map_filter configured hs \<and> distinct (dict_keys d') \<and>
     (\<forall>(h, a) \<in> set d'. (h, a) \<in> set d \<or> ha_hostname a = h \<and> ha_tenant_id a = tenant \<and> ha_area_id a = area \<and> ha_status a = status \<and>
        h \<in> set (List.map_filter configured hs))"
  using assms
proof (induction hs arbitrary: d)
  case (Cons hr hs)
  then obtain h a where h: "configured hr = Some h" "map_of d h = None" "ha_hostname a = h" "ha_tenant_id a = tenant"
      "ha_area_id a = area" "ha_status a = status" "foldR (add_hostname tenant area status) hs (d @ [(h, a)]) = Inr d'"
    by (auto simp: res_simps dest!: add_hostname_Inr)
  have "distinct (dict_keys (d @ [(h, a)]))" using Cons.prems(2) h(2) by (simp add: map_of_eq_None_iff)
  from Cons.IH [OF h(7) this] h show ?case by (auto simp: List.map_filter_simps) force+
qed (simp add: List.map_filter_simps)

lemma add_tenant_Inr:
  assumes "add_tenant t d = Inr d'" and "distinct (dict_keys d)"
  shows "dict_keys d' = dict_keys d @ hostnames_of t \<and> distinct (dict_keys d') \<and>
     (\<forall>(h, a) \<in> set d'. (h, a) \<in> set d \<or> ha_hostname a = h \<and> owns t a)"
proof -
  from assms(1) obtain tenant area status hs where t: "required_string t ''tenant_id'' = Inr tenant"
      "required_string t ''area_id'' = Inr area" "required_string t ''status'' = Inr status" "as_list (get t ''hostnames'') = Some hs"
      "foldR (add_hostname tenant area status) hs d = Inr d'"
    by (auto simp: add_tenant_def res_simps split: option.splits)
  from add_hostnames_Inr [OF t(5) assms(2)] t show ?thesis by (auto simp: hostnames_of_def owns_def) force+
qed

lemma resolver_init_Inr:
  assumes "foldR add_tenant tenants d0 = Inr d" and "distinct (dict_keys d0)"
  shows "dict_keys d = dict_keys d0 @ concat (map hostnames_of tenants) \<and> distinct (dict_keys d) \<and>
     (\<forall>(h, a) \<in> set d. (h, a) \<in> set d0 \<or> ha_hostname a = h \<and> (\<exists>t \<in> set tenants. owns t a))"
  using assms
proof (induction tenants arbitrary: d0)
  case (Cons t tenants)
  then obtain d1 where d1: "add_tenant t d0 = Inr d1" "foldR add_tenant tenants d1 = Inr d" by (auto simp: res_simps)
  from add_tenant_Inr [OF d1(1) Cons.prems(2)] Cons.IH [OF d1(2)] show ?case by fastforce
qed auto

text \<open>C17. A hostname leads to one active tenant: a configuration is accepted only if no two of its hostname records
  normalise to the same name, and a name is resolved exactly to the authority of the tenant that configured it, with
  that tenant's identifiers, and only while its status is \<open>setup\<close> or \<open>active\<close>.\<close>

theorem hostname_resolution_sound:
  assumes "resolver_init tenants = Inr d" and "resolve_hostname d hostname = Inr a"
  shows "distinct (concat (map hostnames_of tenants)) \<and> normalize_hostname hostname = Inr (ha_hostname a) \<and>
     ha_status a \<in> {''setup'', ''active''} \<and> (\<exists>t \<in> set tenants. owns t a)"
proof -
  from resolver_init_Inr [of tenants "[]" d] assms(1) have d: "distinct (concat (map hostnames_of tenants))"
    "\<forall>(h, a) \<in> set d. ha_hostname a = h \<and> (\<exists>t \<in> set tenants. owns t a)" by (auto simp: resolver_init_def)
  from assms(2) obtain n where n: "normalize_hostname hostname = Inr n" "map_of d n = Some a" "ha_status a \<in> set ACTIVE_TENANT_STATUSES"
    by (auto simp: resolve_hostname_def res_simps split: option.splits)
  with d show ?thesis by (force simp: ACTIVE_TENANT_STATUSES_def dest!: map_of_SomeD)
qed

definition sample_tenant :: "string \<Rightarrow> string \<Rightarrow> string \<Rightarrow> obj" where
  "sample_tenant i status host =
     [(''tenant_id'', JStr i), (''area_id'', JStr ''main''), (''status'', JStr status),
      (''hostnames'', JList [JObj [(''hostname'', JStr host), (''purpose'', JStr ''app''), (''cloudflare_proxy_expected'', JBool True)]])]"

definition sample_resolver :: resolver where
  "sample_resolver =
     (case resolver_init [sample_tenant ''acme'' ''active'' ''App.Acme.example.'', sample_tenant ''globex'' ''archived'' ''globex.example''] of
        Inr d \<Rightarrow> d | Inl _ \<Rightarrow> [])"

theorem hostname_resolution_sound_witness:
  "\<exists>a. resolve_hostname sample_resolver ''app.acme.EXAMPLE:443'' = Inr a \<and> ha_tenant_id a = ''acme'' \<and>
     normalize_hostname ''app.acme.EXAMPLE:443'' = Inr (ha_hostname a) \<and>
     resolve_hostname sample_resolver ''globex.example'' = Inl (Raise (HostnameNotActive ''globex.example''))"
proof -
  let ?ts = "[sample_tenant ''acme'' ''active'' ''App.Acme.example.'', sample_tenant ''globex'' ''archived'' ''globex.example'']"
  have "case resolver_init ?ts of Inr d \<Rightarrow> True | Inl _ \<Rightarrow> False" by code_simp
  then have init: "resolver_init ?ts = Inr sample_resolver" by (auto simp: sample_resolver_def split: sum.splits)
  have "case resolve_hostname sample_resolver ''app.acme.EXAMPLE:443'' of Inr a \<Rightarrow> ha_tenant_id a = ''acme'' | Inl _ \<Rightarrow> False"
    "resolve_hostname sample_resolver ''globex.example'' = Inl (Raise (HostnameNotActive ''globex.example''))" by code_simp+
  then show ?thesis using hostname_resolution_sound [OF init] by (auto split: sum.splits)
qed

end
