(* ===== verification/Artifacts.thy ===== *)
theory Artifacts
  imports Models
begin

text \<open>
  \<open>runtime/artifacts.py\<close>, the part the run queue relies on: paths and URIs of artifacts, the
  chunking of large strings, and reading and writing of JSON payloads without redaction
  (\<open>redact=False\<close>). The artifact directory is a dictionary from path components below the
  root to documents. A document that was written is read back as \<open>json.dumps\<close> with
  \<open>sort_keys=True\<close> leaves it: the same value with the keys of every object sorted.
\<close>

subsection \<open>State\<close>

record artifact_store =
  ar_root :: "string list"
  ar_uri_prefix :: string
  ar_threshold :: nat
  ar_chunk_size :: nat
  ar_json :: "(string list, json) dict"
  ar_text :: "(string list, string) dict"

definition is_slash :: "char \<Rightarrow> bool" where
  "is_slash c \<longleftrightarrow> c = CHR ''/''"

definition artifact_store_init :: "string list \<Rightarrow> string \<Rightarrow> nat \<Rightarrow> nat \<Rightarrow> artifact_store" where
  "artifact_store_init root uri_prefix threshold chunk_size =
     \<lparr>ar_root = root, ar_uri_prefix = rstrip is_slash uri_prefix, ar_threshold = threshold,
      ar_chunk_size = chunk_size, ar_json = [], ar_text = []\<rparr>"

subsection \<open>Paths\<close>

definition removesuffix :: "string \<Rightarrow> string \<Rightarrow> string" where
  "removesuffix suf s =
     (if suf \<noteq> [] \<and> length suf \<le> length s \<and> drop (length s - length suf) s = suf
      then take (length s - length suf) s else s)"

definition relative_path :: "string list \<Rightarrow> string list" where
  "relative_path raw_parts =
     (let safe_parts = map (\<lambda>part. slug_id (removesuffix ''.json'' part) None) (filter (\<lambda>part. part \<noteq> []) raw_parts)
      in if safe_parts = [] then [] else butlast safe_parts @ [last safe_parts @ ''.json''])"

definition field_path :: "string list \<Rightarrow> string list" where
  "field_path parts =
     (let safe_parts = map (\<lambda>part. slug_id part None) (filter (\<lambda>part. part \<noteq> []) parts)
      in if safe_parts = [] then [''root''] else safe_parts)"

text \<open>\<open>Path.as_posix\<close>: the path without parts is a dot.\<close>

definition as_posix :: "string list \<Rightarrow> string" where
  "as_posix path = (if path = [] then ''.'' else join ''/'' path)"

definition uri_for :: "artifact_store \<Rightarrow> string list \<Rightarrow> string" where
  "uri_for a path = ar_uri_prefix a @ ''/'' @ as_posix (relative_path path)"

definition uri_for_raw :: "artifact_store \<Rightarrow> string list \<Rightarrow> string" where
  "uri_for_raw a path = ar_uri_prefix a @ ''/'' @ as_posix path"

subsection \<open>Chunking of large strings\<close>

text \<open>The chunk size is positive, as in the configuration.\<close>

function slices :: "nat \<Rightarrow> string \<Rightarrow> string list" where
  "slices n s = (if n = 0 \<or> s = [] then [] else take n s # slices n (drop n s))"
  by pat_completeness auto
termination
  by (relation "measure (\<lambda>(n, s). length s)") auto

declare slices.simps [simp del]

definition chunk_entry :: "artifact_store \<Rightarrow> string list \<Rightarrow> nat \<Rightarrow> string \<Rightarrow> json" where
  "chunk_entry a chunk_dir idx chunk =
     JObj [(''index'', JInt (int idx)),
           (''uri'', JStr (uri_for_raw a (chunk_dir @ [pad_int 4 (int idx) @ ''.txt'']))),
           (''byte_start'', JInt (int (idx * ar_chunk_size a))),
           (''byte_length'', JInt (int (length chunk)))]"

text \<open>The JSON text of a manifest is read back with sorted keys, like every document.\<close>

fun sort_keys :: "json \<Rightarrow> json" where
  "sort_keys (JList xs) = JList (map sort_keys xs)"
| "sort_keys (JObj m) = JObj (sort_key fst (map (\<lambda>kv. (fst kv, sort_keys (snd kv))) m))"
| "sort_keys v = v"

definition write_chunked_text :: "string list \<Rightarrow> string list \<Rightarrow> string \<Rightarrow> artifact_store \<Rightarrow> json \<times> artifact_store" where
  "write_chunked_text base_path flds encoded a =
     (let chunk_dir = base_path @ ''chunks'' # field_path flds;
          parts = slices (ar_chunk_size a) encoded;
          indexed = zip [0..<length parts] parts;
          text = foldl (\<lambda>d (i, c). dict_set (chunk_dir @ [pad_int 4 (int i) @ ''.txt'']) c d) (ar_text a) indexed;
          manifest = JObj [(''artifact_kind'', JStr ''chunked_text''), (''encoding'', JStr ''utf-8''),
                           (''byte_length'', JInt (int (length encoded))),
                           (''chunk_size_bytes'', JInt (int (ar_chunk_size a))),
                           (''chunk_count'', JInt (int (length parts))),
                           (''chunks'', JList (map (\<lambda>(i, c). chunk_entry a chunk_dir i c) indexed))];
          manifest_path = chunk_dir @ [''manifest.json'']
      in (JObj [(''artifact_ref'', JStr ''chunked_text''), (''manifest_uri'', JStr (uri_for_raw a manifest_path)),
                (''encoding'', JStr ''utf-8''), (''byte_length'', JInt (int (length encoded))),
                (''chunk_count'', JInt (int (length parts)))],
          a\<lparr>ar_text := text, ar_json := dict_set manifest_path (sort_keys manifest) (ar_json a)\<rparr>))"

fun chunk_at :: "json \<Rightarrow> string list \<Rightarrow> string list \<Rightarrow> artifact_store \<Rightarrow> json \<times> artifact_store"
  and chunk_list :: "json list \<Rightarrow> int \<Rightarrow> string list \<Rightarrow> string list \<Rightarrow> artifact_store \<Rightarrow> json list \<times> artifact_store"
  and chunk_obj :: "(string \<times> json) list \<Rightarrow> string list \<Rightarrow> string list \<Rightarrow> artifact_store \<Rightarrow> obj \<times> artifact_store" where
  "chunk_at (JStr s) base fp a =
     (if length s \<le> ar_threshold a then (JStr s, a) else write_chunked_text base fp s a)"
| "chunk_at (JObj m) base fp a = (let (m', a') = chunk_obj m base fp a in (JObj m', a'))"
| "chunk_at (JList xs) base fp a = (let (xs', a') = chunk_list xs 0 base fp a in (JList xs', a'))"
| "chunk_at v base fp a = (v, a)"
| "chunk_list [] i base fp a = ([], a)"
| "chunk_list (x # xs) i base fp a =
     (let (x', a1) = chunk_at x base (fp @ [int_str i]) a; (xs', a2) = chunk_list xs (i + 1) base fp a1 in (x' # xs', a2))"
| "chunk_obj [] base fp a = ([], a)"
| "chunk_obj ((k, v) # m) base fp a =
     (let (v', a1) = chunk_at v base (fp @ [k]) a; (m', a2) = chunk_obj m base fp a1 in ((k, v') # m', a2))"

subsection \<open>Writing and reading\<close>

text \<open>\<open>write_json(path, payload, redact=False)\<close>. A path without parts names the root directory itself,
  which cannot be written.\<close>

definition write_json_raw :: "string list \<Rightarrow> json \<Rightarrow> (artifact_store, 'e, string) st" where
  "write_json_raw path payload a =
     (let relative = relative_path path in
      if relative = [] then (Inl (Py OSError), a)
      else let (v, a1) = chunk_at payload (butlast relative @ [removesuffix ''.json'' (last relative)]) [] a
           in (Inr (uri_for a1 relative), a1\<lparr>ar_json := dict_set relative (sort_keys v) (ar_json a1)\<rparr>))"

fun split_slash :: "string \<Rightarrow> string list" where
  "split_slash [] = [[]]"
| "split_slash (c # s) =
     (if is_slash c then [] # split_slash s else (case split_slash s of [] \<Rightarrow> [[c]] | p # ps \<Rightarrow> (c # p) # ps))"

text \<open>\<open>Path.resolve\<close> without symbolic links: dots and empty components vanish, \<open>..\<close> climbs.\<close>

fun resolve_from :: "string list \<Rightarrow> string list \<Rightarrow> string list" where
  "resolve_from here [] = here"
| "resolve_from here (p # ps) =
     (if p = [] \<or> p = ''.'' then resolve_from here ps
      else if p = ''..'' then resolve_from (butlast here) ps
      else resolve_from (here @ [p]) ps)"

definition read_json :: "string \<Rightarrow> artifact_store \<Rightarrow> ('e, json) res" where
  "read_json uri a =
     (let prefix = ar_uri_prefix a @ ''/'' in
      if \<not> startswith prefix uri then Inl (Py ValueError)
      else let relative = removeprefix prefix uri;
               target = resolve_from (if startswith ''/'' relative then [] else ar_root a) (split_slash relative);
               root = ar_root a
           in if take (length root) target \<noteq> root then Inl (Py ValueError)
              else case map_of (ar_json a) (drop (length root) target) of
                     None \<Rightarrow> Inl (Py OSError)
                   | Some v \<Rightarrow> Inr v)"

subsection \<open>Paths survive the URI\<close>

lemma join_Cons: "join sep (x # xs) = (if xs = [] then x else x @ sep @ join sep xs)"
  by (cases xs) simp_all

lemma split_no_slash: "\<forall>c \<in> set s. \<not> is_slash c \<Longrightarrow> split_slash s = [s]"
  by (induction s) auto

lemma split_append_slash:
  "\<forall>c \<in> set s. \<not> is_slash c \<Longrightarrow> split_slash (s @ CHR ''/'' # t) = s # split_slash t"
  by (induction s) (auto simp: is_slash_def)

lemma split_join:
  "ps \<noteq> [] \<Longrightarrow> \<forall>p \<in> set ps. \<forall>c \<in> set p. \<not> is_slash c \<Longrightarrow> split_slash (join ''/'' ps) = ps"
proof (induction ps)
  case (Cons p ps)
  show ?case
  proof (cases "ps = []")
    case True
    then show ?thesis using Cons.prems by (simp add: split_no_slash)
  next
    case False
    then show ?thesis using Cons by (simp add: join_Cons split_append_slash)
  qed
qed simp

lemma resolve_plain:
  "\<forall>p \<in> set ps. p \<noteq> [] \<and> p \<noteq> ''.'' \<and> p \<noteq> ''..'' \<Longrightarrow> resolve_from here ps = here @ ps"
  by (induction ps arbitrary: here) auto

lemma removesuffix_append: "suf \<noteq> [] \<Longrightarrow> removesuffix suf (s @ suf) = s"
  by (simp add: removesuffix_def)

definition plain_part :: "string \<Rightarrow> bool" where
  "plain_part p \<longleftrightarrow> p \<noteq> [] \<and> is_lower (hd p) \<and> (\<forall>c \<in> set p. slug_char c \<or> c = CHR ''.'')"

lemma plain_part_dots: "plain_part p \<Longrightarrow> p \<noteq> [] \<and> p \<noteq> ''.'' \<and> p \<noteq> ''..''"
  by (auto simp: plain_part_def is_lower_def)

lemma slug_chars_no_dot: "slug_char c \<Longrightarrow> c \<noteq> CHR ''.'' \<and> \<not> is_slash c"
  by (auto simp: slug_char_def is_lower_def is_digit_def is_dash_def is_slash_def)

lemma slug_id_chars: "is_slug (slug_id v None)" "\<forall>c \<in> set (slug_id v None). slug_char c"
  using slug_id_is_slug [of None v] by (simp_all add: is_slug_def list_all_iff)

lemma relative_path_plain: "p \<in> set (relative_path parts) \<Longrightarrow> plain_part p"
proof -
  have s: "plain_part (slug_id v None)" "plain_part (slug_id v None @ ''.json'')" for v
    using slug_id_chars [of v] by (auto simp: plain_part_def is_slug_def slug_char_def is_lower_def)
  assume "p \<in> set (relative_path parts)"
  then show ?thesis using s
    by (auto simp: relative_path_def Let_def last_map split: if_splits dest!: in_set_butlastD)
qed

lemma removesuffix_slug: "removesuffix ''.json'' (slug_id v None) = slug_id v None"
proof -
  have "drop n (slug_id v None) \<noteq> ''.json''" for n
    using slug_id_chars(2) [of v] slug_chars_no_dot by (metis in_set_dropD list.set_intros(1))
  then show ?thesis by (simp add: removesuffix_def)
qed

lemma relative_path_idem: "relative_path (relative_path parts) = relative_path parts"
proof (cases "filter (\<lambda>part. part \<noteq> []) parts = []")
  case False
  define safe where "safe = map (\<lambda>part. slug_id (removesuffix ''.json'' part) None) (filter (\<lambda>part. part \<noteq> []) parts)"
  have ne: "safe \<noteq> []" using False by (simp add: safe_def)
  have fix1: "slug_id (removesuffix ''.json'' p) None = p" if "p \<in> set safe" for p
    using that by (auto simp: safe_def removesuffix_slug slug_id_idem)
  have fix2: "slug_id (removesuffix ''.json'' (p @ ''.json'')) None = p" if "p \<in> set safe" for p
    using that by (auto simp: safe_def removesuffix_append slug_id_idem)
  have r: "relative_path parts = butlast safe @ [last safe @ ''.json'']"
    using ne by (simp add: relative_path_def safe_def Let_def)
  have "p \<noteq> []" if "p \<in> set (butlast safe @ [last safe @ ''.json''])" for p
    using relative_path_plain [of p parts] that r by (simp add: plain_part_def)
  then have f: "filter (\<lambda>part. part \<noteq> []) (butlast safe @ [last safe @ ''.json'']) = butlast safe @ [last safe @ ''.json'']"
    by (intro filter_True) blast
  have "map (\<lambda>part. slug_id (removesuffix ''.json'' part) None) (butlast safe) = butlast safe"
    using fix1 by (intro map_idI) (auto dest: in_set_butlastD)
  then have "map (\<lambda>part. slug_id (removesuffix ''.json'' part) None) (butlast safe @ [last safe @ ''.json'']) = butlast safe @ [last safe]"
    using fix2 [of "last safe"] ne by simp
  then show ?thesis unfolding r relative_path_def [of "butlast safe @ [last safe @ ''.json'']"] f Let_def by simp
qed (simp add: relative_path_def)

subsection \<open>Reading back\<close>

text \<open>The strings a payload holds are all small enough to stay in place.\<close>

fun unchunked :: "nat \<Rightarrow> json \<Rightarrow> bool" where
  "unchunked n (JStr s) \<longleftrightarrow> length s \<le> n"
| "unchunked n (JList xs) \<longleftrightarrow> (\<forall>x \<in> set xs. unchunked n x)"
| "unchunked n (JObj m) \<longleftrightarrow> (\<forall>kv \<in> set m. unchunked n (snd kv))"
| "unchunked n v \<longleftrightarrow> True"

lemma chunk_unchanged:
  "unchunked (ar_threshold a) v \<Longrightarrow> chunk_at v base fp a = (v, a)"
  "\<forall>x \<in> set xs. unchunked (ar_threshold a) x \<Longrightarrow> chunk_list xs i base fp a = (xs, a)"
  "\<forall>kv \<in> set m. unchunked (ar_threshold a) (snd kv) \<Longrightarrow> chunk_obj m base fp a = (m, a)"
  by (induction v base fp a and xs i base fp a and m base fp a rule: chunk_at_chunk_list_chunk_obj.induct) auto

lemma written_path:
  assumes "relative_path path \<noteq> []"
  shows "split_slash (join ''/'' (relative_path path)) = relative_path path" and "\<not> startswith ''/'' (join ''/'' (relative_path path))"
    and "\<And>q. q \<in> set (relative_path path) \<Longrightarrow> q \<noteq> [] \<and> q \<noteq> ''.'' \<and> q \<noteq> ''..'' \<and> CHR 92 \<notin> set q \<and> CHR '':'' \<notin> set q"
proof -
  let ?r = "relative_path path"
  have plain: "plain_part q" if "q \<in> set ?r" for q by (rule relative_path_plain [OF that])
  show "split_slash (join ''/'' ?r) = ?r" using plain slug_chars_no_dot by (intro split_join [OF assms]) (auto simp: plain_part_def is_slash_def)
  show "q \<noteq> [] \<and> q \<noteq> ''.'' \<and> q \<noteq> ''..'' \<and> CHR 92 \<notin> set q \<and> CHR '':'' \<notin> set q" if "q \<in> set ?r" for q
    using plain [OF that] plain_part_dots [OF plain [OF that]]
    by (auto simp: plain_part_def slug_char_def is_lower_def is_digit_def is_dash_def)
  have hd_r: "is_lower (hd (hd ?r))" "hd ?r \<noteq> []" using plain [OF hd_in_set [OF assms]] by (simp_all add: plain_part_def)
  show "\<not> startswith ''/'' (join ''/'' ?r)"
  proof
    assume "startswith ''/'' (join ''/'' ?r)"
    then have "hd (join ''/'' ?r) = CHR ''/''" by (auto simp: startswith_iff)
    moreover have "hd (join ''/'' ?r) = hd (hd ?r)" using assms hd_r(2) by (cases ?r) (simp_all add: join_Cons)
    ultimately show False using hd_r(1) by (simp add: is_lower_def)
  qed
qed

lemma read_json_at:
  assumes "map_of (ar_json a) (relative_path path) = Some v" and "relative_path path \<noteq> []"
  shows "read_json (uri_for a (relative_path path)) a = (Inr v :: ('e, json) res)"
proof -
  let ?r = "relative_path path"
  have u: "uri_for a ?r = (ar_uri_prefix a @ ''/'') @ join ''/'' ?r" using assms(2) by (simp add: uri_for_def as_posix_def relative_path_idem)
  have "resolve_from (ar_root a) ?r = ar_root a @ ?r" using written_path(3) [OF assms(2)] by (intro resolve_plain) blast
  then show ?thesis
    using assms(1) written_path(1,2) [OF assms(2)] startswith_append [of "ar_uri_prefix a @ ''/''" "join ''/'' ?r"]
    by (simp add: read_json_def u removeprefix_def Let_def del: startswith_append)
qed

lemma write_read_back:
  assumes "write_json_raw path payload a = (Inr uri :: ('e, string) res, a')"
    and "unchunked (ar_threshold a) payload"
  shows "read_json uri a' = (Inr (sort_keys payload) :: ('f, json) res)"
proof -
  have ne: "relative_path path \<noteq> []" using assms(1) by (auto simp: write_json_raw_def Let_def split: if_splits)
  have "a' = a\<lparr>ar_json := dict_set (relative_path path) (sort_keys payload) (ar_json a)\<rparr>"
    "uri = uri_for a (relative_path path)"
    using assms ne by (auto simp: write_json_raw_def Let_def chunk_unchanged)
  then have "uri = uri_for a' (relative_path path)" "map_of (ar_json a') (relative_path path) = Some (sort_keys payload)"
    by (simp_all add: uri_for_def dict_simps)
  then show ?thesis using read_json_at [OF _ ne, of a' "sort_keys payload"] by simp
qed

text \<open>Artifacts can be read back: a payload whose strings all fit below the chunking threshold is
  returned by \<open>read_json\<close> from the URI that writing it returned, with the keys of its objects
  sorted and nothing else changed.\<close>

theorem artifact_roundtrip:
  assumes "write_json_raw path payload a = (Inr uri :: ('e, string) res, a')"
    and "unchunked (ar_threshold a) payload"
  shows "read_json uri a' = (Inr (sort_keys payload) :: ('f, json) res)"
  by (rule write_read_back [OF assms])

lemma map_of_sort_keys: "distinct (dict_keys m) \<Longrightarrow> map_of (sort_key fst m) = map_of m"
  by (subst map_of_inject_set) (simp_all add: distinct_map inj_on_def)

lemma get_sort_keys:
  "distinct (dict_keys m) \<Longrightarrow> sort_keys (JObj m) = JObj m' \<Longrightarrow> get m k = JStr x \<Longrightarrow> get m' k = JStr x"
proof -
  assume d: "distinct (dict_keys m)" and s: "sort_keys (JObj m) = JObj m'" and g: "get m k = JStr x"
  let ?n = "map (\<lambda>kv. (fst kv, sort_keys (snd kv))) m"
  have "map_of m' = map_of ?n" using s d by (auto simp: map_of_sort_keys comp_def)
  moreover have "map_of ?n k = map_option sort_keys (map_of m k)"
    by (induction m) auto
  ultimately show ?thesis using g by (auto simp: get_def get_or_def split: option.splits)
qed

text \<open>Large strings do not survive: although a payload written with \<open>redact=False\<close> is meant to be read
  back as it was, a string longer than the threshold is replaced by a reference object that
  \<open>read_json\<close> does not resolve, so the field comes back as an object instead of a string.\<close>

theorem large_string_comes_back_as_reference:
  assumes "write_json_raw path (JObj [(k, JStr text)]) a = (Inr uri :: ('e, string) res, a')"
    and "ar_threshold a < length text"
  shows "\<exists>ref. read_json uri a' = (Inr (JObj [(k, JObj ref)]) :: ('f, json) res) \<and>
     get ref ''artifact_ref'' = JStr ''chunked_text''"
proof -
  have ne: "relative_path path \<noteq> []" using assms(1) by (auto simp: write_json_raw_def Let_def split: if_splits)
  obtain r a1 where w: "write_chunked_text (butlast (relative_path path) @ [removesuffix ''.json'' (last (relative_path path))])
      ([] @ [k]) text a = (JObj r, a1)" and r: "get r ''artifact_ref'' = JStr ''chunked_text''" "distinct (dict_keys r)"
    and pre: "ar_uri_prefix a1 = ar_uri_prefix a"
    by (simp add: write_chunked_text_def Let_def)
  obtain ref where ref: "sort_keys (JObj r) = JObj ref" by simp
  have a': "a' = a1\<lparr>ar_json := dict_set (relative_path path) (JObj [(k, JObj ref)]) (ar_json a1)\<rparr>"
    and u: "uri = uri_for a1 (relative_path path)"
    using assms ne w ref by (auto simp: write_json_raw_def Let_def)
  have "map_of (ar_json a') (relative_path path) = Some (JObj [(k, JObj ref)])" by (simp add: a' dict_simps)
  from read_json_at [OF this ne, where 'e = 'f]
  have "read_json uri a' = (Inr (JObj [(k, JObj ref)]) :: ('f, json) res)" by (simp add: u a' uri_for_def)
  with get_sort_keys [OF r(2) ref r(1)] show ?thesis by blast
qed

definition sample_artifacts :: artifact_store where
  "sample_artifacts = artifact_store_init [''srv'', ''artifacts''] ''hetzner://runtime'' 16 8"

theorem artifact_roundtrip_witness:
  "read_json (uri_for sample_artifacts [''queue'', ''q-1'', ''task-payload.json''])
     (snd (write_json_raw [''queue'', ''q-1'', ''task-payload''] (JObj [(''request'', JStr ''Review''), (''id'', JInt 1)]) sample_artifacts
        :: (unit, string) res \<times> artifact_store))
   = (Inr (JObj [(''id'', JInt 1), (''request'', JStr ''Review'')]) :: (unit, json) res)"
proof -
  let ?p = "JObj [(''request'', JStr ''Review''), (''id'', JInt 1)]"
  let ?w = "write_json_raw [''queue'', ''q-1'', ''task-payload''] ?p sample_artifacts :: (unit, string) res \<times> artifact_store"
  have "fst ?w = Inr (uri_for sample_artifacts [''queue'', ''q-1'', ''task-payload.json''])"
    "sort_keys ?p = JObj [(''id'', JInt 1), (''request'', JStr ''Review'')]"
    "unchunked (ar_threshold sample_artifacts) ?p" by code_simp+
  then show ?thesis
    using artifact_roundtrip [of "[''queue'', ''q-1'', ''task-payload'']" ?p sample_artifacts _ "snd ?w", where 'e = unit and 'f = unit]
    by (metis prod.collapse)
qed

theorem large_string_comes_back_as_reference_witness:
  "\<exists>uri a' ref. write_json_raw [''queue'', ''q-1'', ''task-payload''] (JObj [(''request'', JStr ''Review the whole diff'')]) sample_artifacts
       = (Inr uri :: (unit, string) res, a') \<and>
     read_json uri a' = (Inr (JObj [(''request'', JObj ref)]) :: (unit, json) res)"
proof -
  let ?p = "JObj [(''request'', JStr ''Review the whole diff'')]"
  let ?w = "write_json_raw [''queue'', ''q-1'', ''task-payload''] ?p sample_artifacts :: (unit, string) res \<times> artifact_store"
  have "case fst ?w of Inl _ \<Rightarrow> False | Inr _ \<Rightarrow> True" by code_simp
  then obtain uri where w: "?w = (Inr uri, snd ?w)" by (auto simp: prod_eq_iff split: sum.splits)
  moreover have "ar_threshold sample_artifacts < length ''Review the whole diff''" by code_simp
  ultimately show ?thesis
    using large_string_comes_back_as_reference [OF w, where 'f = unit] by blast
qed

end
