(* ===== verification/Decimal.thy ===== *)
theory Decimal
  imports Py_Strings
begin

text \<open>The decimal text of a number: its characters are digits, and it determines the number.\<close>

lemma dec_str_digits: "0 \<le> i \<Longrightarrow> set (dec_str i) \<subseteq> digit_char ` {0..9}"
proof (induction i rule: dec_str.induct)
  case (1 i)
  show ?case
  proof (cases "i < 10")
    case True
    with 1 show ?thesis by (subst dec_str.simps) auto
  next
    case False
    then have "set (dec_str (i div 10)) \<subseteq> digit_char ` {0..9}" using 1 by (simp add: pos_imp_zdiv_nonneg_iff)
    moreover have "0 \<le> i mod 10" "i mod 10 \<le> 9" by simp_all
    ultimately show ?thesis using False by (subst dec_str.simps) auto
  qed
qed

lemma digit_chars: "digit_char ` {0..9} = set ''0123456789''"
proof -
  have "map digit_char [0..9] = ''0123456789''" by code_simp
  then show ?thesis by (metis list.set_map set_upto)
qed

lemma ord_digit: "0 \<le> d \<Longrightarrow> d < 10 \<Longrightarrow> ord_of (digit_char d) = 48 + d"
  by (simp add: digit_char_def of_char_of)

lemma digits_val_append: "digits_val (s @ [c]) = 10 * digits_val s + (ord_of c - 48)"
  by (simp add: digits_val_def)

lemma digits_val_dec: "0 \<le> i \<Longrightarrow> digits_val (dec_str i) = i"
proof (induction i rule: dec_str.induct)
  case (1 i)
  show ?case
  proof (cases "i < 10")
    case True
    have "digits_val [digit_char i] = i" using 1 True ord_digit [of i] by (simp add: digits_val_def)
    with True show ?thesis by (subst dec_str.simps) simp
  next
    case False
    then have "digits_val (dec_str (i div 10)) = i div 10" using 1 by (simp add: pos_imp_zdiv_nonneg_iff)
    moreover have "ord_of (digit_char (i mod 10)) = 48 + i mod 10" by (rule ord_digit) simp_all
    ultimately show ?thesis using False by (subst dec_str.simps) (simp add: digits_val_append)
  qed
qed

lemma int_str_no_colon: "CHR '':'' \<notin> set (int_str i)"
  using dec_str_digits [of i] dec_str_digits [of "- i"] unfolding int_str_def digit_chars by auto

lemma int_str_inject: "0 \<le> i \<Longrightarrow> 0 \<le> j \<Longrightarrow> int_str i = int_str j \<longleftrightarrow> i = j"
  using digits_val_dec [of i] digits_val_dec [of j] by (metis int_str_def not_less)

end
