(* ===== verification/Canonical_Json.thy ===== *)
theory Canonical_Json
  imports Artifacts Decimal
begin

text \<open>
  \<open>json.dumps(value, sort_keys=True, separators=(",", ":"))\<close>, the text over which a runtime profile is sealed. Characters
  outside the printable ASCII range are written as escapes. Shown is that the text determines the value up to the order
  of the keys: the text of a value can be followed by a delimiter only, and is then read in one way.
\<close>

subsection \<open>The text of a value\<close>

definition hex_digit :: "nat \<Rightarrow> char" where
  "hex_digit n = ''0123456789abcdef'' ! n"

definition escape :: "char \<Rightarrow> string" where
  "escape c =
     (if c = CHR 0x22 then [CHR 0x5C, CHR 0x22]
      else if c = CHR 0x5C then [CHR 0x5C, CHR 0x5C]
      else if c = CHR 0x0A then [CHR 0x5C, CHR ''n'']
      else if c = CHR 0x0D then [CHR 0x5C, CHR ''r'']
      else if c = CHR 0x09 then [CHR 0x5C, CHR ''t'']
      else if c = CHR 0x0C then [CHR 0x5C, CHR ''f'']
      else if c = CHR 0x08 then [CHR 0x5C, CHR ''b'']
      else if 32 \<le> (of_char c :: nat) \<and> (of_char c :: nat) \<le> 126 then [c]
      else CHR 0x5C # ''u00'' @ [hex_digit (of_char c div 16), hex_digit (of_char c mod 16)])"

definition quote :: "string \<Rightarrow> string" where
  "quote s = CHR 0x22 # concat (map escape s) @ [CHR 0x22]"

fun render :: "json \<Rightarrow> string" where
  "render JNull = ''null''"
| "render (JBool b) = (if b then ''true'' else ''false'')"
| "render (JInt i) = int_str i"
| "render (JStr s) = quote s"
| "render (JList xs) = CHR ''['' # join '','' (map render xs) @ '']''"
| "render (JObj m) = CHR ''{'' # join '','' (map (\<lambda>kv. quote (fst kv) @ CHR '':'' # render (snd kv)) m) @ ''}''"

definition dumps :: "json \<Rightarrow> string" where
  "dumps v = render (sort_keys v)"

subsection \<open>Strings are read in one way\<close>

definition hex_value :: "char \<Rightarrow> nat" where
  "hex_value c = (if of_char c < (97::nat) then of_char c - 48 else of_char c - 87)"

text \<open>The character that an escaped text starts with, and the rest.\<close>

fun read_char :: "string \<Rightarrow> char \<times> string" where
  "read_char [] = (CHR 0x00, [])"
| "read_char (c # x) =
     (if c \<noteq> CHR 0x5C then (c, x)
      else case x of
        [] \<Rightarrow> (c, x)
      | d # y \<Rightarrow>
          if d = CHR 0x22 \<or> d = CHR 0x5C then (d, y)
          else if d = CHR ''n'' then (CHR 0x0A, y)
          else if d = CHR ''r'' then (CHR 0x0D, y)
          else if d = CHR ''t'' then (CHR 0x09, y)
          else if d = CHR ''f'' then (CHR 0x0C, y)
          else if d = CHR ''b'' then (CHR 0x08, y)
          else (char_of (16 * hex_value (y ! 2) + hex_value (y ! 3)), drop 4 y))"

lemma hex_value_digit: "n < 16 \<Longrightarrow> hex_value (hex_digit n) = n"
proof -
  have "\<forall>n \<in> set [0..<16]. hex_value (hex_digit n) = n" by code_simp
  then show "n < 16 \<Longrightarrow> hex_value (hex_digit n) = n" by simp
qed

lemma read_escape: "read_char (escape c @ x) = (c, x)"
proof -
  have "of_char c < (256::nat)" by (rule nat_of_char_less_256)
  then have hex: "hex_value (hex_digit (of_char c div 16)) = of_char c div 16" "hex_value (hex_digit (of_char c mod 16)) = of_char c mod 16"
    by (simp_all add: hex_value_digit div_less_iff_less_mult)
  have "char_of (16 * (of_char c div 16) + of_char c mod 16 :: nat) = c" by simp
  then show ?thesis by (simp add: escape_def hex)
qed

lemma escape_head: "\<exists>d y. escape c = d # y \<and> d \<noteq> CHR 0x22"
  by (simp add: escape_def)

lemma escape_unique: "escape c @ x = escape d @ y \<Longrightarrow> c = d \<and> x = y"
  by (metis read_escape prod.inject)

lemma escapes_unique:
  "concat (map escape s) @ CHR 0x22 # r = concat (map escape t) @ CHR 0x22 # r' \<Longrightarrow> s = t \<and> r = r'"
proof (induction s arbitrary: t)
  case Nil
  show ?case
  proof (cases t)
    case (Cons d t')
    with Nil escape_head [of d] show ?thesis by auto
  qed (use Nil in simp)
next
  case (Cons c s)
  show ?case
  proof (cases t)
    case Nil
    with Cons.prems escape_head [of c] show ?thesis by auto
  next
    case (Cons d t')
    with Cons.prems have "escape c @ (concat (map escape s) @ CHR 0x22 # r) = escape d @ (concat (map escape t') @ CHR 0x22 # r')" by simp
    from escape_unique [OF this] Cons.IH [of t'] Cons show ?thesis by blast
  qed
qed

lemma quote_unique: "quote s @ r = quote t @ r' \<Longrightarrow> s = t \<and> r = r'"
  using escapes_unique [of s r t r'] by (simp add: quote_def)

subsection \<open>Numbers are read in one way\<close>

lemma dec_str_no_sign: "0 \<le> k \<Longrightarrow> CHR ''-'' \<notin> set (dec_str k)"
  using dec_str_digits [of k] unfolding digit_chars by auto

lemma dec_str_inj: "0 \<le> i \<Longrightarrow> 0 \<le> j \<Longrightarrow> dec_str i = dec_str j \<Longrightarrow> i = j"
  by (metis digits_val_dec)

lemma sign_first: "0 \<le> i \<Longrightarrow> dec_str i \<noteq> CHR ''-'' # z"
  using dec_str_no_sign [of i] by (metis list.set_intros(1))

lemma int_str_inj:
  assumes "int_str i = int_str j"
  shows "i = j"
proof (cases "i < 0"; cases "j < 0")
  assume "i < 0" "j < 0"
  with assms have "dec_str (- i) = dec_str (- j)" by (simp add: int_str_def)
  with \<open>i < 0\<close> \<open>j < 0\<close> show ?thesis using dec_str_inj [of "- i" "- j"] by simp
next
  assume "\<not> i < 0" "\<not> j < 0"
  with assms dec_str_inj [of i j] show ?thesis by (simp add: int_str_def)
next
  assume "i < 0" "\<not> j < 0"
  with assms sign_first [of j "dec_str (- i)"] show ?thesis by (simp add: int_str_def)
next
  assume "\<not> i < 0" "j < 0"
  with assms sign_first [of i "dec_str (- j)"] show ?thesis by (simp add: int_str_def)
qed

lemma int_str_chars: "set (int_str i) \<subseteq> set ''-0123456789''"
  using dec_str_digits [of i] dec_str_digits [of "- i"] unfolding int_str_def digit_chars by auto

text \<open>What may follow a value.\<close>

definition delimited :: "string \<Rightarrow> bool" where
  "delimited r \<longleftrightarrow> r = [] \<or> hd r \<in> set '',]}''"

lemma delimited_simps [simp]: "delimited []" "delimited (c # r) \<longleftrightarrow> c \<in> set '',]}''"
  by (simp_all add: delimited_def)

lemma int_str_unique:
  assumes "int_str i @ r = int_str j @ r'" "delimited r" "delimited r'"
  shows "i = j \<and> r = r'"
proof -
  define num where "num c \<longleftrightarrow> c \<in> set ''-0123456789''" for c
  have "takeWhile num (int_str k @ t) = int_str k" if "delimited t" for k t
  proof -
    have "\<forall>c \<in> set (int_str k). num c" using int_str_chars [of k] unfolding num_def by blast
    moreover have "takeWhile num t = []" using that by (cases t) (auto simp: num_def)
    ultimately show ?thesis by (simp add: takeWhile_append2)
  qed
  from this [OF assms(2), of i] this [OF assms(3), of j] assms(1) have eq: "int_str i = int_str j" by simp
  with assms(1) int_str_inj [OF eq] show ?thesis by simp
qed

lemma int_str_head: "\<exists>d y. int_str i = d # y \<and> d \<in> set ''-0123456789''"
proof -
  have "dec_str i \<noteq> []" by (subst dec_str.simps) simp
  then have "int_str i \<noteq> []" by (simp add: int_str_def)
  then obtain d y where "int_str i = d # y" by (cases "int_str i") blast+
  with int_str_chars [of i] show ?thesis by simp
qed

subsection \<open>Sequences are read in one way\<close>

definition self_delimiting :: "('a \<Rightarrow> string) \<Rightarrow> 'a \<Rightarrow> bool" where
  "self_delimiting f x \<longleftrightarrow> (\<forall>y r r'. delimited r \<longrightarrow> delimited r' \<longrightarrow> f x @ r = f y @ r' \<longrightarrow> x = y \<and> r = r')"

lemma join_Cons_cases: "join '','' (z # map f xs) = z @ (if xs = [] then [] else CHR '','' # join '','' (map f xs))"
  by (cases xs) simp_all

lemma joined_unique:
  assumes "\<forall>x \<in> set xs. self_delimiting f x" and head: "\<And>x. \<exists>d y. f x = d # y \<and> d \<notin> set '',]}''" and c: "c \<in> set '']}''"
    and eq: "join '','' (map f xs) @ c # r = join '','' (map f ys) @ c # r'"
  shows "xs = ys \<and> r = r'"
  using assms(1) eq
proof (induction xs arbitrary: ys)
  case Nil
  show ?case
  proof (cases ys)
    case (Cons y ys')
    obtain d z where "f y = d # z" "d \<notin> set '',]}''" using head by blast
    with Nil Cons c show ?thesis by (auto simp: join_Cons_cases simp del: join.simps(2,3))
  qed (use Nil in simp)
next
  case (Cons x xs)
  show ?case
  proof (cases ys)
    case Nil
    obtain d z where "f x = d # z" "d \<notin> set '',]}''" using head by blast
    with Cons.prems Nil c show ?thesis by (auto simp: join_Cons_cases simp del: join.simps(2,3))
  next
    case ys: (Cons y ys')
    let ?rest = "\<lambda>zs r. (if zs = [] then [] else CHR '','' # join '','' (map f zs)) @ c # r"
    have del: "delimited (?rest zs r)" for zs r using c by auto
    have "f x @ ?rest xs r = f y @ ?rest ys' r'"
      using Cons.prems(2) by (simp add: ys join_Cons_cases del: join.simps(2,3))
    moreover have "self_delimiting f x" using Cons.prems(1) by simp
    ultimately have "x = y \<and> ?rest xs r = ?rest ys' r'" using del [of xs r] del [of ys' r'] unfolding self_delimiting_def by blast
    then have "x = y" and rest: "?rest xs r = ?rest ys' r'" by blast+
    moreover have "xs = ys' \<and> r = r'"
    proof (cases "xs = [] \<or> ys' = []")
      case True
      with rest c show ?thesis by (auto split: if_splits)
    next
      case False
      with rest Cons.IH [of ys'] Cons.prems(1) show ?thesis by simp
    qed
    ultimately show ?thesis using ys by simp
  qed
qed

subsection \<open>Values are read in one way\<close>

lemma render_head: "\<exists>d y. render v = d # y \<and> d \<notin> set '',]}''"
proof (cases v)
  case (JInt i)
  then show ?thesis using int_str_head [of i] by auto
qed (auto simp: quote_def)

lemma entry_head: "\<exists>d y. quote k @ z = d # y \<and> d \<notin> set '',]}''"
  by (simp add: quote_def)

lemma constant_unique:
  assumes "v = JNull \<or> (\<exists>b. v = JBool b)" and "render v @ r = render w @ r'"
  shows "v = w \<and> r = r'"
proof (cases w)
  case (JInt j)
  with int_str_head [of j] assms show ?thesis by (auto split: if_splits)
qed (use assms in \<open>auto simp: quote_def split: if_splits\<close>)

lemma render_unique: "self_delimiting render v"
proof (induction v)
  case (JInt i)
  show ?case unfolding self_delimiting_def
  proof (intro allI impI)
    fix w r r' assume d: "delimited r" "delimited r'" and eq: "render (JInt i) @ r = render w @ r'"
    obtain e z where e: "int_str i = e # z" "e \<in> set ''-0123456789''" using int_str_head by blast
    show "JInt i = w \<and> r = r'"
    proof (cases w)
      case (JInt j)
      with int_str_unique [OF _ d, of i j] eq show ?thesis by simp
    qed (use eq e in \<open>auto simp: quote_def split: if_splits\<close>)
  qed
next
  case (JStr s)
  show ?case unfolding self_delimiting_def
  proof (intro allI impI)
    fix w r r' assume d: "delimited r" "delimited r'" and eq: "render (JStr s) @ r = render w @ r'"
    show "JStr s = w \<and> r = r'"
    proof (cases w)
      case (JInt j)
      with int_str_head [of j] eq show ?thesis by (auto simp: quote_def)
    next
      case (JStr t)
      with quote_unique [of s r t r'] eq show ?thesis by simp
    qed (use eq in \<open>auto simp: quote_def split: if_splits\<close>)
  qed
next
  case (JList xs)
  show ?case unfolding self_delimiting_def
  proof (intro allI impI)
    fix w r r' assume d: "delimited r" "delimited r'" and eq: "render (JList xs) @ r = render w @ r'"
    show "JList xs = w \<and> r = r'"
    proof (cases w)
      case (JInt j)
      with int_str_head [of j] eq show ?thesis by auto
    next
      case (JList ys)
      have "xs = ys \<and> r = r'"
        by (rule joined_unique [of xs render "CHR '']''"]) (use JList.IH render_head eq JList in auto)
      with JList show ?thesis by simp
    qed (use eq in \<open>auto simp: quote_def split: if_splits\<close>)
  qed
next
  case (JObj m)
  let ?entry = "\<lambda>kv. quote (fst kv) @ CHR '':'' # render (snd kv)"
  have entries: "self_delimiting ?entry kv" if "kv \<in> set m" for kv
    unfolding self_delimiting_def
  proof (intro allI impI)
    fix kv' r r' assume d: "delimited r" "delimited r'" and eq: "?entry kv @ r = ?entry kv' @ r'"
    from eq have "quote (fst kv) @ (CHR '':'' # render (snd kv) @ r) = quote (fst kv') @ (CHR '':'' # render (snd kv') @ r')" by simp
    from quote_unique [OF this] have k: "fst kv = fst kv'" "render (snd kv) @ r = render (snd kv') @ r'" by auto
    have "self_delimiting render (snd kv)" by (rule JObj.IH [OF that]) (simp add: prod_set_defs)
    with k(2) d have "snd kv = snd kv' \<and> r = r'" unfolding self_delimiting_def by blast
    with k(1) show "kv = kv' \<and> r = r'" by (simp add: prod_eq_iff)
  qed
  show ?case unfolding self_delimiting_def
  proof (intro allI impI)
    fix w r r' assume d: "delimited r" "delimited r'" and eq: "render (JObj m) @ r = render w @ r'"
    show "JObj m = w \<and> r = r'"
    proof (cases w)
      case (JInt j)
      with int_str_head [of j] eq show ?thesis by auto
    next
      case (JObj m')
      have "m = m' \<and> r = r'"
        by (rule joined_unique [of m ?entry "CHR ''}''"]) (use entries entry_head eq JObj in auto)
      with JObj show ?thesis by simp
    qed (use eq in \<open>auto simp: quote_def split: if_splits\<close>)
  qed
next
  case JNull
  show ?case unfolding self_delimiting_def
  proof (intro allI impI)
    fix w r r' assume "render JNull @ r = render w @ r'"
    then show "JNull = w \<and> r = r'" using constant_unique [of JNull r w r'] by simp
  qed
next
  case (JBool b)
  show ?case unfolding self_delimiting_def
  proof (intro allI impI)
    fix w r r' assume "render (JBool b) @ r = render w @ r'"
    then show "JBool b = w \<and> r = r'" using constant_unique [of "JBool b" r w r'] by simp
  qed
qed

text \<open>The text determines the value, up to the order of the keys.\<close>

lemma dumps_unique: "dumps v = dumps w \<longleftrightarrow> sort_keys v = sort_keys w"
  using render_unique [of "sort_keys v"] unfolding self_delimiting_def dumps_def by (metis append_Nil2 delimited_simps(1))

lemma sort_key_sorted: "sort_key f (sort_key f xs) = sort_key f xs"
  by (rule sort_key_id_if_sorted) simp

lemma sort_keys_idem: "sort_keys (sort_keys v) = sort_keys v"
proof (induction v)
  case (JObj m)
  let ?m = "map (\<lambda>kv. (fst kv, sort_keys (snd kv))) m"
  have "map (\<lambda>kv. (fst kv, sort_keys (snd kv))) (sort_key fst ?m) = sort_key fst ?m"
  proof (rule map_idI)
    fix kv assume "kv \<in> set (sort_key fst ?m)"
    then obtain kw where kw: "kw \<in> set m" "kv = (fst kw, sort_keys (snd kw))" by auto
    then have "sort_keys (sort_keys (snd kw)) = sort_keys (snd kw)" using JObj [of kw "snd kw"] by (simp add: prod_set_defs)
    with kw(2) show "(fst kv, sort_keys (snd kv)) = kv" by simp
  qed
  then show ?case by (simp add: sort_key_sorted)
qed simp_all

lemma dumps_sorted: "dumps (sort_keys v) = dumps v"
  by (simp add: dumps_def sort_keys_idem)

end
