(* ===== verification/Runtime_Store.thy ===== *)
theory Runtime_Store
  imports Models
begin

text \<open>
  \<open>runtime/storage_memory.py\<close>: the in-memory implementation of the runtime store. Tables are
  insertion-ordered dictionaries of JSON records keyed by the record's \<open>id\<close>; logs are
  lists. Every method is one atomic step on the store record, as the lock of the source
  makes it; a method that raises leaves the store as it was at the point of the exception.
\<close>

subsection \<open>State\<close>

type_synonym table = "(json, obj) dict"

record store =
  st_runtime_runs :: table
  st_runtime_queue_items :: table
  st_runtime_run_attempts :: table
  st_runtime_run_claims :: table
  st_runtime_dead_letters :: table
  st_runtime_quota_reservations :: table
  st_runtime_steps :: table
  st_runtime_events :: "obj list"
  st_runtime_checkpoints :: "obj list"
  st_tool_invocations :: "obj list"
  st_validation_results :: "obj list"
  st_memory_candidates :: "obj list"
  st_event_indices :: "(string, int) dict"
  st_checkpoint_indices :: "(string, int) dict"

definition empty_store :: store where
  "empty_store =
     \<lparr>st_runtime_runs = [], st_runtime_queue_items = [], st_runtime_run_attempts = [], st_runtime_run_claims = [],
      st_runtime_dead_letters = [], st_runtime_quota_reservations = [], st_runtime_steps = [], st_runtime_events = [],
      st_runtime_checkpoints = [], st_tool_invocations = [], st_validation_results = [], st_memory_candidates = [],
      st_event_indices = [], st_checkpoint_indices = []\<rparr>"

type_synonym ('e, 'a) sto = "(store, 'e, 'a) st"

subsection \<open>Table primitives\<close>

text \<open>\<open>table[stored["id"]] = stored\<close> on a table.\<close>

definition put_record :: "obj \<Rightarrow> table \<Rightarrow> ('e, table) res" where
  "put_record r t = bindR (getitem r ''id'') (\<lambda>i. bindR (hashable i) (\<lambda>k. Inr (dict_set k r t)))"

text \<open>\<open>stored = table[k]; stored.update(flds)\<close> on a table.\<close>

definition update_record :: "string \<Rightarrow> obj \<Rightarrow> table \<Rightarrow> ('e, obj \<times> table) res" where
  "update_record k flds t =
     (case map_of t (JStr k) of
        None \<Rightarrow> Inl (Py KeyError)
      | Some r \<Rightarrow> Inr (update flds r, dict_mod (JStr k) (update flds) t))"

text \<open>The methods that only insert into or update one table.\<close>

definition insert_into :: "(store \<Rightarrow> table) \<Rightarrow> (table \<Rightarrow> store \<Rightarrow> store) \<Rightarrow> obj \<Rightarrow> ('e, obj) sto" where
  "insert_into sel upd r s =
     (case put_record r (sel s) of Inl e \<Rightarrow> (Inl e, s) | Inr t \<Rightarrow> (Inr r, upd t s))"

definition update_in ::
  "(store \<Rightarrow> table) \<Rightarrow> (table \<Rightarrow> store \<Rightarrow> store) \<Rightarrow> string \<Rightarrow> obj \<Rightarrow> ('e, obj) sto" where
  "update_in sel upd k flds s =
     (case update_record k flds (sel s) of Inl e \<Rightarrow> (Inl e, s) | Inr (r, t) \<Rightarrow> (Inr r, upd t s))"

definition set_queue_items :: "table \<Rightarrow> store \<Rightarrow> store" where
  "set_queue_items t s = s\<lparr>st_runtime_queue_items := t\<rparr>"

definition set_claims :: "table \<Rightarrow> store \<Rightarrow> store" where
  "set_claims t s = s\<lparr>st_runtime_run_claims := t\<rparr>"

definition set_attempts :: "table \<Rightarrow> store \<Rightarrow> store" where
  "set_attempts t s = s\<lparr>st_runtime_run_attempts := t\<rparr>"

definition set_runs :: "table \<Rightarrow> store \<Rightarrow> store" where
  "set_runs t s = s\<lparr>st_runtime_runs := t\<rparr>"

definition set_steps :: "table \<Rightarrow> store \<Rightarrow> store" where
  "set_steps t s = s\<lparr>st_runtime_steps := t\<rparr>"

definition set_quota_reservations :: "table \<Rightarrow> store \<Rightarrow> store" where
  "set_quota_reservations t s = s\<lparr>st_runtime_quota_reservations := t\<rparr>"

definition set_dead_letters :: "table \<Rightarrow> store \<Rightarrow> store" where
  "set_dead_letters t s = s\<lparr>st_runtime_dead_letters := t\<rparr>"

subsection \<open>Queue items\<close>

text \<open>\<open>insert_runtime_queue_item\<close>: a record whose idempotency key is already stored is not inserted;
  the record stored first is returned.\<close>

definition insert_runtime_queue_item :: "obj \<Rightarrow> ('e, obj) sto" where
  "insert_runtime_queue_item r s =
     (let key = get r ''idempotency_key'';
          existing = (if key = JNull then None
                      else find (\<lambda>x. py_eq (get x ''idempotency_key'') key)
                             (dict_values (st_runtime_queue_items s)))
      in case existing of
           Some x \<Rightarrow> (Inr x, s)
         | None \<Rightarrow> insert_into st_runtime_queue_items set_queue_items r s)"

definition get_runtime_queue_item :: "string \<Rightarrow> store \<Rightarrow> obj option" where
  "get_runtime_queue_item queue_id s = map_of (st_runtime_queue_items s) (JStr queue_id)"

definition update_runtime_queue_item :: "string \<Rightarrow> obj \<Rightarrow> ('e, obj) sto" where
  "update_runtime_queue_item = update_in st_runtime_queue_items set_queue_items"

text \<open>\<open>_active_claim_for_queue\<close> yields the key of the claim, so that the caller's update hits the
  stored object.\<close>

definition active_claim_for_queue :: "json \<Rightarrow> store \<Rightarrow> (json \<times> obj) option" where
  "active_claim_for_queue queue_id s =
     find (\<lambda>(k, c). py_eq (get c ''queue_id'') queue_id \<and> get c ''released_at'' = JNull) (st_runtime_run_claims s)"

definition update_claim_at :: "json \<Rightarrow> obj \<Rightarrow> store \<Rightarrow> store" where
  "update_claim_at k flds s =
     set_claims (dict_mod k (update flds) (st_runtime_run_claims s)) s"

definition heartbeat_runtime_queue_item :: "string \<Rightarrow> obj \<Rightarrow> ('e, obj) sto" where
  "heartbeat_runtime_queue_item queue_id flds =
     bindS (update_runtime_queue_item queue_id flds) (\<lambda>stored s.
       (Inr stored,
        case active_claim_for_queue (JStr queue_id) s of
          None \<Rightarrow> s
        | Some (k, claim) \<Rightarrow>
            update_claim_at k
              [(''heartbeat_at'', get_or flds ''heartbeat_at'' (get claim ''heartbeat_at'')),
               (''claimed_until'', get_or flds ''claimed_until'' (get claim ''claimed_until''))] s))"

subsection \<open>Claiming\<close>

definition RUNNING_STATUSES :: "string list" where
  "RUNNING_STATUSES = [''claiming'', ''running'']"

definition CLAIMABLE_STATUSES :: "string list" where
  "CLAIMABLE_STATUSES = [''queued'', ''retry_scheduled'']"

definition field_in :: "obj \<Rightarrow> string \<Rightarrow> string list \<Rightarrow> ('e, bool) res" where
  "field_in item k S = bindR (getitem item k) (\<lambda>v. in_strings v S)"

definition tenant_running_count :: "string \<Rightarrow> table \<Rightarrow> ('e, nat) res" where
  "tenant_running_count tenant items =
     bindR (filterR (\<lambda>item.
       andR (bindR (getitem item ''tenant_id'') (\<lambda>v. Inr (v = JStr tenant))) (field_in item ''status'' RUNNING_STATUSES))
       (dict_values items)) (\<lambda>xs. Inr (length xs))"

definition global_running_count :: "table \<Rightarrow> ('e, nat) res" where
  "global_running_count items =
     bindR (filterR (\<lambda>item. field_in item ''status'' RUNNING_STATUSES) (dict_values items)) (\<lambda>xs. Inr (length xs))"

record claim_request =
  cr_worker_id :: string
  cr_claimed_at :: string
  cr_lease_expires_at :: string
  cr_tenant_running_limits :: "(string \<times> int) list"
  cr_global_running_limit :: "int option"
  cr_allowed_tenant_ids :: "string list"
  cr_disabled_tenant_ids :: "string list"
  cr_environment :: "string option"
  cr_queue_name :: "string option"

definition claim_eligible :: "claim_request \<Rightarrow> obj \<Rightarrow> ('e, bool) res" where
  "claim_eligible q item =
     andR (field_in item ''status'' CLAIMABLE_STATUSES)
    (andR (bindR (getitem item ''scheduled_at'') (\<lambda>v. Inr (py_str v \<le> cr_claimed_at q)))
    (andR (if cr_allowed_tenant_ids q = [] then Inr True else field_in item ''tenant_id'' (cr_allowed_tenant_ids q))
    (andR (bindR (field_in item ''tenant_id'' (cr_disabled_tenant_ids q)) (\<lambda>b. Inr (\<not> b)))
    (andR (Inr (case cr_environment q of None \<Rightarrow> True | Some e \<Rightarrow> get item ''environment'' = JStr e))
          (Inr (case cr_queue_name q of None \<Rightarrow> True | Some n \<Rightarrow> get item ''queue_name'' = JStr n))))))"

type_synonym claim_key = "int \<times> string \<times> string \<times> string"

definition claim_key_of :: "obj \<Rightarrow> ('e, claim_key) res" where
  "claim_key_of item =
     bindR (getitem item ''priority'') (\<lambda>p. bindR (py_int p) (\<lambda>priority.
     bindR (getitem item ''scheduled_at'') (\<lambda>scheduled_at.
     bindR (getitem item ''created_at'') (\<lambda>created_at.
     bindR (getitem item ''id'') (\<lambda>i.
     Inr (- priority, py_str scheduled_at, py_str created_at, py_str i))))))"

definition claim_candidates :: "claim_request \<Rightarrow> table \<Rightarrow> ('e, (json \<times> obj) list) res" where
  "claim_candidates q items =
     bindR (filterR (\<lambda>kv. claim_eligible q (snd kv)) items) (\<lambda>eligible.
     bindR (mapR (\<lambda>kv. bindR (claim_key_of (snd kv)) (\<lambda>key. Inr (key, kv))) eligible) (\<lambda>keyed.
     Inr (map snd (sort_key fst keyed))))"

definition tenant_has_room :: "claim_request \<Rightarrow> table \<Rightarrow> string \<Rightarrow> ('e, bool) res" where
  "tenant_has_room q items tenant =
     (case map_of (cr_tenant_running_limits q) tenant of
        None \<Rightarrow> Inr True
      | Some limit \<Rightarrow> bindR (tenant_running_count tenant items) (\<lambda>n. Inr (int n < limit)))"

definition item_has_room :: "claim_request \<Rightarrow> table \<Rightarrow> obj \<Rightarrow> ('e, bool) res" where
  "item_has_room q items item =
     bindR (getitem item ''tenant_id'') (\<lambda>t. tenant_has_room q items (py_str t))"

text \<open>The records the body of the loop writes for the item it settles on.\<close>

definition claim_fields :: "claim_request \<Rightarrow> int \<Rightarrow> string \<Rightarrow> string \<Rightarrow> obj" where
  "claim_fields q attempts attempt_id run_id =
     [(''status'', JStr ''claiming''), (''attempts'', JInt attempts), (''claimed_by'', JStr (cr_worker_id q)),
      (''claimed_at'', JStr (cr_claimed_at q)), (''lease_expires_at'', JStr (cr_lease_expires_at q)),
      (''claimed_until'', JStr (cr_lease_expires_at q)), (''heartbeat_at'', JStr (cr_claimed_at q)),
      (''attempt_id'', JStr attempt_id), (''run_id'', JStr run_id), (''updated_at'', JStr (cr_claimed_at q))]"

definition attempt_record :: "claim_request \<Rightarrow> string \<Rightarrow> string \<Rightarrow> string \<Rightarrow> string \<Rightarrow> int \<Rightarrow> obj" where
  "attempt_record q attempt_id queue_id run_id tenant attempts =
     [(''id'', JStr attempt_id), (''queue_id'', JStr queue_id), (''run_id'', JStr run_id), (''tenant_id'', JStr tenant),
      (''attempt_number'', JInt attempts), (''status'', JStr ''running''), (''started_at'', JStr (cr_claimed_at q)),
      (''completed_at'', JNull), (''stop_reason'', JNull), (''profile_id'', JNull), (''profile_sha256'', JNull)]"

definition claim_record :: "claim_request \<Rightarrow> string \<Rightarrow> string \<Rightarrow> string \<Rightarrow> obj" where
  "claim_record q claim_id queue_id tenant =
     [(''id'', JStr claim_id), (''queue_id'', JStr queue_id), (''worker_id'', JStr (cr_worker_id q)),
      (''tenant_id'', JStr tenant), (''claimed_at'', JStr (cr_claimed_at q)),
      (''claimed_until'', JStr (cr_lease_expires_at q)), (''heartbeat_at'', JStr (cr_claimed_at q)),
      (''released_at'', JNull), (''release_reason'', JNull)]"

record claim_bundle =
  cb_queue_item :: obj
  cb_attempt :: obj
  cb_claim :: obj

text \<open>The identifiers and records of a claim of \<open>item\<close>.\<close>

definition claim_item :: "claim_request \<Rightarrow> obj \<Rightarrow> ('e, claim_bundle) res" where
  "claim_item q item =
     bindR (getitem item ''tenant_id'') (\<lambda>tenant.
     bindR (getitem item ''attempts'') (\<lambda>a. bindR (py_int a) (\<lambda>n.
     bindR (getitem item ''task_id'') (\<lambda>task_id.
     bindR (getitem item ''id'') (\<lambda>i.
     let attempts = n + 1; queue_id = py_str i;
         run_id = slug_id (py_str task_id @ ''-attempt-'' @ int_str attempts) (Some ''run'');
         attempt_id = slug_id (queue_id @ ''-attempt-'' @ int_str attempts) (Some ''attempt'');
         claim_id = slug_id (queue_id @ ''-'' @ cr_worker_id q @ ''-'' @ int_str attempts) (Some ''claim'')
     in Inr \<lparr>cb_queue_item = update (claim_fields q attempts attempt_id run_id) item,
             cb_attempt = attempt_record q attempt_id queue_id run_id (py_str tenant) attempts,
             cb_claim = claim_record q claim_id queue_id (py_str tenant)\<rparr>)))))"

definition apply_claim :: "json \<Rightarrow> claim_bundle \<Rightarrow> store \<Rightarrow> store" where
  "apply_claim k b s =
     s\<lparr>st_runtime_queue_items := dict_mod k (\<lambda>_. cb_queue_item b) (st_runtime_queue_items s),
       st_runtime_run_attempts := dict_set (get (cb_attempt b) ''id'') (cb_attempt b) (st_runtime_run_attempts s),
       st_runtime_run_claims := dict_set (get (cb_claim b) ''id'') (cb_claim b) (st_runtime_run_claims s)\<rparr>"

definition select_claim :: "claim_request \<Rightarrow> table \<Rightarrow> ('e, (json \<times> claim_bundle) option) res" where
  "select_claim q items =
     bindR (case cr_global_running_limit q of
              None \<Rightarrow> Inr True
            | Some limit \<Rightarrow> bindR (global_running_count items) (\<lambda>n. Inr (int n < limit))) (\<lambda>room.
     if \<not> room then Inr None
     else bindR (claim_candidates q items) (\<lambda>candidates.
          bindR (findR (\<lambda>kv. item_has_room q items (snd kv)) candidates) (\<lambda>found.
          case found of
            None \<Rightarrow> Inr None
          | Some (k, item) \<Rightarrow> bindR (claim_item q item) (\<lambda>b. Inr (Some (k, b))))))"

definition claim_next_runtime_queue_attempt :: "claim_request \<Rightarrow> ('e, claim_bundle option) sto" where
  "claim_next_runtime_queue_attempt q s =
     (case select_claim q (st_runtime_queue_items s) of
        Inl e \<Rightarrow> (Inl e, s)
      | Inr None \<Rightarrow> (Inr None, s)
      | Inr (Some (k, b)) \<Rightarrow> (Inr (Some b), apply_claim k b s))"

definition claim_next_runtime_queue_item :: "claim_request \<Rightarrow> ('e, obj option) sto" where
  "claim_next_runtime_queue_item q =
     bindS (claim_next_runtime_queue_attempt q) (\<lambda>claim. retS (map_option cb_queue_item claim))"

subsection \<open>Recovery of stale claims\<close>

definition or_else :: "json \<Rightarrow> json \<Rightarrow> json" where
  "or_else a b = (if truthy a then a else b)"

definition claimed_until :: "obj \<Rightarrow> json" where
  "claimed_until item = or_else (get item ''claimed_until'') (get item ''lease_expires_at'')"

definition is_stale :: "string \<Rightarrow> obj \<Rightarrow> ('e, bool) res" where
  "is_stale now item =
     bindR (field_in item ''status'' RUNNING_STATUSES) (\<lambda>running.
     Inr (running \<and> claimed_until item \<noteq> JNull \<and> \<not> py_str (claimed_until item) > now))"

definition recovered_fields :: "string \<Rightarrow> obj" where
  "recovered_fields now =
     [(''status'', JStr ''retry_scheduled''), (''claimed_by'', JNull), (''claimed_at'', JNull), (''claimed_until'', JNull),
      (''lease_expires_at'', JNull), (''heartbeat_at'', JNull), (''updated_at'', JStr now),
      (''last_error'', JStr ''Stale runtime queue claim recovered.'')]"

definition release_fields :: "string \<Rightarrow> string \<Rightarrow> obj" where
  "release_fields at reason = [(''released_at'', JStr at), (''release_reason'', JStr reason)]"

definition release_active_claim :: "string \<Rightarrow> string \<Rightarrow> string \<Rightarrow> store \<Rightarrow> store" where
  "release_active_claim at reason queue_id s =
     (case active_claim_for_queue (JStr queue_id) s of
        None \<Rightarrow> s
      | Some (k, claim) \<Rightarrow> update_claim_at k (release_fields at reason) s)"

text \<open>One iteration of the loop: \<open>item.update\<close> happens before \<open>item["id"]\<close> is read.\<close>

definition recover_one :: "string \<Rightarrow> json \<times> obj \<Rightarrow> ('e, obj list) sto" where
  "recover_one now kv s =
     (case is_stale now (snd kv) of
        Inl e \<Rightarrow> (Inl e, s)
      | Inr False \<Rightarrow> (Inr [], s)
      | Inr True \<Rightarrow>
          (let item = update (recovered_fields now) (snd kv);
               s = set_queue_items (dict_mod (fst kv) (\<lambda>_. item) (st_runtime_queue_items s)) s
           in case getitem item ''id'' of
                Inl e \<Rightarrow> (Inl e, s)
              | Inr i \<Rightarrow> (Inr [item], release_active_claim now ''stale_recovered'' (py_str i) s)))"

fun recover_loop :: "string \<Rightarrow> (json \<times> obj) list \<Rightarrow> ('e, obj list) sto" where
  "recover_loop now [] = retS []"
| "recover_loop now (kv # kvs) =
     bindS (recover_one now kv) (\<lambda>xs. bindS (recover_loop now kvs) (\<lambda>ys. retS (xs @ ys)))"

definition recover_stale_runtime_queue_items :: "string \<Rightarrow> ('e, obj list) sto" where
  "recover_stale_runtime_queue_items now s = recover_loop now (st_runtime_queue_items s) s"

subsection \<open>Attempts, claims, dead letters, quotas, runs and steps\<close>

definition insert_runtime_run_attempt :: "obj \<Rightarrow> ('e, obj) sto" where
  "insert_runtime_run_attempt = insert_into st_runtime_run_attempts set_attempts"

definition update_runtime_run_attempt :: "string \<Rightarrow> obj \<Rightarrow> ('e, obj) sto" where
  "update_runtime_run_attempt = update_in st_runtime_run_attempts set_attempts"

definition insert_runtime_run_claim :: "obj \<Rightarrow> ('e, obj) sto" where
  "insert_runtime_run_claim = insert_into st_runtime_run_claims set_claims"

definition update_runtime_run_claim :: "string \<Rightarrow> obj \<Rightarrow> ('e, obj) sto" where
  "update_runtime_run_claim = update_in st_runtime_run_claims set_claims"

definition claim_is_active :: "string \<Rightarrow> obj \<Rightarrow> bool" where
  "claim_is_active queue_id claim \<longleftrightarrow> get claim ''queue_id'' = JStr queue_id \<and> get claim ''released_at'' = JNull"

definition release_runtime_queue_claims :: "string \<Rightarrow> string \<Rightarrow> string \<Rightarrow> store \<Rightarrow> obj list \<times> store" where
  "release_runtime_queue_claims queue_id released_at release_reason s =
     (let release = update (release_fields released_at release_reason);
          claims = st_runtime_run_claims s
      in (map release (filter (claim_is_active queue_id) (dict_values claims)),
          set_claims (map (\<lambda>(k, c). (k, if claim_is_active queue_id c then release c else c)) claims) s))"

definition insert_runtime_dead_letter :: "obj \<Rightarrow> ('e, obj) sto" where
  "insert_runtime_dead_letter = insert_into st_runtime_dead_letters set_dead_letters"

definition insert_runtime_quota_reservation :: "obj \<Rightarrow> ('e, obj) sto" where
  "insert_runtime_quota_reservation = insert_into st_runtime_quota_reservations set_quota_reservations"

definition update_runtime_quota_reservation :: "string \<Rightarrow> obj \<Rightarrow> ('e, obj) sto" where
  "update_runtime_quota_reservation = update_in st_runtime_quota_reservations set_quota_reservations"

definition insert_runtime_run :: "obj \<Rightarrow> ('e, obj) sto" where
  "insert_runtime_run = insert_into st_runtime_runs set_runs"

definition update_runtime_run :: "string \<Rightarrow> obj \<Rightarrow> ('e, obj) sto" where
  "update_runtime_run = update_in st_runtime_runs set_runs"

definition get_runtime_run :: "string \<Rightarrow> store \<Rightarrow> obj option" where
  "get_runtime_run run_id s = map_of (st_runtime_runs s) (JStr run_id)"

definition find_by_run_idempotency :: "obj list \<Rightarrow> string \<Rightarrow> string \<Rightarrow> ('e, obj option) res" where
  "find_by_run_idempotency records run_id key =
     findR (\<lambda>r. andR (bindR (getitem r ''run_id'') (\<lambda>v. Inr (v = JStr run_id)))
                     (Inr (get r ''idempotency_key'' = JStr key))) records"

definition find_by_run_index :: "obj list \<Rightarrow> string \<Rightarrow> int \<Rightarrow> string \<Rightarrow> ('e, obj option) res" where
  "find_by_run_index records run_id idx index_field =
     findR (\<lambda>r. andR (bindR (getitem r ''run_id'') (\<lambda>v. Inr (v = JStr run_id)))
                     (bindR (getitem r index_field) (\<lambda>v. Inr (py_eq v (JInt idx))))) records"

definition insert_runtime_step :: "obj \<Rightarrow> ('e, obj) sto" where
  "insert_runtime_step r =
     bindS (readS (\<lambda>s. if get r ''idempotency_key'' = JNull then Inr None
              else bindR (getitem r ''run_id'') (\<lambda>run.
                   find_by_run_idempotency (dict_values (st_runtime_steps s)) (py_str run)
                     (py_str (get r ''idempotency_key''))))) (\<lambda>existing.
     case existing of Some x \<Rightarrow> retS x | None \<Rightarrow> insert_into st_runtime_steps set_steps r)"

definition update_runtime_step :: "string \<Rightarrow> obj \<Rightarrow> ('e, obj) sto" where
  "update_runtime_step = update_in st_runtime_steps set_steps"

subsection \<open>Event and checkpoint logs\<close>

text \<open>The next index of a run: the cached one, or one past the largest index in the log.\<close>

definition next_index :: "(string, int) dict \<Rightarrow> obj list \<Rightarrow> string \<Rightarrow> string \<Rightarrow> ('e, int) res" where
  "next_index cache records index_field run_id =
     (case map_of cache run_id of
        Some n \<Rightarrow> Inr n
      | None \<Rightarrow>
          bindR (filterR (\<lambda>r. bindR (getitem r ''run_id'') (\<lambda>v. Inr (v = JStr run_id))) records) (\<lambda>mine.
          bindR (mapR (\<lambda>r. bindR (getitem r index_field) py_int) mine) (\<lambda>indices.
          Inr (case indices of [] \<Rightarrow> 0 | i # is \<Rightarrow> fold max is i + 1))))"

definition allocate_runtime_event_index :: "string \<Rightarrow> ('e, int) sto" where
  "allocate_runtime_event_index run_id =
     bindS (readS (\<lambda>s. next_index (st_event_indices s) (st_runtime_events s) ''event_index'' run_id)) (\<lambda>n s.
     (Inr n, s\<lparr>st_event_indices := dict_set run_id (n + 1) (st_event_indices s)\<rparr>))"

definition insert_runtime_event :: "obj \<Rightarrow> ('e, obj) sto" where
  "insert_runtime_event r =
     bindS (readS (\<lambda>s.
        bindR (getitem r ''run_id'') (\<lambda>run. bindR (getitem r ''idempotency_key'') (\<lambda>key.
        find_by_run_idempotency (st_runtime_events s) (py_str run) (py_str key))))) (\<lambda>existing s.
     case existing of
       Some x \<Rightarrow> (Inr x, s)
     | None \<Rightarrow> (Inr r, s\<lparr>st_runtime_events := st_runtime_events s @ [r]\<rparr>))"

definition allocate_runtime_checkpoint_index :: "string \<Rightarrow> ('e, int) sto" where
  "allocate_runtime_checkpoint_index run_id =
     bindS (readS (\<lambda>s. next_index (st_checkpoint_indices s) (st_runtime_checkpoints s) ''checkpoint_index'' run_id)) (\<lambda>n s.
     (Inr n, s\<lparr>st_checkpoint_indices := dict_set run_id (n + 1) (st_checkpoint_indices s)\<rparr>))"

definition insert_runtime_checkpoint :: "obj \<Rightarrow> ('e, obj) sto" where
  "insert_runtime_checkpoint r =
     bindS (readS (\<lambda>s.
        bindR (getitem r ''run_id'') (\<lambda>run. bindR (getitem r ''checkpoint_index'') (\<lambda>v. bindR (py_int v) (\<lambda>idx.
        find_by_run_index (st_runtime_checkpoints s) (py_str run) idx ''checkpoint_index''))))) (\<lambda>existing s.
     case existing of
       Some x \<Rightarrow> (Inr x, s)
     | None \<Rightarrow> (Inr r, s\<lparr>st_runtime_checkpoints := st_runtime_checkpoints s @ [r]\<rparr>))"

definition insert_tool_invocation :: "obj \<Rightarrow> ('e, obj) sto" where
  "insert_tool_invocation r s = (Inr r, s\<lparr>st_tool_invocations := st_tool_invocations s @ [r]\<rparr>)"

definition insert_validation_result :: "obj \<Rightarrow> ('e, obj) sto" where
  "insert_validation_result r s = (Inr r, s\<lparr>st_validation_results := st_validation_results s @ [r]\<rparr>)"

definition insert_memory_candidate :: "obj \<Rightarrow> ('e, obj) sto" where
  "insert_memory_candidate r s = (Inr r, s\<lparr>st_memory_candidates := st_memory_candidates s @ [r]\<rparr>)"

text \<open>The first candidate with the identifier is updated in place.\<close>

fun update_first :: "string \<Rightarrow> obj \<Rightarrow> obj list \<Rightarrow> ('e, obj \<times> obj list) res" where
  "update_first i flds [] = Inl (Py KeyError)"
| "update_first i flds (c # cs) =
     bindR (getitem c ''id'') (\<lambda>v.
     if v = JStr i then Inr (update flds c, update flds c # cs)
     else bindR (update_first i flds cs) (\<lambda>(x, cs'). Inr (x, c # cs')))"

definition update_memory_candidate :: "string \<Rightarrow> obj \<Rightarrow> ('e, obj) sto" where
  "update_memory_candidate i flds s =
     (case update_first i flds (st_memory_candidates s) of
        Inl e \<Rightarrow> (Inl e, s)
      | Inr (x, cs) \<Rightarrow> (Inr x, s\<lparr>st_memory_candidates := cs\<rparr>))"

definition records_for_run :: "obj list \<Rightarrow> string \<Rightarrow> ('e, obj list) res" where
  "records_for_run records run_id =
     filterR (\<lambda>r. bindR (getitem r ''run_id'') (\<lambda>v. Inr (v = JStr run_id))) records"

definition events_for_run :: "string \<Rightarrow> store \<Rightarrow> ('e, obj list) res" where
  "events_for_run run_id s = records_for_run (st_runtime_events s) run_id"

definition checkpoints_for_run :: "string \<Rightarrow> store \<Rightarrow> ('e, obj list) res" where
  "checkpoints_for_run run_id s = records_for_run (st_runtime_checkpoints s) run_id"

definition table_json :: "table \<Rightarrow> json" where
  "table_json t = JList (map JObj (dict_values t))"

definition log_json :: "obj list \<Rightarrow> json" where
  "log_json rs = JList (map JObj rs)"

definition as_runtime_plane_recordset :: "string \<Rightarrow> string \<Rightarrow> store \<Rightarrow> obj" where
  "as_runtime_plane_recordset contract_version environment s =
     [(''contract_version'', JStr contract_version), (''environment'', JStr environment),
      (''records'', JObj
        [(''runtime_queue_items'', table_json (st_runtime_queue_items s)),
         (''runtime_run_attempts'', table_json (st_runtime_run_attempts s)),
         (''runtime_run_claims'', table_json (st_runtime_run_claims s)),
         (''runtime_dead_letters'', table_json (st_runtime_dead_letters s)),
         (''runtime_quota_reservations'', table_json (st_runtime_quota_reservations s)),
         (''runtime_runs'', table_json (st_runtime_runs s)),
         (''runtime_steps'', table_json (st_runtime_steps s)),
         (''runtime_events'', log_json (st_runtime_events s)),
         (''runtime_checkpoints'', log_json (st_runtime_checkpoints s)),
         (''tool_invocations'', log_json (st_tool_invocations s)),
         (''validation_results'', log_json (st_validation_results s)),
         (''memory_candidates'', log_json (st_memory_candidates s))])]"

subsection \<open>Well-formed queue tables\<close>

text \<open>The text and the number under a field of a well-formed item.\<close>

definition sfield :: "obj \<Rightarrow> string \<Rightarrow> string" where
  "sfield item k = (case get item k of JStr s \<Rightarrow> s | _ \<Rightarrow> [])"

definition ifield :: "obj \<Rightarrow> string \<Rightarrow> int" where
  "ifield item k = (case get item k of JInt i \<Rightarrow> i | _ \<Rightarrow> 0)"

definition has_text :: "obj \<Rightarrow> string \<Rightarrow> bool" where
  "has_text item k \<longleftrightarrow> map_of item k = Some (JStr (sfield item k))"

definition has_int :: "obj \<Rightarrow> string \<Rightarrow> bool" where
  "has_int item k \<longleftrightarrow> map_of item k = Some (JInt (ifield item k))"

definition item_wf :: "json \<Rightarrow> obj \<Rightarrow> bool" where
  "item_wf k item \<longleftrightarrow> k = JStr (sfield item ''id'') \<and>
     list_all (has_text item) [''id'', ''status'', ''tenant_id'', ''scheduled_at'', ''created_at'', ''task_id''] \<and>
     list_all (has_int item) [''priority'', ''attempts''] \<and>
     sfield item ''status'' \<in> set (map queue_status_name
       [Queued, Claiming, Running, Succeeded, Failed, Cancelled, RetryScheduled, DeadLettered])"

definition queue_wf :: "table \<Rightarrow> bool" where
  "queue_wf items \<longleftrightarrow> distinct (dict_keys items) \<and> (\<forall>(k, item) \<in> set items. item_wf k item)"

lemma item_wf_fields:
  assumes "item_wf k item"
  shows "getitem item ''status'' = Inr (JStr (sfield item ''status''))"
    "getitem item ''tenant_id'' = Inr (JStr (sfield item ''tenant_id''))"
    "getitem item ''scheduled_at'' = Inr (JStr (sfield item ''scheduled_at''))"
    "getitem item ''created_at'' = Inr (JStr (sfield item ''created_at''))"
    "getitem item ''task_id'' = Inr (JStr (sfield item ''task_id''))"
    "getitem item ''id'' = Inr (JStr (sfield item ''id''))"
    "getitem item ''priority'' = Inr (JInt (ifield item ''priority''))"
    "getitem item ''attempts'' = Inr (JInt (ifield item ''attempts''))"
  using assms by (simp_all add: item_wf_def has_text_def has_int_def getitem_def)

lemma sfield_update:
  "sfield (update flds item) k = (case map_of (rev flds) k of None \<Rightarrow> sfield item k | Some v \<Rightarrow> sfield [(k, v)] k)"
  by (simp add: sfield_def get_update split: option.splits)

lemma ifield_update:
  "ifield (update flds item) k = (case map_of (rev flds) k of None \<Rightarrow> ifield item k | Some v \<Rightarrow> ifield [(k, v)] k)"
  by (simp add: ifield_def get_update split: option.splits)

lemma has_text_iff: "has_text item k \<longleftrightarrow> (\<exists>s. map_of item k = Some (JStr s))"
  by (auto simp: has_text_def sfield_def get_def get_or_def)

lemma has_int_iff: "has_int item k \<longleftrightarrow> (\<exists>i. map_of item k = Some (JInt i))"
  by (auto simp: has_int_def ifield_def get_def get_or_def)

lemma has_text_update:
  "has_text (update flds item) k \<longleftrightarrow> (case map_of (rev flds) k of None \<Rightarrow> has_text item k | Some v \<Rightarrow> \<exists>s. v = JStr s)"
  by (auto simp: has_text_iff map_of_update map_add_def split: option.splits)

lemma has_int_update:
  "has_int (update flds item) k \<longleftrightarrow> (case map_of (rev flds) k of None \<Rightarrow> has_int item k | Some v \<Rightarrow> \<exists>i. v = JInt i)"
  by (auto simp: has_int_iff map_of_update map_add_def split: option.splits)

lemmas field_updates = sfield_update ifield_update has_text_update has_int_update

lemma sfield_JStr [simp]: "sfield [(k, JStr s)] k = s"
  by (simp add: sfield_def)

lemma ifield_JInt [simp]: "ifield [(k, JInt i)] k = i"
  by (simp add: ifield_def)

lemma queue_wf_mod:
  assumes "queue_wf items" and "\<And>item. (k, item) \<in> set items \<Longrightarrow> item_wf k item \<Longrightarrow> item_wf k (f item)"
  shows "queue_wf (dict_mod k f items)"
  using assms unfolding queue_wf_def dict_keys_mod
  by (auto simp: dict_mod_def split: if_splits)

subsection \<open>What a claim chooses\<close>

text \<open>Reference definitions: eligibility, running items, room and order of claims on
  well-formed items, without the failure paths of the dictionary accesses.\<close>

definition running :: "obj \<Rightarrow> bool" where
  "running item \<longleftrightarrow> sfield item ''status'' \<in> set RUNNING_STATUSES"

definition running_of :: "string \<Rightarrow> table \<Rightarrow> nat" where
  "running_of tenant items =
     length (filter (\<lambda>item. sfield item ''tenant_id'' = tenant \<and> running item) (dict_values items))"

definition running_total :: "table \<Rightarrow> nat" where
  "running_total items = length (filter running (dict_values items))"

definition eligible :: "claim_request \<Rightarrow> obj \<Rightarrow> bool" where
  "eligible q item \<longleftrightarrow>
     sfield item ''status'' \<in> set CLAIMABLE_STATUSES \<and> sfield item ''scheduled_at'' \<le> cr_claimed_at q \<and>
     (cr_allowed_tenant_ids q = [] \<or> sfield item ''tenant_id'' \<in> set (cr_allowed_tenant_ids q)) \<and>
     sfield item ''tenant_id'' \<notin> set (cr_disabled_tenant_ids q) \<and>
     (\<forall>e. cr_environment q = Some e \<longrightarrow> get item ''environment'' = JStr e) \<and>
     (\<forall>n. cr_queue_name q = Some n \<longrightarrow> get item ''queue_name'' = JStr n)"

definition room_for :: "claim_request \<Rightarrow> table \<Rightarrow> obj \<Rightarrow> bool" where
  "room_for q items item \<longleftrightarrow>
     (\<forall>limit. map_of (cr_tenant_running_limits q) (sfield item ''tenant_id'') = Some limit \<longrightarrow>
        int (running_of (sfield item ''tenant_id'') items) < limit)"

definition global_room :: "claim_request \<Rightarrow> table \<Rightarrow> bool" where
  "global_room q items \<longleftrightarrow> (\<forall>limit. cr_global_running_limit q = Some limit \<longrightarrow> int (running_total items) < limit)"

definition claim_order :: "obj \<Rightarrow> claim_key" where
  "claim_order item =
     (- ifield item ''priority'', sfield item ''scheduled_at'', sfield item ''created_at'', sfield item ''id'')"

definition claim_of :: "claim_request \<Rightarrow> obj \<Rightarrow> claim_bundle" where
  "claim_of q item =
     (let attempts = ifield item ''attempts'' + 1; queue_id = sfield item ''id''; tenant = sfield item ''tenant_id'';
          run_id = slug_id (sfield item ''task_id'' @ ''-attempt-'' @ int_str attempts) (Some ''run'');
          attempt_id = slug_id (queue_id @ ''-attempt-'' @ int_str attempts) (Some ''attempt'');
          claim_id = slug_id (queue_id @ ''-'' @ cr_worker_id q @ ''-'' @ int_str attempts) (Some ''claim'')
      in \<lparr>cb_queue_item = update (claim_fields q attempts attempt_id run_id) item,
          cb_attempt = attempt_record q attempt_id queue_id run_id tenant attempts,
          cb_claim = claim_record q claim_id queue_id tenant\<rparr>)"

lemma claim_item_wf: "item_wf k item \<Longrightarrow> claim_item q item = Inr (claim_of q item)"
  by (simp add: claim_item_def claim_of_def item_wf_fields Let_def)

lemma claim_eligible_wf: "item_wf k item \<Longrightarrow> claim_eligible q item = Inr (eligible q item)"
  by (auto simp: claim_eligible_def eligible_def field_in_def item_wf_fields split: option.splits)

lemma claim_key_wf: "item_wf k item \<Longrightarrow> claim_key_of item = Inr (claim_order item)"
  by (simp add: claim_key_of_def claim_order_def item_wf_fields)

lemma queue_wf_item: "queue_wf items \<Longrightarrow> (k, item) \<in> set items \<Longrightarrow> item_wf k item"
  by (auto simp: queue_wf_def)

lemma queue_wf_value: "queue_wf items \<Longrightarrow> item \<in> set (dict_values items) \<Longrightarrow> \<exists>k. item_wf k item"
  by (fastforce simp: queue_wf_def)

lemma counts_wf:
  assumes "queue_wf items"
  shows "tenant_running_count tenant items = (Inr (running_of tenant items) :: ('e, nat) res)"
    "global_running_count items = (Inr (running_total items) :: ('e, nat) res)"
proof -
  have f: "getitem item ''tenant_id'' = (Inr (JStr (sfield item ''tenant_id'')) :: ('e, json) res)"
    "field_in item ''status'' RUNNING_STATUSES = (Inr (running item) :: ('e, bool) res)"
    if "item \<in> set (dict_values items)" for item
    using queue_wf_value [OF assms that] by (auto simp: item_wf_fields field_in_def running_def)
  have "filterR (\<lambda>item. andR (bindR (getitem item ''tenant_id'') (\<lambda>v. Inr (v = JStr tenant)))
      (field_in item ''status'' RUNNING_STATUSES)) (dict_values items) =
    (Inr (filter (\<lambda>item. sfield item ''tenant_id'' = tenant \<and> running item) (dict_values items)) :: ('e, obj list) res)"
    by (rule filterR_pure) (auto simp: f)
  then show "tenant_running_count tenant items = (Inr (running_of tenant items) :: ('e, nat) res)"
    unfolding tenant_running_count_def running_of_def by (simp only: bindR_simps)
  have "filterR (\<lambda>item. field_in item ''status'' RUNNING_STATUSES) (dict_values items) =
    (Inr (filter running (dict_values items)) :: ('e, obj list) res)"
    by (rule filterR_pure) (auto simp: f)
  then show "global_running_count items = (Inr (running_total items) :: ('e, nat) res)"
    unfolding global_running_count_def running_total_def by (simp only: bindR_simps)
qed

lemma sort_decorated: "map snd (sort_key fst (map (\<lambda>x. (f x, x)) xs)) = sort_key f xs"
proof -
  have "insort_key fst (f x, x) (map (\<lambda>x. (f x, x)) ys) = map (\<lambda>x. (f x, x)) (insort_key f x ys)" for x ys
    by (induction ys) auto
  then have "sort_key fst (map (\<lambda>x. (f x, x)) xs) = map (\<lambda>x. (f x, x)) (sort_key f xs)"
    by (induction xs) auto
  then show ?thesis by (simp add: comp_def)
qed

lemma mapR_pure: "\<forall>x \<in> set xs. f x = Inr (g x) \<Longrightarrow> mapR f xs = Inr (map g xs)"
  by (induction xs) simp_all

lemma find_member: "find P xs = Some x \<Longrightarrow> P x \<and> x \<in> set xs"
  by (induction xs) (auto split: if_splits)

lemma find_least:
  fixes f :: "'a \<Rightarrow> 'b::linorder"
  shows "sorted (map f xs) \<Longrightarrow> find P xs = Some x \<Longrightarrow> y \<in> set xs \<Longrightarrow> P y \<Longrightarrow> f x \<le> f y"
  by (induction xs) (auto split: if_splits)

lemma claim_candidates_wf:
  assumes "queue_wf items"
  shows "claim_candidates q items =
     (Inr (sort_key (\<lambda>kv. claim_order (snd kv)) (filter (\<lambda>kv. eligible q (snd kv)) items)) :: ('e, (json \<times> obj) list) res)"
proof -
  have "filterR (\<lambda>kv. claim_eligible q (snd kv)) items =
      (Inr (filter (\<lambda>kv. eligible q (snd kv)) items) :: ('e, (json \<times> obj) list) res)"
    using assms by (intro filterR_pure) (auto simp: queue_wf_def claim_eligible_wf)
  moreover have "mapR (\<lambda>kv. bindR (claim_key_of (snd kv)) (\<lambda>key. Inr (key, kv))) (filter (\<lambda>kv. eligible q (snd kv)) items)
      = (Inr (map (\<lambda>kv. (claim_order (snd kv), kv)) (filter (\<lambda>kv. eligible q (snd kv)) items))
          :: ('e, (claim_key \<times> json \<times> obj) list) res)"
    using assms by (intro mapR_pure) (auto simp: queue_wf_def claim_key_wf)
  ultimately show ?thesis by (simp add: claim_candidates_def sort_decorated)
qed

text \<open>The reference choice: nothing when the global limit is reached, otherwise the least eligible
  item whose tenant has room.\<close>

definition reference_claim :: "claim_request \<Rightarrow> table \<Rightarrow> (json \<times> claim_bundle) option" where
  "reference_claim q items =
     (if \<not> global_room q items then None
      else map_option (\<lambda>(k, item). (k, claim_of q item))
             (find (\<lambda>kv. room_for q items (snd kv))
                (sort_key (\<lambda>kv. claim_order (snd kv)) (filter (\<lambda>kv. eligible q (snd kv)) items))))"

lemma select_claim_reference:
  assumes "queue_wf items"
  shows "select_claim q items = (Inr (reference_claim q items) :: ('e, (json \<times> claim_bundle) option) res)"
proof -
  let ?cs = "sort_key (\<lambda>kv. claim_order (snd kv)) (filter (\<lambda>kv. eligible q (snd kv)) items)"
  have room: "item_has_room q items (snd kv) = (Inr (room_for q items (snd kv)) :: ('e, bool) res)" if "kv \<in> set items" for kv
    using queue_wf_item [OF assms, of "fst kv" "snd kv"] that
    by (auto simp: counts_wf [OF assms] item_has_room_def tenant_has_room_def room_for_def item_wf_fields split: option.splits)
  have global: "(case cr_global_running_limit q of None \<Rightarrow> Inr True
      | Some limit \<Rightarrow> bindR (global_running_count items) (\<lambda>n. Inr (int n < limit))) = (Inr (global_room q items) :: ('e, bool) res)"
    by (auto simp: global_room_def counts_wf [OF assms] split: option.splits)
  have "findR (\<lambda>kv. item_has_room q items (snd kv)) ?cs =
      (Inr (find (\<lambda>kv. room_for q items (snd kv)) ?cs) :: ('e, (json \<times> obj) option) res)"
    by (intro findR_pure) (auto simp: room)
  moreover have "item_wf k item" if "find (\<lambda>kv. room_for q items (snd kv)) ?cs = Some (k, item)" for k item
    using find_member [OF that] assms by (auto simp: queue_wf_def)
  ultimately show ?thesis
    unfolding select_claim_def reference_claim_def global
    by (auto simp: claim_candidates_wf [OF assms] claim_item_wf split: option.splits)
qed

lemma claim_next_wf:
  assumes "queue_wf (st_runtime_queue_items s)"
  shows "claim_next_runtime_queue_attempt q s =
     ((case reference_claim q (st_runtime_queue_items s) of
        None \<Rightarrow> (Inr None, s) | Some (k, b) \<Rightarrow> (Inr (Some b), apply_claim k b s)) :: ('e, claim_bundle option) res \<times> store)"
  by (simp add: claim_next_runtime_queue_attempt_def select_claim_reference [OF assms] split: option.splits)

lemma reference_claim_Some:
  assumes "reference_claim q items = Some (k, b)" and "queue_wf items"
  obtains item where "map_of items k = Some item" "(k, item) \<in> set items" "b = claim_of q item" "eligible q item"
    "room_for q items item" "global_room q items"
    "\<And>k' item'. (k', item') \<in> set items \<Longrightarrow> eligible q item' \<Longrightarrow> room_for q items item' \<Longrightarrow>
       claim_order item \<le> claim_order item'"
proof -
  let ?cs = "sort_key (\<lambda>kv. claim_order (snd kv)) (filter (\<lambda>kv. eligible q (snd kv)) items)"
  from assms(1) obtain item where f: "find (\<lambda>kv. room_for q items (snd kv)) ?cs = Some (k, item)"
    and b: "b = claim_of q item" "global_room q items"
    by (auto simp: reference_claim_def split: if_splits)
  from find_member [OF f] have m: "(k, item) \<in> set items" "eligible q item" "room_for q items item" by auto
  have "map_of items k = Some item" using m(1) assms(2) by (simp add: queue_wf_def)
  moreover have "claim_order item \<le> claim_order item'"
    if "(k', item') \<in> set items" "eligible q item'" "room_for q items item'" for k' item'
    using find_least [OF sorted_sort_key f, of "(k', item')"] that by simp
  ultimately show thesis using that m b by blast
qed

lemma claim_of_item:
  "cb_queue_item (claim_of q item) = update (claim_fields q (ifield item ''attempts'' + 1)
     (slug_id (sfield item ''id'' @ ''-attempt-'' @ int_str (ifield item ''attempts'' + 1)) (Some ''attempt''))
     (slug_id (sfield item ''task_id'' @ ''-attempt-'' @ int_str (ifield item ''attempts'' + 1)) (Some ''run''))) item"
  by (simp add: claim_of_def Let_def)

lemma claimed_item_fields:
  "sfield (cb_queue_item (claim_of q item)) ''status'' = ''claiming''"
  "sfield (cb_queue_item (claim_of q item)) ''tenant_id'' = sfield item ''tenant_id''"
  "sfield (cb_queue_item (claim_of q item)) ''id'' = sfield item ''id''"
  "ifield (cb_queue_item (claim_of q item)) ''attempts'' = ifield item ''attempts'' + 1"
  by (simp_all add: claim_of_item field_updates claim_fields_def)

lemma claimed_item_wf: "item_wf k item \<Longrightarrow> item_wf k (cb_queue_item (claim_of q item))"
  by (simp add: item_wf_def claim_of_item field_updates claim_fields_def)

lemma claim_next_Some:
  assumes "queue_wf (st_runtime_queue_items s)"
    and "claim_next_runtime_queue_attempt q s = (Inr (Some b) :: ('e, claim_bundle option) res, s')"
  obtains k where "reference_claim q (st_runtime_queue_items s) = Some (k, b)" "s' = apply_claim k b s"
  using assms by (auto simp: claim_next_wf split: option.splits)

text \<open>C18. The queue serves the best item: a claim takes an item that is due, claimable and admitted by the
  tenant, environment and queue filters, whose tenant is below its running limit, and no other such
  item precedes it in the order of priority, schedule, creation and identifier; the claimed item is
  marked as claiming with one more attempt, and no other queue item changes.\<close>

theorem claim_takes_best_item:
  assumes "queue_wf (st_runtime_queue_items s)"
    and "claim_next_runtime_queue_attempt q s = (Inr (Some b) :: ('e, claim_bundle option) res, s')"
  shows "\<exists>k item. map_of (st_runtime_queue_items s) k = Some item \<and> eligible q item \<and>
     room_for q (st_runtime_queue_items s) item \<and>
     (\<forall>(k', item') \<in> set (st_runtime_queue_items s). eligible q item' \<and> room_for q (st_runtime_queue_items s) item' \<longrightarrow>
        claim_order item \<le> claim_order item') \<and>
     sfield (cb_queue_item b) ''status'' = ''claiming'' \<and>
     ifield (cb_queue_item b) ''attempts'' = ifield item ''attempts'' + 1 \<and>
     map_of (st_runtime_queue_items s') = (map_of (st_runtime_queue_items s))(k \<mapsto> cb_queue_item b)"
proof -
  from claim_next_Some [OF assms] obtain k where r: "reference_claim q (st_runtime_queue_items s) = Some (k, b)"
    and s': "s' = apply_claim k b s" by blast
  from reference_claim_Some [OF r assms(1)] obtain item where i: "map_of (st_runtime_queue_items s) k = Some item"
    "b = claim_of q item" "eligible q item" "room_for q (st_runtime_queue_items s) item"
    and best: "\<And>k' item'. (k', item') \<in> set (st_runtime_queue_items s) \<Longrightarrow> eligible q item' \<Longrightarrow>
      room_for q (st_runtime_queue_items s) item' \<Longrightarrow> claim_order item \<le> claim_order item'" by blast
  have "map_of (st_runtime_queue_items s') = (map_of (st_runtime_queue_items s))(k \<mapsto> cb_queue_item b)"
    by (simp add: s' apply_claim_def dict_simps i(1))
  then show ?thesis using i best claimed_item_fields [of q item]
    by (intro exI [of _ k] exI [of _ item]) auto
qed


subsection \<open>Running limits and exclusive claims\<close>

lemma count_dict_mod:
  assumes "distinct (dict_keys d)" and "map_of d k = Some x"
  shows "length (filter P (dict_values (dict_mod k f d))) + (if P x then 1 else 0)
     = length (filter P (dict_values d)) + (if P (f x) then 1 else 0)"
  using assms
proof (induction d)
  case (Cons kv d)
  have frame: "dict_mod k f d = d" if "k \<notin> set (dict_keys d)"
    using that unfolding dict_mod_def by (intro map_idI) (auto simp: image_iff)
  show ?case
  proof (cases "fst kv = k")
    case True
    then show ?thesis using Cons.prems frame by (auto simp: dict_mod_def)
  next
    case False
    then show ?thesis using Cons by (auto simp: dict_mod_def)
  qed
qed simp

definition limits_kept :: "(string \<times> int) list \<Rightarrow> int option \<Rightarrow> table \<Rightarrow> bool" where
  "limits_kept tenant_limits global_limit items \<longleftrightarrow>
     (\<forall>tenant limit. map_of tenant_limits tenant = Some limit \<longrightarrow> int (running_of tenant items) \<le> max 0 limit) \<and>
     (\<forall>limit. global_limit = Some limit \<longrightarrow> int (running_total items) \<le> max 0 limit)"

lemma limits_kept_le:
  assumes le: "\<And>tenant. running_of tenant items' \<le> running_of tenant items" "running_total items' \<le> running_total items"
    and kept: "limits_kept L g items"
  shows "limits_kept L g items'"
  unfolding limits_kept_def
proof (intro conjI allI impI)
  fix tenant limit assume "map_of L tenant = Some limit"
  then have "int (running_of tenant items) \<le> max 0 limit" using kept by (simp add: limits_kept_def)
  then show "int (running_of tenant items') \<le> max 0 limit" using le(1) [of tenant] by linarith
next
  fix limit assume "g = Some limit"
  then have "int (running_total items) \<le> max 0 limit" using kept by (simp add: limits_kept_def)
  then show "int (running_total items') \<le> max 0 limit" using le(2) by linarith
qed

text \<open>A change of one item that does not start to run keeps the limits.\<close>

lemma limits_kept_mod:
  assumes "queue_wf items" and "map_of items k = Some item" and "limits_kept L g items"
    and "running (f item) \<Longrightarrow> running item" and "sfield (f item) ''tenant_id'' = sfield item ''tenant_id''"
  shows "limits_kept L g (dict_mod k f items)"
proof -
  have d: "distinct (dict_keys items)" using assms(1) by (simp add: queue_wf_def)
  have "running_of tenant (dict_mod k f items) \<le> running_of tenant items" for tenant
    using count_dict_mod [OF d assms(2), of "\<lambda>i. sfield i ''tenant_id'' = tenant \<and> running i" f] assms(4,5)
    unfolding running_of_def by (auto split: if_splits)
  moreover have "running_total (dict_mod k f items) \<le> running_total items"
    using count_dict_mod [OF d assms(2), of running f] assms(4)
    unfolding running_total_def by (auto split: if_splits)
  ultimately show ?thesis using assms(3) by (rule limits_kept_le)
qed

lemma claim_keeps_wf_and_limits:
  assumes wf: "queue_wf (st_runtime_queue_items s)"
    and claim: "claim_next_runtime_queue_attempt q s = (Inr (Some b) :: ('e, claim_bundle option) res, s')"
  shows "queue_wf (st_runtime_queue_items s')"
    and "limits_kept (cr_tenant_running_limits q) (cr_global_running_limit q) (st_runtime_queue_items s) \<Longrightarrow>
      limits_kept (cr_tenant_running_limits q) (cr_global_running_limit q) (st_runtime_queue_items s')"
proof -
  let ?items = "st_runtime_queue_items s"
  from claim_next_Some [OF assms] obtain k where r: "reference_claim q ?items = Some (k, b)"
    and s': "s' = apply_claim k b s" by blast
  from reference_claim_Some [OF r wf] obtain item where i: "map_of ?items k = Some item" "(k, item) \<in> set ?items"
    "b = claim_of q item" "eligible q item" "room_for q ?items item" "global_room q ?items" by metis
  have d: "distinct (dict_keys ?items)" using wf by (simp add: queue_wf_def)
  have items': "st_runtime_queue_items s' = dict_mod k (\<lambda>_. cb_queue_item b) ?items"
    by (simp add: s' apply_claim_def)
  show "queue_wf (st_runtime_queue_items s')"
    unfolding items' i(3) using claimed_item_wf queue_wf_item [OF wf i(2)] by (intro queue_wf_mod [OF wf]) blast
  have nr: "\<not> running item" using i(4) by (auto simp: eligible_def running_def CLAIMABLE_STATUSES_def RUNNING_STATUSES_def)
  have r': "running (cb_queue_item b)" by (simp add: i(3) running_def claimed_item_fields RUNNING_STATUSES_def)
  have ten: "sfield (cb_queue_item b) ''tenant_id'' = sfield item ''tenant_id''" by (simp add: i(3) claimed_item_fields)
  show "limits_kept (cr_tenant_running_limits q) (cr_global_running_limit q) (st_runtime_queue_items s')"
    if kept: "limits_kept (cr_tenant_running_limits q) (cr_global_running_limit q) ?items"
  proof -
    have cnt: "running_of tenant (st_runtime_queue_items s') =
        running_of tenant ?items + (if tenant = sfield item ''tenant_id'' then 1 else 0)" for tenant
      using count_dict_mod [OF d i(1), of "\<lambda>i. sfield i ''tenant_id'' = tenant \<and> running i" "\<lambda>_. cb_queue_item b"] nr r' ten
      unfolding running_of_def items' by (auto split: if_splits)
    have tot: "running_total (st_runtime_queue_items s') = running_total ?items + 1"
      using count_dict_mod [OF d i(1), of running "\<lambda>_. cb_queue_item b"] nr r'
      unfolding running_total_def items' by auto
    show ?thesis unfolding limits_kept_def
    proof (intro conjI allI impI)
      fix tenant limit assume l: "map_of (cr_tenant_running_limits q) tenant = Some limit"
      show "int (running_of tenant (st_runtime_queue_items s')) \<le> max 0 limit"
      proof (cases "tenant = sfield item ''tenant_id''")
        case True
        then have "int (running_of tenant ?items) < limit" using i(5) l by (simp add: room_for_def)
        then show ?thesis using True by (simp add: cnt)
      next
        case False
        then show ?thesis using kept l by (simp add: cnt limits_kept_def)
      qed
    next
      fix limit assume "cr_global_running_limit q = Some limit"
      then have "int (running_total ?items) < limit" using i(6) by (simp add: global_room_def)
      then show "int (running_total (st_runtime_queue_items s')) \<le> max 0 limit" by (simp add: tot)
    qed
  qed
qed

text \<open>Claims are exclusive: an item that was claimed cannot be claimed again while its claim
  stands, so two claims in a row, by any workers, yield different items.\<close>

theorem claims_are_exclusive:
  assumes "queue_wf (st_runtime_queue_items s)"
    and "claim_next_runtime_queue_attempt q s = (Inr (Some b) :: ('e, claim_bundle option) res, s1)"
    and "claim_next_runtime_queue_attempt q' s1 = (Inr (Some b') :: ('e, claim_bundle option) res, s2)"
  shows "sfield (cb_queue_item b) ''id'' \<noteq> sfield (cb_queue_item b') ''id''"
proof
  assume same: "sfield (cb_queue_item b) ''id'' = sfield (cb_queue_item b') ''id''"
  note wf1 = claim_keeps_wf_and_limits(1) [OF assms(1,2)]
  from claim_next_Some [OF assms(1,2)] obtain k where r: "reference_claim q (st_runtime_queue_items s) = Some (k, b)"
    and s1: "s1 = apply_claim k b s" by blast
  from claim_next_Some [OF wf1 assms(3)] obtain k' where r': "reference_claim q' (st_runtime_queue_items s1) = Some (k', b')"
    by blast
  from reference_claim_Some [OF r assms(1)] obtain item where i: "(k, item) \<in> set (st_runtime_queue_items s)"
    "b = claim_of q item" "map_of (st_runtime_queue_items s) k = Some item" by metis
  from reference_claim_Some [OF r' wf1] obtain item' where i': "(k', item') \<in> set (st_runtime_queue_items s1)"
    "b' = claim_of q' item'" "eligible q' item'" "map_of (st_runtime_queue_items s1) k' = Some item'" by metis
  have "k = JStr (sfield (cb_queue_item b) ''id'')" "k' = JStr (sfield (cb_queue_item b') ''id'')"
    using queue_wf_item [OF assms(1) i(1)] queue_wf_item [OF wf1 i'(1)] i(2) i'(2)
    by (simp_all add: item_wf_def claimed_item_fields)
  with same have "k = k'" by simp
  then have "item' = cb_queue_item b" using i'(4) i(3) by (simp add: s1 apply_claim_def dict_simps)
  then show False using i'(3) by (simp add: eligible_def i(2) claimed_item_fields CLAIMABLE_STATUSES_def)
qed

subsection \<open>Stale claims\<close>

definition stale :: "string \<Rightarrow> obj \<Rightarrow> bool" where
  "stale now item \<longleftrightarrow>
     running item \<and> claimed_until item \<noteq> JNull \<and> py_str (claimed_until item) \<le> now"

definition recovered :: "string \<Rightarrow> obj \<Rightarrow> obj" where
  "recovered now item = update (recovered_fields now) item"

lemma is_stale_wf: "item_wf k item \<Longrightarrow> is_stale now item = Inr (stale now item)"
  by (auto simp: is_stale_def stale_def field_in_def item_wf_fields running_def not_less)

lemma recovered_fields_of:
  "sfield (recovered now item) ''status'' = ''retry_scheduled''"
  "sfield (recovered now item) ''tenant_id'' = sfield item ''tenant_id''"
  "\<not> running (recovered now item)" "\<not> stale now (recovered now item)"
  "claimed_until (recovered now item) = JNull"
  by (simp_all add: recovered_def field_updates recovered_fields_def running_def RUNNING_STATUSES_def stale_def
      claimed_until_def get_update or_else_def)

lemma recovered_wf: "item_wf k item \<Longrightarrow> item_wf k (recovered now item)"
  by (simp add: item_wf_def recovered_def field_updates recovered_fields_def)

lemma release_keeps_items [simp]:
  "st_runtime_queue_items (release_active_claim at reason i s) = st_runtime_queue_items s"
  by (simp add: release_active_claim_def update_claim_at_def set_claims_def split: option.splits)

lemma recover_one_wf:
  assumes "item_wf k item" and "map_of (st_runtime_queue_items s) k = Some item"
  shows "\<exists>s'. recover_one now (k, item) s = (Inr (if stale now item then [recovered now item] else []) :: ('e, obj list) res, s') \<and>
     dict_keys (st_runtime_queue_items s') = dict_keys (st_runtime_queue_items s) \<and>
     map_of (st_runtime_queue_items s') = (map_of (st_runtime_queue_items s))
       (k \<mapsto> if stale now item then recovered now item else item)"
proof (cases "stale now item")
  case True
  have "getitem (recovered now item) ''id'' = (Inr (JStr (sfield item ''id'')) :: ('e, json) res)"
    using item_wf_fields(6) [OF recovered_wf [OF assms(1)], of now]
    by (simp add: recovered_def sfield_update recovered_fields_def)
  with True assms show ?thesis
    by (auto simp: recover_one_def is_stale_wf Let_def set_queue_items_def dict_simps recovered_def)
next
  case False
  then show ?thesis using assms by (auto simp: recover_one_def is_stale_wf)
qed

lemma recover_loop_wf:
  assumes "distinct (dict_keys kvs)"
    and "\<forall>(k, item) \<in> set kvs. item_wf k item \<and> map_of (st_runtime_queue_items s) k = Some item"
  shows "\<exists>s'. recover_loop now kvs s =
       (Inr (map (\<lambda>kv. recovered now (snd kv)) (filter (\<lambda>kv. stale now (snd kv)) kvs)) :: ('e, obj list) res, s') \<and>
     dict_keys (st_runtime_queue_items s') = dict_keys (st_runtime_queue_items s) \<and>
     (\<forall>k. map_of (st_runtime_queue_items s') k = (case map_of kvs k of
        None \<Rightarrow> map_of (st_runtime_queue_items s) k
      | Some item \<Rightarrow> Some (if stale now item then recovered now item else item)))"
  using assms
proof (induction kvs arbitrary: s)
  case Nil
  then show ?case by auto
next
  case (Cons kv kvs)
  obtain k item where kv: "kv = (k, item)" by (cases kv)
  from Cons.prems(2) have w: "item_wf k item" "map_of (st_runtime_queue_items s) k = Some item" by (simp_all add: kv)
  from recover_one_wf [OF w, of now, where 'e = 'e] obtain s1 where s1:
    "recover_one now (k, item) s = (Inr (if stale now item then [recovered now item] else []) :: ('e, obj list) res, s1)"
    "dict_keys (st_runtime_queue_items s1) = dict_keys (st_runtime_queue_items s)"
    "map_of (st_runtime_queue_items s1) = (map_of (st_runtime_queue_items s))
       (k \<mapsto> if stale now item then recovered now item else item)" by blast
  have k: "k \<notin> set (dict_keys kvs)" and d: "distinct (dict_keys kvs)" using Cons.prems(1) by (simp_all add: kv)
  then have "\<forall>(k, item) \<in> set kvs. item_wf k item \<and> map_of (st_runtime_queue_items s1) k = Some item"
    using Cons.prems(2) s1(3) by (force simp: kv)
  from Cons.IH [OF d this] obtain s2 where s2: "recover_loop now kvs s1 =
       (Inr (map (\<lambda>kv. recovered now (snd kv)) (filter (\<lambda>kv. stale now (snd kv)) kvs)) :: ('e, obj list) res, s2)"
    "dict_keys (st_runtime_queue_items s2) = dict_keys (st_runtime_queue_items s1)"
    "\<forall>k. map_of (st_runtime_queue_items s2) k = (case map_of kvs k of
        None \<Rightarrow> map_of (st_runtime_queue_items s1) k
      | Some item \<Rightarrow> Some (if stale now item then recovered now item else item))" by blast
  have "map_of kvs k = None" using k by (simp add: map_of_eq_None_iff)
  with s1 s2 show ?case by (auto simp: bindS_def kv split: option.splits)
qed

lemma recover_stale_wf:
  assumes "queue_wf (st_runtime_queue_items s)"
  shows "\<exists>s'. recover_stale_runtime_queue_items now s =
       (Inr (map (recovered now) (filter (stale now) (dict_values (st_runtime_queue_items s)))) :: ('e, obj list) res, s') \<and>
     dict_keys (st_runtime_queue_items s') = dict_keys (st_runtime_queue_items s) \<and>
     (\<forall>k. map_of (st_runtime_queue_items s') k =
        map_option (\<lambda>item. if stale now item then recovered now item else item) (map_of (st_runtime_queue_items s) k)) \<and>
     queue_wf (st_runtime_queue_items s') \<and>
     (\<forall>item \<in> set (dict_values (st_runtime_queue_items s')). \<not> stale now item)"
proof -
  let ?items = "st_runtime_queue_items s"
  have d: "distinct (dict_keys ?items)" using assms by (simp add: queue_wf_def)
  then have "\<forall>(k, item) \<in> set ?items. item_wf k item \<and> map_of ?items k = Some item"
    using assms by (auto simp: queue_wf_def)
  from recover_loop_wf [OF d this, of now, where 'e = 'e] obtain s' where s':
    "recover_stale_runtime_queue_items now s =
       (Inr (map (\<lambda>kv. recovered now (snd kv)) (filter (\<lambda>kv. stale now (snd kv)) ?items)) :: ('e, obj list) res, s')"
    "dict_keys (st_runtime_queue_items s') = dict_keys ?items"
    "\<And>k. map_of (st_runtime_queue_items s') k = (case map_of ?items k of None \<Rightarrow> map_of ?items k
      | Some item \<Rightarrow> Some (if stale now item then recovered now item else item))"
    unfolding recover_stale_runtime_queue_items_def by blast
  have m: "map_of (st_runtime_queue_items s') k =
      map_option (\<lambda>item. if stale now item then recovered now item else item) (map_of ?items k)" for k
    by (simp add: s'(3) split: option.splits)
  have d': "distinct (dict_keys (st_runtime_queue_items s'))" using d s'(2) by simp
  have new: "\<exists>old. (k, old) \<in> set ?items \<and> item = (if stale now old then recovered now old else old)"
    if "(k, item) \<in> set (st_runtime_queue_items s')" for k item
  proof -
    from m [of k] map_of_is_SomeI [OF d' that] obtain old where "map_of ?items k = Some old"
      "item = (if stale now old then recovered now old else old)" by (cases "map_of ?items k") auto
    then show ?thesis using map_of_SomeD by fast
  qed
  have "queue_wf (st_runtime_queue_items s')"
    unfolding queue_wf_def using d' new queue_wf_item [OF assms] recovered_wf by fastforce
  moreover have "\<not> stale now item" if "item \<in> set (dict_values (st_runtime_queue_items s'))" for item
  proof -
    from that obtain k where "(k, item) \<in> set (st_runtime_queue_items s')" by auto
    from new [OF this] show ?thesis by (metis recovered_fields_of(4))
  qed
  moreover have "map (\<lambda>kv. recovered now (snd kv)) (filter (\<lambda>kv. stale now (snd kv)) ?items)
      = map (recovered now) (filter (stale now) (dict_values ?items))"
    by (simp add: filter_map comp_def)
  ultimately show ?thesis using s'(1,2) m by auto
qed

text \<open>Recovery of stale claims is exact: it never fails on a well-formed queue, it returns precisely the
  items that were claimed or running with an expired lease, reschedules them and clears their
  lease, leaves every other item as it was, and no stale item remains.\<close>

theorem recover_stale_exact:
  assumes "queue_wf (st_runtime_queue_items s)"
  shows "\<exists>s'. recover_stale_runtime_queue_items now s =
       (Inr (map (recovered now) (filter (stale now) (dict_values (st_runtime_queue_items s)))) :: ('e, obj list) res, s') \<and>
     dict_keys (st_runtime_queue_items s') = dict_keys (st_runtime_queue_items s) \<and>
     (\<forall>k. map_of (st_runtime_queue_items s') k =
        map_option (\<lambda>item. if stale now item then recovered now item else item) (map_of (st_runtime_queue_items s) k)) \<and>
     queue_wf (st_runtime_queue_items s') \<and>
     (\<forall>item \<in> set (dict_values (st_runtime_queue_items s')). \<not> stale now item)"
  by (rule recover_stale_wf [OF assms])

subsection \<open>Limits hold in every reachable queue\<close>

lemma dict_map_eq:
  "distinct (dict_keys d) \<Longrightarrow> dict_keys d' = dict_keys d \<Longrightarrow> (\<And>k. map_of d' k = map_option f (map_of d k)) \<Longrightarrow>
   dict_values d' = map f (dict_values d)"
proof (rule nth_equalityI)
  assume d: "distinct (dict_keys d)" and keys: "dict_keys d' = dict_keys d"
    and m: "\<And>k. map_of d' k = map_option f (map_of d k)"
  show len: "length (dict_values d') = length (map f (dict_values d))" using keys by (metis length_map)
  fix i assume "i < length (dict_values d')"
  then have i: "i < length d'" "i < length d" using len by simp_all
  have k: "fst (d' ! i) = fst (d ! i)" using keys i by (metis nth_map)
  have "map_of d' (fst (d' ! i)) = Some (snd (d' ! i))" "map_of d (fst (d ! i)) = Some (snd (d ! i))"
    using d keys i by (simp_all add: map_of_is_SomeI)
  then show "dict_values d' ! i = map f (dict_values d) ! i" using m [of "fst (d ! i)"] i by (simp add: k)
qed

lemma filter_map_le: "(\<And>x. P (f x) \<Longrightarrow> P x) \<Longrightarrow> length (filter P (map f xs)) \<le> length (filter P xs)"
  by (induction xs) auto

lemma recover_keeps_limits:
  assumes "queue_wf (st_runtime_queue_items s)"
    and "recover_stale_runtime_queue_items now s = (Inr xs :: ('e, obj list) res, s')"
    and "limits_kept L g (st_runtime_queue_items s)"
  shows "limits_kept L g (st_runtime_queue_items s')"
proof -
  let ?f = "\<lambda>item. if stale now item then recovered now item else item"
  from recover_stale_wf [OF assms(1), of now, where 'e = 'e] assms(2) have
    "dict_keys (st_runtime_queue_items s') = dict_keys (st_runtime_queue_items s)"
    "\<And>k. map_of (st_runtime_queue_items s') k = map_option ?f (map_of (st_runtime_queue_items s) k)" by auto
  moreover have "distinct (dict_keys (st_runtime_queue_items s))" using assms(1) by (simp add: queue_wf_def)
  ultimately have v: "dict_values (st_runtime_queue_items s') = map ?f (dict_values (st_runtime_queue_items s))"
    by (intro dict_map_eq)
  show ?thesis
    using assms(3) unfolding running_of_def running_total_def v
    by (intro limits_kept_le [OF _ _ assms(3)])
      (unfold running_of_def running_total_def v, intro filter_map_le; auto simp: recovered_fields_of split: if_splits)+
qed

lemma count_dict_set_le:
  assumes "\<not> P v"
  shows "length (filter P (dict_values (dict_set k v d))) \<le> length (filter P (dict_values d))"
  using assms by (induction k v d rule: dict_set.induct) auto

text \<open>What may happen to the queue: a claim under fixed limits, a recovery, an insertion of an item that is not
  running, and an update of one item that keeps it well formed, keeps its tenant and does not make
  an idle item run.\<close>

inductive queue_step :: "(string \<times> int) list \<Rightarrow> int option \<Rightarrow> store \<Rightarrow> store \<Rightarrow> bool" for L g where
  claim_step: "claim_next_runtime_queue_attempt q s = (Inr (Some b) :: (unit, claim_bundle option) res, s') \<Longrightarrow>
    cr_tenant_running_limits q = L \<Longrightarrow> cr_global_running_limit q = g \<Longrightarrow> queue_step L g s s'"
| recover_step: "recover_stale_runtime_queue_items now s = (Inr xs :: (unit, obj list) res, s') \<Longrightarrow> queue_step L g s s'"
| insert_step: "insert_runtime_queue_item r s = (Inr x :: (unit, obj) res, s') \<Longrightarrow> item_wf (get r ''id'') r \<Longrightarrow>
    \<not> running r \<Longrightarrow> queue_step L g s s'"
| update_step: "update_runtime_queue_item i flds s = (Inr x :: (unit, obj) res, s') \<Longrightarrow>
    get_runtime_queue_item i s = Some item \<Longrightarrow> item_wf (JStr i) (update flds item) \<Longrightarrow>
    (running (update flds item) \<Longrightarrow> running item) \<Longrightarrow>
    sfield (update flds item) ''tenant_id'' = sfield item ''tenant_id'' \<Longrightarrow> queue_step L g s s'"

lemma insert_keeps_wf:
  assumes "insert_runtime_queue_item r s = (Inr x :: ('e, obj) res, s')" and "item_wf (get r ''id'') r"
    and "queue_wf (st_runtime_queue_items s)"
  shows "st_runtime_queue_items s' = st_runtime_queue_items s \<or>
      st_runtime_queue_items s' = dict_set (get r ''id'') r (st_runtime_queue_items s)"
    and "queue_wf (st_runtime_queue_items s')"
proof -
  have g: "getitem r ''id'' = (Inr (get r ''id'') :: ('e, json) res)" "\<exists>i. get r ''id'' = JStr i"
    using assms(2) item_wf_fields(6) [OF assms(2)] by (auto simp: item_wf_def has_text_def get_def get_or_def)
  show c: "st_runtime_queue_items s' = st_runtime_queue_items s \<or>
      st_runtime_queue_items s' = dict_set (get r ''id'') r (st_runtime_queue_items s)"
    using assms(1) g by (auto simp: insert_runtime_queue_item_def insert_into_def put_record_def set_queue_items_def Let_def
        split: option.splits if_splits)
  have "queue_wf (dict_set (get r ''id'') r (st_runtime_queue_items s))"
    using assms(2,3) by (auto simp: queue_wf_def distinct_dict_set set_dict_set)
  then show "queue_wf (st_runtime_queue_items s')" using c assms(3) by auto
qed

definition queue_invariant :: "(string \<times> int) list \<Rightarrow> int option \<Rightarrow> store \<Rightarrow> bool" where
  "queue_invariant L g s \<longleftrightarrow> queue_wf (st_runtime_queue_items s) \<and> limits_kept L g (st_runtime_queue_items s)"

lemma queue_step_invariant:
  assumes "queue_step L g s s'" and inv: "queue_invariant L g s"
  shows "queue_invariant L g s'"
  using assms
proof cases
  case (claim_step q b)
  then show ?thesis using claim_keeps_wf_and_limits inv by (auto simp: queue_invariant_def)
next
  case (recover_step now xs)
  then show ?thesis
    using recover_keeps_limits [OF _ recover_step] recover_stale_wf [of s now, where 'e = unit] inv
    by (auto simp: queue_invariant_def)
next
  case (insert_step r x)
  have "queue_wf (st_runtime_queue_items s)" "limits_kept L g (st_runtime_queue_items s)"
    using inv by (simp_all add: queue_invariant_def)
  moreover have "limits_kept L g (dict_set (get r ''id'') r (st_runtime_queue_items s))"
  proof (rule limits_kept_le)
    show "running_of tenant (dict_set (get r ''id'') r (st_runtime_queue_items s)) \<le> running_of tenant (st_runtime_queue_items s)" for tenant
      unfolding running_of_def using insert_step(3) by (intro count_dict_set_le) simp
    show "running_total (dict_set (get r ''id'') r (st_runtime_queue_items s)) \<le> running_total (st_runtime_queue_items s)"
      unfolding running_total_def using insert_step(3) by (rule count_dict_set_le)
    show "limits_kept L g (st_runtime_queue_items s)" using inv by (simp add: queue_invariant_def)
  qed
  ultimately show ?thesis using insert_keeps_wf [OF insert_step(1,2)] by (auto simp: queue_invariant_def)
next
  case (update_step i flds x item)
  have it: "map_of (st_runtime_queue_items s) (JStr i) = Some item"
    using update_step(2) by (simp add: get_runtime_queue_item_def)
  have items': "st_runtime_queue_items s' = dict_mod (JStr i) (update flds) (st_runtime_queue_items s)"
    using update_step(1) it by (auto simp: update_runtime_queue_item_def update_in_def update_record_def set_queue_items_def)
  have wf: "queue_wf (st_runtime_queue_items s)" using inv by (simp add: queue_invariant_def)
  have same: "item' = item" if "(JStr i, item') \<in> set (st_runtime_queue_items s)" for item'
    using that it wf by (simp add: queue_wf_def map_of_is_SomeI)
  have "queue_wf (st_runtime_queue_items s')"
    unfolding items' by (rule queue_wf_mod [OF wf]) (use same update_step(3) in blast)
  moreover have "limits_kept L g (st_runtime_queue_items s')"
    unfolding items' by (rule limits_kept_mod [OF wf it]) (use inv update_step(4,5) in \<open>simp_all add: queue_invariant_def\<close>)
  ultimately show ?thesis by (simp add: queue_invariant_def)
qed

interpretation queue_limits: invariant_system "\<lambda>s. s = empty_store" "queue_step L g" "queue_invariant L g" for L g
proof
  show "queue_invariant L g s" if "s = empty_store" for s
    using that by (simp add: queue_invariant_def queue_wf_def limits_kept_def running_of_def running_total_def empty_store_def)
qed (rule queue_step_invariant)


subsection \<open>Idempotent inserts and ordered logs\<close>

lemma find_dict_set:
  assumes "find P (dict_values d) = None" and "P v"
  shows "find P (dict_values (dict_set k v d)) = Some v"
  using assms by (induction k v d rule: dict_set.induct) (auto split: if_splits)

lemma insert_into_Inr:
  assumes "insert_into sel upd r s = (Inr x :: ('e, obj) res, s')"
  shows "x = r \<and> (\<exists>k. s' = upd (dict_set k r (sel s)) s)"
proof (cases "put_record r (sel s) :: ('e, table) res")
  case (Inr t)
  then show ?thesis using assms by (auto simp: insert_into_def put_record_def bindR_Inr_iff dest: hashable_Inr)
qed (use assms in \<open>simp add: insert_into_def\<close>)

lemma insert_item_again:
  assumes "insert_runtime_queue_item r s = (Inr x :: ('e, obj) res, s')"
    and "get r ''idempotency_key'' = JStr key" and "get r' ''idempotency_key'' = JStr key"
  shows "insert_runtime_queue_item r' s' = (Inr x :: ('e, obj) res, s') \<and> get x ''idempotency_key'' = JStr key"
proof (cases "find (\<lambda>x. py_eq (get x ''idempotency_key'') (JStr key)) (dict_values (st_runtime_queue_items s))")
  case None
  then have "insert_into st_runtime_queue_items set_queue_items r s = (Inr x :: ('e, obj) res, s')"
    using assms(1,2) by (simp add: insert_runtime_queue_item_def)
  then obtain k where "s' = set_queue_items (dict_set k r (st_runtime_queue_items s)) s" "x = r"
    by (blast dest: insert_into_Inr)
  then show ?thesis using find_dict_set [OF None, of r k] assms(2,3)
    by (simp add: insert_runtime_queue_item_def set_queue_items_def)
next
  case (Some y)
  then show ?thesis using assms find_member [OF Some] by (simp add: insert_runtime_queue_item_def)
qed

text \<open>Queue insertion is idempotent: after a record was accepted, inserting any record with the same
  idempotency key returns the stored record and leaves the store unchanged.\<close>

theorem queue_insert_idempotent:
  assumes "insert_runtime_queue_item r s = (Inr x :: ('e, obj) res, s')"
    and "get r ''idempotency_key'' = JStr key" and "get r' ''idempotency_key'' = JStr key"
  shows "insert_runtime_queue_item r' s' = (Inr x :: ('e, obj) res, s') \<and> get x ''idempotency_key'' = JStr key"
  by (rule insert_item_again [OF assms])

text \<open>A caller that allocates several event indices of a run in a row.\<close>

fun allocate_many :: "nat \<Rightarrow> string \<Rightarrow> ('e, int list) sto" where
  "allocate_many 0 run = retS []"
| "allocate_many (Suc n) run =
     bindS (allocate_runtime_event_index run) (\<lambda>i. bindS (allocate_many n run) (\<lambda>is. retS (i # is)))"

lemma allocate_cached:
  assumes "map_of (st_event_indices s) run = Some n"
  shows "\<exists>s'. allocate_many k run s = (Inr (map (\<lambda>i. n + int i) [0..<k]) :: ('e, int list) res, s') \<and>
     map_of (st_event_indices s') run = Some (n + int k) \<and>
     (\<forall>other. other \<noteq> run \<longrightarrow> map_of (st_event_indices s') other = map_of (st_event_indices s) other)"
  using assms
proof (induction k arbitrary: s n)
  case (Suc k)
  let ?s1 = "s\<lparr>st_event_indices := dict_set run (n + 1) (st_event_indices s)\<rparr>"
  have a: "allocate_runtime_event_index run s = (Inr n :: ('e, int) res, ?s1)"
    using Suc.prems by (simp add: allocate_runtime_event_index_def bindS_def next_index_def)
  have "map_of (st_event_indices ?s1) run = Some (n + 1)" by (simp add: dict_simps)
  from Suc.IH [OF this] obtain s2 where s2:
    "allocate_many k run ?s1 = (Inr (map (\<lambda>i. n + 1 + int i) [0..<k]) :: ('e, int list) res, s2)"
    "map_of (st_event_indices s2) run = Some (n + 1 + int k)"
    "\<forall>other. other \<noteq> run \<longrightarrow> map_of (st_event_indices s2) other = map_of (st_event_indices ?s1) other" by blast
  have "map (\<lambda>i. n + int i) [0..<Suc k] = n # map (\<lambda>i. n + 1 + int i) [0..<k]"
    by (simp add: upt_conv_Cons map_Suc_upt [symmetric] comp_def del: upt_Suc)
  with a s2 show ?case by (auto simp: bindS_def dict_simps)
qed simp

text \<open>Events of a run are numbered without gaps or repetitions: once a run has received an index, its
  next allocations are the consecutive numbers that follow, whatever their count, and the
  numbering of other runs is untouched.\<close>

theorem event_indices_consecutive:
  assumes "allocate_runtime_event_index run s = (Inr n :: ('e, int) res, s1)"
  shows "\<exists>s2. allocate_many k run s1 = (Inr (map (\<lambda>i. n + 1 + int i) [0..<k]) :: ('e, int list) res, s2) \<and>
     (\<forall>other. other \<noteq> run \<longrightarrow> map_of (st_event_indices s2) other = map_of (st_event_indices s) other)"
proof -
  have s1: "s1 = s\<lparr>st_event_indices := dict_set run (n + 1) (st_event_indices s)\<rparr>"
    using assms by (auto simp: allocate_runtime_event_index_def bindS_cases)
  then have "map_of (st_event_indices s1) run = Some (n + 1)" by (simp add: dict_simps)
  from allocate_cached [OF this, of k, where 'e = 'e] show ?thesis by (auto simp: s1 dict_simps)
qed

subsection \<open>Witnesses\<close>

definition sample_item :: "string \<Rightarrow> string \<Rightarrow> int \<Rightarrow> obj" where
  "sample_item i tenant priority =
     [(''id'', JStr i), (''task_id'', JStr (''task-'' @ i)), (''tenant_id'', JStr tenant), (''status'', JStr ''queued''),
      (''priority'', JInt priority), (''scheduled_at'', JStr ''2026-01-01T00:00:00Z''), (''attempts'', JInt 0),
      (''idempotency_key'', JStr i), (''created_at'', JStr ''2026-01-01T00:00:00Z'')]"

definition sample_store :: store where
  "sample_store = empty_store\<lparr>st_runtime_queue_items :=
     [(JStr ''q-1'', sample_item ''q-1'' ''acme'' 0), (JStr ''q-2'', sample_item ''q-2'' ''acme'' 5),
      (JStr ''q-3'', sample_item ''q-3'' ''globex'' 1)]\<rparr>"

definition sample_request :: claim_request where
  "sample_request = \<lparr>cr_worker_id = ''w-1'', cr_claimed_at = ''2026-01-02T00:00:00Z'',
     cr_lease_expires_at = ''2026-01-02T00:05:00Z'', cr_tenant_running_limits = [(''acme'', 1)],
     cr_global_running_limit = Some 2, cr_allowed_tenant_ids = [], cr_disabled_tenant_ids = [],
     cr_environment = None, cr_queue_name = None\<rparr>"

definition claimed_store :: store where
  "claimed_store = snd (claim_next_runtime_queue_attempt sample_request sample_store :: (unit, claim_bundle option) res \<times> store)"

definition claimed_bundle :: claim_bundle where
  "claimed_bundle =
     (case fst (claim_next_runtime_queue_attempt sample_request sample_store :: (unit, claim_bundle option) res \<times> store) of
        Inr (Some b) \<Rightarrow> b | _ \<Rightarrow> claim_of sample_request [])"

lemma sample_store_wf: "queue_wf (st_runtime_queue_items sample_store)"
  by code_simp

lemma sample_claim:
  "claim_next_runtime_queue_attempt sample_request sample_store = (Inr (Some claimed_bundle) :: (unit, claim_bundle option) res, claimed_store)"
proof -
  have "case fst (claim_next_runtime_queue_attempt sample_request sample_store :: (unit, claim_bundle option) res \<times> store) of
      Inr (Some b) \<Rightarrow> True | _ \<Rightarrow> False" by code_simp
  then show ?thesis
    unfolding claimed_bundle_def claimed_store_def by (auto simp: prod_eq_iff split: sum.splits option.splits)
qed

theorem claim_takes_best_item_witness:
  "sfield (cb_queue_item claimed_bundle) ''status'' = ''claiming''"
  using claim_takes_best_item [OF sample_store_wf sample_claim] by blast


theorem claims_are_exclusive_witness:
  "case (claim_next_runtime_queue_attempt sample_request claimed_store :: (unit, claim_bundle option) res \<times> store) of
     (Inr (Some b'), s2) \<Rightarrow> sfield (cb_queue_item claimed_bundle) ''id'' \<noteq> sfield (cb_queue_item b') ''id''
   | _ \<Rightarrow> False"
proof -
  have "case (claim_next_runtime_queue_attempt sample_request claimed_store :: (unit, claim_bundle option) res \<times> store) of
     (Inr (Some b'), s2) \<Rightarrow> True | _ \<Rightarrow> False" by code_simp
  then show ?thesis
    using claims_are_exclusive [OF sample_store_wf sample_claim, of sample_request]
    by (auto split: prod.splits sum.splits option.splits)
qed

theorem recover_stale_exact_witness:
  "\<exists>s'. fst (recover_stale_runtime_queue_items ''2026-02-01T00:00:00Z'' claimed_store :: (unit, obj list) res \<times> store)
     = Inr (map (recovered ''2026-02-01T00:00:00Z'') (filter (stale ''2026-02-01T00:00:00Z'') (dict_values (st_runtime_queue_items claimed_store)))) \<and>
     map (\<lambda>x. sfield x ''id'') (filter (stale ''2026-02-01T00:00:00Z'') (dict_values (st_runtime_queue_items claimed_store))) = [''q-2'']"
proof -
  have "queue_wf (st_runtime_queue_items claimed_store)"
    by (rule claim_keeps_wf_and_limits(1) [OF sample_store_wf sample_claim])
  moreover have "map (\<lambda>x. sfield x ''id'') (filter (stale ''2026-02-01T00:00:00Z'')
      (dict_values (st_runtime_queue_items claimed_store))) = [''q-2'']" by code_simp
  ultimately show ?thesis using recover_stale_exact [of claimed_store "''2026-02-01T00:00:00Z''", where 'e = unit] by auto
qed

definition inserted_store :: store where
  "inserted_store = snd (insert_runtime_queue_item (sample_item ''q-2'' ''acme'' 5) empty_store :: (unit, obj) res \<times> store)"

definition limited_store :: store where
  "limited_store = snd (claim_next_runtime_queue_attempt sample_request inserted_store :: (unit, claim_bundle option) res \<times> store)"


theorem queue_insert_idempotent_witness:
  "insert_runtime_queue_item (sample_item ''q-9'' ''acme'' 3) (snd (insert_runtime_queue_item (sample_item ''q-9'' ''acme'' 0) sample_store :: (unit, obj) res \<times> store))
     = (Inr (sample_item ''q-9'' ''acme'' 0) :: (unit, obj) res,
        snd (insert_runtime_queue_item (sample_item ''q-9'' ''acme'' 0) sample_store :: (unit, obj) res \<times> store))"
proof -
  have "fst (insert_runtime_queue_item (sample_item ''q-9'' ''acme'' 0) sample_store :: (unit, obj) res \<times> store)
      = Inr (sample_item ''q-9'' ''acme'' 0)" by code_simp
  then show ?thesis
    using queue_insert_idempotent [of "sample_item ''q-9'' ''acme'' 0" sample_store "sample_item ''q-9'' ''acme'' 0" _ "''q-9''"
        "sample_item ''q-9'' ''acme'' 3", where 'e = unit]
    by (simp add: prod_eq_iff sample_item_def)
qed

theorem event_indices_consecutive_witness:
  "\<exists>s2. allocate_many 3 ''run-1'' (snd (allocate_runtime_event_index ''run-1'' empty_store :: (unit, int) res \<times> store))
     = (Inr [1, 2, 3] :: (unit, int list) res, s2)"
proof -
  have "fst (allocate_runtime_event_index ''run-1'' empty_store :: (unit, int) res \<times> store) = Inr 0" by code_simp
  then show ?thesis
    using event_indices_consecutive [of "''run-1''" empty_store 0 _ 3, where 'e = unit]
    by (auto simp: prod_eq_iff upt_conv_Cons)
qed

end

