(* ===== verification/Redaction.thy ===== *)
theory Redaction
  imports Artifacts
begin

text \<open>
  Redaction of sensitive data in \<open>runtime/artifacts.py\<close> and the full \<open>write_json\<close>. The regular expressions of the
  module only repeat character classes, so a pattern is a list of parts, each of which yields its possible matches in
  the order in which the backtracking matcher of \<open>re\<close> tries them; the first way to match all parts is the match.
\<close>

subsection \<open>Patterns\<close>

text \<open>A part takes the character before the position and the text after it; it yields the matched text and the rest.\<close>

type_synonym part = "char option \<Rightarrow> string \<Rightarrow> (string \<times> string) list"

definition split_lengths :: "nat list \<Rightarrow> string \<Rightarrow> (string \<times> string) list" where
  "split_lengths ns s = map (\<lambda>n. (take n s, drop n s)) ns"

definition rx_many :: "(char \<Rightarrow> bool) \<Rightarrow> part" where
  "rx_many P prev s = split_lengths (rev [0..<Suc (length (takeWhile P s))]) s"

definition rx_some :: "(char \<Rightarrow> bool) \<Rightarrow> part" where
  "rx_some P prev s = split_lengths (rev [1..<Suc (length (takeWhile P s))]) s"

definition rx_optional :: "(char \<Rightarrow> bool) \<Rightarrow> part" where
  "rx_optional P prev s = split_lengths (if s \<noteq> [] \<and> P (hd s) then [1, 0] else [0]) s"

definition rx_any_lazy :: part where
  "rx_any_lazy prev s = split_lengths [0..<Suc (length s)] s"

definition rx_one :: "(char \<Rightarrow> bool) \<Rightarrow> part" where
  "rx_one P prev s = split_lengths (if s \<noteq> [] \<and> P (hd s) then [1] else []) s"

definition rx_literal :: "string \<Rightarrow> part" where
  "rx_literal t prev s = split_lengths (if take (length t) s = t then [length t] else []) s"

text \<open>A literal under \<open>re.IGNORECASE\<close>.\<close>

definition rx_word :: "string \<Rightarrow> part" where
  "rx_word t prev s = split_lengths (if casefold (take (length t) s) = casefold t then [length t] else []) s"

definition rx_boundary :: part where
  "rx_boundary prev s =
     (let before = (case prev of None \<Rightarrow> False | Some c \<Rightarrow> is_word c); after = (s \<noteq> [] \<and> is_word (hd s))
      in if before \<noteq> after then [([], s)] else [])"

definition rx_alternatives :: "part list \<Rightarrow> part" where
  "rx_alternatives ps prev s = concat (map (\<lambda>p. p prev s) ps)"

definition before_rest :: "char option \<Rightarrow> string \<Rightarrow> char option" where
  "before_rest prev m = (if m = [] then prev else Some (last m))"

fun rx_sequence :: "part list \<Rightarrow> part" where
  "rx_sequence [] prev s = [([], s)]"
| "rx_sequence (p # ps) prev s =
     concat (map (\<lambda>(m, rest). map (\<lambda>(m', rest'). (m @ m', rest')) (rx_sequence ps (before_rest prev m) rest)) (p prev s))"

text \<open>Matches of a pattern whose marked parts are captured groups: the captures, the matched text and the rest.\<close>

fun match_parts :: "(bool \<times> part) list \<Rightarrow> char option \<Rightarrow> string \<Rightarrow> (string list \<times> string \<times> string) list" where
  "match_parts [] prev s = [([], [], s)]"
| "match_parts ((captured, p) # ps) prev s =
     concat (map (\<lambda>(m, rest). map (\<lambda>(groups, m', rest'). ((if captured then m # groups else groups), m @ m', rest'))
       (match_parts ps (before_rest prev m) rest)) (p prev s))"

text \<open>\<open>pattern.sub(replacement, s)\<close>. No pattern of the module matches the empty text.\<close>

function sub_from :: "(bool \<times> part) list \<Rightarrow> (string list \<Rightarrow> string) \<Rightarrow> char option \<Rightarrow> string \<Rightarrow> string" where
  "sub_from pattern replacement prev s =
     (case match_parts pattern prev s of
        (groups, m, rest) # _ \<Rightarrow>
          if length rest < length s then replacement groups @ sub_from pattern replacement (before_rest prev m) rest
          else (case s of [] \<Rightarrow> [] | c # cs \<Rightarrow> c # sub_from pattern replacement (Some c) cs)
      | [] \<Rightarrow> (case s of [] \<Rightarrow> [] | c # cs \<Rightarrow> c # sub_from pattern replacement (Some c) cs))"
  by pat_completeness auto
termination
  by (relation "measure (\<lambda>(_, _, _, s). length s)") auto

declare sub_from.simps [simp del]

subsection \<open>The patterns of the module\<close>

definition REDACTED :: string where
  "REDACTED = ''[REDACTED]''"

definition token_char :: "char \<Rightarrow> bool" where
  "token_char c \<longleftrightarrow> is_alpha c \<or> is_digit c \<or> c \<in> set ''._~+/=-''"

definition key_separator :: "char \<Rightarrow> bool" where
  "key_separator c \<longleftrightarrow> c \<in> set ''-_ ''"

definition value_char :: "char \<Rightarrow> bool" where
  "value_char c \<longleftrightarrow> \<not> is_space c \<and> c \<notin> {CHR 39, CHR 34, CHR '','', CHR '';''}"

definition upper_or_blank :: "char \<Rightarrow> bool" where
  "upper_or_blank c \<longleftrightarrow> is_upper c \<or> c = CHR '' ''"

definition rx_keyed_word :: "string \<Rightarrow> part" where
  "rx_keyed_word t = rx_sequence [rx_word t, rx_optional key_separator, rx_word ''key'']"

definition SECRET_ASSIGNMENT_PATTERN :: "(bool \<times> part) list" where
  "SECRET_ASSIGNMENT_PATTERN =
     [(False, rx_boundary),
      (True, rx_alternatives [rx_keyed_word ''api'', rx_word ''apikey'', rx_word ''password'', rx_keyed_word ''private'',
                           rx_word ''secret'', rx_keyed_word ''ssh'', rx_word ''token'']),
      (False, rx_boundary),
      (True, rx_sequence [rx_many is_space, rx_one (\<lambda>c. c \<in> set '':=''), rx_many is_space]),
      (False, rx_some value_char)]"

definition AUTHORIZATION_BEARER_PATTERN :: "(bool \<times> part) list" where
  "AUTHORIZATION_BEARER_PATTERN =
     [(False, rx_boundary), (False, rx_word ''Authorization''),
      (True, rx_sequence [rx_many is_space, rx_one (\<lambda>c. c = CHR '':''), rx_many is_space]),
      (False, rx_word ''Bearer''), (False, rx_some is_space), (False, rx_some token_char)]"

definition BEARER_TOKEN_PATTERN :: "(bool \<times> part) list" where
  "BEARER_TOKEN_PATTERN =
     [(False, rx_boundary), (False, rx_word ''Bearer''), (False, rx_some is_space), (False, rx_some token_char)]"

definition PRIVATE_KEY_PATTERN :: "(bool \<times> part) list" where
  "PRIVATE_KEY_PATTERN =
     [(False, rx_literal ''-----BEGIN ''), (False, rx_many upper_or_blank), (False, rx_literal ''PRIVATE KEY-----''),
      (False, rx_any_lazy), (False, rx_literal ''-----END ''), (False, rx_many upper_or_blank), (False, rx_literal ''PRIVATE KEY-----'')]"

definition redact_sensitive_string :: "string \<Rightarrow> string" where
  "redact_sensitive_string v =
     (let r1 = sub_from PRIVATE_KEY_PATTERN (\<lambda>_. REDACTED) None v;
          r2 = sub_from AUTHORIZATION_BEARER_PATTERN (\<lambda>groups. ''Authorization'' @ hd groups @ ''Bearer '' @ REDACTED) None r1;
          r3 = sub_from BEARER_TOKEN_PATTERN (\<lambda>_. ''Bearer '' @ REDACTED) None r2
      in sub_from SECRET_ASSIGNMENT_PATTERN (\<lambda>groups. hd groups @ hd (tl groups) @ REDACTED) None r3)"

subsection \<open>Values\<close>

definition SENSITIVE_KEY_PARTS :: "string list" where
  "SENSITIVE_KEY_PARTS =
     [''authorization'', ''api-key'', ''api_key'', ''apikey'', ''password'', ''private-key'', ''private_key'', ''secret'',
      ''ssh-key'', ''ssh_key'', ''token'']"

definition is_sensitive_key :: "string \<Rightarrow> bool" where
  "is_sensitive_key key \<longleftrightarrow>
     (let normalized = map (\<lambda>c. if c = CHR '' '' then CHR ''-'' else c) (casefold key)
      in \<exists>part \<in> set SENSITIVE_KEY_PARTS. contains part normalized)"

fun redact_sensitive_data :: "json \<Rightarrow> json" where
  "redact_sensitive_data (JObj m) =
     JObj (map (\<lambda>kv. (fst kv, if is_sensitive_key (fst kv) then JStr REDACTED else redact_sensitive_data (snd kv))) m)"
| "redact_sensitive_data (JList xs) = JList (map redact_sensitive_data xs)"
| "redact_sensitive_data (JStr s) = JStr (redact_sensitive_string s)"
| "redact_sensitive_data v = v"

definition write_json :: "string list \<Rightarrow> json \<Rightarrow> bool \<Rightarrow> (artifact_store, 'e, string) st" where
  "write_json path payload redact = write_json_raw path (if redact then redact_sensitive_data payload else payload)"

subsection \<open>Nothing sensitive is written\<close>

text \<open>All entries of the objects in a value, at every depth.\<close>

fun entries :: "json \<Rightarrow> (string \<times> json) list" where
  "entries (JObj m) = m @ concat (map (\<lambda>kv. entries (snd kv)) m)"
| "entries (JList xs) = concat (map entries xs)"
| "entries v = []"

definition leak_free :: "json \<Rightarrow> bool" where
  "leak_free v \<longleftrightarrow> (\<forall>(k, w) \<in> set (entries v). is_sensitive_key k \<longrightarrow> w = JStr REDACTED)"

lemma leak_free_simps:
  "leak_free (JObj m) \<longleftrightarrow> (\<forall>(k, w) \<in> set m. (is_sensitive_key k \<longrightarrow> w = JStr REDACTED) \<and> leak_free w)"
  "leak_free (JList xs) \<longleftrightarrow> (\<forall>x \<in> set xs. leak_free x)"
  "leak_free (JStr s)" "leak_free JNull" "leak_free (JBool b)" "leak_free (JInt i)"
  by (auto simp: leak_free_def ball_Un split_beta)

lemma redact_leak_free: "leak_free (redact_sensitive_data v)"
  by (induction v rule: redact_sensitive_data.induct) (auto simp: leak_free_simps)

lemma sort_keys_leak_free: "leak_free v \<Longrightarrow> leak_free (sort_keys v)"
proof (induction v rule: sort_keys.induct)
  case (2 m)
  have "leak_free (sort_keys w)" if "(k, w) \<in> set m" for k w
    using 2 that by (fastforce simp: leak_free_simps)
  moreover have "w = JStr REDACTED" if "(k, w) \<in> set m" "is_sensitive_key k" for k w
    using 2(2) that by (fastforce simp: leak_free_simps)
  ultimately show ?case by (fastforce simp: leak_free_simps)
qed (auto simp: leak_free_simps)

definition sample_secret :: json where
  "sample_secret = JObj [(''request'', JStr ''deploy''), (''auth'', JList [JObj [(''API Key'', JStr ''k-17''), (''user'', JStr ''ada'')]])]"



lemma redaction_examples:
  "redact_sensitive_string ''Authorization: Bearer abc.d-1, token=xyz; ok'' = ''Authorization: Bearer [REDACTED], token=[REDACTED]; ok''"
  "redact_sensitive_string ''api key : q1'' = ''api key : [REDACTED]''"
  "redact_sensitive_string ''tokens=3'' = ''tokens=3''"
  by code_simp+

end
