(* ===== verification/Flight_Recorder.thy ===== *)
theory Flight_Recorder
  imports Runtime_Store Redaction
begin

text \<open>
  \<open>runtime/flight_recorder.py\<close>: runs, steps, events and checkpoints are written to the runtime store, their payloads
  to the artifact store. The two stores together are the state that the services of the runtime share. Every reading
  of the clock is an argument of the operation that takes it.
\<close>

subsection \<open>The shared state\<close>

record runtime_sys =
  qs_store :: store
  qs_artifacts :: artifact_store

type_synonym ('e, 'a) sys = "(runtime_sys, 'e, 'a) st"

definition on_store :: "('e, 'a) sto \<Rightarrow> ('e, 'a) sys" where
  "on_store m s = (case m (qs_store s) of (r, st) \<Rightarrow> (r, s\<lparr>qs_store := st\<rparr>))"

definition on_artifacts :: "(artifact_store, 'e, 'a) st \<Rightarrow> ('e, 'a) sys" where
  "on_artifacts m s = (case m (qs_artifacts s) of (r, a) \<Rightarrow> (r, s\<lparr>qs_artifacts := a\<rparr>))"

text \<open>\<open>x or y\<close> on an optional string.\<close>

definition text_or :: "string option \<Rightarrow> string \<Rightarrow> string" where
  "text_or x y = (case x of None \<Rightarrow> y | Some s \<Rightarrow> if s = [] then y else s)"

subsection \<open>Vocabularies\<close>

definition RUNTIME_STATUSES :: "string list" where
  "RUNTIME_STATUSES = [''queued'', ''running'', ''succeeded'', ''failed'', ''cancelled'']"

definition RUNTIME_STEP_KINDS :: "string list" where
  "RUNTIME_STEP_KINDS = [''context'', ''planner'', ''executor'', ''validator'']"

definition STOP_REASONS :: "string list" where
  "STOP_REASONS =
     [''completed'', ''max_tokens'', ''max_duration'', ''max_tool_calls'', ''max_data_reads'', ''max_memory_ops'',
      ''max_recompositions'', ''policy_denied'', ''validator_failed'', ''tool_error'', ''cancelled'', ''needs_recomposition'',
      ''composer_failure'', ''runtime_error'']"

definition RUNTIME_EVENT_TYPES :: "string list" where
  "RUNTIME_EVENT_TYPES =
     [''task_intake_normalized'', ''task_analyzed'', ''candidates_discovered'', ''candidates_scored'', ''policies_evaluated'',
      ''graph_validated'', ''profile_emitted'', ''profile_validated'', ''runtime_started'', ''access_attempted'',
      ''validator_executed'', ''runtime_completed'', ''runtime_failed'', ''runtime_cancelled'', ''tenant_throttled'',
      ''quota_reserved'', ''quota_exhausted'', ''step_started'', ''step_completed'', ''tool_invocation_started'',
      ''tool_invocation_completed'', ''runtime_after_tool_hook_evaluated'', ''budget_exhausted'', ''checkpoint_created'',
      ''recomposition_requested'']"

definition RUNTIME_ACTOR_ROLES :: "string list" where
  "RUNTIME_ACTOR_ROLES =
     [''context_manager'', ''planner'', ''executor'', ''validator'', ''policy_engine'', ''quota_manager'', ''runtime'', ''composer'']"

definition RUNTIME_PHASES :: "string list" where
  "RUNTIME_PHASES =
     [''task_intake'', ''analysis'', ''composition'', ''context'', ''planner'', ''executor'', ''validator'', ''finalization'']"

definition require_stop_reason :: "string option \<Rightarrow> ('e, unit) res" where
  "require_stop_reason stop = (case stop of None \<Rightarrow> Inr () | Some r \<Rightarrow> require_choice r STOP_REASONS)"

subsection \<open>Runs and steps\<close>

record run_options =
  ro_status :: string
  ro_profile_artifact_uri :: "string option"
  ro_profile_sha256 :: "string option"
  ro_profile_generation :: "int option"
  ro_parent_profile_id :: "string option"

definition opt_int :: "int option \<Rightarrow> json" where
  "opt_int x = (case x of None \<Rightarrow> JNull | Some i \<Rightarrow> JInt i)"

definition start_run :: "datetime \<Rightarrow> string \<Rightarrow> obj \<Rightarrow> string option \<Rightarrow> run_options \<Rightarrow> ('e, obj) sys" where
  "start_run clock task_id profile run_id opts s =
     (bindS (liftS (require_choice (ro_status opts) RUNTIME_STATUSES)) (\<lambda>_.
      bindS (liftS (getitem profile ''id'')) (\<lambda>profile_id.
      bindS (liftS (getitem profile ''profile_version'')) (\<lambda>version.
      on_store (insert_runtime_run
        [(''id'', JStr (text_or run_id (slug_id (removeprefix ''task-'' task_id) (Some ''run'')))),
         (''task_id'', JStr task_id),
         (''profile_id'', JStr (py_str profile_id)),
         (''profile_version'', JStr (py_str version)),
         (''status'', JStr (ro_status opts)),
         (''started_at'', JStr (iso_timestamp clock)),
         (''completed_at'', JNull),
         (''artifact_root_uri'', JStr (ar_uri_prefix (qs_artifacts s))),
         (''token_budget_total'',
            (case as_obj (get_or profile ''limits'' (JObj [])) of None \<Rightarrow> JNull | Some limits \<Rightarrow> get limits ''max_tokens'')),
         (''tokens_used_total'', JInt 0),
         (''stop_reason'', JNull),
         (''profile_artifact_uri'', opt_str (ro_profile_artifact_uri opts)),
         (''profile_sha256'', opt_str (ro_profile_sha256 opts)),
         (''profile_generation'', opt_int (ro_profile_generation opts)),
         (''parent_profile_id'', opt_str (ro_parent_profile_id opts))]))))) s"

definition start_step :: "datetime \<Rightarrow> string \<Rightarrow> int \<Rightarrow> string \<Rightarrow> int option \<Rightarrow> string option \<Rightarrow> ('e, obj) sys" where
  "start_step clock run_id step_index kind token_budget idempotency_key =
     bindS (liftS (require_choice kind RUNTIME_STEP_KINDS)) (\<lambda>_.
     on_store (insert_runtime_step
       [(''id'', JStr (slug_id (run_id @ ''-'' @ kind @ ''-'' @ int_str step_index) (Some ''step''))),
        (''run_id'', JStr run_id), (''step_index'', JInt step_index), (''kind'', JStr kind), (''status'', JStr ''running''),
        (''started_at'', JStr (iso_timestamp clock)), (''completed_at'', JNull), (''stop_reason'', JNull),
        (''token_budget'', opt_int token_budget), (''tokens_used'', JInt 0),
        (''idempotency_key'', JStr (text_or idempotency_key (run_id @ '':step:'' @ int_str step_index @ '':'' @ kind))),
        (''attempt'', JInt 1)]))"

definition complete_step :: "datetime \<Rightarrow> string \<Rightarrow> string \<Rightarrow> string option \<Rightarrow> int \<Rightarrow> ('e, obj) sys" where
  "complete_step clock step_id status stop_reason tokens_used =
     bindS (liftS (require_choice status RUNTIME_STATUSES)) (\<lambda>_.
     bindS (liftS (require_stop_reason stop_reason)) (\<lambda>_.
     on_store (update_runtime_step step_id
       [(''status'', JStr status), (''completed_at'', JStr (iso_timestamp clock)), (''stop_reason'', opt_str stop_reason),
        (''tokens_used'', JInt tokens_used)])))"

definition complete_run :: "datetime \<Rightarrow> string \<Rightarrow> string \<Rightarrow> string \<Rightarrow> int \<Rightarrow> ('e, obj) sys" where
  "complete_run clock run_id status stop_reason tokens_used_total =
     bindS (liftS (require_choice status RUNTIME_STATUSES)) (\<lambda>_.
     bindS (liftS (require_choice stop_reason STOP_REASONS)) (\<lambda>_.
     on_store (update_runtime_run run_id
       [(''status'', JStr status), (''completed_at'', JStr (iso_timestamp clock)), (''tokens_used_total'', JInt tokens_used_total),
        (''stop_reason'', JStr stop_reason)])))"

subsection \<open>Events and checkpoints\<close>

text \<open>The keyword arguments of \<open>record_event\<close>; a payload that is \<open>JNull\<close> is absent.\<close>

record event_call =
  ev_event_type :: string
  ev_actor_role :: string
  ev_step_id :: "string option"
  ev_planned_action :: json
  ev_execution :: json
  ev_result :: json
  ev_stop_reason :: "string option"
  ev_idempotency_key :: "string option"
  ev_redact :: bool

definition event_call_of :: "string \<Rightarrow> string \<Rightarrow> event_call" where
  "event_call_of event_type actor_role =
     \<lparr>ev_event_type = event_type, ev_actor_role = actor_role, ev_step_id = None, ev_planned_action = JNull, ev_execution = JNull,
      ev_result = JNull, ev_stop_reason = None, ev_idempotency_key = None, ev_redact = True\<rparr>"

text \<open>Indices are not negative, so \<open>f"{index:03d}"\<close> pads with zeros.\<close>

definition write_event_payload :: "string \<Rightarrow> int \<Rightarrow> string \<Rightarrow> string \<Rightarrow> json \<Rightarrow> bool \<Rightarrow> ('e, string option) sys" where
  "write_event_payload run_id event_index event_type slot payload redact =
     (if payload = JNull then retS None
      else bindS (on_artifacts (write_json
             [''traces'', run_id, ''events'', pad_int 3 event_index @ ''-'' @ event_type @ ''-'' @ slot] payload redact)) (\<lambda>uri.
           retS (Some uri)))"

definition event_record ::
  "datetime \<Rightarrow> string \<Rightarrow> event_call \<Rightarrow> int \<Rightarrow> string option \<Rightarrow> string option \<Rightarrow> string option \<Rightarrow> string \<Rightarrow> obj" where
  "event_record clock run_id c event_index planned_action_uri execution_uri result_uri key =
     [(''id'', JStr (slug_id (run_id @ ''-'' @ ev_event_type c @ ''-'' @ int_str event_index) (Some ''event''))),
      (''run_id'', JStr run_id), (''step_id'', opt_str (ev_step_id c)), (''event_index'', JInt event_index),
      (''event_type'', JStr (ev_event_type c)), (''actor_role'', JStr (ev_actor_role c)),
      (''planned_action_uri'', opt_str planned_action_uri), (''execution_uri'', opt_str execution_uri),
      (''result_uri'', opt_str result_uri), (''stop_reason'', opt_str (ev_stop_reason c)),
      (''idempotency_key'', JStr key), (''created_at'', JStr (iso_timestamp clock))]"

definition record_event :: "datetime \<Rightarrow> string \<Rightarrow> event_call \<Rightarrow> ('e, obj) sys" where
  "record_event clock run_id c =
     bindS (liftS (require_choice (ev_event_type c) RUNTIME_EVENT_TYPES)) (\<lambda>_.
     bindS (liftS (require_choice (ev_actor_role c) RUNTIME_ACTOR_ROLES)) (\<lambda>_.
     bindS (liftS (require_stop_reason (ev_stop_reason c))) (\<lambda>_.
     bindS (on_store (allocate_runtime_event_index run_id)) (\<lambda>event_index.
     bindS (write_event_payload run_id event_index (ev_event_type c) ''planned'' (ev_planned_action c) (ev_redact c)) (\<lambda>planned.
     bindS (write_event_payload run_id event_index (ev_event_type c) ''execution'' (ev_execution c) (ev_redact c)) (\<lambda>execution.
     bindS (write_event_payload run_id event_index (ev_event_type c) ''result'' (ev_result c) (ev_redact c)) (\<lambda>result.
     on_store (insert_runtime_event (event_record clock run_id c event_index planned execution result
       (text_or (ev_idempotency_key c) (run_id @ '':event:'' @ ev_event_type c @ '':'' @ int_str event_index)))))))))))"

text \<open>\<open>checkpoint\<close> reads the clock for its record and again for its event.\<close>

definition checkpoint ::
  "datetime \<Rightarrow> datetime \<Rightarrow> string \<Rightarrow> string \<Rightarrow> json \<Rightarrow> string option \<Rightarrow> int \<Rightarrow> bool \<Rightarrow> ('e, obj) sys" where
  "checkpoint clock clock' run_id phase state step_id tokens_used_total redact =
     bindS (liftS (require_choice phase RUNTIME_PHASES)) (\<lambda>_.
     bindS (on_store (allocate_runtime_checkpoint_index run_id)) (\<lambda>checkpoint_index.
     bindS (on_artifacts (write_json
       [''traces'', run_id, ''checkpoints'', pad_int 3 checkpoint_index @ ''-'' @ phase] state redact)) (\<lambda>state_uri.
     bindS (on_store (insert_runtime_checkpoint
       [(''id'', JStr (slug_id (run_id @ ''-'' @ phase @ ''-'' @ int_str checkpoint_index) (Some ''checkpoint''))),
        (''run_id'', JStr run_id), (''step_id'', opt_str step_id), (''checkpoint_index'', JInt checkpoint_index),
        (''phase'', JStr phase), (''state_uri'', JStr state_uri), (''tokens_used_total'', JInt tokens_used_total),
        (''created_at'', JStr (iso_timestamp clock))])) (\<lambda>stored.
     bindS (liftS (getitem stored ''id'')) (\<lambda>checkpoint_id.
     bindS (record_event clock' run_id
       ((event_call_of ''checkpoint_created'' (if phase \<in> {''analysis'', ''composition''} then ''composer'' else ''executor''))
          \<lparr>ev_step_id := step_id, ev_result := JObj [(''checkpoint_id'', checkpoint_id), (''phase'', JStr phase)],
           ev_idempotency_key := Some (run_id @ '':checkpoint:'' @ int_str checkpoint_index), ev_redact := redact\<rparr>)) (\<lambda>_.
     retS stored))))))"

subsection \<open>The event log\<close>

lemma on_artifacts_store [simp]: "qs_store (snd (on_artifacts m s)) = qs_store s"
  by (simp add: on_artifacts_def split: prod.splits)

lemma write_event_payload_store: "write_event_payload r i t sl p red s = (x, s') \<Longrightarrow> qs_store s' = qs_store s"
  by (auto simp: write_event_payload_def bindS_cases on_artifacts_def split: if_splits prod.splits)

lemma insert_event_cases:
  assumes "insert_runtime_event r s = (Inr x, s')"
  shows "s' = s \<or> x = r \<and> s' = s\<lparr>st_runtime_events := st_runtime_events s @ [r]\<rparr>"
  using assms by (auto simp: insert_runtime_event_def bindS_cases split: option.splits)

lemma insert_event_fails: "insert_runtime_event r s = (Inl e, s') \<Longrightarrow> s' = s"
  by (auto simp: insert_runtime_event_def bindS_cases split: option.splits)

text \<open>What recording an event does to the store: it may allocate an index of the run, and then append one event with
  that index.\<close>

definition event_effect :: "string \<Rightarrow> store \<Rightarrow> store \<Rightarrow> bool" where
  "event_effect run_id s s' \<longleftrightarrow> s' = s \<or>
     (\<exists>n s1. allocate_runtime_event_index run_id s = (Inr n :: (unit, int) res, s1) \<and>
        (s' = s1 \<or> (\<exists>e. s' = s1\<lparr>st_runtime_events := st_runtime_events s1 @ [e]\<rparr> \<and>
           get e ''run_id'' = JStr run_id \<and> get e ''event_index'' = JInt n \<and>
           (\<exists>t \<in> set RUNTIME_EVENT_TYPES. get e ''event_type'' = JStr t))))"

lemma next_index_any:
  assumes "next_index cache records f run = (Inr n :: ('e, int) res)"
  shows "next_index cache records f run = (Inr n :: (unit, int) res)"
proof (cases "map_of cache run")
  case None
  have p: "(py_int v = (Inr i :: ('e, int) res)) = (py_int v = (Inr i :: (unit, int) res))" for v i
    by (cases v) (auto split: option.splits)
  have g: "(getitem r k = (Inr v :: ('e, json) res)) = (getitem r k = (Inr v :: (unit, json) res))" for r k v
    by (auto simp: getitem_def split: option.splits)
  show ?thesis
    using assms None by (auto simp: next_index_def bindR_Inr_iff filterR_Inr mapR_Inr_iff p g)
qed (use assms in \<open>simp add: next_index_def\<close>)

lemma allocate_any:
  "allocate_runtime_event_index run s = (Inr n :: ('e, int) res, s1) \<Longrightarrow>
   allocate_runtime_event_index run s = (Inr n :: (unit, int) res, s1)"
  by (auto simp: allocate_runtime_event_index_def bindS_cases dest: next_index_any)

lemma bind_payload:
  assumes "bindS (write_event_payload r i t sl p red) f s = (x, s')"
  obtains "qs_store s' = qs_store s" | u s1 where "qs_store s1 = qs_store s" "f u s1 = (x, s')"
  using assms by (auto simp: bindS_cases dest!: write_event_payload_store)

lemma bind_lift:
  assumes "bindS (liftS c) f s = (x, s')"
  obtains e where "c = Inl e" "s' = s" | u where "c = Inr u" "f u s = (x, s')"
  using assms by (auto simp: bindS_cases)

lemma bind_on_store:
  assumes "bindS (on_store m) f s = (x, s')"
  obtains e st where "m (qs_store s) = (Inl e, st)" "s' = s\<lparr>qs_store := st\<rparr>"
  | u st where "m (qs_store s) = (Inr u, st)" "f u (s\<lparr>qs_store := st\<rparr>) = (x, s')"
  using assms by (auto simp: bindS_cases on_store_def split: prod.splits)

lemma record_event_effect:
  assumes "record_event clock run_id c s = (r :: ('e, obj) res, s')"
  shows "event_effect run_id (qs_store s) (qs_store s')"
  using assms unfolding record_event_def
proof (elim bind_lift)
  fix u1 u2 u3
  assume "require_choice (ev_event_type c) RUNTIME_EVENT_TYPES = (Inr u1 :: ('e, unit) res)"
  then have t: "ev_event_type c \<in> set RUNTIME_EVENT_TYPES" by (simp add: require_choice_def split: if_splits)
  assume "bindS (on_store (allocate_runtime_event_index run_id)) (\<lambda>event_index.
     bindS (write_event_payload run_id event_index (ev_event_type c) ''planned'' (ev_planned_action c) (ev_redact c)) (\<lambda>planned.
     bindS (write_event_payload run_id event_index (ev_event_type c) ''execution'' (ev_execution c) (ev_redact c)) (\<lambda>execution.
     bindS (write_event_payload run_id event_index (ev_event_type c) ''result'' (ev_result c) (ev_redact c)) (\<lambda>result.
     on_store (insert_runtime_event (event_record clock run_id c event_index planned execution result
       (text_or (ev_idempotency_key c) (run_id @ '':event:'' @ ev_event_type c @ '':'' @ int_str event_index)))))))) s = (r, s')"
  then show ?thesis
  proof (cases rule: bind_on_store)
    case (1 e st)
    then have "st = qs_store s" by (auto simp: allocate_runtime_event_index_def bindS_cases)
    with 1 show ?thesis by (simp add: event_effect_def)
  next
    case (2 n s1)
    have a: "allocate_runtime_event_index run_id (qs_store s) = (Inr n :: (unit, int) res, s1)" by (rule allocate_any [OF 2(1)])
    have stopped: "event_effect run_id (qs_store s) (qs_store s')" if "qs_store s' = s1"
      using a that unfolding event_effect_def by blast
    have appended: "event_effect run_id (qs_store s) (qs_store s')"
      if "on_store (insert_runtime_event (event_record clock run_id c n p x q k)) s4 = (r, s')" "qs_store s4 = s1" for p x q k s4
    proof -
      let ?e = "event_record clock run_id c n p x q k"
      from that have "insert_runtime_event ?e s1 = (r, qs_store s')" by (auto simp: on_store_def split: prod.splits)
      then have "qs_store s' = s1 \<or> qs_store s' = s1\<lparr>st_runtime_events := st_runtime_events s1 @ [?e]\<rparr>"
        by (cases r) (auto dest: insert_event_cases insert_event_fails)
      moreover have "get ?e ''run_id'' = JStr run_id" "get ?e ''event_index'' = JInt n" "get ?e ''event_type'' = JStr (ev_event_type c)"
        by (simp_all add: event_record_def)
      ultimately show ?thesis using a t unfolding event_effect_def by blast
    qed
    from 2(2) show ?thesis
    proof (elim bind_payload)
      show ?thesis if "qs_store s' = qs_store (s\<lparr>qs_store := s1\<rparr>)" using stopped that by simp
    qed (use stopped appended in simp_all)
  qed
qed (auto simp: event_effect_def)

text \<open>The indices of the events of a run, in the order of the log.\<close>

definition run_indices :: "string \<Rightarrow> store \<Rightarrow> int list" where
  "run_indices run s = map (\<lambda>e. ifield e ''event_index'') (filter (\<lambda>e. get e ''run_id'' = JStr run) (st_runtime_events s))"

definition log_ok :: "store \<Rightarrow> bool" where
  "log_ok s \<longleftrightarrow>
     (\<forall>e \<in> set (st_runtime_events s). has_text e ''run_id'' \<and> has_int e ''event_index'') \<and>
     (\<forall>run. sorted_wrt (<) (run_indices run s) \<and>
        (\<forall>i \<in> set (run_indices run s). \<exists>n. map_of (st_event_indices s) run = Some n \<and> i < n))"

lemma allocate_on_log:
  assumes "allocate_runtime_event_index run s = (Inr n :: (unit, int) res, s1)" and "log_ok s"
  shows "s1 = s\<lparr>st_event_indices := dict_set run (n + 1) (st_event_indices s)\<rparr>" and "\<forall>i \<in> set (run_indices run s). i < n"
proof -
  from assms(1) have next_n: "next_index (st_event_indices s) (st_runtime_events s) ''event_index'' run = (Inr n :: (unit, int) res)"
    and s1: "s1 = s\<lparr>st_event_indices := dict_set run (n + 1) (st_event_indices s)\<rparr>"
    by (auto simp: allocate_runtime_event_index_def bindS_cases)
  show "s1 = s\<lparr>st_event_indices := dict_set run (n + 1) (st_event_indices s)\<rparr>" by (rule s1)
  show "\<forall>i \<in> set (run_indices run s). i < n"
  proof (cases "map_of (st_event_indices s) run")
    case None
    then show ?thesis using assms(2) by (force simp: log_ok_def)
  next
    case (Some m)
    then have "n = m" using next_n by (simp add: next_index_def)
    show ?thesis
    proof
      fix i assume "i \<in> set (run_indices run s)"
      with assms(2) obtain k where "map_of (st_event_indices s) run = Some k" "i < k" unfolding log_ok_def by blast
      with Some \<open>n = m\<close> show "i < n" by simp
    qed
  qed
qed

lemma event_effect_log:
  assumes "event_effect run s s'" and ok: "log_ok s"
  shows "log_ok s'" and "\<exists>es. st_runtime_events s' = st_runtime_events s @ es"
proof -
  have "log_ok s' \<and> (\<exists>es. st_runtime_events s' = st_runtime_events s @ es)"
    using assms(1) unfolding event_effect_def
  proof (elim disjE exE conjE)
    fix n s1 assume a: "allocate_runtime_event_index run s = (Inr n :: (unit, int) res, s1)"
    note al = allocate_on_log [OF a ok]
    have idx: "run_indices r s1 = run_indices r s" "st_runtime_events s1 = st_runtime_events s" for r
      by (simp_all add: al(1) run_indices_def)
    have cache: "map_of (st_event_indices s1) r = (if r = run then Some (n + 1) else map_of (st_event_indices s) r)" for r
      by (simp add: al(1) dict_simps)
    have ok1: "log_ok s1" using ok al(2) unfolding log_ok_def idx cache by fastforce
    show "log_ok s' \<and> (\<exists>es. st_runtime_events s' = st_runtime_events s @ es)" if "s' = s1" using ok1 that idx(2) by simp
    fix e assume s': "s' = s1\<lparr>st_runtime_events := st_runtime_events s1 @ [e]\<rparr>"
      and e: "get e ''run_id'' = JStr run" "get e ''event_index'' = JInt n"
    have flds: "has_text e ''run_id''" "has_int e ''event_index''" "ifield e ''event_index'' = n"
      using e by (auto simp: has_text_iff has_int_iff get_def get_or_def ifield_def split: option.splits)
    have idx': "run_indices r s' = run_indices r s @ (if r = run then [n] else [])" for r
      using e flds(3) idx by (simp add: s' run_indices_def)
    have cache': "map_of (st_event_indices s') r = map_of (st_event_indices s1) r" for r by (simp add: s')
    have ev: "st_runtime_events s' = st_runtime_events s @ [e]" by (simp add: s' idx)
    have "log_ok s'" using ok flds al(2) unfolding log_ok_def idx' cache' cache ev
      by (fastforce simp: sorted_wrt_append)
    with ev show "log_ok s' \<and> (\<exists>es. st_runtime_events s' = st_runtime_events s @ es)" by blast
  qed (use ok in auto)
  then show "log_ok s'" "\<exists>es. st_runtime_events s' = st_runtime_events s @ es" by auto
qed

lemma log_ok_cong:
  "st_runtime_events s' = st_runtime_events s \<Longrightarrow> st_event_indices s' = st_event_indices s \<Longrightarrow> log_ok s' = log_ok s"
  by (simp add: log_ok_def run_indices_def)

text \<open>The operations of the recorder, whether they return or raise.\<close>

inductive recorder_step :: "runtime_sys \<Rightarrow> runtime_sys \<Rightarrow> bool" where
  "start_run clock task_id profile run_id opts s = (r :: (unit, obj) res, s') \<Longrightarrow> recorder_step s s'"
| "start_step clock run_id step_index kind budget key s = (r :: (unit, obj) res, s') \<Longrightarrow> recorder_step s s'"
| "complete_step clock step_id status stop tokens s = (r :: (unit, obj) res, s') \<Longrightarrow> recorder_step s s'"
| "complete_run clock run_id status stop_at tokens s = (r :: (unit, obj) res, s') \<Longrightarrow> recorder_step s s'"
| "record_event clock run_id c s = (r :: (unit, obj) res, s') \<Longrightarrow> recorder_step s s'"
| "checkpoint clock clock' run_id phase state step tokens redact s = (r :: (unit, obj) res, s') \<Longrightarrow> recorder_step s s'"

definition log_kept :: "store \<Rightarrow> store \<Rightarrow> bool" where
  "log_kept s s' \<longleftrightarrow> st_runtime_events s' = st_runtime_events s \<and> st_event_indices s' = st_event_indices s"

lemma table_ops_keep_log:
  "insert_runtime_run x s = (r, s') \<Longrightarrow> log_kept s s'" "insert_runtime_step x s = (r, s') \<Longrightarrow> log_kept s s'"
  "update_runtime_step i flds s = (r, s') \<Longrightarrow> log_kept s s'" "update_runtime_run i flds s = (r, s') \<Longrightarrow> log_kept s s'"
  "allocate_runtime_checkpoint_index i s = (ri, s') \<Longrightarrow> log_kept s s'" "insert_runtime_checkpoint x s = (r, s') \<Longrightarrow> log_kept s s'"
  by (auto simp: log_kept_def insert_runtime_run_def insert_runtime_step_def update_runtime_step_def update_runtime_run_def
      insert_into_def update_in_def set_runs_def set_steps_def allocate_runtime_checkpoint_index_def insert_runtime_checkpoint_def
      bindS_cases split: sum.splits option.splits prod.splits)

definition log_extended :: "store \<Rightarrow> store \<Rightarrow> bool" where
  "log_extended s s' \<longleftrightarrow> (log_ok s \<longrightarrow> log_ok s' \<and> (\<exists>es. st_runtime_events s' = st_runtime_events s @ es))"

lemma log_kept_extended: "log_kept s s' \<Longrightarrow> log_extended s s'"
  using log_ok_cong [of s' s] by (simp add: log_kept_def log_extended_def)

lemma log_extended_trans: "log_extended s s1 \<Longrightarrow> log_extended s1 s' \<Longrightarrow> log_extended s s'"
  by (auto simp: log_extended_def)

text \<open>A statement that at most appends to an ordered log.\<close>

definition extends :: "('e, 'a) sys \<Rightarrow> bool" where
  "extends m \<longleftrightarrow> (\<forall>s r s'. m s = (r, s') \<longrightarrow> log_extended (qs_store s) (qs_store s'))"

lemma extendsD: "extends m \<Longrightarrow> m s = (r, s') \<Longrightarrow> log_extended (qs_store s) (qs_store s')"
  by (simp add: extends_def)

lemma extends_pure: "extends (retS x)" "extends (liftS c)" "extends (on_artifacts a)"
  by (auto simp: extends_def log_extended_def on_artifacts_def split: prod.splits)

lemma extends_bind: "extends m \<Longrightarrow> (\<And>x. extends (f x)) \<Longrightarrow> extends (bindS m f)"
  unfolding extends_def bindS_cases by (blast intro: log_extended_trans)

lemma extends_store: "(\<And>s r s'. m s = (r, s') \<Longrightarrow> log_kept s s') \<Longrightarrow> extends (on_store m)"
  by (auto simp: extends_def on_store_def intro!: log_kept_extended split: prod.splits)

lemma extends_event: "extends (record_event clock run_id c)"
  by (auto simp: extends_def log_extended_def dest!: record_event_effect intro: event_effect_log)

lemmas extends_intros = extends_pure extends_bind extends_event extends_store table_ops_keep_log

lemma extends_prefix: "(\<And>p. extends (m p)) \<Longrightarrow> extends (\<lambda>s. m (ar_uri_prefix (qs_artifacts s)) s)"
  unfolding extends_def by blast

lemma start_run_extends: "extends (start_run clock task_id profile run_id opts)"
  unfolding start_run_def [abs_def] by (rule extends_prefix) (intro extends_intros, assumption)

lemma step_extends:
  "extends (start_step clock run_id step_index kind budget key)" "extends (complete_step clock step_id status stop tokens)"
  "extends (complete_run clock run_id status stop_at tokens)"
  "extends (checkpoint clock clock' run_id phase state step tokens redact)"
  unfolding start_step_def complete_step_def complete_run_def checkpoint_def by (intro extends_intros; assumption)+

lemma recorder_step_extends: "recorder_step s s' \<Longrightarrow> log_extended (qs_store s) (qs_store s')"
  by (elim recorder_step.cases) (blast intro: extendsD start_run_extends step_extends extends_event)+

interpretation flight_log: invariant_system "\<lambda>s. qs_store s = empty_store" recorder_step "\<lambda>s. log_ok (qs_store s)"
proof
  show "log_ok (qs_store s)" if "qs_store s = empty_store" for s
    using that by (simp add: log_ok_def run_indices_def empty_store_def)
  show "log_ok (qs_store t)" if "log_ok (qs_store s)" "recorder_step s t" for s t
    using that recorder_step_extends by (auto simp: log_extended_def)
qed

text \<open>C15. The flight log is append-only and ordered: starting from an empty store, through any sequence of recorder
  operations, including those that raise, the events of every run stand in the log with strictly increasing indices,
  and each further operation only appends.\<close>

theorem event_log_ordered:
  assumes "reach (\<lambda>s. qs_store s = empty_store) recorder_step s" and "recorder_step s s'"
  shows "(\<forall>run. sorted_wrt (<) (run_indices run (qs_store s))) \<and>
     (\<exists>es. st_runtime_events (qs_store s') = st_runtime_events (qs_store s) @ es)"
proof -
  have "log_ok (qs_store s)" by (rule flight_log.reach_inv [OF assms(1)])
  moreover from this have "\<exists>es. st_runtime_events (qs_store s') = st_runtime_events (qs_store s) @ es"
    using recorder_step_extends [OF assms(2)] by (simp add: log_extended_def)
  ultimately show ?thesis by (simp add: log_ok_def)
qed

definition started_call :: event_call where
  "started_call = (event_call_of ''runtime_started'' ''runtime'')\<lparr>ev_result := JObj [(''status'', JStr ''running'')]\<rparr>"

definition empty_system :: runtime_sys where
  "empty_system = \<lparr>qs_store = empty_store, qs_artifacts = sample_artifacts\<rparr>"

definition logged_system :: "nat \<Rightarrow> runtime_sys" where
  "logged_system n = ((\<lambda>s. snd (record_event (seconds 7) ''run-1'' started_call s :: (unit, obj) res \<times> runtime_sys)) ^^ n) empty_system"

theorem event_log_ordered_witness:
  "sorted_wrt (<) (run_indices ''run-1'' (qs_store (logged_system 2))) \<and> run_indices ''run-1'' (qs_store (logged_system 2)) = [0, 1]"
proof -
  have "recorder_step s (snd (record_event (seconds 7) ''run-1'' started_call s :: (unit, obj) res \<times> runtime_sys))" for s
    by (rule recorder_step.intros(5)) (rule prod.collapse [symmetric])
  then have step: "recorder_step (logged_system n) (logged_system (Suc n))" for n by (simp add: logged_system_def)
  have "reach (\<lambda>s. qs_store s = empty_store) recorder_step (logged_system n)" for n
  proof (induction n)
    case 0
    show ?case by (rule reach_init) (simp add: logged_system_def empty_system_def)
  next
    case (Suc n)
    then show ?case using step by (rule reach_step)
  qed
  from event_log_ordered [OF this step] have "sorted_wrt (<) (run_indices ''run-1'' (qs_store (logged_system 2)))" by blast
  moreover have "run_indices ''run-1'' (qs_store (logged_system 2)) = [0, 1]" by code_simp
  ultimately show ?thesis by blast
qed

end
