(* ===== verification/Audit_Log.thy ===== *)
theory Audit_Log
  imports Flight_Recorder Decimal
begin

text \<open>
  The event log as an audit trail. The store drops an event whose idempotency key is already in the log of its run; with
  the keys that the recorder builds this never happens, so recording an event always succeeds and appends exactly that
  event. The invariant \<open>audit_ok\<close> describes a log that only the recorder has written.
\<close>

subsection \<open>Running statements\<close>

lemma bindS_run: "m s = (Inr x, s1) \<Longrightarrow> bindS m f s = f x s1"
  by (simp add: bindS_def)

lemma bindS_lift_Inr: "bindS (liftS (Inr x)) f = f x"
  by (simp add: bindS_def fun_eq_iff)

subsection \<open>Writing succeeds\<close>

lemma write_json_succeeds:
  assumes "part \<in> set path" "part \<noteq> []"
  shows "\<exists>uri a'. write_json path payload redact a = (Inr uri, a')"
proof -
  have "filter (\<lambda>part. part \<noteq> []) path \<noteq> []" using assms by (auto simp: filter_empty_conv)
  then have "relative_path path \<noteq> []" by (simp add: relative_path_def Let_def)
  then show ?thesis by (simp add: write_json_def write_json_raw_def Let_def split: prod.splits)
qed

lemma write_json_head: "\<exists>uri a'. write_json ((c # cs) # path) payload redact a = (Inr uri, a')"
  by (rule write_json_succeeds [of "c # cs"]) simp_all

subsection \<open>Keys\<close>

definition event_key :: "string \<Rightarrow> string \<Rightarrow> int \<Rightarrow> string" where
  "event_key run t i = run @ '':event:'' @ t @ '':'' @ int_str i"

definition checkpoint_key :: "string \<Rightarrow> int \<Rightarrow> string" where
  "checkpoint_key run j = run @ '':checkpoint:'' @ int_str j"

lemma split_at_last_colon:
  assumes "a @ CHR '':'' # b = a' @ CHR '':'' # b'" "CHR '':'' \<notin> set b" "CHR '':'' \<notin> set b'"
  shows "b = b'"
  using assms by (auto simp: append_eq_append_conv2 append_eq_Cons_conv Cons_eq_append_conv)

lemma event_key_inject: "event_key run t i = event_key run t' i' \<Longrightarrow> 0 \<le> i \<Longrightarrow> 0 \<le> i' \<Longrightarrow> i = i'"
  using split_at_last_colon [of t "int_str i" t' "int_str i'"] int_str_no_colon int_str_inject
  by (simp add: event_key_def)

lemma checkpoint_key_inject: "checkpoint_key run j = checkpoint_key run j' \<Longrightarrow> 0 \<le> j \<Longrightarrow> 0 \<le> j' \<Longrightarrow> j = j'"
  by (simp add: checkpoint_key_def int_str_inject)

lemma keys_differ: "event_key run t i \<noteq> checkpoint_key run j"
  by (simp add: event_key_def checkpoint_key_def)

subsection \<open>Logs that the recorder wrote\<close>

text \<open>The next index of a run in a cache, where there is one.\<close>

definition below :: "(string, int) dict \<Rightarrow> string \<Rightarrow> int \<Rightarrow> bool" where
  "below cache run i \<longleftrightarrow> 0 \<le> i \<and> (\<exists>n. map_of cache run = Some n \<and> i < n)"

definition event_wf :: "store \<Rightarrow> obj \<Rightarrow> bool" where
  "event_wf s e \<longleftrightarrow> (\<exists>run i. map_of e ''run_id'' = Some (JStr run) \<and> map_of e ''event_index'' = Some (JInt i) \<and>
     below (st_event_indices s) run i \<and>
     ((\<exists>t. map_of e ''idempotency_key'' = Some (JStr (event_key run t i))) \<or>
      (\<exists>j. map_of e ''idempotency_key'' = Some (JStr (checkpoint_key run j)) \<and> below (st_checkpoint_indices s) run j)))"

definition checkpoint_wf :: "store \<Rightarrow> obj \<Rightarrow> bool" where
  "checkpoint_wf s c \<longleftrightarrow> (\<exists>run j. map_of c ''run_id'' = Some (JStr run) \<and> map_of c ''checkpoint_index'' = Some (JInt j) \<and>
     below (st_checkpoint_indices s) run j)"

definition indices_ok :: "(string, int) dict \<Rightarrow> bool" where
  "indices_ok cache \<longleftrightarrow> (\<forall>run n. map_of cache run = Some n \<longrightarrow> 0 \<le> n)"

definition audit_ok :: "store \<Rightarrow> bool" where
  "audit_ok s \<longleftrightarrow> (\<forall>e \<in> set (st_runtime_events s). event_wf s e) \<and> (\<forall>c \<in> set (st_runtime_checkpoints s). checkpoint_wf s c) \<and>
     indices_ok (st_event_indices s) \<and> indices_ok (st_checkpoint_indices s)"

lemma below_set: "below cache run i \<Longrightarrow> map_of cache run' = None \<or> (\<exists>m. map_of cache run' = Some m \<and> m \<le> n) \<Longrightarrow> below (dict_set run' n cache) run i"
  by (auto simp: below_def dict_simps)

lemma filterR_runs:
  assumes "\<forall>e \<in> set xs. \<exists>v. map_of e ''run_id'' = Some (JStr v)"
  shows "filterR (\<lambda>r. bindR (getitem r ''run_id'') (\<lambda>v. Inr (v = JStr run))) xs = Inr (filter (\<lambda>e. get e ''run_id'' = JStr run) xs)"
  by (rule filterR_pure) (use assms in \<open>auto simp: getitem_def get_def get_or_def\<close>)

lemma next_index_fresh:
  assumes wf: "\<forall>e \<in> set xs. \<exists>run i. map_of e ''run_id'' = Some (JStr run) \<and> map_of e f = Some (JInt i) \<and> below cache run i"
    and ok: "indices_ok cache"
  shows "next_index cache xs f run = Inr (case map_of cache run of None \<Rightarrow> 0 | Some n \<Rightarrow> n)"
proof (cases "map_of cache run")
  case None
  then have "filter (\<lambda>e. get e ''run_id'' = JStr run) xs = []"
    using wf by (fastforce simp: filter_empty_conv get_def get_or_def below_def)
  moreover have "\<forall>e \<in> set xs. \<exists>v. map_of e ''run_id'' = Some (JStr v)" using wf by blast
  ultimately show ?thesis using None by (simp add: next_index_def filterR_runs)
qed (simp add: next_index_def)

lemma find_key_fresh:
  assumes "\<forall>e \<in> set xs. \<exists>v. map_of e ''run_id'' = Some (JStr v)"
    and "\<forall>e \<in> set xs. get e ''run_id'' = JStr run \<longrightarrow> get e ''idempotency_key'' \<noteq> JStr key"
  shows "find_by_run_idempotency xs run key = Inr None"
proof -
  have "find_by_run_idempotency xs run key = Inr (find (\<lambda>e. get e ''run_id'' = JStr run \<and> get e ''idempotency_key'' = JStr key) xs)"
    unfolding find_by_run_idempotency_def
    by (rule findR_pure) (use assms(1) in \<open>fastforce simp: getitem_def get_def get_or_def\<close>)
  also have "find (\<lambda>e. get e ''run_id'' = JStr run \<and> get e ''idempotency_key'' = JStr key) xs = None"
    using assms(2) by (auto simp: find_None_iff)
  finally show ?thesis .
qed

text \<open>The store after one event of a run: the next index of the run advances and the event is appended; no other table
  changes.\<close>

definition logged :: "string \<Rightarrow> obj \<Rightarrow> store \<Rightarrow> store" where
  "logged run e s =
     s\<lparr>st_event_indices := dict_set run ((case map_of (st_event_indices s) run of None \<Rightarrow> 0 | Some n \<Rightarrow> n) + 1) (st_event_indices s),
       st_runtime_events := st_runtime_events s @ [e]\<rparr>"

abbreviation next_event :: "string \<Rightarrow> store \<Rightarrow> int" where
  "next_event run s \<equiv> (case map_of (st_event_indices s) run of None \<Rightarrow> 0 | Some n \<Rightarrow> n)"

lemma allocate_event:
  assumes "audit_ok s"
  shows "allocate_runtime_event_index run s =
     (Inr (next_event run s), s\<lparr>st_event_indices := dict_set run (next_event run s + 1) (st_event_indices s)\<rparr>)"
proof -
  have "next_index (st_event_indices s) (st_runtime_events s) ''event_index'' run = (Inr (next_event run s) :: ('a, int) res)"
    using assms by (intro next_index_fresh) (auto simp: audit_ok_def event_wf_def)
  then show ?thesis by (simp add: allocate_runtime_event_index_def bindS_def)
qed

lemma payload_written: "\<exists>u q. write_event_payload run i t slot p red s = (Inr u, q) \<and> qs_store q = qs_store s"
proof -
  obtain uri a' where "write_json [''traces'', run, ''events'', pad_int 3 i @ ''-'' @ t @ ''-'' @ slot] p red (qs_artifacts s) =
      (Inr uri :: ('a, string) res, a')" using write_json_head by blast
  then show ?thesis by (simp add: write_event_payload_def bindS_def on_artifacts_def)
qed

lemma event_wf_mono:
  assumes "event_wf s e"
    and "\<And>run i. below (st_event_indices s) run i \<Longrightarrow> below (st_event_indices s') run i"
    and "\<And>run i. below (st_checkpoint_indices s) run i \<Longrightarrow> below (st_checkpoint_indices s') run i"
  shows "event_wf s' e"
  using assms unfolding event_wf_def by blast

lemma next_event_nonneg: "audit_ok s \<Longrightarrow> 0 \<le> next_event run s"
  by (auto simp: audit_ok_def indices_ok_def split: option.splits)

lemma logged_indices:
  assumes "audit_ok s"
  shows "below (st_event_indices s) r i \<Longrightarrow> below (st_event_indices (logged run e s)) r i"
    "below (st_event_indices (logged run e s)) run (next_event run s)" "indices_ok (st_event_indices (logged run e s))"
proof -
  show "below (st_event_indices (logged run e s)) r i" if "below (st_event_indices s) r i"
    using that by (auto simp: below_def logged_def dict_simps split: option.splits)
  show "below (st_event_indices (logged run e s)) run (next_event run s)"
    using next_event_nonneg [OF assms] by (simp add: below_def logged_def dict_simps)
  show "indices_ok (st_event_indices (logged run e s))"
    using assms next_event_nonneg [OF assms, of run] by (auto simp: indices_ok_def audit_ok_def logged_def dict_simps)
qed

lemma logged_ok:
  assumes ok: "audit_ok s"
    and e: "map_of e ''run_id'' = Some (JStr run)" "map_of e ''event_index'' = Some (JInt (next_event run s))"
    and key: "(\<exists>t. map_of e ''idempotency_key'' = Some (JStr (event_key run t (next_event run s)))) \<or>
      (\<exists>j. map_of e ''idempotency_key'' = Some (JStr (checkpoint_key run j)) \<and> below (st_checkpoint_indices s) run j)"
  shows "audit_ok (logged run e s)"
proof -
  have same: "st_checkpoint_indices (logged run e s) = st_checkpoint_indices s" "st_runtime_checkpoints (logged run e s) = st_runtime_checkpoints s"
    "st_runtime_events (logged run e s) = st_runtime_events s @ [e]" by (simp_all add: logged_def)
  note idx = logged_indices [OF ok]
  have "event_wf (logged run e s) e" using e key idx(2) [of run e] unfolding event_wf_def same by blast
  moreover have "event_wf (logged run e s) x" if "event_wf s x" for x
    using that by (rule event_wf_mono) (use idx(1) in \<open>auto simp: same\<close>)
  ultimately show ?thesis using ok idx(3) by (auto simp: audit_ok_def same checkpoint_wf_def)
qed

definition vocabulary_ok :: "event_call \<Rightarrow> bool" where
  "vocabulary_ok c \<longleftrightarrow> ev_event_type c \<in> set RUNTIME_EVENT_TYPES \<and> ev_actor_role c \<in> set RUNTIME_ACTOR_ROLES \<and>
     (case ev_stop_reason c of None \<Rightarrow> True | Some r \<Rightarrow> r \<in> set STOP_REASONS)"

text \<open>What an event that was recorded says.\<close>

definition event_of :: "string \<Rightarrow> event_call \<Rightarrow> obj \<Rightarrow> bool" where
  "event_of run c e \<longleftrightarrow> get e ''run_id'' = JStr run \<and> get e ''event_type'' = JStr (ev_event_type c) \<and>
     get e ''actor_role'' = JStr (ev_actor_role c) \<and> get e ''step_id'' = opt_str (ev_step_id c) \<and>
     get e ''stop_reason'' = opt_str (ev_stop_reason c)"

definition key_fresh :: "string \<Rightarrow> event_call \<Rightarrow> store \<Rightarrow> bool" where
  "key_fresh run c s \<longleftrightarrow> ev_idempotency_key c = None \<or>
     (\<exists>j. ev_idempotency_key c = Some (checkpoint_key run j) \<and> below (st_checkpoint_indices s) run j \<and>
        (\<forall>e \<in> set (st_runtime_events s). get e ''run_id'' = JStr run \<longrightarrow> get e ''idempotency_key'' \<noteq> JStr (checkpoint_key run j)))"

definition used_key :: "string \<Rightarrow> event_call \<Rightarrow> store \<Rightarrow> string" where
  "used_key run c s = text_or (ev_idempotency_key c) (run @ '':event:'' @ ev_event_type c @ '':'' @ int_str (next_event run s))"

lemma used_key_cases:
  assumes "key_fresh run c s"
  shows "used_key run c s = event_key run (ev_event_type c) (next_event run s) \<or>
     (\<exists>j. used_key run c s = checkpoint_key run j \<and> below (st_checkpoint_indices s) run j)"
  using assms by (auto simp: key_fresh_def used_key_def text_or_def event_key_def checkpoint_key_def)

lemma used_key_new:
  assumes ok: "audit_ok s" and fresh: "key_fresh run c s" and e: "e \<in> set (st_runtime_events s)" "get e ''run_id'' = JStr run"
  shows "get e ''idempotency_key'' \<noteq> JStr (used_key run c s)"
proof
  assume eq: "get e ''idempotency_key'' = JStr (used_key run c s)"
  from ok e(1) have "event_wf s e" by (simp add: audit_ok_def)
  then obtain run' i where r': "map_of e ''run_id'' = Some (JStr run')" and i': "below (st_event_indices s) run' i"
    "(\<exists>t. map_of e ''idempotency_key'' = Some (JStr (event_key run' t i))) \<or>
     (\<exists>j. map_of e ''idempotency_key'' = Some (JStr (checkpoint_key run' j)))"
    unfolding event_wf_def by blast
  have "run' = run" using r' e(2) by (simp add: get_def get_or_def)
  note i = i' [unfolded this]
  have lt: "i < next_event run s" "0 \<le> i" using i(1) by (auto simp: below_def)
  consider (ev) "used_key run c s = event_key run (ev_event_type c) (next_event run s)"
    | (cp) j where "ev_idempotency_key c = Some (checkpoint_key run j)" "used_key run c s = checkpoint_key run j"
    using fresh by (auto simp: key_fresh_def used_key_def text_or_def event_key_def checkpoint_key_def)
  then show False
  proof cases
    case ev
    then have "\<exists>t. event_key run t i = event_key run (ev_event_type c) (next_event run s)"
      using i(2) eq keys_differ by (auto simp: get_def get_or_def dest: sym)
    then show False using event_key_inject next_event_nonneg [OF ok, of run] lt by force
  next
    case cp
    then show False using fresh e eq by (auto simp: key_fresh_def)
  qed
qed

lemma insert_event_new:
  assumes wf: "\<forall>x \<in> set (st_runtime_events s). \<exists>v. map_of x ''run_id'' = Some (JStr v)"
    and e: "map_of e ''run_id'' = Some (JStr run)" "map_of e ''idempotency_key'' = Some (JStr key)"
    and new: "\<forall>x \<in> set (st_runtime_events s). get x ''run_id'' = JStr run \<longrightarrow> get x ''idempotency_key'' \<noteq> JStr key"
  shows "insert_runtime_event e s = (Inr e, s\<lparr>st_runtime_events := st_runtime_events s @ [e]\<rparr>)"
  using find_key_fresh [OF wf new, where 'a = 'a] e by (simp add: insert_runtime_event_def bindS_def getitem_def)

text \<open>Recording an event of the vocabulary succeeds and appends exactly that event.\<close>

lemma record_event_appends:
  assumes ok: "audit_ok (qs_store s)" and voc: "vocabulary_ok c" and fresh: "key_fresh run c (qs_store s)"
  obtains e q where "record_event clock run c s = (Inr e :: ('e, obj) res, q)" "qs_store q = logged run e (qs_store s)" "event_of run c e"
    "audit_ok (qs_store q)"
proof -
  let ?st = "qs_store s" and ?n = "next_event run (qs_store s)" and ?k = "used_key run c (qs_store s)"
  let ?s1 = "s\<lparr>qs_store := ?st\<lparr>st_event_indices := dict_set run (?n + 1) (st_event_indices ?st)\<rparr>\<rparr>"
  have checks: "require_choice (ev_event_type c) RUNTIME_EVENT_TYPES = Inr ()" "require_choice (ev_actor_role c) RUNTIME_ACTOR_ROLES = Inr ()"
    "require_stop_reason (ev_stop_reason c) = Inr ()"
    using voc by (auto simp: vocabulary_ok_def require_choice_def require_stop_reason_def split: option.splits)
  have alloc: "on_store (allocate_runtime_event_index run) s = (Inr ?n, ?s1)"
    by (simp add: on_store_def allocate_event [OF ok])
  obtain p1 s2 where p1: "write_event_payload run ?n (ev_event_type c) ''planned'' (ev_planned_action c) (ev_redact c) ?s1 = (Inr p1 :: ('e, string option) res, s2)" "qs_store s2 = qs_store ?s1"
    using payload_written by blast
  obtain p2 s3 where p2: "write_event_payload run ?n (ev_event_type c) ''execution'' (ev_execution c) (ev_redact c) s2 = (Inr p2 :: ('e, string option) res, s3)" "qs_store s3 = qs_store s2"
    using payload_written by blast
  obtain p3 s4 where p3: "write_event_payload run ?n (ev_event_type c) ''result'' (ev_result c) (ev_redact c) s3 = (Inr p3 :: ('e, string option) res, s4)" "qs_store s4 = qs_store s3"
    using payload_written by blast
  define e where "e = event_record clock run c ?n p1 p2 p3 ?k"
  have e: "map_of e ''run_id'' = Some (JStr run)" "map_of e ''event_index'' = Some (JInt ?n)" "map_of e ''idempotency_key'' = Some (JStr ?k)"
    by (simp_all add: e_def event_record_def)
  have st4: "qs_store s4 = ?st\<lparr>st_event_indices := dict_set run (?n + 1) (st_event_indices ?st)\<rparr>" using p1(2) p2(2) p3(2) by simp
  have ins: "insert_runtime_event e (qs_store s4) = (Inr e, logged run e ?st)"
  proof -
    have "\<forall>x \<in> set (st_runtime_events (qs_store s4)). \<exists>v. map_of x ''run_id'' = Some (JStr v)"
      using ok by (auto simp: st4 audit_ok_def event_wf_def)
    moreover have "\<forall>x \<in> set (st_runtime_events (qs_store s4)). get x ''run_id'' = JStr run \<longrightarrow> get x ''idempotency_key'' \<noteq> JStr ?k"
      using used_key_new [OF ok fresh] by (simp add: st4)
    ultimately show ?thesis by (simp add: insert_event_new [OF _ e(1,3)] st4 logged_def)
  qed
  have "record_event clock run c s = (on_store (insert_runtime_event e) s4 :: ('e, obj) res \<times> runtime_sys)"
    by (simp only: record_event_def bindS_def liftS_def checks alloc p1(1) p2(1) p3(1) e_def used_key_def prod.case sum.case)
  then have "record_event clock run c s = (Inr e :: ('e, obj) res, s4\<lparr>qs_store := logged run e ?st\<rparr>)" by (simp add: on_store_def ins)
  moreover have "event_of run c e" by (simp add: event_of_def e_def event_record_def)
  moreover have "audit_ok (logged run e ?st)"
    by (rule logged_ok [OF ok e(1,2)]) (use used_key_cases [OF fresh] e(3) in metis)
  ultimately show ?thesis by (intro that [of e "s4\<lparr>qs_store := logged run e ?st\<rparr>"]) simp_all
qed

subsection \<open>Checkpoints\<close>

abbreviation next_checkpoint :: "string \<Rightarrow> store \<Rightarrow> int" where
  "next_checkpoint run s \<equiv> (case map_of (st_checkpoint_indices s) run of None \<Rightarrow> 0 | Some n \<Rightarrow> n)"

definition marked :: "string \<Rightarrow> obj \<Rightarrow> store \<Rightarrow> store" where
  "marked run c s =
     s\<lparr>st_checkpoint_indices := dict_set run (next_checkpoint run s + 1) (st_checkpoint_indices s),
       st_runtime_checkpoints := st_runtime_checkpoints s @ [c]\<rparr>"

lemma next_checkpoint_nonneg: "audit_ok s \<Longrightarrow> 0 \<le> next_checkpoint run s"
  by (auto simp: audit_ok_def indices_ok_def split: option.splits)

lemma allocate_checkpoint:
  assumes "audit_ok s"
  shows "allocate_runtime_checkpoint_index run s =
     (Inr (next_checkpoint run s), s\<lparr>st_checkpoint_indices := dict_set run (next_checkpoint run s + 1) (st_checkpoint_indices s)\<rparr>)"
proof -
  have "next_index (st_checkpoint_indices s) (st_runtime_checkpoints s) ''checkpoint_index'' run = (Inr (next_checkpoint run s) :: ('a, int) res)"
    using assms by (intro next_index_fresh) (auto simp: audit_ok_def checkpoint_wf_def)
  then show ?thesis by (simp add: allocate_runtime_checkpoint_index_def bindS_def)
qed

lemma find_index_fresh:
  assumes "\<forall>c \<in> set xs. \<exists>r j. map_of c ''run_id'' = Some (JStr r) \<and> map_of c f = Some (JInt j) \<and> (r = run \<longrightarrow> j \<noteq> i)"
  shows "find_by_run_index xs run i f = Inr None"
proof -
  have "find_by_run_index xs run i f = Inr (find (\<lambda>c. get c ''run_id'' = JStr run \<and> get c f = JInt i) xs)"
    unfolding find_by_run_index_def
    by (rule findR_pure) (use assms in \<open>fastforce simp: getitem_def get_def get_or_def\<close>)
  also have "find (\<lambda>c. get c ''run_id'' = JStr run \<and> get c f = JInt i) xs = None"
    using assms by (fastforce simp: find_None_iff get_def get_or_def)
  finally show ?thesis .
qed

lemma insert_checkpoint_new:
  assumes ok: "audit_ok s" and c: "map_of c ''run_id'' = Some (JStr run)" "map_of c ''checkpoint_index'' = Some (JInt (next_checkpoint run s))"
    and s1: "st_runtime_checkpoints s1 = st_runtime_checkpoints s"
  shows "insert_runtime_checkpoint c s1 = (Inr c, s1\<lparr>st_runtime_checkpoints := st_runtime_checkpoints s1 @ [c]\<rparr>)"
proof -
  have "\<forall>x \<in> set (st_runtime_checkpoints s). \<exists>r j. map_of x ''run_id'' = Some (JStr r) \<and> map_of x ''checkpoint_index'' = Some (JInt j) \<and>
      (r = run \<longrightarrow> j \<noteq> next_checkpoint run s)"
    using ok by (fastforce simp: audit_ok_def checkpoint_wf_def below_def)
  from find_index_fresh [OF this, where 'a = 'a] show ?thesis
    using c by (simp add: insert_runtime_checkpoint_def bindS_def getitem_def s1)
qed

lemma marked_ok:
  assumes ok: "audit_ok s" and c: "map_of c ''run_id'' = Some (JStr run)" "map_of c ''checkpoint_index'' = Some (JInt (next_checkpoint run s))"
  shows "audit_ok (marked run c s)" "below (st_checkpoint_indices (marked run c s)) run (next_checkpoint run s)"
proof -
  have same: "st_event_indices (marked run c s) = st_event_indices s" "st_runtime_events (marked run c s) = st_runtime_events s"
    "st_runtime_checkpoints (marked run c s) = st_runtime_checkpoints s @ [c]" by (simp_all add: marked_def)
  have mono: "below (st_checkpoint_indices (marked run c s)) r i" if "below (st_checkpoint_indices s) r i" for r i
    using that by (auto simp: below_def marked_def dict_simps split: option.splits)
  show new: "below (st_checkpoint_indices (marked run c s)) run (next_checkpoint run s)"
    using next_checkpoint_nonneg [OF ok] by (simp add: below_def marked_def dict_simps)
  have idx: "indices_ok (st_checkpoint_indices (marked run c s))"
    using ok next_checkpoint_nonneg [OF ok, of run] by (auto simp: indices_ok_def audit_ok_def marked_def dict_simps)
  have "event_wf (marked run c s) x" if "event_wf s x" for x
    using that by (rule event_wf_mono) (use mono in \<open>auto simp: same\<close>)
  moreover have "checkpoint_wf (marked run c s) x" if "checkpoint_wf s x" for x
    using that mono unfolding checkpoint_wf_def by blast
  moreover have "checkpoint_wf (marked run c s) c" using c new unfolding checkpoint_wf_def by blast
  ultimately show "audit_ok (marked run c s)" using ok idx by (auto simp: audit_ok_def same)
qed

text \<open>Taking a checkpoint of a known phase succeeds, appends one checkpoint and one event, and changes no other table.\<close>

lemma checkpoint_appends:
  assumes ok: "audit_ok (qs_store s)" and phase: "phase \<in> set RUNTIME_PHASES"
  obtains c e q where "checkpoint clock clock' run phase state step tokens redact s = (Inr c :: ('e, obj) res, q)"
    "qs_store q = logged run e (marked run c (qs_store s))" "get e ''event_type'' = JStr ''checkpoint_created''"
    "get e ''run_id'' = JStr run" "get e ''stop_reason'' = JNull" "audit_ok (qs_store q)"
proof -
  let ?st = "qs_store s" and ?n = "next_checkpoint run (qs_store s)"
  let ?s1 = "s\<lparr>qs_store := ?st\<lparr>st_checkpoint_indices := dict_set run (?n + 1) (st_checkpoint_indices ?st)\<rparr>\<rparr>"
  have alloc: "on_store (allocate_runtime_checkpoint_index run) s = (Inr ?n :: ('e, int) res, ?s1)"
    by (simp add: on_store_def allocate_checkpoint [OF ok])
  obtain uri a' where "write_json [''traces'', run, ''checkpoints'', pad_int 3 ?n @ ''-'' @ phase] state redact (qs_artifacts ?s1) =
      (Inr uri :: ('e, string) res, a')" using write_json_head by blast
  then have w: "on_artifacts (write_json [''traces'', run, ''checkpoints'', pad_int 3 ?n @ ''-'' @ phase] state redact) ?s1 =
      (Inr uri :: ('e, string) res, ?s1\<lparr>qs_artifacts := a'\<rparr>)" by (simp add: on_artifacts_def)
  define c where "c = [(''id'', JStr (slug_id (run @ ''-'' @ phase @ ''-'' @ int_str ?n) (Some ''checkpoint''))),
        (''run_id'', JStr run), (''step_id'', opt_str step), (''checkpoint_index'', JInt ?n),
        (''phase'', JStr phase), (''state_uri'', JStr uri), (''tokens_used_total'', JInt tokens),
        (''created_at'', JStr (iso_timestamp clock))]"
  have c: "map_of c ''run_id'' = Some (JStr run)" "map_of c ''checkpoint_index'' = Some (JInt ?n)" by (simp_all add: c_def)
  let ?s2 = "?s1\<lparr>qs_artifacts := a', qs_store := marked run c ?st\<rparr>"
  have ins: "on_store (insert_runtime_checkpoint c) (?s1\<lparr>qs_artifacts := a'\<rparr>) = (Inr c :: ('e, obj) res, ?s2)"
    by (simp add: on_store_def insert_checkpoint_new [OF ok c] marked_def)
  define ev where "ev = (event_call_of ''checkpoint_created'' (if phase \<in> {''analysis'', ''composition''} then ''composer'' else ''executor''))
          \<lparr>ev_step_id := step, ev_result := JObj [(''checkpoint_id'', get c ''id''), (''phase'', JStr phase)],
           ev_idempotency_key := Some (run @ '':checkpoint:'' @ int_str ?n), ev_redact := redact\<rparr>"
  have ok2: "audit_ok (qs_store ?s2)" using marked_ok(1) [OF ok c] by simp
  have voc: "vocabulary_ok ev"
    by (simp add: ev_def vocabulary_ok_def event_call_of_def RUNTIME_EVENT_TYPES_def RUNTIME_ACTOR_ROLES_def)
  have fresh: "key_fresh run ev (qs_store ?s2)"
  proof -
    have "get x ''idempotency_key'' \<noteq> JStr (checkpoint_key run ?n)" if x: "x \<in> set (st_runtime_events ?st)" "get x ''run_id'' = JStr run" for x
    proof
      assume eq: "get x ''idempotency_key'' = JStr (checkpoint_key run ?n)"
      from ok x(1) have "event_wf ?st x" by (simp add: audit_ok_def)
      then obtain run' i where r': "map_of x ''run_id'' = Some (JStr run')" and
        k: "(\<exists>t. map_of x ''idempotency_key'' = Some (JStr (event_key run' t i))) \<or>
          (\<exists>j. map_of x ''idempotency_key'' = Some (JStr (checkpoint_key run' j)) \<and> below (st_checkpoint_indices ?st) run' j)"
        unfolding event_wf_def by blast
      have "run' = run" using r' x(2) by (simp add: get_def get_or_def)
      with k eq keys_differ obtain j where "checkpoint_key run j = checkpoint_key run ?n" "below (st_checkpoint_indices ?st) run j"
        by (auto simp: get_def get_or_def dest: sym)
      moreover from this have "j = ?n" using checkpoint_key_inject next_checkpoint_nonneg [OF ok, of run] by (auto simp: below_def)
      ultimately show False by (auto simp: below_def)
    qed
    then show ?thesis
      unfolding key_fresh_def using marked_ok(2) [OF ok c]
      by (intro disjI2 exI [of _ ?n]) (auto simp: ev_def checkpoint_key_def marked_def)
  qed
  obtain e q where e: "record_event clock' run ev ?s2 = (Inr e :: ('e, obj) res, q)" "qs_store q = logged run e (qs_store ?s2)" "event_of run ev e"
    "audit_ok (qs_store q)" using record_event_appends [OF ok2 voc fresh] by blast
  have id: "getitem c ''id'' = (Inr (get c ''id'') :: ('e, json) res)" by (simp add: c_def)
  have ph: "require_choice phase RUNTIME_PHASES = (Inr () :: ('e, unit) res)" using phase by (simp add: require_choice_def)
  have "checkpoint clock clock' run phase state step tokens redact s = (Inr c :: ('e, obj) res, q)"
    by (simp only: checkpoint_def bindS_def liftS_def retS_def ph alloc w c_def [symmetric] ins id ev_def [symmetric] e(1) prod.case sum.case)
  moreover have "get e ''event_type'' = JStr ''checkpoint_created''" "get e ''run_id'' = JStr run" "get e ''stop_reason'' = JNull"
    using e(3) by (simp_all add: event_of_def ev_def event_call_of_def opt_str_def)
  ultimately show ?thesis using that [of c q e] e(2,4) by simp
qed

end
