(* ===== verification/Artifact_Frame.thy ===== *)
theory Artifact_Frame
  imports Audit_Log
begin

text \<open>
  What recording leaves alone in the artifact store. Traces, tool outputs and candidates are written under their own
  top-level directories, so sealed profiles and queued tasks keep their content whatever a run records.
\<close>

definition SEALED_AREAS :: "string list" where
  "SEALED_AREAS = [''profiles'', ''queue'']"

definition same_files :: "artifact_store \<Rightarrow> artifact_store \<Rightarrow> bool" where
  "same_files a a' \<longleftrightarrow> ar_root a' = ar_root a \<and> ar_uri_prefix a' = ar_uri_prefix a \<and> ar_threshold a' = ar_threshold a \<and>
     (\<forall>p. hd p \<in> set SEALED_AREAS \<longrightarrow> map_of (ar_json a') p = map_of (ar_json a) p)"

lemma same_files_refl [simp]: "same_files a a"
  by (simp add: same_files_def)

lemma same_files_trans: "same_files a b \<Longrightarrow> same_files b c \<Longrightarrow> same_files a c"
  by (simp add: same_files_def)

lemma same_files_write: "hd p \<notin> set SEALED_AREAS \<Longrightarrow> same_files a (a\<lparr>ar_json := dict_set p v (ar_json a)\<rparr>)"
  "hd p \<notin> set SEALED_AREAS \<Longrightarrow> same_files a (a\<lparr>ar_text := t, ar_json := dict_set p v (ar_json a)\<rparr>)"
  by (auto simp: same_files_def dict_simps)

lemma chunks_keep:
  assumes "hd base \<notin> set SEALED_AREAS" "base \<noteq> []"
  shows "same_files a (snd (chunk_at v base fp a))" "same_files a (snd (chunk_list xs i base fp a))" "same_files a (snd (chunk_obj m base fp a))"
  using assms
proof (induction v base fp a and xs i base fp a and m base fp a rule: chunk_at_chunk_list_chunk_obj.induct)
  case (1 s base fp a)
  then have "hd (base @ rest) \<notin> set SEALED_AREAS" for rest by (cases base) auto
  with 1 show ?case by (simp add: write_chunked_text_def Let_def same_files_write)
next
  case (6 x xs i base fp a)
  obtain x' a1 where x: "chunk_at x base (fp @ [int_str i]) a = (x', a1)" by fastforce
  obtain xs' a2 where xs: "chunk_list xs (i + 1) base fp a1 = (xs', a2)" by fastforce
  have "same_files a a1" "same_files a1 a2" using 6 x xs by fastforce+
  then show ?case by (simp add: x xs) (rule same_files_trans)
next
  case (8 k v m base fp a)
  obtain v' a1 where v: "chunk_at v base (fp @ [k]) a = (v', a1)" by fastforce
  obtain m' a2 where m: "chunk_obj m base fp a1 = (m', a2)" by fastforce
  have "same_files a a1" "same_files a1 a2" using 8 v m by fastforce+
  then show ?case by (simp add: v m) (rule same_files_trans)
qed (auto simp: case_prod_beta Let_def)

lemma relative_path_area:
  assumes "slug_id (removesuffix ''.json'' area) None = head" "area \<noteq> []" "part \<in> set path" "part \<noteq> []"
  shows "\<exists>p rest. relative_path (area # path) = head # p # rest"
proof -
  let ?safe = "map (\<lambda>part. slug_id (removesuffix ''.json'' part) None) (filter (\<lambda>part. part \<noteq> []) path)"
  have "?safe \<noteq> []" using assms(3,4) by (auto simp: filter_empty_conv)
  then obtain q qs where q: "?safe = q # qs" by (cases ?safe) auto
  have "relative_path (area # path) = head # butlast (q # qs) @ [last (q # qs) @ ''.json'']"
    using assms(1,2) q by (simp add: relative_path_def Let_def)
  then show ?thesis by (cases qs) auto
qed

lemma write_json_keeps:
  assumes "slug_id (removesuffix ''.json'' area) None = head" "area \<noteq> []" "head \<notin> set SEALED_AREAS" "part \<in> set path" "part \<noteq> []"
  shows "same_files a (snd (write_json (area # path) payload redact a))"
proof -
  obtain p rest where r: "relative_path (area # path) = head # p # rest" using relative_path_area [OF assms(1,2,4,5)] by blast
  let ?base = "butlast (head # p # rest) @ [removesuffix ''.json'' (last (head # p # rest))]"
  have base: "hd ?base \<notin> set SEALED_AREAS" "?base \<noteq> []" using assms(3) by simp_all
  have last: "same_files b (b\<lparr>ar_json := dict_set (head # p # rest) v (ar_json b)\<rparr>)" for b v by (rule same_files_write) (simp add: assms(3))
  let ?c = "chunk_at (if redact then redact_sensitive_data payload else payload) ?base [] a"
  have eq: "snd (write_json (area # path) payload redact a) = (snd ?c)\<lparr>ar_json := dict_set (head # p # rest) (sort_keys (fst ?c)) (ar_json (snd ?c))\<rparr>"
    unfolding write_json_def write_json_raw_def r Let_def case_prod_beta by (simp only: list.distinct if_False snd_conv)
  show ?thesis unfolding eq by (rule same_files_trans [OF chunks_keep(1) [OF base] last])
qed

lemma areas: "slug_id (removesuffix ''.json'' ''traces'') None = ''traces''" "slug_id (removesuffix ''.json'' ''tool_outputs'') None = ''tool-outputs''"
  "slug_id (removesuffix ''.json'' ''artifacts'') None = ''artifacts''" "slug_id (removesuffix ''.json'' ''profiles'') None = ''profiles''"
  by code_simp+

lemma trace_keeps: "part \<in> set path \<Longrightarrow> part \<noteq> [] \<Longrightarrow> same_files a (snd (write_json (''traces'' # path) payload redact a))"
  by (rule write_json_keeps [OF areas(1)]) (simp_all add: SEALED_AREAS_def)

lemma bind_keeps:
  assumes "\<And>a. same_files a (snd (m a))" and "\<And>x a. same_files a (snd (f x a))"
  shows "same_files a (snd (bindS m f a))"
proof (cases "m a")
  case (Pair r b)
  with assms(1) [of a] have "same_files a b" by simp
  moreover have "same_files b (snd (f x b))" for x by (rule assms(2))
  ultimately show ?thesis using Pair by (cases r) (auto simp: bindS_def intro: same_files_trans)
qed

subsection \<open>Statements of the recorder\<close>

definition keeps_files :: "('e, 'a) sys \<Rightarrow> bool" where
  "keeps_files m \<longleftrightarrow> (\<forall>s. same_files (qs_artifacts s) (qs_artifacts (snd (m s))))"

lemma keeps_files_pure: "keeps_files (retS x)" "keeps_files (liftS r)" "keeps_files (on_store m)"
  by (simp_all add: keeps_files_def liftS_def retS_def on_store_def split: prod.splits)

lemma keeps_files_bind: "keeps_files m \<Longrightarrow> (\<And>x. keeps_files (f x)) \<Longrightarrow> keeps_files (bindS m f)"
  unfolding keeps_files_def bindS_def
proof
  fix s assume m: "\<forall>s. same_files (qs_artifacts s) (qs_artifacts (snd (m s)))"
    and f: "\<And>x. \<forall>s. same_files (qs_artifacts s) (qs_artifacts (snd (f x s)))"
  show "same_files (qs_artifacts s) (qs_artifacts (snd (case m s of (Inl e, s') \<Rightarrow> (Inl e, s') | (Inr x, s') \<Rightarrow> f x s')))"
  proof (cases "m s")
    case (Pair r s1)
    then have "same_files (qs_artifacts s) (qs_artifacts s1)" using m [rule_format, of s] by simp
    moreover have "same_files (qs_artifacts s1) (qs_artifacts (snd (f x s1)))" for x using f by blast
    ultimately show ?thesis using Pair by (cases r) (auto intro: same_files_trans)
  qed
qed

lemma keeps_files_write: "(\<And>a. same_files a (snd (m a))) \<Longrightarrow> keeps_files (on_artifacts m)"
  by (simp add: keeps_files_def on_artifacts_def split: prod.splits) (metis snd_conv)

lemma payload_keeps: "keeps_files (write_event_payload run i t slot payload redact)"
  unfolding write_event_payload_def
  by (auto intro!: keeps_files_pure keeps_files_bind keeps_files_write trace_keeps [of "''events''"])

lemma event_keeps: "keeps_files (record_event clock run c)"
  unfolding record_event_def by (intro keeps_files_bind keeps_files_pure payload_keeps)

lemma checkpoint_keeps: "keeps_files (checkpoint clock clock' run phase state step tokens redact)"
  unfolding checkpoint_def
  by (intro keeps_files_bind keeps_files_pure event_keeps keeps_files_write trace_keeps [of "''checkpoints''"]) simp_all

end
