(* ===== verification/Profile_Seal.thy ===== *)
theory Profile_Seal
  imports Canonical_Json Artifact_Frame
begin

text \<open>
  The seal of a runtime profile: \<open>RuntimeEntryPoint._seal_profile\<close> writes the profile as an artifact and records the
  SHA-256 of its canonical text, \<open>MinimalRuntimeLoop._assert_profile_seal\<close> recomputes it from the artifact before a run.
  The hash function is a parameter; what the seal detects rests on it being free of collisions on the texts at hand.
\<close>

type_synonym hash = "string \<Rightarrow> string"

definition profile_sha256 :: "hash \<Rightarrow> obj \<Rightarrow> string" where
  "profile_sha256 sha256 profile = sha256 (dumps (JObj profile))"

definition seal_profile :: "hash \<Rightarrow> obj \<Rightarrow> (artifact_store, 'e, string \<times> string) st" where
  "seal_profile sha256 profile =
     (let digest = profile_sha256 sha256 profile in
      bindS (liftS (getitem profile ''id'')) (\<lambda>ident.
      bindS (write_json [''profiles'', py_str ident, digest] (JObj profile) False) (\<lambda>uri.
      retS (uri, digest))))"

definition assert_profile_seal :: "hash \<Rightarrow> string \<Rightarrow> string \<Rightarrow> artifact_store \<Rightarrow> (string, unit) res" where
  "assert_profile_seal sha256 uri recorded a =
     bindR (read_json uri a) (\<lambda>artifact.
     case as_obj artifact of
       None \<Rightarrow> Inl (Raise ''Runtime profile artifact is not a JSON object.'')
     | Some artifact_profile \<Rightarrow>
         raise_if (profile_sha256 sha256 artifact_profile \<noteq> recorded)
           ''Runtime profile artifact seal does not match the recorded SHA-256.'')"

lemma seal_profile_written:
  assumes "map_of profile ''id'' = Some ident"
  shows "\<exists>uri a'. seal_profile sha256 profile a = (Inr (uri, profile_sha256 sha256 profile) :: ('e, string \<times> string) res, a')"
proof -
  obtain uri a' where "write_json [''profiles'', py_str ident, profile_sha256 sha256 profile] (JObj profile) False a = (Inr uri :: ('e, string) res, a')"
    using write_json_head by blast
  with assms show ?thesis by (simp add: seal_profile_def Let_def bindS_def getitem_def)
qed

lemma sealed_artifact:
  assumes "seal_profile sha256 profile a = (Inr (uri, digest) :: ('e, string \<times> string) res, a')" and "unchunked (ar_threshold a) (JObj profile)"
  shows "read_json uri a' = (Inr (sort_keys (JObj profile)) :: ('f, json) res)" and "digest = profile_sha256 sha256 profile"
proof -
  from assms(1) obtain ident where w: "write_json [''profiles'', ident, profile_sha256 sha256 profile] (JObj profile) False a = (Inr uri :: ('e, string) res, a')"
    and d: "digest = profile_sha256 sha256 profile"
    by (auto simp: seal_profile_def Let_def bindS_cases)
  show "digest = profile_sha256 sha256 profile" by (rule d)
  show "read_json uri a' = (Inr (sort_keys (JObj profile)) :: ('f, json) res)"
    by (rule write_read_back [OF _ assms(2)]) (use w in \<open>simp add: write_json_def\<close>)
qed

text \<open>The artifact stays readable while the directory of the profiles is left alone.\<close>

lemma sealed_artifact_kept:
  assumes seal: "seal_profile sha256 profile a = (Inr (uri, digest) :: ('e, string \<times> string) res, a')"
    and small: "unchunked (ar_threshold a) (JObj profile)"
    and ident: "map_of profile ''id'' = Some (JStr i)" "i \<noteq> []" and kept: "same_files a' b"
  shows "read_json uri b = (Inr (sort_keys (JObj profile)) :: ('f, json) res)"
proof -
  let ?path = "[''profiles'', i, profile_sha256 sha256 profile]"
  have w: "write_json_raw ?path (JObj profile) a = (Inr uri :: ('e, string) res, a')"
    using seal ident by (auto simp: seal_profile_def Let_def bindS_cases getitem_def write_json_def)
  obtain p rest where r: "relative_path ?path = ''profiles'' # p # rest"
    using relative_path_area [OF areas(4), of i "[i, profile_sha256 sha256 profile]"] ident(2) by auto
  have "a' = a\<lparr>ar_json := dict_set (relative_path ?path) (sort_keys (JObj profile)) (ar_json a)\<rparr>" "uri = uri_for a (relative_path ?path)"
    using w small r by (auto simp: write_json_raw_def Let_def chunk_unchanged simp del: sort_keys.simps)
  then have "map_of (ar_json a') (relative_path ?path) = Some (sort_keys (JObj profile))" "uri = uri_for a' (relative_path ?path)"
    by (simp_all add: uri_for_def dict_simps del: sort_keys.simps)
  then have "map_of (ar_json b) (relative_path ?path) = Some (sort_keys (JObj profile))" "uri = uri_for b (relative_path ?path)"
    using kept by (simp_all add: same_files_def r SEALED_AREAS_def uri_for_def del: sort_keys.simps)
  then show ?thesis using read_json_at [of b ?path] r by (simp del: sort_keys.simps)
qed

lemma seal_decides:
  assumes "read_json uri b = (Inr v :: (string, json) res)"
    and "sha256 (dumps v) = sha256 (dumps (JObj profile)) \<Longrightarrow> dumps v = dumps (JObj profile)"
  shows "assert_profile_seal sha256 uri (profile_sha256 sha256 profile) b = Inr () \<longleftrightarrow> sort_keys v = sort_keys (JObj profile)"
proof (cases v)
  case (JObj m)
  have "assert_profile_seal sha256 uri (profile_sha256 sha256 profile) b = Inr () \<longleftrightarrow> dumps v = dumps (JObj profile)"
    using assms JObj by (auto simp: assert_profile_seal_def profile_sha256_def raise_if_def)
  then show ?thesis by (simp add: dumps_unique)
qed (use assms in \<open>simp_all add: assert_profile_seal_def\<close>)

lemma seal_holds:
  assumes "read_json uri b = (Inr (sort_keys (JObj profile)) :: (string, json) res)"
  shows "assert_profile_seal sha256 uri (profile_sha256 sha256 profile) b = Inr ()"
  unfolding seal_decides [OF assms dumps_sorted] by (rule sort_keys_idem)

text \<open>C9. The seal is exact. A profile whose strings stay below the chunking threshold passes the check right after it was
  sealed; and in any later artifact store the check passes exactly when the artifact under the URI is still the sealed
  profile, up to the order of keys, as long as the hash does not collide on the two texts.\<close>

theorem seal_exact:
  assumes "seal_profile sha256 profile a = (Inr (uri, digest) :: ('e, string \<times> string) res, a')"
    and "unchunked (ar_threshold a) (JObj profile)"
  shows "assert_profile_seal sha256 uri digest a' = Inr () \<and>
     (\<forall>b v. read_json uri b = (Inr v :: (string, json) res) \<and>
        (sha256 (dumps v) = sha256 (dumps (JObj profile)) \<longrightarrow> dumps v = dumps (JObj profile)) \<longrightarrow>
        (assert_profile_seal sha256 uri digest b = Inr () \<longleftrightarrow> sort_keys v = sort_keys (JObj profile)))"
proof -
  note r = sealed_artifact [OF assms]
  have "assert_profile_seal sha256 uri digest a' = Inr ()"
    unfolding r(2) by (rule seal_holds [OF r(1)])
  moreover have "assert_profile_seal sha256 uri digest b = Inr () \<longleftrightarrow> sort_keys v = sort_keys (JObj profile)"
    if "read_json uri b = (Inr v :: (string, json) res)" "sha256 (dumps v) = sha256 (dumps (JObj profile)) \<longrightarrow> dumps v = dumps (JObj profile)" for b v
    using seal_decides [OF that(1)] that(2) by (simp add: r(2))
  ultimately show ?thesis by blast
qed

definition small_profile :: obj where
  "small_profile = [(''id'', JStr ''profile-1''), (''limits'', JObj [(''max_tokens'', JInt 10)])]"

theorem seal_exact_witness:
  "\<exists>uri a'. seal_profile (take 8) small_profile sample_artifacts = (Inr (uri, take 8 (dumps (JObj small_profile))) :: (unit, string \<times> string) res, a') \<and>
     assert_profile_seal (take 8) uri (take 8 (dumps (JObj small_profile))) a' = Inr ()"
proof -
  obtain uri a' where s: "seal_profile (take 8) small_profile sample_artifacts =
      (Inr (uri, profile_sha256 (take 8) small_profile) :: (unit, string \<times> string) res, a')"
    using seal_profile_written [of small_profile "JStr ''profile-1''" "take 8" sample_artifacts, where 'e = unit] by (auto simp: small_profile_def)
  moreover have "unchunked (ar_threshold sample_artifacts) (JObj small_profile)" by code_simp
  ultimately have "assert_profile_seal (take 8) uri (profile_sha256 (take 8) small_profile) a' = Inr ()" by (rule conjunct1 [OF seal_exact])
  with s show ?thesis unfolding profile_sha256_def by blast
qed

end
