(* ===== verification/Task_Analyzer.thy ===== *)
theory Task_Analyzer
  imports Models
begin

text \<open>
  \<open>composition/task_analyzer.py\<close>: the rule-based intake of a task document. The
  analyzer classifies the objective, derives inputs, constraints, risk level and
  capability hints, and normalises the authentication claims that tenant checks rely on.
  \<open>analyze\<close> is total except where the code itself raises: iterating a claim that is not
  iterable, and \<open>roles[0]\<close> on an empty role list.
\<close>

subsection \<open>Data\<close>

record auth_claims =
  principal_id :: string
  principal_type :: string
  roles :: "string list"
  authorization_policies :: "string list"
  control_plane_principal_kind :: string
  control_plane_principal_id :: string
  display_name :: "string option"
  tenant_id :: string
  area_id :: string
  tenant_hostname :: "string option"
  membership_id :: "string option"
  role_data_sources :: "string list"
  role_capabilities :: "string list"

record task_classification =
  tc_task_type :: string
  tc_confidence :: string
  tc_reasons :: "string list"
  tc_ambiguous_task_types :: "string list"
  tc_requires_human_review :: bool

record analyzed_task =
  at_task_id :: string
  at_task_type :: string
  at_objective :: string
  at_risk_level :: string
  at_domains :: "string list"
  at_required_inputs :: "string list"
  at_available_inputs :: "string list"
  at_capability_hints :: "string list"
  at_constraints :: "string list"
  at_missing_information :: "string list"
  at_auth_claims :: auth_claims
  at_classification_confidence :: string
  at_classification_reasons :: "string list"
  at_ambiguous_task_types :: "string list"
  at_requires_human_review :: bool

definition DEFAULT_CONTROL_PLANE_PRINCIPAL_ID :: string where
  "DEFAULT_CONTROL_PLANE_PRINCIPAL_ID = ''repository-maintainer''"

definition DEFAULT_PRINCIPAL_ID :: string where
  "DEFAULT_PRINCIPAL_ID = ''user-local''"

text \<open>\<open>AuthClaims()\<close> with the defaults of the dataclass.\<close>

definition default_auth_claims :: auth_claims where
  "default_auth_claims =
     \<lparr>principal_id = DEFAULT_PRINCIPAL_ID, principal_type = ''user'',
      roles = [DEFAULT_CONTROL_PLANE_PRINCIPAL_ID],
      authorization_policies = [''submitter-can-request-code-review''],
      control_plane_principal_kind = ''role'',
      control_plane_principal_id = DEFAULT_CONTROL_PLANE_PRINCIPAL_ID,
      display_name = None, tenant_id = ''global'', area_id = ''global'',
      tenant_hostname = None, membership_id = None, role_data_sources = [],
      role_capabilities = []\<rparr>"

subsection \<open>Normalisation helpers\<close>

text \<open>\<open>_dedupe\<close>: strip every value, drop blanks, keep first occurrences.\<close>

definition dedupe_stripped :: "string list \<Rightarrow> string list" where
  "dedupe_stripped values = dedupe (filter (\<lambda>s. s \<noteq> []) (map strip values))"

definition is_id :: "string \<Rightarrow> bool" where
  "is_id v \<longleftrightarrow> v \<noteq> [] \<and> is_lower (hd v) \<and>
     list_all (\<lambda>c. is_lower c \<or> is_digit c \<or> c = CHR ''_'' \<or> c = CHR ''-'') (tl v)"

definition dash_or_underscore :: "char \<Rightarrow> bool" where
  "dash_or_underscore c \<longleftrightarrow> c = CHR ''-'' \<or> c = CHR ''_''"

definition slugify :: "string \<Rightarrow> string" where
  "slugify v =
     (let slug = strip_chars dash_or_underscore
            (sub_runs (\<lambda>c. \<not> (is_lower c \<or> is_digit c \<or> c = CHR ''_'' \<or> c = CHR ''-'')) ''-''
              (casefold v));
          slug = sub_runs is_dash ''-'' slug
      in if slug = [] then ''task''
         else (let slug = (if \<not> is_alpha (hd slug) then ''id-'' @ slug else slug)
               in strip_chars dash_or_underscore (take 80 slug)))"

subsection \<open>Objective and classification\<close>

text \<open>The first of \<open>request\<close>, \<open>objective\<close>, \<open>description\<close> that is a non-blank string.\<close>

fun first_text :: "obj \<Rightarrow> string list \<Rightarrow> string option" where
  "first_text task [] = None"
| "first_text task (k # ks) =
     (case as_str (get task k) of
        Some v \<Rightarrow> if strip v \<noteq> [] then Some (strip v) else first_text task ks
      | None \<Rightarrow> first_text task ks)"

definition objective_of :: "obj \<Rightarrow> string" where
  "objective_of task =
     (case first_text task [''request'', ''objective'', ''description''] of
        Some v \<Rightarrow> v
      | None \<Rightarrow> ''Process repository task.'')"

definition task_id_of :: "obj \<Rightarrow> string \<Rightarrow> string" where
  "task_id_of task objective =
     (case as_str (get task ''id'') of
        Some v \<Rightarrow> if is_id v then v else ''task-'' @ slugify objective
      | None \<Rightarrow> ''task-'' @ slugify objective)"

text \<open>\<open>re.search(rf"\b{term}\b", text)\<close> for a term of word characters.\<close>

fun word_search :: "bool \<Rightarrow> string \<Rightarrow> string \<Rightarrow> bool" where
  "word_search prev_word term [] \<longleftrightarrow> False"
| "word_search prev_word term (c # s) \<longleftrightarrow>
     (\<not> prev_word \<and> startswith term (c # s) \<and>
       (case drop (length term) (c # s) of [] \<Rightarrow> True | d # _ \<Rightarrow> \<not> is_word d))
     \<or> word_search (is_word c) term s"

definition contains_task_term :: "string \<Rightarrow> string \<Rightarrow> bool" where
  "contains_task_term text term =
     (if term \<noteq> [] \<and> list_all (\<lambda>c. is_lower c \<or> is_digit c) term
      then word_search False term text else contains term text)"

definition is_information_request :: "string \<Rightarrow> bool" where
  "is_information_request text =
     list_ex (\<lambda>signal. contains signal text)
       [''how do i'', ''how should'', ''why does'', ''why do'', ''what causes'', ''what is'',
        ''explain'']"

definition filter_information_request_execution_terms ::
  "string \<Rightarrow> string list \<Rightarrow> string list" where
  "filter_information_request_execution_terms text matched_terms =
     (if \<not> is_information_request text then matched_terms
      else filter (\<lambda>term. term \<notin> {''fix''}) matched_terms)"

definition task_categories :: "(string \<times> string list) list" where
  "task_categories =
     [(''code-review'',
        [''review'', ''pull request'', ''pr'', ''diff'', ''commit'', ''regression'',
         ''missing tests'']),
      (''research'',
        [''research'', ''investigate'', ''compare'', ''summarize'', ''find information'',
         ''look up'', ''survey'', ''diagnose'', ''debug'', ''troubleshoot'', ''explain'',
         ''what causes'', ''why does'', ''how do i'', ''how should'', ''stack overflow'',
         ''error'', ''exception'']),
      (''task-execution'',
        [''implement'', ''build'', ''fix'', ''update'', ''change'', ''create'', ''refactor'',
         ''migrate'', ''add'', ''remove''])]"

definition category_matches :: "string \<Rightarrow> (string \<times> string list) list" where
  "category_matches text =
     filter (\<lambda>m. snd m \<noteq> [])
       (map (\<lambda>(task_type, terms).
          let matched = filter (contains_task_term text) terms;
              matched = (if task_type = ''task-execution''
                         then filter_information_request_execution_terms text matched
                         else matched)
          in (task_type, matched)) task_categories)"

definition match_reason :: "string \<times> string list \<Rightarrow> string" where
  "match_reason m =
     ''Matched '' @ fst m @ '' task signals: '' @ join '', '' (snd m) @ ''.''"

definition classify_task :: "string \<Rightarrow> task_classification" where
  "classify_task objective =
     (case category_matches (casefold objective) of
        [m] \<Rightarrow>
          \<lparr>tc_task_type = fst m, tc_confidence = ''high'', tc_reasons = [match_reason m],
           tc_ambiguous_task_types = [], tc_requires_human_review = False\<rparr>
      | [] \<Rightarrow>
          \<lparr>tc_task_type = ''general-task'', tc_confidence = ''medium'',
           tc_reasons = [''No specialized task signals matched; using general-task fallback.''],
           tc_ambiguous_task_types = [], tc_requires_human_review = False\<rparr>
      | ms \<Rightarrow>
          \<lparr>tc_task_type = ''general-task'', tc_confidence = ''low'',
           tc_reasons = map match_reason ms @
             [''Fell back to general-task because multiple specialized task types matched.''],
           tc_ambiguous_task_types = map fst ms, tc_requires_human_review = True\<rparr>)"

subsection \<open>Inputs, domains, hints, constraints, risk\<close>

definition repository_context :: "obj \<Rightarrow> obj option" where
  "repository_context task =
     (case as_obj (get task ''context'') of
        None \<Rightarrow> None
      | Some context \<Rightarrow> as_obj (get context ''repository''))"

definition domains_of :: "string \<Rightarrow> obj option \<Rightarrow> string list" where
  "domains_of task_type repository =
     (let domains =
        (if task_type = ''code-review'' then [''software-engineering'', ''git'', ''code-review'']
         else if task_type = ''research'' then [''research'', ''knowledge-retrieval'']
         else if task_type = ''task-execution''
         then [''task-execution''] @ (if repository \<noteq> None then [''software-engineering''] else [])
         else [])
      in dedupe_stripped (domains @ (if repository \<noteq> None then [''repository''] else [])))"

definition objective_mentions_diff_source :: "string \<Rightarrow> bool" where
  "objective_mentions_diff_source objective =
     list_ex (\<lambda>term. contains term (casefold objective))
       [''diff'', ''commit'', ''pull request'', ''pr'', ''changes'']"

definition required_inputs_of :: "string \<Rightarrow> string \<Rightarrow> obj option \<Rightarrow> string list" where
  "required_inputs_of task_type objective repository =
     dedupe_stripped
       ((if task_type = ''code-review'' \<or> repository \<noteq> None then [''repository''] else []) @
        (if task_type = ''code-review'' \<and> objective_mentions_diff_source objective
         then [''diff''] else []))"

definition available_inputs_of ::
  "string \<Rightarrow> string \<Rightarrow> obj option \<Rightarrow> obj \<Rightarrow> string list" where
  "available_inputs_of task_type objective repository task =
     dedupe_stripped
       ((if repository \<noteq> None then [''repository''] else []) @
        (if repository \<noteq> None \<and> task_type = ''code-review'' \<and>
            objective_mentions_diff_source objective
         then [''diff''] else []) @
        (case as_obj (get task ''context'') of
           None \<Rightarrow> []
         | Some context \<Rightarrow>
             (case as_list (get context ''attachments'') of
                None \<Rightarrow> []
              | Some attachments \<Rightarrow> if attachments \<noteq> [] then [''attachments''] else [])))"

definition capability_hints_of :: "string \<Rightarrow> string \<Rightarrow> string list" where
  "capability_hints_of task_type objective =
     dedupe_stripped
       ((if task_type = ''code-review'' then [''analysis'']
         else if task_type = ''research'' then [''retrieval'', ''analysis'']
         else if task_type = ''task-execution'' then [''execution''] else []) @
        (if contains ''schema'' (casefold objective) \<or> contains ''contract'' (casefold objective)
         then [''schema-validation''] else []))"

definition constraints_of :: "obj \<Rightarrow> task_classification \<Rightarrow> string list" where
  "constraints_of task classification =
     (let raw = get task ''constraints'';
          constraints =
            (case raw of
               JObj m \<Rightarrow>
                 (if get m ''write_access'' = JBool False
                  then [''Do not grant write tools by default.''] else []) @
                 (if get m ''destructive_actions'' = JBool False
                  then [''Destructive actions are not allowed.''] else []) @
                 (if get m ''write_access'' = JBool True
                  then [''Write access was requested.''] else []) @
                 (if get m ''destructive_actions'' = JBool True
                  then [''Destructive actions were requested.''] else [])
             | JList items \<Rightarrow> filter (\<lambda>s. strip s \<noteq> []) (map py_str items)
             | _ \<Rightarrow> []);
          constraints =
            (if constraints = [] then [''Do not grant broad capabilities by default.'']
             else constraints)
      in dedupe_stripped
           (constraints @
            (if tc_requires_human_review classification
             then [''Task classification is ambiguous; do not route to a specialized runtime '' @
                   ''strategy without review.'']
             else [])))"

definition risk_level_of :: "string \<Rightarrow> string \<Rightarrow> string list \<Rightarrow> string" where
  "risk_level_of task_type objective constraints =
     (let text = casefold (join '' '' (objective # constraints))
      in if list_ex (\<lambda>term. contains term text)
              [''production'', ''delete'', ''destroy'', ''reset'', ''secret'']
         then ''high''
         else if contains ''destructive actions were requested'' text
              \<or> contains ''write access was requested'' text
         then ''high''
         else if task_type = ''code-review'' then ''medium'' else ''low'')"

definition control_plane_risk_level :: "string \<Rightarrow> string" where
  "control_plane_risk_level risk_level =
     (if risk_level = ''critical'' then ''high'' else risk_level)"

subsection \<open>Authentication claims\<close>

text \<open>\<open>str(auth.get(k) or d)\<close>.\<close>

definition str_or :: "json \<Rightarrow> string \<Rightarrow> string" where
  "str_or v d = (if truthy v then py_str v else d)"

text \<open>\<open>_dedupe(str(x) for x in auth.get(k, default))\<close>.\<close>

definition claim_list :: "obj \<Rightarrow> string \<Rightarrow> string list \<Rightarrow> ('e, string list) res" where
  "claim_list auth k dflt =
     bindR (py_iter (get_or auth k (str_list dflt))) (\<lambda>xs.
     Inr (dedupe_stripped (map py_str xs)))"

definition auth_claims_from :: "obj \<Rightarrow> string \<Rightarrow> ('e, auth_claims) res" where
  "auth_claims_from auth task_type =
     bindR (claim_list auth ''roles'' [DEFAULT_CONTROL_PLANE_PRINCIPAL_ID]) (\<lambda>rs.
     let pid = str_or (get auth ''principal_id'') DEFAULT_PRINCIPAL_ID;
         ptype = str_or (get auth ''principal_type'') ''user'';
         ptype = (if ptype \<notin> {''user'', ''service'', ''system''} then ''user'' else ptype);
         kind = str_or (get auth ''control_plane_principal_kind'') ''role'';
         kind = (if kind \<notin> {''role'', ''user'', ''service''} then ''role'' else kind);
         cp = get auth ''control_plane_principal_id''
     in bindR
          (if truthy cp then Inr (py_str cp)
           else (case rs of
                   [] \<Rightarrow> Inl (Py IndexError)
                 | r # _ \<Rightarrow> Inr (if r \<noteq> [] then r else DEFAULT_CONTROL_PLANE_PRINCIPAL_ID)))
          (\<lambda>cp_id.
        bindR (claim_list auth ''authorization_policies'' [''submitter-can-request-'' @ task_type])
          (\<lambda>pols.
        let tid = slugify (str_or (get auth ''tenant_id'') ''global'');
            aid = slugify (str_or (get auth ''area_id'') tid)
        in bindR (claim_list auth ''role_data_sources'' []) (\<lambda>sources.
           bindR (claim_list auth ''role_capabilities'' []) (\<lambda>caps.
           Inr \<lparr>principal_id = pid, principal_type = ptype,
                roles = (if rs = [] then [DEFAULT_CONTROL_PLANE_PRINCIPAL_ID] else rs),
                authorization_policies =
                  (if pols = [] then [''submitter-can-request-'' @ task_type] else pols),
                control_plane_principal_kind = kind,
                control_plane_principal_id = slugify cp_id,
                display_name =
                  (case as_str (get auth ''display_name'') of
                     None \<Rightarrow> None | Some s \<Rightarrow> if s \<noteq> [] then Some s else None),
                tenant_id = tid, area_id = aid,
                tenant_hostname =
                  (case as_str (get auth ''tenant_hostname'') of
                     None \<Rightarrow> None | Some s \<Rightarrow> if strip s \<noteq> [] then Some s else None),
                membership_id =
                  (case as_str (get auth ''membership_id'') of
                     None \<Rightarrow> None | Some s \<Rightarrow> if strip s \<noteq> [] then Some (slugify s) else None),
                role_data_sources = sources, role_capabilities = caps\<rparr>)))))"

definition auth_claims_of :: "obj \<Rightarrow> string \<Rightarrow> ('e, auth_claims) res" where
  "auth_claims_of task task_type =
     (case (case as_obj (get task ''context'') of
              None \<Rightarrow> None | Some context \<Rightarrow> as_obj (get context ''auth'')) of
        None \<Rightarrow>
          Inr (default_auth_claims
                 \<lparr>authorization_policies := [''submitter-can-request-'' @ task_type]\<rparr>)
      | Some auth \<Rightarrow> auth_claims_from auth task_type)"

subsection \<open>The analyzer\<close>

definition analyze :: "obj \<Rightarrow> ('e, analyzed_task) res" where
  "analyze task =
     (let objective = objective_of task;
          classification = classify_task objective;
          task_type = tc_task_type classification;
          repository = repository_context task;
          constraints = constraints_of task classification;
          required_inputs = required_inputs_of task_type objective repository;
          available_inputs = available_inputs_of task_type objective repository task;
          missing_information = filter (\<lambda>i. i \<notin> set available_inputs) required_inputs
      in bindR (auth_claims_of task task_type) (\<lambda>claims.
         Inr \<lparr>at_task_id = task_id_of task objective,
              at_task_type = task_type,
              at_objective = objective,
              at_risk_level = risk_level_of task_type objective constraints,
              at_domains = domains_of task_type repository,
              at_required_inputs = required_inputs,
              at_available_inputs = available_inputs,
              at_capability_hints = capability_hints_of task_type objective,
              at_constraints = constraints,
              at_missing_information = missing_information,
              at_auth_claims = claims,
              at_classification_confidence = tc_confidence classification,
              at_classification_reasons = tc_reasons classification,
              at_ambiguous_task_types = tc_ambiguous_task_types classification,
              at_requires_human_review = tc_requires_human_review classification\<rparr>))"

definition to_composition_context_request ::
  "analyzed_task \<Rightarrow> string \<Rightarrow> string \<Rightarrow> string option \<Rightarrow> obj" where
  "to_composition_context_request t environment generation_mode parent_profile_id =
     [(''contract_version'', JStr ''0.1.0''),
      (''environment'', JStr environment),
      (''principal'', JObj
         [(''kind'', JStr (control_plane_principal_kind (at_auth_claims t))),
          (''id'', JStr (control_plane_principal_id (at_auth_claims t)))]),
      (''requested_profile_generation'', JObj
         [(''mode'', JStr generation_mode), (''parent_profile_id'', opt_str parent_profile_id)]),
      (''task'', JObj
         [(''id'', JStr (at_task_id t)),
          (''type'', JStr (at_task_type t)),
          (''objective'', JStr (at_objective t)),
          (''risk_level'', JStr (control_plane_risk_level (at_risk_level t))),
          (''signals'', JObj
             [(''domain_tags'', str_list (at_domains t)),
              (''capability_hints'', str_list (at_capability_hints t)),
              (''available_inputs'', str_list (at_available_inputs t)),
              (''constraints'', str_list (at_constraints t)),
              (''classification_confidence'', JStr (at_classification_confidence t)),
              (''ambiguous_task_types'', str_list (at_ambiguous_task_types t)),
              (''classification_reasons'', str_list (at_classification_reasons t)),
              (''requires_human_review'', JBool (at_requires_human_review t))])])] @
     (if tenant_id (at_auth_claims t) \<noteq> ''global''
      then [(''tenant_context'', JObj
               [(''tenant_id'', JStr (tenant_id (at_auth_claims t))),
                (''area_id'', JStr (area_id (at_auth_claims t))),
                (''hostname'', opt_str (tenant_hostname (at_auth_claims t))),
                (''membership_id'', opt_str (membership_id (at_auth_claims t)))])]
      else [])"

subsection \<open>Identifiers are well-formed\<close>

definition id_char :: "char \<Rightarrow> bool" where
  "id_char c \<longleftrightarrow> is_lower c \<or> is_digit c \<or> c = CHR ''_'' \<or> c = CHR ''-''"

lemma is_id_iff: "is_id v \<longleftrightarrow> v \<noteq> [] \<and> is_lower (hd v) \<and> list_all id_char v"
  by (cases v) (auto simp: is_id_def id_char_def list_all_iff)

lemma id_char_lits:
  "list_all id_char ''task-''" "list_all id_char ''task''" "list_all id_char ''id-''"
  "is_lower (CHR ''t'')" "is_lower (CHR ''i'')"
  by (simp_all add: id_char_def is_lower_def)

lemma strip_is_id:
  assumes "is_id v" shows "is_id (strip_chars dash_or_underscore v)"
proof -
  obtain c cs where v: "v = c # cs" using assms by (cases v) (auto simp: is_id_def)
  have "\<not> dash_or_underscore c" using assms v
    by (auto simp: is_id_def is_lower_def dash_or_underscore_def)
  then have "strip_chars dash_or_underscore v = c # rstrip dash_or_underscore cs"
    using v by (simp add: strip_chars_Cons_keep)
  moreover have "list_all id_char (strip_chars dash_or_underscore v)"
    using assms set_strip_chars by (fastforce simp: is_id_iff list_all_iff)
  ultimately show ?thesis using assms v by (simp add: is_id_iff)
qed

lemma take_is_id: "is_id v \<Longrightarrow> 0 < n \<Longrightarrow> is_id (take n v)"
  by (cases n; cases v) (auto simp: is_id_iff list_all_iff dest: in_set_takeD)

lemma slugify_is_id: "is_id (slugify v)"
proof -
  let ?P = "\<lambda>c. \<not> (is_lower c \<or> is_digit c \<or> c = CHR ''_'' \<or> c = CHR ''-'')"
  define s where "s = strip_chars dash_or_underscore (sub_runs ?P ''-'' (casefold v))"
  define t where "t = sub_runs is_dash ''-'' s"
  have cs: "id_char c" if "c \<in> set s" for c
  proof -
    have "c \<in> set (sub_runs ?P ''-'' (casefold v))" using that set_strip_chars s_def by blast
    then show ?thesis by (auto simp: id_char_def dest: set_sub_runs)
  qed
  have "id_char c" if "c \<in> set t" for c
    using that set_sub_runs [of c is_dash "''-''" s] cs by (auto simp: t_def id_char_def)
  then have ct: "list_all id_char t" by (simp add: list_all_iff)
  have "is_id (if \<not> is_alpha (hd t) then ''id-'' @ t else t)" if "t \<noteq> []"
  proof (cases "is_alpha (hd t)")
    case True
    have "id_char (hd t)" using ct that by (cases t) auto
    with True have "is_lower (hd t)"
      by (auto simp: id_char_def is_alpha_def is_digit_def is_upper_def is_lower_def)
    with True ct that show ?thesis by (simp add: is_id_iff)
  next
    case False
    with ct show ?thesis using id_char_lits by (simp add: is_id_iff)
  qed
  moreover have "slugify v = (if t = [] then ''task'' else
      strip_chars dash_or_underscore (take 80 (if \<not> is_alpha (hd t) then ''id-'' @ t else t)))"
    by (simp add: slugify_def t_def s_def Let_def)
  moreover have "is_id ''task''" by code_simp
  ultimately show ?thesis by (simp add: strip_is_id take_is_id)
qed

lemma prefixed_is_id: "is_id v \<Longrightarrow> is_id (''task-'' @ v)"
  using id_char_lits by (simp add: is_id_iff)

lemma task_id_of_is_id: "is_id (task_id_of task objective)"
  using prefixed_is_id [OF slugify_is_id, of objective]
  by (simp add: task_id_of_def split: option.split)

lemma dedupe_stripped_props:
  "distinct (dedupe_stripped xs)" "s \<in> set (dedupe_stripped xs) \<Longrightarrow> strip s = s \<and> s \<noteq> []"
  by (auto simp: dedupe_stripped_def)

lemma claim_list_props:
  assumes "claim_list auth k d = Inr xs"
  shows "distinct xs" "\<forall>s \<in> set xs. strip s \<noteq> []"
  using assms dedupe_stripped_props by (auto simp: claim_list_def bindR_Inr_iff)

subsection \<open>Properties of the analyzer\<close>

lemma analyze_Inr:
  assumes "analyze task = (Inr t :: ('e, analyzed_task) res)"
  shows "at_task_id t = task_id_of task (at_objective t)"
    and "at_objective t = objective_of task"
    and "auth_claims_of task (at_task_type t) = (Inr (at_auth_claims t) :: ('e, auth_claims) res)"
    and "at_task_type t = tc_task_type (classify_task (objective_of task))"
    and "at_requires_human_review t = tc_requires_human_review (classify_task (objective_of task))"
    and "at_risk_level t = risk_level_of (at_task_type t) (at_objective t) (at_constraints t)"
    and "at_constraints t = constraints_of task (classify_task (objective_of task))"
  using assms by (auto simp: analyze_def Let_def bindR_Inr_iff)

text \<open>The claims that tenant checks compare are normalised.\<close>

definition claims_normal :: "auth_claims \<Rightarrow> bool" where
  "claims_normal c \<longleftrightarrow>
     is_id (tenant_id c) \<and> is_id (area_id c) \<and> roles c \<noteq> [] \<and> distinct (roles c) \<and>
     (\<forall>s \<in> set (roles c). strip s \<noteq> []) \<and>
     (\<forall>s \<in> set (role_data_sources c). strip s \<noteq> []) \<and>
     (\<forall>s \<in> set (role_capabilities c). strip s \<noteq> []) \<and>
     (\<forall>m. membership_id c = Some m \<longrightarrow> is_id m)"

lemma default_claims_normal: "claims_normal (default_auth_claims\<lparr>authorization_policies := p\<rparr>)"
proof -
  have "is_id ''global''" "strip DEFAULT_CONTROL_PLANE_PRINCIPAL_ID \<noteq> []" by code_simp+
  then show ?thesis by (simp add: claims_normal_def default_auth_claims_def)
qed

lemma auth_claims_from_conj:
  assumes "auth_claims_from auth tt = (Inr c :: ('e, auth_claims) res)"
  shows "(\<exists>rs. claim_list auth ''roles'' [DEFAULT_CONTROL_PLANE_PRINCIPAL_ID] = (Inr rs :: ('e, string list) res)
        \<and> roles c = (if rs = [] then [DEFAULT_CONTROL_PLANE_PRINCIPAL_ID] else rs)) \<and>
     claim_list auth ''role_data_sources'' [] = (Inr (role_data_sources c) :: ('e, string list) res) \<and>
     claim_list auth ''role_capabilities'' [] = (Inr (role_capabilities c) :: ('e, string list) res) \<and>
     tenant_id c = slugify (str_or (get auth ''tenant_id'') ''global'') \<and>
     area_id c = slugify (str_or (get auth ''area_id'') (tenant_id c)) \<and>
     membership_id c = (case as_str (get auth ''membership_id'') of
         None \<Rightarrow> None | Some s \<Rightarrow> if strip s \<noteq> [] then Some (slugify s) else None)"
  using assms unfolding auth_claims_from_def Let_def bindR_Inr_iff
  by (elim exE conjE) (drule Inr_inject, hypsubst, simp)

lemmas auth_claims_from_Inr =
  auth_claims_from_conj [THEN conjunct1]
  auth_claims_from_conj [THEN conjunct2, THEN conjunct1]
  auth_claims_from_conj [THEN conjunct2, THEN conjunct2, THEN conjunct1]
  auth_claims_from_conj [THEN conjunct2, THEN conjunct2, THEN conjunct2, THEN conjunct1]
  auth_claims_from_conj [THEN conjunct2, THEN conjunct2, THEN conjunct2, THEN conjunct2, THEN conjunct1]
  auth_claims_from_conj [THEN conjunct2, THEN conjunct2, THEN conjunct2, THEN conjunct2, THEN conjunct2]

lemma auth_claims_from_normal:
  assumes "auth_claims_from auth tt = (Inr c :: ('e, auth_claims) res)"
  shows "claims_normal c"
proof -
  have d: "strip DEFAULT_CONTROL_PLANE_PRINCIPAL_ID \<noteq> []" by code_simp
  note facts = auth_claims_from_Inr [OF assms]
  have "is_id m" if "membership_id c = Some m" for m
    using that facts(6) slugify_is_id by (auto split: option.splits if_splits)
  moreover have "roles c \<noteq> [] \<and> distinct (roles c) \<and> (\<forall>s \<in> set (roles c). strip s \<noteq> [])"
    using facts(1) d by (auto dest: claim_list_props split: if_splits)
  moreover note claim_list_props [OF facts(2)] claim_list_props [OF facts(3)]
  moreover have "is_id (tenant_id c)" "is_id (area_id c)" by (simp_all add: facts(4,5) slugify_is_id)
  ultimately show ?thesis by (simp add: claims_normal_def)
qed

lemma auth_claims_of_normal: "auth_claims_of task tt = Inr c \<Longrightarrow> claims_normal c"
  by (auto simp: auth_claims_of_def default_claims_normal
      dest: auth_claims_from_normal split: option.splits)

text \<open>C40. Intake produces well-formed identities: every analysed task has an identifier of the
  contract's form \<open>[a-z][a-z0-9_-]*\<close>, and its claims are normalised (tenant, area and
  membership identifiers of the same form; a non-empty, duplicate-free, non-blank role
  list; non-blank data sources and capabilities).\<close>

theorem analyze_well_formed:
  assumes "analyze task = (Inr t :: ('e, analyzed_task) res)"
  shows "is_id (at_task_id t) \<and> claims_normal (at_auth_claims t)"
  using analyze_Inr [OF assms] auth_claims_of_normal by (simp add: task_id_of_is_id)

definition sample_task :: obj where
  "sample_task =
     [(''request'', JStr ''Implement the export''),
      (''constraints'', JObj [(''write_access'', JBool True)]),
      (''context'', JObj
         [(''auth'', JObj
             [(''tenant_id'', JStr ''Acme Corp''), (''roles'', JList [JStr ''editor'', JStr ''editor'']),
              (''membership_id'', JStr ''m-1'')])])]"

lemma analyze_sample:
  "case (analyze sample_task :: (unit, analyzed_task) res) of
     Inl _ \<Rightarrow> False
   | Inr t \<Rightarrow> at_task_id t = ''task-implement-the-export'' \<and>
       tenant_id (at_auth_claims t) = ''acme-corp'' \<and> roles (at_auth_claims t) = [''editor''] \<and>
       at_task_type t = ''task-execution'' \<and> at_risk_level t = ''high''"
  by code_simp

theorem analyze_well_formed_witness:
  "\<exists>t. analyze sample_task = (Inr t :: (unit, analyzed_task) res) \<and>
     tenant_id (at_auth_claims t) = ''acme-corp'' \<and>
     is_id (at_task_id t) \<and> claims_normal (at_auth_claims t)"
  using analyze_sample analyze_well_formed [of sample_task, where 'e = unit]
  by (auto split: sum.splits)

lemma category_types: "set (map fst (category_matches text)) \<subseteq> {''code-review'', ''research'', ''task-execution''}"
  by (auto simp: category_matches_def task_categories_def Let_def)

lemma classify_task_cases:
  "tc_requires_human_review (classify_task v) \<longleftrightarrow> 2 \<le> length (category_matches (casefold v))"
  "tc_task_type (classify_task v) =
     (case category_matches (casefold v) of [m] \<Rightarrow> fst m | _ \<Rightarrow> ''general-task'')"
  by (auto simp: classify_task_def split: list.splits)

text \<open>C39. Specialised routing is unambiguous: an analysed task is routed to a specialised task
  type exactly when one category of signals matches its objective, and it requires human
  review exactly when two or more do; the type is always one of the four the runtime knows.\<close>

theorem analyze_classification:
  assumes "analyze task = (Inr t :: ('e, analyzed_task) res)"
  shows "(at_requires_human_review t \<longleftrightarrow> 2 \<le> length (category_matches (casefold (at_objective t)))) \<and>
     (at_task_type t \<noteq> ''general-task'' \<longleftrightarrow>
        (\<exists>ms. category_matches (casefold (at_objective t)) = [(at_task_type t, ms)])) \<and>
     at_task_type t \<in> {''code-review'', ''research'', ''task-execution'', ''general-task''}"
proof -
  let ?ms = "category_matches (casefold (at_objective t))"
  note facts = analyze_Inr [OF assms]
  have tt: "at_task_type t = (case ?ms of [m] \<Rightarrow> fst m | _ \<Rightarrow> ''general-task'')"
    using facts(2,4) by (simp add: classify_task_cases)
  have types: "fst m \<in> {''code-review'', ''research'', ''task-execution''}" if "?ms = [m]" for m
    using category_types [of "casefold (at_objective t)"] that by simp
  have "at_requires_human_review t \<longleftrightarrow> 2 \<le> length ?ms"
    using facts(2,5) by (simp add: classify_task_cases)
  moreover have "at_task_type t \<noteq> ''general-task'' \<longleftrightarrow> (\<exists>ms. ?ms = [(at_task_type t, ms)])"
    using tt types by (auto split: list.splits)
  moreover have "at_task_type t \<in> {''code-review'', ''research'', ''task-execution'', ''general-task''}"
    using tt types by (auto split: list.splits)
  ultimately show ?thesis by blast
qed

definition ambiguous_task :: obj where
  "ambiguous_task = [(''request'', JStr ''Review the diff and implement the fix'')]"

theorem analyze_classification_witness:
  "\<exists>t. analyze ambiguous_task = (Inr t :: (unit, analyzed_task) res) \<and> at_requires_human_review t \<and>
     at_task_type t = ''general-task'' \<and> 2 \<le> length (category_matches (casefold (at_objective t)))"
proof -
  have "case (analyze ambiguous_task :: (unit, analyzed_task) res) of Inl _ \<Rightarrow> False
    | Inr t \<Rightarrow> at_requires_human_review t \<and> at_task_type t = ''general-task''" by code_simp
  then show ?thesis
    using analyze_classification [of ambiguous_task, where 'e = unit] by (auto split: sum.splits)
qed

lemma constraints_of_member:
  assumes "get task ''constraints'' = JObj m" and "get m k = JBool True"
    and "(k, msg) \<in> {(''write_access'', ''Write access was requested.''),
      (''destructive_actions'', ''Destructive actions were requested.'')}"
  shows "msg \<in> set (constraints_of task c)"
proof -
  have "strip ''Write access was requested.'' = ''Write access was requested.''"
    "strip ''Destructive actions were requested.'' = ''Destructive actions were requested.''"
    by code_simp+
  then show ?thesis using assms
    by (auto simp: constraints_of_def dedupe_stripped_def Let_def image_iff)
qed

text \<open>Requests for power raise the risk level: a task whose constraints ask for write access
  or for destructive actions is never analysed as anything but high risk.\<close>

theorem analyze_write_request_high_risk:
  assumes "analyze task = (Inr t :: ('e, analyzed_task) res)"
    and "get task ''constraints'' = JObj m"
    and "get m ''write_access'' = JBool True \<or> get m ''destructive_actions'' = JBool True"
  shows "at_risk_level t = ''high''"
proof -
  note facts = analyze_Inr [OF assms(1)]
  let ?text = "casefold (join '' '' (at_objective t # at_constraints t))"
  have up: "contains (casefold msg) ?text" if "msg \<in> set (at_constraints t)" for msg
    using that by (simp add: contains_casefold contains_join)
  have lits: "contains ''write access was requested'' (casefold ''Write access was requested.'')"
    "contains ''destructive actions were requested'' (casefold ''Destructive actions were requested.'')"
    by code_simp+
  have "contains ''write access was requested'' ?text
      \<or> contains ''destructive actions were requested'' ?text"
    using assms(3)
  proof
    assume "get m ''write_access'' = JBool True"
    from constraints_of_member [OF assms(2) this] have "''Write access was requested.'' \<in> set (at_constraints t)"
      by (simp add: facts(7))
    then show ?thesis using contains_trans [OF lits(1) up] by blast
  next
    assume "get m ''destructive_actions'' = JBool True"
    from constraints_of_member [OF assms(2) this]
    have "''Destructive actions were requested.'' \<in> set (at_constraints t)"
      by (simp add: facts(7))
    then show ?thesis using contains_trans [OF lits(2) up] by blast
  qed
  then show ?thesis by (auto simp: facts(6) risk_level_of_def Let_def)
qed

theorem analyze_write_request_high_risk_witness:
  "\<exists>t. analyze sample_task = (Inr t :: (unit, analyzed_task) res) \<and> at_risk_level t = ''high''"
proof -
  have c: "get sample_task ''constraints'' = JObj [(''write_access'', JBool True)]"
    and w: "get [(''write_access'', JBool True)] ''write_access'' = JBool True
      \<or> get [(''write_access'', JBool True)] ''destructive_actions'' = JBool True"
    by (simp_all add: sample_task_def)
  show ?thesis
    using analyze_sample analyze_write_request_high_risk [OF _ c w, where 'e = unit]
    by (auto split: sum.splits)
qed

text \<open>An empty role list crashes the analyzer: the fallback \<open>roles or (default,)\<close> is written
  after \<open>roles[0]\<close> is read, so claims with an empty role list and no control-plane principal
  raise \<open>IndexError\<close> instead of falling back to the default role.\<close>

theorem analyze_empty_roles_raises:
  assumes "get task ''context'' = JObj ctx" and "get ctx ''auth'' = JObj auth"
    and "map_of auth ''roles'' = Some (JList [])"
    and "\<not> truthy (get auth ''control_plane_principal_id'')"
  shows "analyze task = (Inl (Py IndexError) :: ('e, analyzed_task) res)"
proof -
  have "claim_list auth ''roles'' rs = (Inr [] :: ('e, string list) res)" for rs
    using assms(3) by (simp add: claim_list_def dedupe_stripped_def get_or_def)
  then have "auth_claims_of task tt = (Inl (Py IndexError) :: ('e, auth_claims) res)" for tt
    using assms(1,2,4) by (simp add: auth_claims_of_def auth_claims_from_def Let_def)
  then show ?thesis by (simp add: analyze_def Let_def)
qed

theorem analyze_empty_roles_raises_witness:
  "analyze [(''context'', JObj [(''auth'', JObj [(''roles'', JList [])])])] =
     (Inl (Py IndexError) :: (unit, analyzed_task) res)"
  by (rule analyze_empty_roles_raises
      [where ctx = "[(''auth'', JObj [(''roles'', JList [])])]" and auth = "[(''roles'', JList [])]"])
    simp_all

end
