(* ===== verification/Tenant_Access.thy ===== *)
theory Tenant_Access
  imports Task_Analyzer
begin

text \<open>
  \<open>composition/tenant_access.py\<close>: the tenant access validator that runs before a runtime
  profile is emitted. The validator compares the analysed claims with the tenant
  authority document of the control plane and accepts a module selection only when every
  selected module derives from the roles of an active membership. Every \<open>raise\<close> of the
  source is one constructor of \<open>tenant_access_error\<close>.
\<close>

subsection \<open>Errors\<close>

datatype tenant_access_error =
    AuthorityRequired
  | TenantMismatch
  | AreaMismatch
  | HostnameAuthorityRequired
  | HostnameCrossesTenant
  | HostnameRequired
  | HostnameMismatch
  | TenantNotActive
  | DirectUserGrants
  | MembershipRequired
  | MembershipIdRequired
  | MembershipMismatch
  | MembershipCrossesTenant
  | PrincipalMismatch
  | MembershipNotActive
  | RolesNotGranted "string list"
  | RoleBundlesNotList
  | RolesNotPresent "string list"
  | RoleCrossesTenant
  | DataSourcesNotList
  | GrantCrossesTenant
  | CapabilitiesNotDerived "string list"
  | DataSourcesNotDerived "string list"
  | DerivationMissing
  | ModulesNotAllowed string "string list"
  | InstructionsNotAllowed "string list"

type_synonym 'a access = "(tenant_access_error, 'a) res"

definition GLOBAL_TENANT_ID :: string where
  "GLOBAL_TENANT_ID = ''global''"

definition ALLOWED_TENANT_STATUSES :: "string list" where
  "ALLOWED_TENANT_STATUSES = [''setup'', ''active'']"

definition ALLOWED_MEMBERSHIP_STATUSES :: "string list" where
  "ALLOWED_MEMBERSHIP_STATUSES = [''active'']"

definition BASELINE_INSTRUCTIONS :: "string list" where
  "BASELINE_INSTRUCTIONS = [''base-agent-rules'', ''code-review-rules'']"

definition BASELINE_VALIDATORS :: "string list" where
  "BASELINE_VALIDATORS = [''runtime-profile-schema'']"

subsection \<open>The checks\<close>

definition validate_tenant_identity :: "analyzed_task \<Rightarrow> obj \<Rightarrow> unit access" where
  "validate_tenant_identity t authority =
     (let claims = at_auth_claims t in
      bindR (raise_if (get authority ''tenant_id'' \<noteq> JStr (tenant_id claims)) TenantMismatch) (\<lambda>_.
      bindR (raise_if (get authority ''area_id'' \<noteq> JStr (area_id claims)) AreaMismatch) (\<lambda>_.
      case as_obj (get authority ''hostname'') of
        None \<Rightarrow> Inl (Raise HostnameAuthorityRequired)
      | Some hostname \<Rightarrow>
          bindR (raise_if (get hostname ''tenant_id'' \<noteq> JStr (tenant_id claims)) HostnameCrossesTenant) (\<lambda>_.
          case tenant_hostname claims of
            None \<Rightarrow> Inl (Raise HostnameRequired)
          | Some expected \<Rightarrow>
              bindR (raise_if (get hostname ''hostname'' \<noteq> JStr expected) HostnameMismatch) (\<lambda>_.
              bindR (in_strings (get authority ''status'') ALLOWED_TENANT_STATUSES) (\<lambda>ok.
              bindR (raise_if (\<not> ok) TenantNotActive) (\<lambda>_.
              raise_if (get authority ''direct_user_grants_allowed'' \<noteq> JBool False)
                DirectUserGrants)))))))"

definition validate_membership :: "analyzed_task \<Rightarrow> obj \<Rightarrow> string list access" where
  "validate_membership t authority =
     (let claims = at_auth_claims t in
      case as_obj (get authority ''membership'') of
        None \<Rightarrow> Inl (Raise MembershipRequired)
      | Some membership \<Rightarrow>
          (case membership_id claims of
             None \<Rightarrow> Inl (Raise MembershipIdRequired)
           | Some expected \<Rightarrow>
               bindR (raise_if (get membership ''id'' \<noteq> JStr expected) MembershipMismatch) (\<lambda>_.
               bindR (raise_if (get membership ''tenant_id'' \<noteq> JStr (tenant_id claims))
                       MembershipCrossesTenant) (\<lambda>_.
               bindR (raise_if (get membership ''principal_id'' \<noteq> JStr (principal_id claims))
                       PrincipalMismatch) (\<lambda>_.
               bindR (in_strings (get membership ''status'') ALLOWED_MEMBERSHIP_STATUSES) (\<lambda>ok.
               bindR (raise_if (\<not> ok) MembershipNotActive) (\<lambda>_.
               let missing_roles = sorted_diff (roles claims)
                     (string_set (get_or membership ''role_ids'' (JList [])))
               in bindR (raise_if (missing_roles \<noteq> []) (RolesNotGranted missing_roles)) (\<lambda>_.
                  Inr (sorted_set (roles claims))))))))))"

text \<open>\<open>{x["id"]: .. for x in xs if isinstance(x, Mapping) and isinstance(x.get("id"), str)}\<close>, the
  shape of both dictionaries the validator builds.\<close>

definition by_string_id :: "json list \<Rightarrow> (string, obj) dict" where
  "by_string_id xs =
     dict_of (List.map_filter (\<lambda>v. case as_obj v of
         None \<Rightarrow> None
       | Some m \<Rightarrow> (case as_str (get m ''id'') of None \<Rightarrow> None | Some i \<Rightarrow> Some (i, m))) xs)"

definition role_bundles_of :: "obj \<Rightarrow> string list \<Rightarrow> obj list access" where
  "role_bundles_of authority role_ids =
     (case as_list (get_or authority ''role_bundles'' (JList [])) of
        None \<Rightarrow> Inl (Raise RoleBundlesNotList)
      | Some bundles \<Rightarrow>
          (let by_id = by_string_id bundles;
               missing_roles = sorted_diff role_ids (dict_keys by_id)
           in bindR (raise_if (missing_roles \<noteq> []) (RolesNotPresent missing_roles)) (\<lambda>_.
              bindR (getitem authority ''tenant_id'') (\<lambda>tenant.
              let selected_roles = List.map_filter (map_of by_id) role_ids
              in bindR (mapR (\<lambda>role. raise_if (get role ''tenant_id'' \<noteq> JStr (py_str tenant))
                          RoleCrossesTenant) selected_roles) (\<lambda>_.
                 Inr selected_roles)))))"

text \<open>The loop over the grants of one role: grants whose identifier is not a string are
  skipped, a grant of a data source of another tenant raises.\<close>

definition granted_sources_of ::
  "(string, obj) dict \<Rightarrow> string \<Rightarrow> obj \<Rightarrow> string list access" where
  "granted_sources_of sources tenant role =
     bindR (mapR (\<lambda>grant. case as_str (get grant ''data_source_id'') of
              None \<Rightarrow> Inr []
            | Some i \<Rightarrow>
                bindR (raise_if (map_option (\<lambda>s. get s ''tenant_id'') (map_of sources i) \<noteq> Some (JStr tenant))
                        GrantCrossesTenant) (\<lambda>_. Inr [i]))
          (mappings (get_or role ''data_source_grants'' (JList []))))
       (\<lambda>ids. Inr (concat ids))"

definition validate_role_grants :: "analyzed_task \<Rightarrow> obj \<Rightarrow> obj list \<Rightarrow> unit access" where
  "validate_role_grants t authority bundles =
     (let claims = at_auth_claims t in
      case as_list (get_or authority ''data_sources'' (JList [])) of
        None \<Rightarrow> Inl (Raise DataSourcesNotList)
      | Some sources \<Rightarrow>
          bindR (mapR (granted_sources_of (by_string_id sources) (tenant_id claims)) bundles) (\<lambda>granted.
          let granted_capabilities =
                concat (map (\<lambda>role. string_set (get_or role ''capability_grants'' (JList []))) bundles);
              missing_capabilities = sorted_diff (role_capabilities claims) granted_capabilities;
              missing_sources = sorted_diff (role_data_sources claims) (concat granted)
          in bindR (raise_if (missing_capabilities \<noteq> []) (CapabilitiesNotDerived missing_capabilities)) (\<lambda>_.
             raise_if (missing_sources \<noteq> []) (DataSourcesNotDerived missing_sources))))"

type_synonym selection = "(string \<times> string list) list"

definition selected_of :: "selection \<Rightarrow> string \<Rightarrow> string list" where
  "selected_of sel field = (case map_of sel field of None \<Rightarrow> [] | Some xs \<Rightarrow> xs)"

definition derived_modules :: "obj \<Rightarrow> obj access" where
  "derived_modules role =
     (case as_obj (get_or role ''derived_runtime_modules'' (JObj [])) of
        None \<Rightarrow> Inl (Raise DerivationMissing)
      | Some derived \<Rightarrow> Inr derived)"

definition module_checks :: "obj \<Rightarrow> obj list \<Rightarrow> (string \<times> string list) list" where
  "module_checks authority derived =
     (let allowed = (\<lambda>field. concat (map (\<lambda>d. string_set (get_or d field (JList []))) derived));
          scope = (\<lambda>field. string_set (get_or authority field (JList [])))
      in [(''skills'', allowed ''skills''),
          (''tools'', allowed ''tools''),
          (''policies'', allowed ''policies''),
          (''validators'', allowed ''validators'' @ BASELINE_VALIDATORS),
          (''knowledge_scopes'', scope ''allowed_knowledge_scopes''),
          (''data_scopes'', scope ''allowed_data_scopes''),
          (''memory_scopes'', scope ''allowed_memory_scopes'')])"

definition validate_selected_modules :: "obj \<Rightarrow> obj list \<Rightarrow> selection \<Rightarrow> unit access" where
  "validate_selected_modules authority bundles sel =
     bindR (mapR derived_modules bundles) (\<lambda>derived.
     bindR (mapR (\<lambda>(field, allowed).
              let denied = sorted_diff (selected_of sel field) allowed
              in raise_if (denied \<noteq> []) (ModulesNotAllowed field denied))
            (module_checks authority derived)) (\<lambda>_.
     let instruction_denied = sorted_diff (selected_of sel ''instructions'') BASELINE_INSTRUCTIONS
     in raise_if (instruction_denied \<noteq> []) (InstructionsNotAllowed instruction_denied)))"

definition validate_tenant_access :: "analyzed_task \<Rightarrow> obj \<Rightarrow> selection \<Rightarrow> unit access" where
  "validate_tenant_access t context_response sel =
     (if tenant_id (at_auth_claims t) = GLOBAL_TENANT_ID then Inr ()
      else case as_obj (get context_response ''tenant_authority'') of
        None \<Rightarrow> Inl (Raise AuthorityRequired)
      | Some authority \<Rightarrow>
          bindR (validate_tenant_identity t authority) (\<lambda>_.
          bindR (validate_membership t authority) (\<lambda>role_ids.
          bindR (role_bundles_of authority role_ids) (\<lambda>bundles.
          bindR (validate_role_grants t authority bundles) (\<lambda>_.
          validate_selected_modules authority bundles sel)))))"

subsection \<open>The access contract\<close>

text \<open>
  What the validator promises, stated on sets and without the order of the checks: the
  authority names the tenant, area and hostname of the claims and is open for
  composition; the membership is the claimed, active one and carries every claimed role;
  every role has a bundle of the same tenant whose data-source grants stay inside the
  tenant; and everything requested or selected derives from those bundles, from the
  authority's scopes or from the runtime baseline.
\<close>

definition identity_ok :: "auth_claims \<Rightarrow> obj \<Rightarrow> bool" where
  "identity_ok claims authority \<longleftrightarrow>
     get authority ''tenant_id'' = JStr (tenant_id claims) \<and>
     get authority ''area_id'' = JStr (area_id claims) \<and>
     (\<exists>h e. get authority ''hostname'' = JObj h \<and> tenant_hostname claims = Some e \<and>
        get h ''tenant_id'' = JStr (tenant_id claims) \<and> get h ''hostname'' = JStr e) \<and>
     (\<exists>s \<in> set ALLOWED_TENANT_STATUSES. get authority ''status'' = JStr s) \<and>
     get authority ''direct_user_grants_allowed'' = JBool False"

definition membership_ok :: "auth_claims \<Rightarrow> obj \<Rightarrow> bool" where
  "membership_ok claims authority \<longleftrightarrow>
     (\<exists>m i. get authority ''membership'' = JObj m \<and> membership_id claims = Some i \<and>
        get m ''id'' = JStr i \<and> get m ''tenant_id'' = JStr (tenant_id claims) \<and>
        get m ''principal_id'' = JStr (principal_id claims) \<and>
        (\<exists>s \<in> set ALLOWED_MEMBERSHIP_STATUSES. get m ''status'' = JStr s) \<and>
        set (roles claims) \<subseteq> set (string_set (get_or m ''role_ids'' (JList []))))"

definition list_at :: "obj \<Rightarrow> string \<Rightarrow> json list option" where
  "list_at m k = as_list (get_or m k (JList []))"

definition strings_at :: "obj \<Rightarrow> string \<Rightarrow> string set" where
  "strings_at m k = set (string_set (get_or m k (JList [])))"

text \<open>The documents an authority holds under an identifier.\<close>

definition item_at :: "obj \<Rightarrow> string \<Rightarrow> string \<Rightarrow> obj option" where
  "item_at authority k i =
     (case list_at authority k of None \<Rightarrow> None | Some xs \<Rightarrow> map_of (by_string_id xs) i)"

definition grant_ids :: "obj \<Rightarrow> string set" where
  "grant_ids role =
     {i. \<exists>g \<in> set (mappings (get_or role ''data_source_grants'' (JList []))).
           get g ''data_source_id'' = JStr i}"

definition derived_at :: "obj \<Rightarrow> string \<Rightarrow> string set" where
  "derived_at role field =
     (case as_obj (get_or role ''derived_runtime_modules'' (JObj [])) of
        None \<Rightarrow> {} | Some d \<Rightarrow> strings_at d field)"

definition role_ok :: "string \<Rightarrow> obj \<Rightarrow> obj \<Rightarrow> bool" where
  "role_ok tenant authority role \<longleftrightarrow>
     get role ''tenant_id'' = JStr tenant \<and>
     is_obj (get_or role ''derived_runtime_modules'' (JObj [])) \<and>
     (\<forall>i \<in> grant_ids role. \<exists>s. item_at authority ''data_sources'' i = Some s \<and>
        get s ''tenant_id'' = JStr tenant)"

definition roles_ok :: "auth_claims \<Rightarrow> obj \<Rightarrow> bool" where
  "roles_ok claims authority \<longleftrightarrow>
     list_at authority ''role_bundles'' \<noteq> None \<and> list_at authority ''data_sources'' \<noteq> None \<and>
     (\<forall>r \<in> set (roles claims). \<exists>role. item_at authority ''role_bundles'' r = Some role \<and>
        role_ok (tenant_id claims) authority role)"

definition roles_grant :: "auth_claims \<Rightarrow> obj \<Rightarrow> (obj \<Rightarrow> string set) \<Rightarrow> string set" where
  "roles_grant claims authority what =
     {x. \<exists>r \<in> set (roles claims). \<exists>role. item_at authority ''role_bundles'' r = Some role \<and> x \<in> what role}"

definition selection_ok :: "auth_claims \<Rightarrow> obj \<Rightarrow> selection \<Rightarrow> bool" where
  "selection_ok claims authority sel \<longleftrightarrow>
     (\<forall>field \<in> {''skills'', ''tools'', ''policies''}.
        set (selected_of sel field) \<subseteq> roles_grant claims authority (\<lambda>role. derived_at role field)) \<and>
     set (selected_of sel ''validators'')
       \<subseteq> roles_grant claims authority (\<lambda>role. derived_at role ''validators'') \<union> set BASELINE_VALIDATORS \<and>
     set (selected_of sel ''knowledge_scopes'') \<subseteq> strings_at authority ''allowed_knowledge_scopes'' \<and>
     set (selected_of sel ''data_scopes'') \<subseteq> strings_at authority ''allowed_data_scopes'' \<and>
     set (selected_of sel ''memory_scopes'') \<subseteq> strings_at authority ''allowed_memory_scopes'' \<and>
     set (selected_of sel ''instructions'') \<subseteq> set BASELINE_INSTRUCTIONS"

definition access_granted :: "auth_claims \<Rightarrow> obj \<Rightarrow> selection \<Rightarrow> bool" where
  "access_granted claims authority sel \<longleftrightarrow>
     identity_ok claims authority \<and> membership_ok claims authority \<and> roles_ok claims authority \<and>
     set (role_capabilities claims)
       \<subseteq> roles_grant claims authority (\<lambda>role. strings_at role ''capability_grants'') \<and>
     set (role_data_sources claims) \<subseteq> roles_grant claims authority grant_ids \<and>
     selection_ok claims authority sel"

subsection \<open>Each check decides its part of the contract\<close>

lemma validate_tenant_identity_iff:
  "validate_tenant_identity t authority = Inr () \<longleftrightarrow> identity_ok (at_auth_claims t) authority"
  unfolding validate_tenant_identity_def identity_ok_def Let_def
  by (auto simp: res_simps as_obj_iff split: option.splits)

lemma validate_membership_iff:
  "validate_membership t authority = Inr rs \<longleftrightarrow>
     membership_ok (at_auth_claims t) authority \<and> rs = sorted_set (roles (at_auth_claims t))"
  unfolding validate_membership_def membership_ok_def Let_def
  by (auto simp: res_simps as_obj_iff split: option.splits)

lemma role_bundles_of_iff:
  assumes "get authority ''tenant_id'' = JStr T"
  shows "role_bundles_of authority rs = Inr bs \<longleftrightarrow>
     list_at authority ''role_bundles'' \<noteq> None \<and>
     (\<forall>r \<in> set rs. \<exists>role. item_at authority ''role_bundles'' r = Some role \<and> get role ''tenant_id'' = JStr T) \<and>
     bs = map (\<lambda>r. the (item_at authority ''role_bundles'' r)) rs"
proof (cases "list_at authority ''role_bundles''")
  case None
  then show ?thesis by (simp add: role_bundles_of_def list_at_def)
next
  case (Some bundles)
  let ?d = "by_string_id bundles"
  have T: "getitem authority ''tenant_id'' = (Inr (JStr T) :: json access)"
    using assms by (auto simp: get_def get_or_def getitem_def split: option.splits)
  have item: "item_at authority ''role_bundles'' r = map_of ?d r" for r
    using Some by (simp add: item_at_def)
  have "role_bundles_of authority rs = Inr bs \<longleftrightarrow> set rs \<subseteq> set (dict_keys ?d) \<and>
      (\<forall>role \<in> set (List.map_filter (map_of ?d) rs). get role ''tenant_id'' = JStr T) \<and>
      bs = List.map_filter (map_of ?d) rs"
    using Some T by (auto simp: role_bundles_of_def list_at_def Let_def res_simps)
  also have "set rs \<subseteq> set (dict_keys ?d) \<longleftrightarrow> (\<forall>r \<in> set rs. map_of ?d r \<noteq> None)"
    by (auto simp: map_of_eq_None_iff)
  finally show ?thesis using Some map_filter_total [of rs "map_of ?d"]
    by (fastforce simp: item)
qed

lemma granted_sources_of_iff:
  "granted_sources_of d T role = Inr ids \<longleftrightarrow>
     (\<forall>i \<in> grant_ids role. \<exists>s. map_of d i = Some s \<and> get s ''tenant_id'' = JStr T) \<and>
     ids = List.map_filter (\<lambda>g. as_str (get g ''data_source_id''))
       (mappings (get_or role ''data_source_grants'' (JList [])))"
proof -
  let ?f = "\<lambda>grant. case as_str (get grant ''data_source_id'') of
      None \<Rightarrow> (Inr [] :: string list access)
    | Some i \<Rightarrow> bindR (raise_if (map_option (\<lambda>s. get s ''tenant_id'') (map_of d i) \<noteq> Some (JStr T))
        GrantCrossesTenant) (\<lambda>_. Inr [i])"
  let ?g = "\<lambda>g. as_str (get g ''data_source_id'')"
  have "mapR ?f gs = Inr idss \<longleftrightarrow>
     (\<forall>g \<in> set gs. \<forall>i. ?g g = Some i \<longrightarrow> (\<exists>s. map_of d i = Some s \<and> get s ''tenant_id'' = JStr T)) \<and>
     idss = map (\<lambda>g. case ?g g of None \<Rightarrow> [] | Some i \<Rightarrow> [i]) gs" for gs idss
    by (induction gs arbitrary: idss) (auto simp: res_simps split: option.splits)
  then show ?thesis unfolding granted_sources_of_def
    by (auto simp: bindR_Inr_iff map_filter_concat grant_ids_def as_str_iff)
qed

lemma set_granted_sources:
  "set (List.map_filter (\<lambda>g. as_str (get g ''data_source_id''))
     (mappings (get_or role ''data_source_grants'' (JList [])))) = grant_ids role"
  by (auto simp: grant_ids_def set_map_filter as_str_iff)

lemma mapR_granted_iff:
  "mapR (granted_sources_of d T) bundles = Inr granted \<longleftrightarrow>
     (\<forall>role \<in> set bundles. \<forall>i \<in> grant_ids role. \<exists>s. map_of d i = Some s \<and> get s ''tenant_id'' = JStr T) \<and>
     granted = map (\<lambda>role. List.map_filter (\<lambda>g. as_str (get g ''data_source_id''))
       (mappings (get_or role ''data_source_grants'' (JList [])))) bundles"
  by (induction bundles arbitrary: granted) (auto simp: res_simps granted_sources_of_iff)

lemma validate_role_grants_iff:
  "validate_role_grants t authority bundles = Inr () \<longleftrightarrow>
     list_at authority ''data_sources'' \<noteq> None \<and>
     (\<forall>role \<in> set bundles. \<forall>i \<in> grant_ids role. \<exists>s. item_at authority ''data_sources'' i = Some s \<and>
        get s ''tenant_id'' = JStr (tenant_id (at_auth_claims t))) \<and>
     set (role_capabilities (at_auth_claims t)) \<subseteq> (\<Union>role \<in> set bundles. strings_at role ''capability_grants'') \<and>
     set (role_data_sources (at_auth_claims t)) \<subseteq> (\<Union>role \<in> set bundles. grant_ids role)"
  unfolding validate_role_grants_def Let_def
  by (auto simp: res_simps mapR_granted_iff list_at_def item_at_def strings_at_def set_granted_sources
      split: option.splits)

lemma mapR_derived_iff:
  "mapR derived_modules bundles = Inr ds \<longleftrightarrow>
     (\<forall>role \<in> set bundles. is_obj (get_or role ''derived_runtime_modules'' (JObj []))) \<and>
     ds = map (\<lambda>role. obj_or_empty (get_or role ''derived_runtime_modules'' (JObj []))) bundles"
  by (induction bundles arbitrary: ds)
    (auto simp: res_simps derived_modules_def is_obj_def obj_or_empty_def split: option.splits)

lemma set_derived:
  "is_obj (get_or role ''derived_runtime_modules'' (JObj [])) \<Longrightarrow>
   set (string_set (get_or (obj_or_empty (get_or role ''derived_runtime_modules'' (JObj []))) field (JList [])))
     = derived_at role field"
  by (auto simp: derived_at_def is_obj_def obj_or_empty_def strings_at_def)

lemma mapR_checks_iff:
  "(\<exists>us. mapR (\<lambda>(field, allowed).
        let denied = sorted_diff (selected_of sel field) allowed
        in raise_if (denied \<noteq> []) (ModulesNotAllowed field denied)) checks = Inr us) \<longleftrightarrow>
   (\<forall>(field, allowed) \<in> set checks. set (selected_of sel field) \<subseteq> set allowed)"
  by (induction checks) (auto simp: res_simps Let_def)

lemma validate_selected_modules_iff:
  "validate_selected_modules authority bundles sel = Inr () \<longleftrightarrow>
     (\<forall>role \<in> set bundles. is_obj (get_or role ''derived_runtime_modules'' (JObj []))) \<and>
     (\<forall>field \<in> {''skills'', ''tools'', ''policies''}.
        set (selected_of sel field) \<subseteq> (\<Union>role \<in> set bundles. derived_at role field)) \<and>
     set (selected_of sel ''validators'')
       \<subseteq> (\<Union>role \<in> set bundles. derived_at role ''validators'') \<union> set BASELINE_VALIDATORS \<and>
     set (selected_of sel ''knowledge_scopes'') \<subseteq> strings_at authority ''allowed_knowledge_scopes'' \<and>
     set (selected_of sel ''data_scopes'') \<subseteq> strings_at authority ''allowed_data_scopes'' \<and>
     set (selected_of sel ''memory_scopes'') \<subseteq> strings_at authority ''allowed_memory_scopes'' \<and>
     set (selected_of sel ''instructions'') \<subseteq> set BASELINE_INSTRUCTIONS"
  (is "_ \<longleftrightarrow> ?objs \<and> ?rest")
proof (cases ?objs)
  case True
  let ?ds = "map (\<lambda>role. obj_or_empty (get_or role ''derived_runtime_modules'' (JObj []))) bundles"
  have d: "(\<Union>d \<in> set ?ds. set (string_set (get_or d field (JList []))))
      = (\<Union>role \<in> set bundles. derived_at role field)" for field
    using True by (simp add: set_derived)
  have "validate_selected_modules authority bundles sel = Inr () \<longleftrightarrow>
      (\<forall>(field, allowed) \<in> set (module_checks authority ?ds). set (selected_of sel field) \<subseteq> set allowed) \<and>
      set (selected_of sel ''instructions'') \<subseteq> set BASELINE_INSTRUCTIONS"
    using True unfolding validate_selected_modules_def mapR_checks_iff [symmetric]
    by (auto simp: bindR_Inr_iff mapR_derived_iff Let_def raise_if_Inr)
  also have "\<dots> \<longleftrightarrow> ?rest"
    unfolding module_checks_def Let_def using d by (simp add: strings_at_def conj_assoc)
  finally show ?thesis using True by simp
next
  case False
  then show ?thesis by (auto simp: validate_selected_modules_def bindR_Inr_iff mapR_derived_iff)
qed

lemma Union_bundles:
  assumes "\<forall>r \<in> set rs. \<exists>role. item_at a ''role_bundles'' r = Some role" and "set rs = set (roles claims)"
  shows "(\<Union>role \<in> set (map (\<lambda>r. the (item_at a ''role_bundles'' r)) rs). what role) = roles_grant claims a what"
proof -
  have "x \<in> what (the (item_at a ''role_bundles'' r)) \<longleftrightarrow>
      (\<exists>role. item_at a ''role_bundles'' r = Some role \<and> x \<in> what role)" if "r \<in> set (roles claims)" for r x
    using assms that by auto
  then show ?thesis unfolding roles_grant_def set_map assms(2) by (simp add: set_eq_iff)
qed

lemma validate_tenant_access_iff:
  "validate_tenant_access t context_response sel = Inr () \<longleftrightarrow>
     tenant_id (at_auth_claims t) = GLOBAL_TENANT_ID \<or>
     (\<exists>authority. get context_response ''tenant_authority'' = JObj authority \<and>
        access_granted (at_auth_claims t) authority sel)"
proof -
  let ?c = "at_auth_claims t"
  let ?lhs = "\<lambda>a. \<exists>rs bs. validate_tenant_identity t a = Inr () \<and> validate_membership t a = Inr rs \<and>
      role_bundles_of a rs = Inr bs \<and> validate_role_grants t a bs = Inr () \<and>
      validate_selected_modules a bs sel = Inr ()"
  have "?lhs a \<longleftrightarrow> access_granted ?c a sel" for a
  proof (cases "identity_ok ?c a \<and> membership_ok ?c a")
    case True
    let ?rs = "sorted_set (roles ?c)" and ?bs = "map (\<lambda>r. the (item_at a ''role_bundles'' r)) (sorted_set (roles ?c))"
    have T: "get a ''tenant_id'' = JStr (tenant_id ?c)" using True by (simp add: identity_ok_def)
    show ?thesis
    proof (cases "\<forall>r \<in> set ?rs. \<exists>role. item_at a ''role_bundles'' r = Some role")
      case has: True
      note U = Union_bundles [OF has, of ?c, OF sorted_set_props(1)]
      have all: "(\<forall>role \<in> set ?bs. P role) \<longleftrightarrow>
          (\<forall>r \<in> set (roles ?c). \<exists>role. item_at a ''role_bundles'' r = Some role \<and> P role)" for P
        using has by fastforce
      have "?lhs a \<longleftrightarrow> list_at a ''role_bundles'' \<noteq> None \<and>
          (\<forall>role \<in> set ?bs. get role ''tenant_id'' = JStr (tenant_id ?c)) \<and>
          validate_role_grants t a ?bs = Inr () \<and> validate_selected_modules a ?bs sel = Inr ()"
        unfolding all using True
        by (simp add: validate_tenant_identity_iff validate_membership_iff role_bundles_of_iff [OF T])
      also have "\<dots> \<longleftrightarrow> access_granted ?c a sel"
        unfolding validate_role_grants_iff validate_selected_modules_iff U access_granted_def
          roles_ok_def role_ok_def selection_ok_def all [symmetric] ball_conj_distrib
        using True by argo
      finally show ?thesis .
    next
      case False
      then show ?thesis using True
        by (auto simp: validate_tenant_identity_iff validate_membership_iff role_bundles_of_iff [OF T]
            access_granted_def roles_ok_def)
    qed
  next
    case False
    then show ?thesis
      by (auto simp: validate_tenant_identity_iff validate_membership_iff access_granted_def)
  qed
  then show ?thesis
    unfolding validate_tenant_access_def
    by (auto simp: bindR_Inr_iff as_obj_iff split: option.splits)
qed

text \<open>C10. The validator implements its contract: a tenant-scoped selection is accepted exactly
  when the control plane supplied an authority under which access is granted, so no check is
  missing, none is too strict, and only the global tenant bypasses them.\<close>

theorem validate_tenant_access_refines:
  "validate_tenant_access t context_response sel = Inr () \<longleftrightarrow>
     tenant_id (at_auth_claims t) = GLOBAL_TENANT_ID \<or>
     (\<exists>authority. get context_response ''tenant_authority'' = JObj authority \<and>
        access_granted (at_auth_claims t) authority sel)"
  by (rule validate_tenant_access_iff)

end
