(* ===== verification/Composer.thy ===== *)
theory Composer
  imports Tenant_Access
begin

text \<open>
  \<open>composition/profile_composer.py\<close>: composition of a runtime profile from an analysed task
  and the composition context of the control plane. \<open>compose\<close> follows the method of that
  name statement by statement; the order of the raising statements is the order of the
  source. A profile is the JSON object the method returns, with its keys in source order.
\<close>

subsection \<open>Errors and constants\<close>

datatype composition_error =
    MissingInputs "string list"
  | StatusNotReady json
  | GraphValidationMissing
  | GraphValidationFailed "string list"
  | NoCandidates
  | MemoryForKnowledge
  | CandidateDenied json json
  | ToolDenied json json
  | NoPolicies
  | InvalidRuntimeRole string string
  | NoVersionPin string
  | BadGeneration
  | InitialTraceability
  | RecompositionIncomplete
  | BadReason string
  | AccessDenied tenant_access_error
  | SnapshotAuthorityRequired

type_synonym 'a composed = "(composition_error, 'a) res"

definition RUNTIME_PROFILE_VERSION :: string where
  "RUNTIME_PROFILE_VERSION = ''0.6.0''"

definition BASELINE_MODULE_VERSIONS :: "(string \<times> string) list" where
  "BASELINE_MODULE_VERSIONS = [(''base-agent-rules'', ''0.1.0''), (''runtime-profile-schema'', ''0.1.0'')]"

definition TASK_INSTRUCTION_VERSIONS :: "string \<Rightarrow> (string \<times> string) list" where
  "TASK_INSTRUCTION_VERSIONS task_type =
     (if task_type = ''code-review'' then [(''code-review-rules'', ''0.1.0'')] else [])"

definition DEFAULT_LIMITS :: obj where
  "DEFAULT_LIMITS =
     [(''max_tool_calls'', JInt 30), (''max_tokens'', JInt 60000), (''max_duration_seconds'', JInt 900),
      (''max_data_reads'', JInt 120), (''max_memory_ops'', JInt 10), (''max_recompositions'', JInt 1)]"

definition DEFAULT_FAILURE_POLICY :: obj where
  "DEFAULT_FAILURE_POLICY =
     [(''on_composer_failure'', JStr ''request_clarification''),
      (''on_validator_failure'', JStr ''fail_closed''),
      (''on_policy_denial'', JStr ''return_error''),
      (''on_budget_exhausted'', JStr ''return_error'')]"

definition HUMAN_REVIEW_LIMITS :: obj where
  "HUMAN_REVIEW_LIMITS =
     fold (\<lambda>k. dict_set k (JInt 0))
       [''max_tool_calls'', ''max_data_reads'', ''max_memory_ops'', ''max_recompositions''] DEFAULT_LIMITS"

definition HUMAN_REVIEW_FAILURE_POLICY :: obj where
  "HUMAN_REVIEW_FAILURE_POLICY =
     [(''on_composer_failure'', JStr ''fail_closed''),
      (''on_validator_failure'', JStr ''fail_closed''),
      (''on_policy_denial'', JStr ''fail_closed''),
      (''on_budget_exhausted'', JStr ''return_error'')]"

definition DEFAULT_CAPTURE_EVENTS :: "string list" where
  "DEFAULT_CAPTURE_EVENTS =
     [''task_analyzed'', ''candidates_discovered'', ''candidates_scored'', ''policies_evaluated'',
      ''graph_validated'', ''profile_emitted'', ''profile_validated'', ''runtime_completed'']"

definition SKILL_RUNTIME_ROLES :: "string list" where
  "SKILL_RUNTIME_ROLES = [''runtime'', ''non-runtime'', ''shared'']"

subsection \<open>Reading the composition context\<close>

definition references :: "obj \<Rightarrow> string \<Rightarrow> obj list" where
  "references context_response field = mappings (get_or context_response field (JList []))"

definition graph_references :: "obj \<Rightarrow> obj list" where
  "graph_references context_response =
     (case as_obj (get_or context_response ''graph_validation'' (JObj [])) of
        None \<Rightarrow> []
      | Some graph_validation \<Rightarrow> mappings (get_or graph_validation ''reachable_modules'' (JList [])))"

definition policy_decisions :: "obj \<Rightarrow> obj list" where
  "policy_decisions context_response = mappings (get_or context_response ''policy_decisions'' (JList []))"

definition names :: "obj list \<Rightarrow> string option \<Rightarrow> string list" where
  "names refs kind =
     List.map_filter (\<lambda>reference. as_str (get reference ''name''))
       (filter (\<lambda>reference. case kind of None \<Rightarrow> True | Some k \<Rightarrow> get reference ''kind'' = JStr k) refs)"

definition versions_by_name :: "obj list \<Rightarrow> (string, string) dict" where
  "versions_by_name refs =
     dict_of (List.map_filter (\<lambda>reference.
       case (as_str (get reference ''name''), as_str (get reference ''version'')) of
         (Some name, Some version) \<Rightarrow> Some (name, version)
       | _ \<Rightarrow> None) refs)"

text \<open>The first loop of \<open>_skill_execution_roles\<close>: the roles the candidate skills declare.\<close>

definition role_by_skill_name :: "obj list \<Rightarrow> (string, string) dict composed" where
  "role_by_skill_name candidates =
     foldR (\<lambda>module roles.
       if get module ''kind'' \<noteq> JStr ''skill'' then Inr roles
       else case as_str (get module ''name'') of
         None \<Rightarrow> Inr roles
       | Some name \<Rightarrow>
           (let role = py_str (get_or module ''runtime_role'' (JStr ''runtime''))
            in bindR (raise_if (role \<notin> set SKILL_RUNTIME_ROLES) (InvalidRuntimeRole name role)) (\<lambda>_.
               Inr (dict_set name role roles)))) candidates []"

definition skill_execution_roles :: "obj list \<Rightarrow> string list \<Rightarrow> obj composed" where
  "skill_execution_roles candidates selected =
     bindR (role_by_skill_name candidates) (\<lambda>declared.
     let role = (\<lambda>s. case map_of declared s of None \<Rightarrow> ''runtime'' | Some r \<Rightarrow> r)
     in Inr [(''runtime_skills'', str_list (filter (\<lambda>s. role s = ''runtime'') selected)),
             (''non_runtime_skills'', str_list (filter (\<lambda>s. role s = ''non-runtime'') selected)),
             (''shared_skills'',
                str_list (filter (\<lambda>s. role s \<noteq> ''runtime'' \<and> role s \<noteq> ''non-runtime'') selected))])"

definition requires_knowledge_context :: "analyzed_task \<Rightarrow> bool" where
  "requires_knowledge_context t \<longleftrightarrow>
     at_task_type t = ''research'' \<or> ''retrieval'' \<in> set (at_capability_hints t)"

definition version_for :: "string \<Rightarrow> (string, string) dict \<Rightarrow> string \<Rightarrow> string composed" where
  "version_for name version_by_name task_type =
     (case map_of version_by_name name of
        Some v \<Rightarrow> Inr v
      | None \<Rightarrow>
          (case map_of BASELINE_MODULE_VERSIONS name of
             Some v \<Rightarrow> Inr v
           | None \<Rightarrow>
               (case map_of (TASK_INSTRUCTION_VERSIONS task_type) name of
                  Some v \<Rightarrow> Inr v
                | None \<Rightarrow> Inl (Raise (NoVersionPin name)))))"

definition module_versions :: "string list \<Rightarrow> (string, string) dict \<Rightarrow> string \<Rightarrow> obj composed" where
  "module_versions selected version_by_name task_type =
     bindR (mapR (\<lambda>name. bindR (version_for name version_by_name task_type) (\<lambda>v. Inr (name, JStr v))) selected)
       (\<lambda>pins. Inr (dict_of pins))"

definition assert_recomposition_traceability ::
  "int \<Rightarrow> string option \<Rightarrow> string option \<Rightarrow> unit composed" where
  "assert_recomposition_traceability gen parent reason =
     (if gen < 1 then Inl (Raise BadGeneration)
      else if gen = 1 then raise_if (parent \<noteq> None \<or> reason \<noteq> None) InitialTraceability
      else case (parent, reason) of
        (Some p, Some r) \<Rightarrow> raise_if (r \<notin> set RECOMPOSITION_REASONS) (BadReason r)
      | _ \<Rightarrow> Inl (Raise RecompositionIncomplete))"

subsection \<open>Parts of the profile\<close>

definition auth_context :: "analyzed_task \<Rightarrow> json" where
  "auth_context t =
     (let c = at_auth_claims t;
          principal = [(''id'', JStr (principal_id c)), (''type'', JStr (principal_type c))];
          principal = (case display_name c of
                         None \<Rightarrow> principal | Some d \<Rightarrow> principal @ [(''display_name'', JStr d)])
      in JObj [(''principal'', JObj principal),
               (''roles'', str_list (roles c)),
               (''authorization_policies'', str_list (authorization_policies c))])"

definition tenant_context :: "analyzed_task \<Rightarrow> json" where
  "tenant_context t =
     (let c = at_auth_claims t
      in JObj [(''tenant_id'', JStr (tenant_id c)),
               (''area_id'', JStr (area_id c)),
               (''hostname'', opt_str (tenant_hostname c)),
               (''membership_id'', opt_str (membership_id c)),
               (''role_ids'', str_list (roles c)),
               (''role_derivation'', JObj
                  [(''grant_source'', JStr ''tenant-role-bundles''),
                   (''direct_user_grants_allowed'', JBool False),
                   (''capabilities_derive_from_roles'', JBool True),
                   (''data_sources_derive_from_roles'', JBool True)]),
               (''allowed_role_data_sources'', str_list (role_data_sources c)),
               (''allowed_role_capabilities'', str_list (role_capabilities c))])"

definition tenant_authority_snapshot :: "analyzed_task \<Rightarrow> obj \<Rightarrow> json composed" where
  "tenant_authority_snapshot t context_response =
     (if tenant_id (at_auth_claims t) = ''global'' then Inr JNull
      else case as_obj (get context_response ''tenant_authority'') of
        None \<Rightarrow> Inl (Raise SnapshotAuthorityRequired)
      | Some authority \<Rightarrow> Inr (JObj authority))"

definition human_review :: "analyzed_task \<Rightarrow> bool \<Rightarrow> string \<Rightarrow> string \<Rightarrow> string list \<Rightarrow> json" where
  "human_review t required status reason allowed =
     JObj [(''required'', JBool required), (''status'', JStr status), (''reason'', JStr reason),
           (''ambiguous_task_types'', str_list (at_ambiguous_task_types t)),
           (''classification_confidence'', JStr (at_classification_confidence t)),
           (''classification_reasons'', str_list (at_classification_reasons t)),
           (''allowed_before_approval'', str_list allowed)]"

definition human_review_required :: "analyzed_task \<Rightarrow> json" where
  "human_review_required t =
     human_review t True ''required''
       (''Task classification matched multiple specialized task types; '' @
        ''specialized runtime composition requires human approval.'')
       [''profile_validation'', ''audit_recording'', ''clarification_request'']"

definition human_review_not_required :: "analyzed_task \<Rightarrow> json" where
  "human_review_not_required t =
     human_review t False ''not_required'' ''Analyzer did not require human review.'' []"

definition profile_id :: "string \<Rightarrow> int \<Rightarrow> string" where
  "profile_id task_id gen =
     (let profile_id = ''profile-'' @ (if startswith ''task-'' task_id then removeprefix ''task-'' task_id else task_id)
      in if gen \<le> 1 then profile_id else profile_id @ ''-g'' @ int_str gen)"

definition trace_id :: "string \<Rightarrow> string" where
  "trace_id task_id =
     ''trace-'' @ (if startswith ''task-'' task_id then removeprefix ''task-'' task_id else task_id)"

definition observability :: "analyzed_task \<Rightarrow> json" where
  "observability t =
     JObj [(''trace_id'', JStr (trace_id (at_task_id t))), (''log_level'', JStr ''info''),
           (''capture_events'', str_list DEFAULT_CAPTURE_EVENTS), (''redact_sensitive_data'', JBool True)]"

text \<open>The modules a profile selects, by field.\<close>

record module_selection =
  ms_instructions :: "string list"
  ms_skills :: "string list"
  ms_tools :: "string list"
  ms_knowledge_scopes :: "string list"
  ms_data_scopes :: "string list"
  ms_memory_scopes :: "string list"
  ms_policies :: "string list"
  ms_validators :: "string list"

definition selected_by_field :: "module_selection \<Rightarrow> selection" where
  "selected_by_field ms =
     [(''instructions'', ms_instructions ms), (''skills'', ms_skills ms), (''tools'', ms_tools ms),
      (''knowledge_scopes'', ms_knowledge_scopes ms), (''data_scopes'', ms_data_scopes ms),
      (''memory_scopes'', ms_memory_scopes ms), (''policies'', ms_policies ms),
      (''validators'', ms_validators ms)]"

definition all_selected :: "module_selection \<Rightarrow> string list" where
  "all_selected ms = concat (map snd (selected_by_field ms))"

text \<open>The returned object literal, the same in \<open>compose\<close> and \<open>_human_review_profile\<close> up to the
  arguments.\<close>

definition profile_object ::
  "analyzed_task \<Rightarrow> int \<Rightarrow> string option \<Rightarrow> string option \<Rightarrow> json \<Rightarrow> json \<Rightarrow> module_selection \<Rightarrow>
   obj \<Rightarrow> obj \<Rightarrow> obj \<Rightarrow> obj \<Rightarrow> obj" where
  "profile_object t gen parent reason authority review ms exec_roles versions limits failure_policy =
     [(''id'', JStr (profile_id (at_task_id t) gen)),
      (''profile_version'', JStr RUNTIME_PROFILE_VERSION),
      (''profile_generation'', JInt gen),
      (''parent_profile_id'', opt_str parent),
      (''recomposition_reason'', opt_str reason),
      (''task_type'', JStr (at_task_type t)),
      (''objective'', JStr (at_objective t)),
      (''risk_level'', JStr (at_risk_level t)),
      (''auth_context'', auth_context t),
      (''tenant_context'', tenant_context t),
      (''tenant_authority'', authority),
      (''human_review'', review),
      (''instructions'', str_list (ms_instructions ms)),
      (''skills'', str_list (ms_skills ms)),
      (''skill_execution_roles'', JObj exec_roles),
      (''tools'', str_list (ms_tools ms)),
      (''knowledge_scopes'', str_list (ms_knowledge_scopes ms)),
      (''data_scopes'', str_list (ms_data_scopes ms)),
      (''memory_scopes'', str_list (ms_memory_scopes ms)),
      (''policies'', str_list (ms_policies ms)),
      (''validators'', str_list (ms_validators ms)),
      (''module_versions'', JObj versions),
      (''limits'', JObj limits),
      (''failure_policy'', JObj failure_policy),
      (''observability'', observability t)]"

subsection \<open>Composition\<close>

text \<open>\<open>{decision["module"]["name"]: decision["effect"] for ..}\<close>: the key must be present and
  hashable, the effect must be present; later decisions overwrite earlier ones.\<close>

definition decision_entry :: "obj \<Rightarrow> obj \<Rightarrow> (json \<times> json) composed" where
  "decision_entry decision module =
     bindR (getitem module ''name'') (\<lambda>name.
     bindR (getitem decision ''effect'') (\<lambda>effect.
     bindR (hashable name) (\<lambda>key. Inr (key, effect))))"

definition policy_effects :: "obj \<Rightarrow> (json, json) dict composed" where
  "policy_effects context_response =
     bindR (mapR (\<lambda>decision. case as_obj (get decision ''module'') of
              None \<Rightarrow> Inr []
            | Some module \<Rightarrow> bindR (decision_entry decision module) (\<lambda>e. Inr [e]))
          (policy_decisions context_response))
       (\<lambda>entries. Inr (dict_of (concat entries)))"

definition effect_of :: "(json, json) dict \<Rightarrow> json \<Rightarrow> json" where
  "effect_of effects name = (case map_of effects (JStr (py_str name)) of None \<Rightarrow> JNull | Some e \<Rightarrow> e)"

definition check_candidate :: "(json, json) dict \<Rightarrow> obj \<Rightarrow> unit composed" where
  "check_candidate effects module =
     bindR (getitem module ''name'') (\<lambda>name.
     let effect = effect_of effects name
     in raise_if (effect \<noteq> JNull \<and> effect \<noteq> JStr ''allow'') (CandidateDenied name effect))"

definition check_graph_tool :: "(json, json) dict \<Rightarrow> obj \<Rightarrow> unit composed" where
  "check_graph_tool effects module =
     (if get module ''kind'' \<noteq> JStr ''tool'' then Inr ()
      else bindR (getitem module ''name'') (\<lambda>name.
           let effect = effect_of effects name
           in raise_if (effect \<noteq> JStr ''allow'') (ToolDenied name effect)))"

text \<open>\<open>"; ".join(errors)\<close> raises \<open>TypeError\<close> on a member that is not a string.\<close>

definition error_strings :: "json list \<Rightarrow> string list composed" where
  "error_strings errors =
     mapR (\<lambda>e. case as_str e of None \<Rightarrow> Inl (Py TypeError) | Some s \<Rightarrow> Inr s) errors"

definition assert_graph_valid :: "obj \<Rightarrow> unit composed" where
  "assert_graph_valid context_response =
     (case as_obj (get context_response ''graph_validation'') of
        None \<Rightarrow> Inl (Raise GraphValidationMissing)
      | Some graph_validation \<Rightarrow>
          if get graph_validation ''is_valid'' = JBool True then Inr ()
          else case as_list (get_or graph_validation ''errors'' (JList [])) of
            None \<Rightarrow> Inl (Raise (GraphValidationFailed []))
          | Some errors \<Rightarrow>
              bindR (error_strings errors) (\<lambda>es. Inl (Raise (GraphValidationFailed es))))"

definition assert_composable :: "analyzed_task \<Rightarrow> obj \<Rightarrow> unit composed" where
  "assert_composable t context_response =
     bindR (raise_if (at_missing_information t \<noteq> []) (MissingInputs (at_missing_information t))) (\<lambda>_.
     let status = get context_response ''composition_status'' in
     bindR (raise_if (status \<noteq> JStr ''ready'') (StatusNotReady status)) (\<lambda>_.
     bindR (assert_graph_valid context_response) (\<lambda>_.
     let candidates = references context_response ''candidate_modules'' in
     bindR (raise_if (candidates = [] \<and> \<not> at_requires_human_review t) NoCandidates) (\<lambda>_.
     if at_requires_human_review t then Inr ()
     else bindR (raise_if (requires_knowledge_context t
                    \<and> references context_response ''allowed_memory_scopes'' \<noteq> []
                    \<and> references context_response ''allowed_knowledge_scopes'' = []) MemoryForKnowledge) (\<lambda>_.
          bindR (policy_effects context_response) (\<lambda>effects.
          bindR (mapR (check_candidate effects) candidates) (\<lambda>_.
          bindR (mapR (check_graph_tool effects) (graph_references context_response)) (\<lambda>_.
          Inr ()))))))))"

definition assert_tenant_access :: "analyzed_task \<Rightarrow> obj \<Rightarrow> selection \<Rightarrow> unit composed" where
  "assert_tenant_access t context_response sel =
     catch_as AccessDenied (validate_tenant_access t context_response sel)"

definition empty_execution_roles :: obj where
  "empty_execution_roles =
     [(''runtime_skills'', str_list []), (''non_runtime_skills'', str_list []), (''shared_skills'', str_list [])]"

definition human_review_selection :: "obj \<Rightarrow> module_selection" where
  "human_review_selection context_response =
     \<lparr>ms_instructions = [''base-agent-rules''], ms_skills = [], ms_tools = [], ms_knowledge_scopes = [],
      ms_data_scopes = [], ms_memory_scopes = [],
      ms_policies = dedupe (names (references context_response ''applicable_policies'') None),
      ms_validators = [''runtime-profile-schema'']\<rparr>"

definition human_review_profile ::
  "analyzed_task \<Rightarrow> obj \<Rightarrow> (string, string) dict \<Rightarrow> int \<Rightarrow> string option \<Rightarrow> string option \<Rightarrow> obj composed" where
  "human_review_profile t context_response version_by_name gen parent reason =
     (let ms = human_review_selection context_response in
      bindR (raise_if (ms_policies ms = []) NoPolicies) (\<lambda>_.
      bindR (tenant_authority_snapshot t context_response) (\<lambda>authority.
      bindR (module_versions (all_selected ms) version_by_name (at_task_type t)) (\<lambda>versions.
      Inr (profile_object t gen parent reason authority (human_review_required t) ms
             empty_execution_roles versions HUMAN_REVIEW_LIMITS HUMAN_REVIEW_FAILURE_POLICY)))))"

definition runtime_selection :: "analyzed_task \<Rightarrow> obj \<Rightarrow> module_selection" where
  "runtime_selection t context_response =
     (let candidates = references context_response ''candidate_modules'';
          graph = graph_references context_response
      in \<lparr>ms_instructions = dedupe (''base-agent-rules'' #
             map fst (TASK_INSTRUCTION_VERSIONS (at_task_type t)) @ names candidates (Some ''instruction'')),
          ms_skills = dedupe (names candidates (Some ''skill'')),
          ms_tools = dedupe (names candidates (Some ''tool'') @ names graph (Some ''tool'')),
          ms_knowledge_scopes = dedupe (names (references context_response ''allowed_knowledge_scopes'') None),
          ms_data_scopes = dedupe (names (references context_response ''allowed_data_scopes'') None),
          ms_memory_scopes = dedupe (names (references context_response ''allowed_memory_scopes'') None),
          ms_policies = dedupe (names (references context_response ''applicable_policies'') None),
          ms_validators = dedupe (''runtime-profile-schema'' #
             names (references context_response ''validation_requirements'') None)\<rparr>)"

definition version_pins :: "obj \<Rightarrow> (string, string) dict" where
  "version_pins context_response =
     versions_by_name (concat (map (references context_response)
        [''candidate_modules'', ''applicable_policies'', ''allowed_knowledge_scopes'', ''allowed_data_scopes'',
         ''allowed_memory_scopes'', ''validation_requirements'']) @ graph_references context_response)"

definition compose ::
  "analyzed_task \<Rightarrow> obj \<Rightarrow> int \<Rightarrow> string option \<Rightarrow> string option \<Rightarrow> obj composed" where
  "compose t context_response gen parent reason =
     bindR (assert_recomposition_traceability gen parent reason) (\<lambda>_.
     bindR (assert_composable t context_response) (\<lambda>_.
     let version_by_name = version_pins context_response in
     if at_requires_human_review t then
       bindR (human_review_profile t context_response version_by_name gen parent reason) (\<lambda>profile.
       bindR (assert_tenant_access t context_response
                (selected_by_field (human_review_selection context_response))) (\<lambda>_.
       Inr profile))
     else
       (let ms = runtime_selection t context_response in
        bindR (skill_execution_roles (references context_response ''candidate_modules'') (ms_skills ms)) (\<lambda>exec_roles.
        bindR (raise_if (ms_policies ms = []) NoPolicies) (\<lambda>_.
        bindR (assert_tenant_access t context_response (selected_by_field ms)) (\<lambda>_.
        bindR (tenant_authority_snapshot t context_response) (\<lambda>authority.
        bindR (module_versions (all_selected ms) version_by_name (at_task_type t)) (\<lambda>versions.
        Inr (profile_object t gen parent reason authority (human_review_not_required t) ms exec_roles
               versions DEFAULT_LIMITS DEFAULT_FAILURE_POLICY)))))))))"

subsection \<open>What a successful composition went through\<close>

lemma compose_runtime:
  assumes "compose t ctx gen parent reason = Inr p" and "\<not> at_requires_human_review t"
  obtains exec_roles authority versions where
    "assert_recomposition_traceability gen parent reason = Inr ()"
    and "assert_composable t ctx = Inr ()"
    and "skill_execution_roles (references ctx ''candidate_modules'') (ms_skills (runtime_selection t ctx)) = Inr exec_roles"
    and "assert_tenant_access t ctx (selected_by_field (runtime_selection t ctx)) = Inr ()"
    and "tenant_authority_snapshot t ctx = Inr authority"
    and "module_versions (all_selected (runtime_selection t ctx)) (version_pins ctx) (at_task_type t) = Inr versions"
    and "p = profile_object t gen parent reason authority (human_review_not_required t) (runtime_selection t ctx)
        exec_roles versions DEFAULT_LIMITS DEFAULT_FAILURE_POLICY"
  using assms unfolding compose_def Let_def
  by (auto simp: bindR_Inr_iff)

lemma compose_review:
  assumes "compose t ctx gen parent reason = Inr p" and "at_requires_human_review t"
  obtains authority versions where
    "assert_recomposition_traceability gen parent reason = Inr ()"
    and "assert_tenant_access t ctx (selected_by_field (human_review_selection ctx)) = Inr ()"
    and "tenant_authority_snapshot t ctx = Inr authority"
    and "module_versions (all_selected (human_review_selection ctx)) (version_pins ctx) (at_task_type t) = Inr versions"
    and "p = profile_object t gen parent reason authority (human_review_required t) (human_review_selection ctx)
        empty_execution_roles versions HUMAN_REVIEW_LIMITS HUMAN_REVIEW_FAILURE_POLICY"
  using assms unfolding compose_def human_review_profile_def Let_def
  by (auto simp: bindR_Inr_iff)

text \<open>Both kinds of composition share one shape.\<close>

definition composed_selection :: "analyzed_task \<Rightarrow> obj \<Rightarrow> module_selection" where
  "composed_selection t ctx =
     (if at_requires_human_review t then human_review_selection ctx else runtime_selection t ctx)"

lemma compose_shape:
  assumes "compose t ctx gen parent reason = Inr p"
  obtains authority review exec_roles versions limits failure where
    "assert_recomposition_traceability gen parent reason = Inr ()"
    and "assert_tenant_access t ctx (selected_by_field (composed_selection t ctx)) = Inr ()"
    and "tenant_authority_snapshot t ctx = Inr authority"
    and "module_versions (all_selected (composed_selection t ctx)) (version_pins ctx) (at_task_type t) = Inr versions"
    and "p = profile_object t gen parent reason authority review (composed_selection t ctx)
        exec_roles versions limits failure"
proof (cases "at_requires_human_review t")
  case True
  with assms show ?thesis using that by (elim compose_review) (auto simp: composed_selection_def)
next
  case False
  with assms show ?thesis using that by (elim compose_runtime) (auto simp: composed_selection_def)
qed

text \<open>The strings a document lists under a field.\<close>

definition listed :: "obj \<Rightarrow> string \<Rightarrow> string set" where
  "listed m field = {s. \<exists>xs. get m field = JList xs \<and> JStr s \<in> set xs}"

lemma listed_str_list: "get m field = str_list xs \<Longrightarrow> listed m field = set xs"
  by (auto simp: listed_def str_list_def)

lemma profile_object_fields:
  "get (profile_object t g pa re a rv ms ex vs li fp) ''instructions'' = str_list (ms_instructions ms)"
  "get (profile_object t g pa re a rv ms ex vs li fp) ''skills'' = str_list (ms_skills ms)"
  "get (profile_object t g pa re a rv ms ex vs li fp) ''tools'' = str_list (ms_tools ms)"
  "get (profile_object t g pa re a rv ms ex vs li fp) ''knowledge_scopes'' = str_list (ms_knowledge_scopes ms)"
  "get (profile_object t g pa re a rv ms ex vs li fp) ''data_scopes'' = str_list (ms_data_scopes ms)"
  "get (profile_object t g pa re a rv ms ex vs li fp) ''memory_scopes'' = str_list (ms_memory_scopes ms)"
  "get (profile_object t g pa re a rv ms ex vs li fp) ''policies'' = str_list (ms_policies ms)"
  "get (profile_object t g pa re a rv ms ex vs li fp) ''validators'' = str_list (ms_validators ms)"
  "get (profile_object t g pa re a rv ms ex vs li fp) ''tenant_authority'' = a"
  "get (profile_object t g pa re a rv ms ex vs li fp) ''tenant_context'' = tenant_context t"
  "get (profile_object t g pa re a rv ms ex vs li fp) ''human_review'' = rv"
  "get (profile_object t g pa re a rv ms ex vs li fp) ''module_versions'' = JObj vs"
  "get (profile_object t g pa re a rv ms ex vs li fp) ''limits'' = JObj li"
  "get (profile_object t g pa re a rv ms ex vs li fp) ''skill_execution_roles'' = JObj ex"
  "get (profile_object t g pa re a rv ms ex vs li fp) ''profile_generation'' = JInt g"
  "get (profile_object t g pa re a rv ms ex vs li fp) ''parent_profile_id'' = opt_str pa"
  "get (profile_object t g pa re a rv ms ex vs li fp) ''recomposition_reason'' = opt_str re"
  by (simp_all add: profile_object_def)

lemma listed_profile:
  "map_of (selected_by_field ms) field = Some xs \<Longrightarrow>
   listed (profile_object t g pa re a rv ms ex vs li fp) field = set xs"
  unfolding selected_by_field_def
  by (rule listed_str_list) (auto simp: profile_object_fields split: if_splits)

lemma listed_selected:
  assumes "field \<in> set (dict_keys (selected_by_field ms))"
  shows "listed (profile_object t g pa re a rv ms ex vs li fp) field
     = set (selected_of (selected_by_field ms) field)"
proof -
  from assms obtain xs where "map_of (selected_by_field ms) field = Some xs"
    by (metis map_of_eq_None_iff option.exhaust set_map)
  then show ?thesis by (simp add: listed_profile selected_of_def)
qed

subsection \<open>A composed profile respects the policy decisions\<close>

lemma assert_composable_runtime:
  assumes "assert_composable t ctx = Inr ()" and "\<not> at_requires_human_review t"
  obtains effects where "policy_effects ctx = Inr effects"
    and "\<And>m. m \<in> set (references ctx ''candidate_modules'') \<Longrightarrow> check_candidate effects m = Inr ()"
    and "\<And>m. m \<in> set (graph_references ctx) \<Longrightarrow> check_graph_tool effects m = Inr ()"
proof -
  from assms obtain effects us vs where e: "policy_effects ctx = Inr effects"
    "mapR (check_candidate effects) (references ctx ''candidate_modules'') = Inr us"
    "mapR (check_graph_tool effects) (graph_references ctx) = Inr vs"
    by (auto simp: assert_composable_def Let_def bindR_Inr_iff)
  show thesis
    by (rule that [OF e(1)]) (use mapR_member [OF e(2)] mapR_member [OF e(3)] in fastforce)+
qed

lemma names_iff:
  "n \<in> set (names refs kind) \<longleftrightarrow>
     (\<exists>m \<in> set refs. get m ''name'' = JStr n \<and> (\<forall>k. kind = Some k \<longrightarrow> get m ''kind'' = JStr k))"
  by (auto simp: names_def set_map_filter as_str_iff split: option.splits)

lemma getitem_get: "get m k = JStr s \<Longrightarrow> getitem m k = Inr (JStr s)"
  by (auto simp: get_def get_or_def getitem_def split: option.splits)

lemma check_candidate_name:
  assumes "check_candidate effects m = Inr ()" and "get m ''name'' = JStr n"
  shows "effect_of effects (JStr n) \<in> {JNull, JStr ''allow''}"
  using assms by (auto simp: check_candidate_def getitem_get Let_def raise_if_Inr)

lemma check_graph_tool_name:
  assumes "check_graph_tool effects m = Inr ()" and "get m ''name'' = JStr n" and "get m ''kind'' = JStr ''tool''"
  shows "effect_of effects (JStr n) = JStr ''allow''"
  using assms by (auto simp: check_graph_tool_def getitem_get Let_def raise_if_Inr)


text \<open>A task that needs human review yields a profile without power: no skills, tools or
  scopes of any kind, zero tool calls, data reads, memory operations and recompositions, and a
  review record that says approval is required.\<close>

theorem compose_human_review_powerless:
  assumes "compose t ctx gen parent reason = Inr p" and "at_requires_human_review t"
  shows "(\<forall>field \<in> {''skills'', ''tools'', ''knowledge_scopes'', ''data_scopes'', ''memory_scopes''}.
       get p field = JList []) \<and>
     (\<exists>limits. get p ''limits'' = JObj limits \<and>
       (\<forall>k \<in> {''max_tool_calls'', ''max_data_reads'', ''max_memory_ops'', ''max_recompositions''}.
          get limits k = JInt 0)) \<and>
     (\<exists>review. get p ''human_review'' = JObj review \<and> get review ''required'' = JBool True)"
proof -
  from compose_review [OF assms] obtain a vs where
    p: "p = profile_object t gen parent reason a (human_review_required t) (human_review_selection ctx)
        empty_execution_roles vs HUMAN_REVIEW_LIMITS HUMAN_REVIEW_FAILURE_POLICY" by metis
  show ?thesis
    unfolding p by (simp add: profile_object_fields human_review_selection_def str_list_def
        HUMAN_REVIEW_LIMITS_def DEFAULT_LIMITS_def human_review_required_def human_review_def)
qed

subsection \<open>Pins, traceability and tenants\<close>

lemma module_versions_keys:
  assumes "module_versions selected pins tt = Inr vs"
  shows "set (dict_keys vs) = set selected \<and> distinct (dict_keys vs) \<and>
     (\<forall>n \<in> set selected. \<exists>v. version_for n pins tt = Inr v \<and> map_of vs n = Some (JStr v))"
proof -
  from assms obtain ps where ps: "mapR (\<lambda>n. bindR (version_for n pins tt) (\<lambda>v. Inr (n, JStr v))) selected = Inr ps"
    and vs: "vs = dict_of ps" by (auto simp: module_versions_def bindR_Inr_iff)
  have l: "list_all2 (\<lambda>n p. fst p = n \<and> (\<exists>v. version_for n pins tt = Inr v \<and> snd p = JStr v)) selected ps"
    using ps unfolding mapR_Inr_iff by (rule list_all2_mono) (auto simp: bindR_Inr_iff)
  then have keys: "map fst ps = selected"
    by (induction rule: list_all2_induct) auto
  have val: "\<exists>v. version_for n pins tt = Inr v \<and> x = JStr v" if "(n, x) \<in> set ps" for n x
    using l that by (auto simp: list_all2_conv_all_nth in_set_conv_nth)
  have "\<exists>v. version_for n pins tt = Inr v \<and> map_of vs n = Some (JStr v)" if "n \<in> set selected" for n
  proof -
    have "map_of (rev ps) n \<noteq> None"
      using that keys by (simp add: map_of_eq_None_iff flip: set_map)
    then obtain x where "map_of (rev ps) n = Some x" by blast
    then show ?thesis using val map_of_SomeD [of "rev ps" n x] by (auto simp: vs map_of_dict_of)
  qed
  then show ?thesis using keys by (simp add: vs dict_of_keys flip: set_map)
qed

lemma selected_modules_profile:
  "selected_modules (profile_object t g pa re a rv ms ex vs li fp) = all_selected ms"
proof -
  have "get_or p f d = get p f" if "get p f \<noteq> JNull" for p f d
    using that by (auto simp: get_def get_or_def split: option.splits)
  then show ?thesis
    by (simp add: selected_modules_def all_selected_def selected_by_field_def profile_object_fields
        str_list_def comp_def)
qed

text \<open>Every module of an emitted profile is pinned to exactly one version, and nothing else is
  pinned; the pin comes from the control plane when it names one and from the runtime baseline
  otherwise.\<close>

theorem compose_pins_versions:
  assumes "compose t ctx gen parent reason = Inr p"
  shows "\<exists>versions. get p ''module_versions'' = JObj versions \<and>
     set (dict_keys versions) = set (selected_modules p) \<and> distinct (dict_keys versions) \<and>
     (\<forall>n \<in> set (selected_modules p). \<exists>v. get versions n = JStr v \<and>
        version_for n (version_pins ctx) (at_task_type t) = Inr v)"
proof -
  from compose_shape [OF assms] obtain a rv ex vs li fp where
    vs: "module_versions (all_selected (composed_selection t ctx)) (version_pins ctx) (at_task_type t) = Inr vs"
    and p: "p = profile_object t gen parent reason a rv (composed_selection t ctx) ex vs li fp" by metis
  have "get vs n = JStr v" if "map_of vs n = Some (JStr v)" for n v
    using that by (simp add: get_def get_or_def)
  with module_versions_keys [OF vs] show ?thesis
    unfolding p selected_modules_profile by (intro exI [of _ vs]) (auto simp: profile_object_fields)
qed

text \<open>Generations are traceable: an emitted first generation has no parent and no reason, and
  every later generation names its parent and one of the closed set of recomposition reasons.\<close>

theorem compose_traceable:
  assumes "compose t ctx gen parent reason = Inr p"
  shows "get p ''profile_generation'' = JInt gen \<and> 1 \<le> gen \<and>
     (gen = 1 \<longrightarrow> get p ''parent_profile_id'' = JNull \<and> get p ''recomposition_reason'' = JNull) \<and>
     (1 < gen \<longrightarrow> (\<exists>pa re. get p ''parent_profile_id'' = JStr pa \<and>
        get p ''recomposition_reason'' = JStr re \<and> re \<in> set RECOMPOSITION_REASONS))"
proof -
  from compose_shape [OF assms] obtain a rv ex vs li fp where
    tr: "assert_recomposition_traceability gen parent reason = Inr ()"
    and p: "p = profile_object t gen parent reason a rv (composed_selection t ctx) ex vs li fp" by metis
  from tr show ?thesis unfolding p
    by (auto simp: assert_recomposition_traceability_def profile_object_fields raise_if_Inr
        split: if_splits option.splits)
qed


subsection \<open>Witnesses\<close>

definition sample_claims :: auth_claims where
  "sample_claims = default_auth_claims
     \<lparr>principal_id := ''user-1'', roles := [''reviewer''], tenant_id := ''acme'', area_id := ''area-1'',
      tenant_hostname := Some ''acme.example'', membership_id := Some ''m-1'',
      role_data_sources := [''ds-1''], role_capabilities := [''review'']\<rparr>"

definition sample_analyzed :: analyzed_task where
  "sample_analyzed =
     \<lparr>at_task_id = ''task-a'', at_task_type = ''code-review'', at_objective = ''Review the diff'',
      at_risk_level = ''medium'', at_domains = [''software''], at_required_inputs = [], at_available_inputs = [],
      at_capability_hints = [''review''], at_constraints = [], at_missing_information = [],
      at_auth_claims = sample_claims, at_classification_confidence = ''high'',
      at_classification_reasons = [], at_ambiguous_task_types = [], at_requires_human_review = False\<rparr>"

definition sample_reference :: "string \<Rightarrow> string \<Rightarrow> json" where
  "sample_reference kind name =
     JObj [(''kind'', JStr kind), (''name'', JStr name), (''version'', JStr ''1.0.0'')]"

definition sample_authority :: obj where
  "sample_authority =
     [(''tenant_id'', JStr ''acme''), (''area_id'', JStr ''area-1''), (''status'', JStr ''active''),
      (''direct_user_grants_allowed'', JBool False),
      (''hostname'', JObj [(''tenant_id'', JStr ''acme''), (''hostname'', JStr ''acme.example'')]),
      (''membership'', JObj [(''id'', JStr ''m-1''), (''tenant_id'', JStr ''acme''), (''principal_id'', JStr ''user-1''),
         (''status'', JStr ''active''), (''role_ids'', str_list [''reviewer''])]),
      (''role_bundles'', JList [JObj [(''id'', JStr ''reviewer''), (''tenant_id'', JStr ''acme''),
         (''capability_grants'', str_list [''review'']),
         (''data_source_grants'', JList [JObj [(''data_source_id'', JStr ''ds-1'')]]),
         (''derived_runtime_modules'', JObj [(''skills'', str_list [''review-skill'']),
            (''tools'', str_list [''diff-reader'']), (''policies'', str_list [''read-only''])])]]),
      (''data_sources'', JList [JObj [(''id'', JStr ''ds-1''), (''tenant_id'', JStr ''acme'')]]),
      (''allowed_data_scopes'', str_list [''repo''])]"

definition sample_context :: obj where
  "sample_context =
     [(''composition_status'', JStr ''ready''),
      (''graph_validation'', JObj [(''is_valid'', JBool True),
         (''reachable_modules'', JList [sample_reference ''tool'' ''diff-reader''])]),
      (''candidate_modules'', JList [sample_reference ''skill'' ''review-skill'']),
      (''applicable_policies'', JList [sample_reference ''policy'' ''read-only'']),
      (''allowed_data_scopes'', JList [sample_reference ''data'' ''repo'']),
      (''policy_decisions'', JList [JObj [(''module'', JObj [(''name'', JStr ''diff-reader'')]),
         (''effect'', JStr ''allow'')]]),
      (''tenant_authority'', JObj sample_authority)]"

definition sample_profile :: obj where
  "sample_profile = (case compose sample_analyzed sample_context 1 None None of Inl _ \<Rightarrow> [] | Inr p \<Rightarrow> p)"

definition review_analyzed :: analyzed_task where
  "review_analyzed = sample_analyzed\<lparr>at_requires_human_review := True\<rparr>"

definition review_profile :: obj where
  "review_profile = (case compose review_analyzed sample_context 1 None None of Inl _ \<Rightarrow> [] | Inr p \<Rightarrow> p)"

lemma compose_sample: "compose sample_analyzed sample_context 1 None None = Inr sample_profile"
proof -
  have "case compose sample_analyzed sample_context 1 None None of Inl _ \<Rightarrow> False | Inr p \<Rightarrow> True" by code_simp
  then show ?thesis by (auto simp: sample_profile_def split: sum.splits)
qed

lemma compose_review_sample: "compose review_analyzed sample_context 1 None None = Inr review_profile"
proof -
  have "case compose review_analyzed sample_context 1 None None of Inl _ \<Rightarrow> False | Inr p \<Rightarrow> True" by code_simp
  then show ?thesis by (auto simp: review_profile_def split: sum.splits)
qed


theorem compose_human_review_powerless_witness: "get review_profile ''tools'' = JList []"
  using compose_human_review_powerless [OF compose_review_sample] by (simp add: review_analyzed_def)

theorem compose_pins_versions_witness:
  "\<exists>versions. get sample_profile ''module_versions'' = JObj versions \<and>
     set (dict_keys versions) = set (selected_modules sample_profile)"
  using compose_pins_versions [OF compose_sample] by blast

theorem compose_traceable_witness: "get sample_profile ''parent_profile_id'' = JNull"
  using compose_traceable [OF compose_sample] by simp


end
