(* ===== verification/Enforcement.thy ===== *)
theory Enforcement
  imports Composer
begin

text \<open>
  \<open>runtime/enforcement.py\<close> and \<open>runtime/tool_policies.py\<close>: the enforcer that guards one
  immutable runtime profile. Its state is a record; every method returns its outcome
  and the state, because a counter that was raised before a failing check stays raised.
  The clock is an argument: each method that reads it takes the reading \<open>now\<close>, in
  microseconds. An enforcement error carries message, stop reason and code as the source
  builds them.
\<close>

subsection \<open>State and errors\<close>

datatype enforcement_error =
  EnforcementError (err_message: string) (err_stop_reason: stop_reason) (err_code: string)

type_synonym 'a enforced = "(enforcement_error, 'a) res"

record enforcer =
  en_profile :: obj
  en_started_at :: datetime
  en_tool_calls :: int
  en_tokens_used :: int
  en_data_reads :: int
  en_memory_ops :: int
  en_recomposition_requests :: int

type_synonym 'a enf = "(enforcer, enforcement_error, 'a) st"

datatype counter = ToolCalls | TokensUsed | DataReads | MemoryOps | RecompositionRequests

fun counter_get :: "counter \<Rightarrow> enforcer \<Rightarrow> int" where
  "counter_get ToolCalls s = en_tool_calls s"
| "counter_get TokensUsed s = en_tokens_used s"
| "counter_get DataReads s = en_data_reads s"
| "counter_get MemoryOps s = en_memory_ops s"
| "counter_get RecompositionRequests s = en_recomposition_requests s"

fun counter_set :: "counter \<Rightarrow> int \<Rightarrow> enforcer \<Rightarrow> enforcer" where
  "counter_set ToolCalls v s = s\<lparr>en_tool_calls := v\<rparr>"
| "counter_set TokensUsed v s = s\<lparr>en_tokens_used := v\<rparr>"
| "counter_set DataReads v s = s\<lparr>en_data_reads := v\<rparr>"
| "counter_set MemoryOps v s = s\<lparr>en_memory_ops := v\<rparr>"
| "counter_set RecompositionRequests v s = s\<lparr>en_recomposition_requests := v\<rparr>"

definition deny :: "string \<Rightarrow> string \<Rightarrow> enforcement_error" where
  "deny message code = EnforcementError message PolicyDenied code"

definition enforcer_init :: "obj \<Rightarrow> datetime \<Rightarrow> enforcer enforced" where
  "enforcer_init profile now =
     bindR (py_int (get_or profile ''profile_generation'' (JInt 1))) (\<lambda>gen.
     Inr \<lparr>en_profile = profile, en_started_at = now, en_tool_calls = 0, en_tokens_used = 0,
          en_data_reads = 0, en_memory_ops = 0, en_recomposition_requests = max 0 (gen - 1)\<rparr>)"

subsection \<open>Limits\<close>

definition limit_of :: "obj \<Rightarrow> string \<Rightarrow> int enforced" where
  "limit_of profile name =
     py_int (case as_obj (get_or profile ''limits'' (JObj [])) of
               None \<Rightarrow> JInt 0 | Some limits \<Rightarrow> get_or limits name (JInt 0))"

definition limit_stop_reason :: "string \<Rightarrow> stop_reason" where
  "limit_stop_reason name =
     (if name = ''max_tool_calls'' then MaxToolCalls
      else if name = ''max_tokens'' then MaxTokens
      else if name = ''max_data_reads'' then MaxDataReads
      else if name = ''max_memory_ops'' then MaxMemoryOps
      else if name = ''max_recompositions'' then MaxRecompositions
      else RuntimeErrorStop)"

definition increment_limit :: "counter \<Rightarrow> string \<Rightarrow> int \<Rightarrow> stop_reason option \<Rightarrow> unit enf" where
  "increment_limit c limit_name amount stop s =
     (if amount < 0 then (Inl (Py ValueError), s)
      else let next_value = counter_get c s + amount in
        (case limit_of (en_profile s) limit_name of
           Inl e \<Rightarrow> (Inl e, s)
         | Inr limit \<Rightarrow>
             if next_value > limit then
               (Inl (Raise (EnforcementError (''Runtime profile limit exceeded: '' @ limit_name @ ''.'')
                  (case stop of None \<Rightarrow> limit_stop_reason limit_name | Some r \<Rightarrow> r)
                  (limit_name @ ''_exceeded''))), s)
             else (Inr (), counter_set c next_value s)))"

definition check_duration :: "datetime \<Rightarrow> unit enf" where
  "check_duration now = readS (\<lambda>s.
     bindR (limit_of (en_profile s) ''max_duration_seconds'') (\<lambda>max_duration.
     raise_if (now - en_started_at s > seconds max_duration)
       (EnforcementError ''Runtime duration exceeded the active profile budget.'' MaxDuration
          ''max_duration_exceeded'')))"

subsection \<open>Access checks\<close>

definition require_listed :: "string \<Rightarrow> enforcement_error \<Rightarrow> obj \<Rightarrow> string \<Rightarrow> unit enforced" where
  "require_listed field err profile name =
     bindR (str_in name (get_or profile field (JList []))) (\<lambda>ok. raise_if (\<not> ok) err)"

definition require_tool :: "obj \<Rightarrow> string \<Rightarrow> unit enforced" where
  "require_tool profile tool_name =
     require_listed ''tools''
       (deny (''Tool is not allowed by runtime profile: '' @ tool_name) ''tool_not_in_runtime_profile'')
       profile tool_name"

definition require_skill :: "obj \<Rightarrow> string \<Rightarrow> unit enforced" where
  "require_skill profile skill_name =
     require_listed ''skills''
       (deny (''Skill is not allowed by runtime profile: '' @ skill_name) ''skill_not_in_runtime_profile'')
       profile skill_name"

definition require_policy :: "obj \<Rightarrow> string \<Rightarrow> unit enforced" where
  "require_policy profile policy_id =
     require_listed ''policies''
       (deny (''Policy is not allowed by runtime profile: '' @ policy_id) ''policy_not_in_runtime_profile'')
       profile policy_id"

definition require_module_version :: "obj \<Rightarrow> string \<Rightarrow> string \<Rightarrow> unit enforced" where
  "require_module_version profile module_name expected_version =
     (let actual = (case as_obj (get_or profile ''module_versions'' (JObj [])) of
                      None \<Rightarrow> JNull | Some versions \<Rightarrow> get versions module_name)
      in raise_if (actual \<noteq> JStr expected_version)
           (deny (''Module version mismatch for '' @ module_name @ '': expected '' @ expected_version @
                  '', got '' @ py_str actual @ ''.'') ''module_version_mismatch''))"

definition risk_rank :: "string \<Rightarrow> int" where
  "risk_rank level =
     (if level = ''low'' then 0 else if level = ''medium'' then 1 else if level = ''high'' then 2 else 3)"

definition require_tool_risk :: "obj \<Rightarrow> string \<Rightarrow> string \<Rightarrow> unit enforced" where
  "require_tool_risk profile tool_name risk_level =
     raise_if (risk_rank risk_level > risk_rank (py_str (get_or profile ''risk_level'' (JStr ''low''))))
       (deny (''Tool risk exceeds profile risk level: '' @ tool_name @ ''.'') ''tool_risk_exceeds_profile'')"

definition require_scopes :: "json \<Rightarrow> string \<Rightarrow> string list \<Rightarrow> unit enforced" where
  "require_scopes allowed scope_kind requested =
     bindR (py_iter allowed) (\<lambda>xs.
     let denied = sorted_diff requested (map py_str xs)
     in raise_if (denied \<noteq> [])
          (deny (''Requested '' @ scope_kind @ '' scopes are not allowed: '' @ join '', '' denied @ ''.'')
             (scope_kind @ ''_scope_not_in_runtime_profile'')))"

definition require_knowledge_scopes :: "obj \<Rightarrow> string list \<Rightarrow> unit enforced" where
  "require_knowledge_scopes profile ids =
     require_scopes (get_or profile ''knowledge_scopes'' (JList [])) ''knowledge'' ids"

definition require_data_scopes :: "obj \<Rightarrow> string list \<Rightarrow> unit enforced" where
  "require_data_scopes profile ids =
     require_scopes (get_or profile ''data_scopes'' (JList [])) ''data'' ids"

definition require_memory_scopes :: "obj \<Rightarrow> string list \<Rightarrow> unit enforced" where
  "require_memory_scopes profile ids =
     require_scopes (get_or profile ''memory_scopes'' (JList [])) ''memory'' ids"

subsection \<open>Recording consumption\<close>

definition record_data_read :: "int \<Rightarrow> unit enf" where
  "record_data_read count = increment_limit DataReads ''max_data_reads'' count None"

definition record_memory_op :: "int \<Rightarrow> unit enf" where
  "record_memory_op count = increment_limit MemoryOps ''max_memory_ops'' count None"

definition record_recomposition_request :: "unit enf" where
  "record_recomposition_request =
     increment_limit RecompositionRequests ''max_recompositions'' 1 (Some MaxRecompositions)"

definition consume_tokens :: "datetime \<Rightarrow> int \<Rightarrow> unit enf" where
  "consume_tokens now tokens =
     (if tokens < 0 then liftS (Inl (Py ValueError))
      else bindS (check_duration now) (\<lambda>_. increment_limit TokensUsed ''max_tokens'' tokens None))"

definition record_tool_invocation ::
  "datetime \<Rightarrow> string \<Rightarrow> string list \<Rightarrow> string list \<Rightarrow> string \<Rightarrow> unit enf" where
  "record_tool_invocation now tool_name required_data_scopes required_policies risk_level =
     bindS (check_duration now) (\<lambda>_.
     bindS (readS (\<lambda>s. require_tool (en_profile s) tool_name)) (\<lambda>_.
     bindS (readS (\<lambda>s. require_tool_risk (en_profile s) tool_name risk_level)) (\<lambda>_.
     bindS (forS (\<lambda>policy_id. readS (\<lambda>s. require_policy (en_profile s) policy_id)) required_policies) (\<lambda>_.
     bindS (increment_limit ToolCalls ''max_tool_calls'' 1 None) (\<lambda>_.
     if required_data_scopes = [] then retS ()
     else bindS (readS (\<lambda>s. require_data_scopes (en_profile s) required_data_scopes)) (\<lambda>_.
          record_data_read 1))))))"

text \<open>\<open>runtime/tool_policies.py\<close>.\<close>

definition tool_required_data_scopes :: "string \<Rightarrow> string list" where
  "tool_required_data_scopes tool_name =
     (if tool_name \<in> {''filesystem-read'', ''filesystem-list'', ''git-read'', ''test-runner''}
      then [''repository-readonly'']
      else if tool_name = ''filesystem-write'' then [''repository-write''] else [])"

definition tool_required_policies :: "string \<Rightarrow> string list" where
  "tool_required_policies tool_name =
     (if tool_name = ''filesystem-write'' then [''write-approval-required''] else [])"

definition tool_risk_level :: "string \<Rightarrow> string" where
  "tool_risk_level tool_name =
     (case map_of [(''filesystem-read'', ''low''), (''filesystem-list'', ''low''), (''filesystem-write'', ''high''),
                   (''git-read'', ''low''), (''test-runner'', ''medium'')] tool_name of
        None \<Rightarrow> ''high'' | Some r \<Rightarrow> r)"

subsection \<open>Tenant authority of a profile\<close>

definition en_validate_tenant_identity :: "obj \<Rightarrow> obj \<Rightarrow> unit enforced" where
  "en_validate_tenant_identity ctx authority =
     bindR (raise_if (\<not> py_eq (get authority ''tenant_id'') (get ctx ''tenant_id''))
       (deny ''Tenant authority does not match runtime profile tenant.'' ''tenant_authority_tenant_mismatch'')) (\<lambda>_.
     bindR (raise_if (\<not> py_eq (get authority ''area_id'') (get ctx ''area_id''))
       (deny ''Tenant authority does not match runtime profile area.'' ''tenant_authority_area_mismatch'')) (\<lambda>_.
     case as_obj (get authority ''hostname'') of
       None \<Rightarrow> Inl (Raise (deny ''Tenant authority is missing hostname proof.'' ''tenant_hostname_authority_missing''))
     | Some hostname \<Rightarrow>
         bindR (raise_if (\<not> py_eq (get hostname ''tenant_id'') (get ctx ''tenant_id''))
           (deny ''Tenant hostname authority crosses tenant boundary.''
              ''tenant_hostname_authority_tenant_mismatch'')) (\<lambda>_.
         bindR (raise_if (\<not> py_eq (get hostname ''hostname'') (get ctx ''hostname''))
           (deny ''Tenant hostname authority does not match runtime profile host.''
              ''tenant_hostname_authority_mismatch'')) (\<lambda>_.
         bindR (in_strings (get authority ''status'') ALLOWED_TENANT_STATUSES) (\<lambda>active.
         bindR (raise_if (\<not> active)
           (deny ''Tenant is not active for runtime execution.'' ''tenant_not_active'')) (\<lambda>_.
         case as_obj (get ctx ''role_derivation'') of
           None \<Rightarrow> Inl (Raise (deny ''Tenant role derivation is missing from runtime profile.''
                    ''tenant_role_derivation_missing''))
         | Some derivation \<Rightarrow>
             bindR (raise_if (get derivation ''direct_user_grants_allowed'' \<noteq> JBool False)
               (deny ''Direct user grants are not allowed for tenant runtime profiles.''
                  ''tenant_direct_user_grants_enabled'')) (\<lambda>_.
             bindR (raise_if (get derivation ''capabilities_derive_from_roles'' \<noteq> JBool True)
               (deny ''Tenant runtime capabilities must derive from roles.''
                  ''tenant_capability_derivation_invalid'')) (\<lambda>_.
             bindR (raise_if (get derivation ''data_sources_derive_from_roles'' \<noteq> JBool True)
               (deny ''Tenant runtime data sources must derive from roles.''
                  ''tenant_data_source_derivation_invalid'')) (\<lambda>_.
             raise_if (get authority ''direct_user_grants_allowed'' \<noteq> JBool False)
               (deny ''Tenant authority cannot permit direct user grants.''
                  ''tenant_authority_direct_user_grants_enabled''))))))))))"

definition profile_principal_id :: "obj \<Rightarrow> json" where
  "profile_principal_id profile =
     (case as_obj (get_or profile ''auth_context'' (JObj [])) of
        None \<Rightarrow> JNull
      | Some auth \<Rightarrow>
          (case as_obj (get_or auth ''principal'' (JObj [])) of
             None \<Rightarrow> JNull | Some p \<Rightarrow> get p ''id''))"

definition en_validate_tenant_membership :: "obj \<Rightarrow> obj \<Rightarrow> obj \<Rightarrow> string list enforced" where
  "en_validate_tenant_membership profile ctx authority =
     (case as_obj (get authority ''membership'') of
        None \<Rightarrow> Inl (Raise (deny ''Tenant authority is missing membership proof.'' ''tenant_membership_missing''))
      | Some membership \<Rightarrow>
          bindR (raise_if (\<not> py_eq (get membership ''id'') (get ctx ''membership_id''))
            (deny ''Tenant authority membership does not match runtime profile.'' ''tenant_membership_mismatch'')) (\<lambda>_.
          bindR (raise_if (\<not> py_eq (get membership ''tenant_id'') (get ctx ''tenant_id''))
            (deny ''Tenant membership crosses tenant boundary.'' ''tenant_membership_crosses_tenant'')) (\<lambda>_.
          bindR (raise_if (\<not> py_eq (get membership ''principal_id'') (profile_principal_id profile))
            (deny ''Tenant membership principal does not match runtime profile.''
               ''tenant_membership_principal_mismatch'')) (\<lambda>_.
          bindR (in_strings (get membership ''status'') ALLOWED_MEMBERSHIP_STATUSES) (\<lambda>active.
          bindR (raise_if (\<not> active)
            (deny ''Tenant membership is not active.'' ''tenant_membership_not_active'')) (\<lambda>_.
          let profile_roles = string_set (get_or ctx ''role_ids'' (JList []));
              missing_roles = sorted_diff profile_roles (string_set (get_or membership ''role_ids'' (JList [])))
          in bindR (raise_if (missing_roles \<noteq> [])
               (deny (''Tenant runtime profile selected roles outside membership: '' @ join '', '' missing_roles)
                  ''tenant_role_not_in_membership'')) (\<lambda>_.
             Inr (sorted_set profile_roles))))))))"

definition en_tenant_role_bundles :: "obj \<Rightarrow> string list \<Rightarrow> obj list enforced" where
  "en_tenant_role_bundles authority role_ids =
     (case as_list (get_or authority ''role_bundles'' (JList [])) of
        None \<Rightarrow> Inl (Raise (deny ''Tenant authority role bundles must be a list.'' ''tenant_role_bundles_invalid''))
      | Some bundles \<Rightarrow>
          (let by_id = by_string_id bundles;
               missing_roles = sorted_diff role_ids (dict_keys by_id)
           in bindR (raise_if (missing_roles \<noteq> [])
                (deny (''Tenant runtime profile selected unknown roles: '' @ join '', '' missing_roles)
                   ''tenant_role_bundle_missing'')) (\<lambda>_.
              let tenant = py_str (get_or authority ''tenant_id'' (JStr []));
                  selected_roles = List.map_filter (map_of by_id) role_ids
              in bindR (mapR (\<lambda>role. raise_if (get role ''tenant_id'' \<noteq> JStr tenant)
                          (deny ''Tenant role bundle crosses tenant boundary.''
                             ''tenant_role_bundle_crosses_tenant'')) selected_roles) (\<lambda>_.
                 Inr selected_roles))))"

definition en_grant_source :: "(string, obj) dict \<Rightarrow> string \<Rightarrow> obj \<Rightarrow> string enforced" where
  "en_grant_source sources tenant grant =
     (case as_str (get grant ''data_source_id'') of
        None \<Rightarrow> Inl (Raise (deny ''Tenant data-source grant is missing a data source id.''
                 ''tenant_data_source_grant_invalid''))
      | Some i \<Rightarrow>
          bindR (raise_if (map_option (\<lambda>s. get s ''tenant_id'') (map_of sources i) \<noteq> Some (JStr tenant))
            (deny ''Tenant data-source grant crosses tenant boundary.''
               ''tenant_data_source_grant_crosses_tenant'')) (\<lambda>_. Inr i))"

definition en_validate_tenant_role_grants :: "obj \<Rightarrow> obj \<Rightarrow> obj list \<Rightarrow> unit enforced" where
  "en_validate_tenant_role_grants ctx authority bundles =
     (case as_list (get_or authority ''data_sources'' (JList [])) of
        None \<Rightarrow> Inl (Raise (deny ''Tenant authority data sources must be a list.'' ''tenant_data_sources_invalid''))
      | Some sources \<Rightarrow>
          bindR (mapR (\<lambda>role. mapR (en_grant_source (by_string_id sources)
                                    (py_str (get_or ctx ''tenant_id'' (JStr []))))
                         (mappings (get_or role ''data_source_grants'' (JList [])))) bundles) (\<lambda>granted.
          let granted_capabilities =
                concat (map (\<lambda>role. string_set (get_or role ''capability_grants'' (JList []))) bundles);
              missing_capabilities =
                sorted_diff (string_set (get_or ctx ''allowed_role_capabilities'' (JList []))) granted_capabilities;
              missing_data_sources =
                sorted_diff (string_set (get_or ctx ''allowed_role_data_sources'' (JList []))) (concat granted)
          in bindR (raise_if (missing_capabilities \<noteq> [])
               (deny (''Tenant runtime capabilities are not role-derived: '' @ join '', '' missing_capabilities)
                  ''tenant_capability_not_role_derived'')) (\<lambda>_.
             raise_if (missing_data_sources \<noteq> [])
               (deny (''Tenant runtime data sources are not role-derived: '' @ join '', '' missing_data_sources)
                  ''tenant_data_source_not_role_derived''))))"

definition en_module_checks :: "obj \<Rightarrow> obj list \<Rightarrow> (string \<times> string list \<times> string) list" where
  "en_module_checks authority derived =
     (let allowed = (\<lambda>field. concat (map (\<lambda>d. string_set (get_or d field (JList []))) derived));
          scope = (\<lambda>field. string_set (get_or authority field (JList [])))
      in [(''skills'', allowed ''skills'', ''tenant_skill_denied''),
          (''tools'', allowed ''tools'', ''tenant_tool_denied''),
          (''policies'', allowed ''policies'', ''tenant_policy_denied''),
          (''validators'', allowed ''validators'' @ BASELINE_VALIDATORS, ''tenant_validator_denied''),
          (''knowledge_scopes'', scope ''allowed_knowledge_scopes'', ''tenant_knowledge_scope_denied''),
          (''data_scopes'', scope ''allowed_data_scopes'', ''tenant_data_scope_denied''),
          (''memory_scopes'', scope ''allowed_memory_scopes'', ''tenant_memory_scope_denied'')])"

definition en_validate_tenant_selected_modules :: "obj \<Rightarrow> obj \<Rightarrow> obj list \<Rightarrow> unit enforced" where
  "en_validate_tenant_selected_modules profile authority bundles =
     bindR (mapR (\<lambda>role. case as_obj (get_or role ''derived_runtime_modules'' (JObj [])) of
              None \<Rightarrow> Inl (Raise (deny ''Tenant role bundle is missing runtime module derivation.''
                       ''tenant_runtime_derivation_missing''))
            | Some derived \<Rightarrow> Inr derived) bundles) (\<lambda>derived.
     bindR (mapR (\<lambda>(field, allowed, code).
              let denied = sorted_diff (string_set (get_or profile field (JList []))) allowed
              in raise_if (denied \<noteq> [])
                   (deny (''Tenant runtime profile selected unauthorized '' @ field @ '': '' @ join '', '' denied) code))
            (en_module_checks authority derived)) (\<lambda>_.
     let denied = sorted_diff (string_set (get_or profile ''instructions'' (JList []))) BASELINE_INSTRUCTIONS
     in raise_if (denied \<noteq> [])
          (deny (''Tenant runtime profile selected unauthorized instructions: '' @ join '', '' denied)
             ''tenant_instruction_denied'')))"

definition en_validate_tenant_authority :: "obj \<Rightarrow> unit enforced" where
  "en_validate_tenant_authority profile =
     (case as_obj (get profile ''tenant_context'') of
        None \<Rightarrow> Inl (Raise (deny ''Runtime profile is missing tenant_context.'' ''tenant_context_missing''))
      | Some ctx \<Rightarrow>
          if py_str (get_or ctx ''tenant_id'' (JStr [])) = GLOBAL_TENANT_ID then
            raise_if (get profile ''tenant_authority'' \<noteq> JNull)
              (deny ''Global runtime profiles must not include tenant authority.'' ''global_tenant_authority_present'')
          else case as_obj (get profile ''tenant_authority'') of
            None \<Rightarrow> Inl (Raise (deny ''Tenant-scoped runtime profiles require tenant authority.''
                     ''tenant_authority_missing''))
          | Some authority \<Rightarrow>
              bindR (en_validate_tenant_identity ctx authority) (\<lambda>_.
              bindR (en_validate_tenant_membership profile ctx authority) (\<lambda>role_ids.
              bindR (en_tenant_role_bundles authority role_ids) (\<lambda>bundles.
              bindR (en_validate_tenant_role_grants ctx authority bundles) (\<lambda>_.
              en_validate_tenant_selected_modules profile authority bundles)))))"

definition validate_profile_for_runtime :: "enforcer \<Rightarrow> unit enforced" where
  "validate_profile_for_runtime s =
     (let profile = en_profile s in
      bindR (mapR (\<lambda>module_id. bindR (str_in module_id (get_or profile ''module_versions'' (JObj [])))
                     (\<lambda>present. Inr (if present then [] else [module_id])))
               (selected_modules profile)) (\<lambda>missing.
      bindR (raise_if (concat missing \<noteq> [])
        (deny (''Selected modules are not version-pinned: '' @ join '', '' (sort (concat missing)) @ ''.'')
           ''selected_module_version_missing'')) (\<lambda>_.
      bindR (py_int (get_or profile ''profile_generation'' (JInt 1))) (\<lambda>generation.
      bindR (limit_of profile ''max_recompositions'') (\<lambda>max_recompositions.
      bindR (raise_if (max 0 (generation - 1) > max_recompositions)
        (EnforcementError ''Profile generation exceeds the recomposition budget.'' MaxRecompositions
           ''max_recompositions_exceeded'')) (\<lambda>_.
      en_validate_tenant_authority profile))))))"

subsection \<open>Counters are budgets\<close>

definition limit_cap :: "string \<Rightarrow> enforcer \<Rightarrow> int" where
  "limit_cap name s = (case limit_of (en_profile s) name of Inl _ \<Rightarrow> 0 | Inr limit \<Rightarrow> limit)"

definition limit_defined :: "string \<Rightarrow> enforcer \<Rightarrow> bool" where
  "limit_defined name s \<longleftrightarrow> (\<exists>limit. limit_of (en_profile s) name = Inr limit)"

lemma counter_laws [simp]:
  "counter_get c (counter_set c v s) = v"
  "c' \<noteq> c \<Longrightarrow> counter_get c' (counter_set c v s) = counter_get c' s"
  "en_profile (counter_set c v s) = en_profile s"
  "en_started_at (counter_set c v s) = en_started_at s"
  by (cases c; cases c'; simp)+

interpretation profile_budget:
  budget_counter "counter_get c" "\<lambda>n. increment_limit c name n stop" "limit_cap name" "limit_defined name"
  for c name stop
  by unfold_locales (auto simp: increment_limit_def limit_cap_def limit_defined_def Let_def)

text \<open>C37. A profile limit is a hard budget: whatever sequence of amounts is charged to a counter,
  with refused charges simply skipped, the counter ends exactly at its start plus the granted
  amounts, grants never sum past the limit, and a sequence that fits the limit is granted in full.\<close>

theorem limit_is_hard_budget:
  assumes "limit_of (en_profile s) name = Inr limit" and "counter_get c s \<le> limit"
    and "spend (\<lambda>n. increment_limit c name n stop) charges s = (granted, s')"
  shows "counter_get c s' = counter_get c s + granted \<and> counter_get c s' \<le> limit \<and>
     ((\<forall>n \<in> set charges. 0 \<le> n) \<and> counter_get c s + sum_list charges \<le> limit \<longrightarrow> granted = sum_list charges)"
proof -
  have u: "limit_defined name s" and cap: "limit_cap name s = limit"
    using assms(1) by (simp_all add: limit_defined_def limit_cap_def)
  show ?thesis
    using profile_budget.spend_accounted [OF u assms(3)] profile_budget.spend_all [OF u, of charges c stop]
      assms(2,3) cap by auto
qed

subsection \<open>Reachable states of an enforcer\<close>

datatype enforcer_call =
    CallTool datetime string "string list" "string list" string
  | CallTokens datetime int
  | CallDataRead int
  | CallMemoryOp int
  | CallRecomposition

fun enforcer_exec :: "enforcer_call \<Rightarrow> unit enf" where
  "enforcer_exec (CallTool now name scopes policies risk) = record_tool_invocation now name scopes policies risk"
| "enforcer_exec (CallTokens now n) = consume_tokens now n"
| "enforcer_exec (CallDataRead n) = record_data_read n"
| "enforcer_exec (CallMemoryOp n) = record_memory_op n"
| "enforcer_exec CallRecomposition = record_recomposition_request"

text \<open>One call of the runtime loop, whether it returns or raises.\<close>

inductive enforcer_step :: "enforcer \<Rightarrow> enforcer \<Rightarrow> bool" where
  "enforcer_exec call s = (outcome, s') \<Longrightarrow> enforcer_step s s'"

inductive_cases enforcer_stepE: "enforcer_step s s'"

fun limit_field :: "counter \<Rightarrow> string" where
  "limit_field ToolCalls = ''max_tool_calls''"
| "limit_field TokensUsed = ''max_tokens''"
| "limit_field DataReads = ''max_data_reads''"
| "limit_field MemoryOps = ''max_memory_ops''"
| "limit_field RecompositionRequests = ''max_recompositions''"

text \<open>Every counter is where it started or within its limit; the profile and the start time never
  change.\<close>

definition within_budget :: "enforcer \<Rightarrow> enforcer \<Rightarrow> bool" where
  "within_budget s0 s \<longleftrightarrow>
     en_profile s = en_profile s0 \<and> en_started_at s = en_started_at s0 \<and>
     (\<forall>c. counter_get c s0 \<le> counter_get c s \<and>
        (counter_get c s = counter_get c s0 \<or>
         (\<exists>limit. limit_of (en_profile s0) (limit_field c) = Inr limit \<and> counter_get c s \<le> limit)))"

lemma increment_within_budget: "keepsS (within_budget s0) (increment_limit c (limit_field c) n stop)"
proof -
  have "within_budget s0 (snd (increment_limit c (limit_field c) n stop s))" if inv: "within_budget s0 s" for s
  proof (cases "increment_limit c (limit_field c) n stop s")
    case (Pair r s')
    show ?thesis
    proof (cases "s' = s")
      case False
      then obtain limit where l: "0 \<le> n" "limit_of (en_profile s) (limit_field c) = Inr limit"
        "counter_get c s + n \<le> limit" "s' = counter_set c (counter_get c s + n) s"
        using Pair by (auto simp: increment_limit_def Let_def split: if_splits sum.splits)
      have "counter_get c' s0 \<le> counter_get c' s' \<and> (counter_get c' s' = counter_get c' s0 \<or>
         (\<exists>limit. limit_of (en_profile s0) (limit_field c') = Inr limit \<and> counter_get c' s' \<le> limit))" for c'
      proof (cases "c' = c")
        case True
        have "counter_get c s0 \<le> counter_get c s" "en_profile s = en_profile s0"
          using inv by (simp_all add: within_budget_def)
        then show ?thesis using l by (simp add: True)
      next
        case False
        then show ?thesis using inv l(4) by (simp add: within_budget_def)
      qed
      then show ?thesis using inv l(4) Pair by (simp add: within_budget_def)
    qed (use inv Pair in simp)
  qed
  then show ?thesis by (simp add: keepsS_def)
qed

lemma record_within_budget:
  "keepsS (within_budget s0) (record_data_read n)"
  "keepsS (within_budget s0) (record_memory_op n)"
  "keepsS (within_budget s0) record_recomposition_request"
  using increment_within_budget [of s0 DataReads] increment_within_budget [of s0 MemoryOps]
    increment_within_budget [of s0 RecompositionRequests]
  by (simp_all add: record_data_read_def record_memory_op_def record_recomposition_request_def)

lemma calls_within_budget:
  "keepsS (within_budget s0) (record_tool_invocation now name scopes policies risk)"
  "keepsS (within_budget s0) (consume_tokens now tokens)"
  using increment_within_budget [of s0 ToolCalls] increment_within_budget [of s0 TokensUsed]
  unfolding record_tool_invocation_def consume_tokens_def check_duration_def
  by (auto intro!: keepsS_bind keepsS_for simp: record_within_budget)

lemma enforcer_exec_within_budget: "keepsS (within_budget s0) (enforcer_exec call)"
  by (cases call) (simp_all add: calls_within_budget record_within_budget)

interpretation enforcer_inv: invariant_system "\<lambda>s. s = s0" enforcer_step "within_budget s0" for s0
proof
  show "within_budget s0 s" if "s = s0" for s using that by (simp add: within_budget_def)
  show "within_budget s0 t" if "within_budget s0 s" "enforcer_step s t" for s t
    using that(2,1) enforcer_exec_within_budget [of s0]
    by (elim enforcer_stepE) (metis keepsS_def snd_conv)
qed

text \<open>What validation has established of the recomposition budget.\<close>

lemma validated_recompositions:
  assumes "enforcer_init profile now = Inr s0" and "validate_profile_for_runtime s0 = Inr ()"
  shows "\<exists>limit. limit_of profile ''max_recompositions'' = Inr limit \<and> en_recomposition_requests s0 \<le> limit"
  using assms unfolding enforcer_init_def validate_profile_for_runtime_def Let_def
  by (auto simp: res_simps)

lemma init_counters:
  assumes "enforcer_init profile now = Inr s0"
  shows "en_profile s0 = profile" "c \<noteq> RecompositionRequests \<Longrightarrow> counter_get c s0 = 0" "0 \<le> counter_get c s0"
  using assms by (cases c; auto simp: enforcer_init_def bindR_Inr_iff)+

text \<open>C1. No run exceeds its profile: from a validated profile, through any sequence of tool calls,
  token charges, data reads, memory operations and recomposition requests, including calls that
  raise half-way, every counter stays non-negative and within the limit of the profile, and the
  profile itself is never changed.\<close>

theorem run_within_limits:
  assumes "enforcer_init profile now = Inr s0" and "validate_profile_for_runtime s0 = Inr ()"
    and "reach (\<lambda>s. s = s0) enforcer_step s"
  shows "en_profile s = profile \<and> (\<forall>c. 0 \<le> counter_get c s) \<and>
     (\<forall>c limit. limit_of profile (limit_field c) = Inr limit \<longrightarrow> counter_get c s \<le> max 0 limit)"
proof -
  note inv = enforcer_inv.reach_inv [OF assms(3)] and i = init_counters [OF assms(1)]
  have bound: "counter_get c s \<le> max 0 limit" if "limit_of profile (limit_field c) = Inr limit" for c limit
  proof (cases "c = RecompositionRequests")
    case True
    then show ?thesis using inv that i(1) validated_recompositions [OF assms(1,2)]
      by (fastforce simp: within_budget_def dest: spec [of _ RecompositionRequests])
  next
    case False
    then show ?thesis using inv that i(1) i(2) [of c] by (auto simp: within_budget_def dest!: spec [of _ c])
  qed
  moreover have "0 \<le> counter_get c s" for c
    using inv i(3) [of c] by (auto simp: within_budget_def dest!: spec [of _ c])
  ultimately show ?thesis using inv i(1) by (simp add: within_budget_def)
qed

subsection \<open>Tool invocations\<close>

lemma readS_success: "readS f s = (Inr x, s') \<longleftrightarrow> f s = Inr x \<and> s' = s"
  by auto

lemma forS_readS: "forS (\<lambda>x. readS (f x)) xs s = (Inr (), s') \<longleftrightarrow> (\<forall>x \<in> set xs. f x s = Inr ()) \<and> s' = s"
  by (induction xs) (auto simp: bindS_cases)

lemma increment_success:
  "increment_limit c name n stop s = (Inr (), s') \<longleftrightarrow>
     0 \<le> n \<and> (\<exists>limit. limit_of (en_profile s) name = Inr limit \<and> counter_get c s + n \<le> limit) \<and>
     s' = counter_set c (counter_get c s + n) s"
  by (auto simp: increment_limit_def Let_def split: if_splits sum.splits)

lemma require_listed_Inr:
  "require_listed field err profile name = Inr () \<longleftrightarrow> str_in name (get_or profile field (JList [])) = (Inr True :: bool enforced)"
  by (auto simp: require_listed_def res_simps)

lemma require_scopes_Inr:
  "require_scopes allowed kind requested = Inr () \<longleftrightarrow>
     (\<exists>xs. py_iter allowed = (Inr xs :: json list enforced) \<and> set requested \<subseteq> py_str ` set xs)"
  by (auto simp: require_scopes_def Let_def res_simps)

lemma tool_invocation_cases:
  "record_tool_invocation now tool scopes policies risk s = (Inr (), s') \<longleftrightarrow>
     (\<exists>d. limit_of (en_profile s) ''max_duration_seconds'' = Inr d \<and> now - en_started_at s \<le> seconds d) \<and>
     str_in tool (get_or (en_profile s) ''tools'' (JList [])) = (Inr True :: bool enforced) \<and>
     risk_rank risk \<le> risk_rank (py_str (get_or (en_profile s) ''risk_level'' (JStr ''low''))) \<and>
     (\<forall>p \<in> set policies. str_in p (get_or (en_profile s) ''policies'' (JList [])) = (Inr True :: bool enforced)) \<and>
     (\<exists>l. limit_of (en_profile s) ''max_tool_calls'' = Inr l \<and> en_tool_calls s + 1 \<le> l) \<and>
     (if scopes = [] then s' = s\<lparr>en_tool_calls := en_tool_calls s + 1\<rparr>
      else (\<exists>xs. py_iter (get_or (en_profile s) ''data_scopes'' (JList [])) = (Inr xs :: json list enforced) \<and>
              set scopes \<subseteq> py_str ` set xs) \<and>
           (\<exists>l. limit_of (en_profile s) ''max_data_reads'' = Inr l \<and> en_data_reads s + 1 \<le> l) \<and>
           s' = s\<lparr>en_tool_calls := en_tool_calls s + 1, en_data_reads := en_data_reads s + 1\<rparr>)"
proof -
  have dur: "check_duration now s = (Inr (), t) \<longleftrightarrow> t = s \<and>
      (\<exists>d. limit_of (en_profile s) ''max_duration_seconds'' = Inr d \<and> now - en_started_at s \<le> seconds d)" for t
    by (auto simp: check_duration_def res_simps)
  show ?thesis
    unfolding record_tool_invocation_def bindS_cases
    by (simp add: dur readS_success forS_readS increment_success require_tool_def require_policy_def
        require_listed_Inr require_tool_risk_def raise_if_Inr record_data_read_def bindS_cases
        require_data_scopes_def require_scopes_Inr not_less conj_assoc del: st_simps) auto
qed

text \<open>C35. A tool runs exactly when the profile says so: an invocation is recorded iff the run is
  within its time, the tool is selected, its risk does not exceed the profile's, every required
  policy is selected, the call budget has room, and the required data scopes (which charge one
  data read) are all selected; the new state differs only in those counters.\<close>

theorem tool_invocation_iff:
  "record_tool_invocation now tool scopes policies risk s = (Inr (), s') \<longleftrightarrow>
     (\<exists>d. limit_of (en_profile s) ''max_duration_seconds'' = Inr d \<and> now - en_started_at s \<le> seconds d) \<and>
     str_in tool (get_or (en_profile s) ''tools'' (JList [])) = (Inr True :: bool enforced) \<and>
     risk_rank risk \<le> risk_rank (py_str (get_or (en_profile s) ''risk_level'' (JStr ''low''))) \<and>
     (\<forall>p \<in> set policies. str_in p (get_or (en_profile s) ''policies'' (JList [])) = (Inr True :: bool enforced)) \<and>
     (\<exists>l. limit_of (en_profile s) ''max_tool_calls'' = Inr l \<and> en_tool_calls s + 1 \<le> l) \<and>
     (if scopes = [] then s' = s\<lparr>en_tool_calls := en_tool_calls s + 1\<rparr>
      else (\<exists>xs. py_iter (get_or (en_profile s) ''data_scopes'' (JList [])) = (Inr xs :: json list enforced) \<and>
              set scopes \<subseteq> py_str ` set xs) \<and>
           (\<exists>l. limit_of (en_profile s) ''max_data_reads'' = Inr l \<and> en_data_reads s + 1 \<le> l) \<and>
           s' = s\<lparr>en_tool_calls := en_tool_calls s + 1, en_data_reads := en_data_reads s + 1\<rparr>)"
  by (rule tool_invocation_cases)

text \<open>Writing needs approval: with the requirements that \<open>tool_policies.py\<close> declares for it, the
  write tool is recorded only under a profile that selects the tool, the approval policy and the
  write scope and is not of low or medium risk.\<close>

theorem write_tool_needs_approval:
  assumes "record_tool_invocation now ''filesystem-write'' (tool_required_data_scopes ''filesystem-write'')
      (tool_required_policies ''filesystem-write'') (tool_risk_level ''filesystem-write'') s = (Inr (), s')"
    and "get (en_profile s) ''tools'' = str_list tools" and "get (en_profile s) ''policies'' = str_list policies"
    and "get (en_profile s) ''data_scopes'' = str_list scopes" and "get (en_profile s) ''risk_level'' = JStr risk"
  shows "''filesystem-write'' \<in> set tools \<and> ''write-approval-required'' \<in> set policies \<and>
     ''repository-write'' \<in> set scopes \<and> risk \<notin> {''low'', ''medium''}"
proof -
  have f: "get_or (en_profile s) k d = get (en_profile s) k" if "get (en_profile s) k \<noteq> JNull" for k d
    using that by (auto simp: get_def get_or_def split: option.splits)
  have lists: "get_or (en_profile s) ''tools'' d = str_list tools" "get_or (en_profile s) ''policies'' d = str_list policies"
    "get_or (en_profile s) ''data_scopes'' d = str_list scopes" "get_or (en_profile s) ''risk_level'' d = JStr risk" for d
    using f assms(2-5) by (auto simp: str_list_def)
  show ?thesis
    using assms(1) unfolding tool_invocation_cases lists
    by (auto simp: tool_required_data_scopes_def tool_required_policies_def tool_risk_level_def risk_rank_def
        str_list_def split: if_splits)
qed

text \<open>The risk order fails open on the profile's side: \<open>_risk_rank\<close> gives an unknown level the
  highest rank, which blocks a tool with an unknown level but lets a profile whose level is not one
  of the four known ones use tools of every risk.\<close>

theorem unknown_profile_risk_admits_every_tool:
  assumes "get profile ''risk_level'' = JStr level" and "level \<notin> {''low'', ''medium'', ''high'', ''critical''}"
  shows "require_tool_risk profile tool risk = Inr ()"
proof -
  have "get_or profile ''risk_level'' (JStr ''low'') = JStr level"
    using assms(1) by (auto simp: get_def get_or_def split: option.splits)
  then show ?thesis using assms(2) by (simp add: require_tool_risk_def raise_if_Inr risk_rank_def)
qed

subsection \<open>Profiles of the composer pass the enforcer\<close>

lemma get_or_present: "get m k \<noteq> JNull \<Longrightarrow> get_or m k d = get m k"
  by (auto simp: get_def get_or_def split: option.splits)

lemma en_versions_pinned:
  assumes "get profile ''module_versions'' = JObj vs" and "set (selected_modules profile) \<subseteq> set (dict_keys vs)"
  shows "mapR (\<lambda>m. bindR (str_in m (get_or profile ''module_versions'' (JObj [])))
      (\<lambda>present. Inr (if present then [] else [m]))) (selected_modules profile)
    = (Inr (map (\<lambda>_. []) (selected_modules profile)) :: string list list enforced)"
proof -
  have "set ms \<subseteq> set (dict_keys vs) \<Longrightarrow> mapR (\<lambda>m. bindR (str_in m (JObj vs))
      (\<lambda>present. Inr (if present then [] else [m]))) ms = (Inr (map (\<lambda>_. []) ms) :: string list list enforced)" for ms
    by (induction ms) auto
  with assms show ?thesis by (simp add: get_or_present)
qed

definition tenant_object :: "analyzed_task \<Rightarrow> obj" where
  "tenant_object t = obj_or_empty (tenant_context t)"

lemma tenant_object_fields:
  "tenant_context t = JObj (tenant_object t)"
  "get_or (tenant_object t) ''tenant_id'' d = JStr (tenant_id (at_auth_claims t))"
  "get (tenant_object t) ''tenant_id'' = JStr (tenant_id (at_auth_claims t))"
  "get (tenant_object t) ''area_id'' = JStr (area_id (at_auth_claims t))"
  "get (tenant_object t) ''hostname'' = opt_str (tenant_hostname (at_auth_claims t))"
  "get (tenant_object t) ''membership_id'' = opt_str (membership_id (at_auth_claims t))"
  "get_or (tenant_object t) ''role_ids'' d = str_list (roles (at_auth_claims t))"
  "get_or (tenant_object t) ''allowed_role_capabilities'' d = str_list (role_capabilities (at_auth_claims t))"
  "get_or (tenant_object t) ''allowed_role_data_sources'' d = str_list (role_data_sources (at_auth_claims t))"
  by (simp_all add: tenant_object_def tenant_context_def obj_or_empty_def Let_def)

lemma tenant_object_derivation:
  "\<exists>m. get (tenant_object t) ''role_derivation'' = JObj m \<and> get m ''direct_user_grants_allowed'' = JBool False \<and>
     get m ''capabilities_derive_from_roles'' = JBool True \<and> get m ''data_sources_derive_from_roles'' = JBool True"
  by (simp_all add: tenant_object_def tenant_context_def obj_or_empty_def Let_def)

lemma en_identity_ok:
  "identity_ok (at_auth_claims t) authority \<Longrightarrow>
   en_validate_tenant_identity (tenant_object t) authority = Inr ()"
  using tenant_object_derivation [of t]
  by (auto simp: identity_ok_def en_validate_tenant_identity_def tenant_object_fields res_simps)

lemma string_set_subset: "set (string_set (str_list xs)) \<subseteq> set xs"
  by (auto simp: string_set_strs)

lemma string_set_nonblank_list: "\<forall>s \<in> set xs. strip s \<noteq> [] \<Longrightarrow> string_set (str_list xs) = xs"
  by (simp add: string_set_strs_id)

lemma en_membership_ok:
  assumes "membership_ok (at_auth_claims t) authority"
    and "profile_principal_id profile = JStr (principal_id (at_auth_claims t))"
  shows "en_validate_tenant_membership profile (tenant_object t) authority = Inr (sorted_set (roles (at_auth_claims t)))"
proof -
  from assms(1) have "\<forall>r \<in> set (roles (at_auth_claims t)). strip r \<noteq> []"
    by (auto simp: membership_ok_def dest!: string_set_nonblank subsetD)
  then have "string_set (str_list (roles (at_auth_claims t))) = roles (at_auth_claims t)"
    by (rule string_set_nonblank_list)
  with assms show ?thesis
    by (auto simp: membership_ok_def en_validate_tenant_membership_def tenant_object_fields res_simps Let_def)
qed

lemma en_bundles_agree:
  assumes "role_bundles_of authority rs = Inr bundles"
  shows "en_tenant_role_bundles authority rs = Inr bundles"
  using assms
  by (auto simp: role_bundles_of_def en_tenant_role_bundles_def Let_def res_simps getitem_def get_or_def
      split: option.splits)

text \<open>The documents on which composer and enforcer disagree: the composer skips a data-source
  grant without a string identifier, the enforcer rejects it.\<close>

definition grants_identified :: "auth_claims \<Rightarrow> obj \<Rightarrow> bool" where
  "grants_identified claims authority \<longleftrightarrow>
     (\<forall>r \<in> set (roles claims). \<forall>role. item_at authority ''role_bundles'' r = Some role \<longrightarrow>
        (\<forall>g \<in> set (mappings (get_or role ''data_source_grants'' (JList []))). \<exists>i. get g ''data_source_id'' = JStr i))"

lemma en_grant_sources_agree:
  assumes "\<forall>g \<in> set gs. \<exists>i. get g ''data_source_id'' = JStr i"
    and "\<forall>g \<in> set gs. \<forall>i. get g ''data_source_id'' = JStr i \<longrightarrow>
      (\<exists>s. map_of d i = Some s \<and> get s ''tenant_id'' = JStr T)"
  shows "mapR (en_grant_source d T) gs = Inr (List.map_filter (\<lambda>g. as_str (get g ''data_source_id'')) gs)"
  using assms by (induction gs) (auto simp: en_grant_source_def List.map_filter_simps)

lemma en_grants_ok:
  assumes "validate_role_grants t authority bundles = Inr ()"
    and "\<forall>role \<in> set bundles. \<forall>g \<in> set (mappings (get_or role ''data_source_grants'' (JList []))).
      \<exists>i. get g ''data_source_id'' = JStr i"
  shows "en_validate_tenant_role_grants (tenant_object t) authority bundles = Inr ()"
proof -
  let ?T = "tenant_id (at_auth_claims t)"
    and ?ids = "\<lambda>role. List.map_filter (\<lambda>g. as_str (get g ''data_source_id''))
      (mappings (get_or role ''data_source_grants'' (JList [])))"
  note v = assms(1) [unfolded validate_role_grants_iff]
  from v obtain sources where src: "list_at authority ''data_sources'' = Some sources" by blast
  let ?f = "\<lambda>role. mapR (en_grant_source (by_string_id sources) ?T)
    (mappings (get_or role ''data_source_grants'' (JList [])))"
  have one: "?f role = Inr (?ids role)" if "role \<in> set bundles" for role
  proof (rule en_grant_sources_agree)
    show "\<forall>g \<in> set (mappings (get_or role ''data_source_grants'' (JList []))). \<forall>i.
        get g ''data_source_id'' = JStr i \<longrightarrow>
        (\<exists>s. map_of (by_string_id sources) i = Some s \<and> get s ''tenant_id'' = JStr ?T)"
      using v that src by (auto simp: item_at_def grant_ids_def)
  qed (use assms(2) that in blast)
  have all: "mapR ?f bs = Inr (map ?ids bs)" if "set bs \<subseteq> set bundles" for bs
    using that one by (induction bs) auto
  have "set (concat (map ?ids bundles)) = (\<Union>role \<in> set bundles. grant_ids role)"
    by (simp add: set_granted_sources)
  with v all [of bundles] src show ?thesis
    using string_set_subset [of "role_capabilities (at_auth_claims t)"]
      string_set_subset [of "role_data_sources (at_auth_claims t)"]
    by (auto simp: en_validate_tenant_role_grants_def tenant_object_fields list_at_def res_simps Let_def
        strings_at_def)
qed

lemma en_modules_ok:
  assumes "validate_selected_modules authority bundles sel = Inr ()"
    and fields: "\<And>field. field \<in> {''skills'', ''tools'', ''policies'', ''validators'', ''knowledge_scopes'', ''data_scopes'',
      ''memory_scopes'', ''instructions''} \<Longrightarrow> get_or profile field (JList []) = str_list (selected_of sel field)"
  shows "en_validate_tenant_selected_modules profile authority bundles = Inr ()"
proof -
  from assms(1) obtain ds us where ds: "mapR derived_modules bundles = Inr ds"
    and us: "mapR (\<lambda>(field, allowed). let denied = sorted_diff (selected_of sel field) allowed
          in raise_if (denied \<noteq> []) (ModulesNotAllowed field denied)) (module_checks authority ds) = Inr us"
    and ins: "set (selected_of sel ''instructions'') \<subseteq> set BASELINE_INSTRUCTIONS"
    by (auto simp: validate_selected_modules_def bindR_Inr_iff Let_def raise_if_Inr)
  have ds': "mapR (\<lambda>role. case as_obj (get_or role ''derived_runtime_modules'' (JObj [])) of
              None \<Rightarrow> Inl (Raise (deny ''Tenant role bundle is missing runtime module derivation.''
                       ''tenant_runtime_derivation_missing''))
            | Some derived \<Rightarrow> Inr derived) bundles = Inr ds"
    using ds unfolding mapR_Inr_iff
    by (rule list_all2_mono) (auto simp: derived_modules_def split: option.splits)
  have sub: "\<forall>(field, allowed) \<in> set (module_checks authority ds). set (selected_of sel field) \<subseteq> set allowed"
    using us mapR_checks_iff by blast
  have "\<exists>us. mapR (\<lambda>(field, allowed, code).
              let denied = sorted_diff (string_set (get_or profile field (JList []))) allowed
              in raise_if (denied \<noteq> [])
                   (deny (''Tenant runtime profile selected unauthorized '' @ field @ '': '' @ join '', '' denied) code))
            checks = Inr us"
    if "\<forall>(field, allowed, code) \<in> set checks. set (string_set (get_or profile field (JList []))) \<subseteq> set allowed" for checks
    using that by (induction checks) (auto simp: res_simps Let_def)
  moreover have "\<forall>(field, allowed, code) \<in> set (en_module_checks authority ds).
      set (string_set (get_or profile field (JList []))) \<subseteq> set allowed"
    using sub string_set_subset unfolding module_checks_def en_module_checks_def Let_def
    by (simp add: fields) (meson order_trans)
  ultimately show ?thesis
    using ds' ins string_set_subset [of "selected_of sel ''instructions''"] fields [of "''instructions''"]
    by (auto simp: en_validate_tenant_selected_modules_def bindR_Inr_iff Let_def raise_if_Inr)
qed

lemma en_tenant_authority_ok:
  assumes acc: "validate_tenant_access t ctx sel = Inr ()"
    and snap: "tenant_authority_snapshot t ctx = Inr au" and p: "get profile ''tenant_authority'' = au"
    and tc: "get profile ''tenant_context'' = tenant_context t"
    and pr: "profile_principal_id profile = JStr (principal_id (at_auth_claims t))"
    and gr: "\<And>a. get ctx ''tenant_authority'' = JObj a \<Longrightarrow> grants_identified (at_auth_claims t) a"
    and fields: "\<And>field. field \<in> {''skills'', ''tools'', ''policies'', ''validators'', ''knowledge_scopes'', ''data_scopes'',
      ''memory_scopes'', ''instructions''} \<Longrightarrow> get_or profile field (JList []) = str_list (selected_of sel field)"
  shows "en_validate_tenant_authority profile = Inr ()"
proof (cases "tenant_id (at_auth_claims t) = ''global''")
  case True
  then show ?thesis using snap p
    by (simp add: en_validate_tenant_authority_def tc tenant_object_fields GLOBAL_TENANT_ID_def
        tenant_authority_snapshot_def raise_if_Inr)
next
  case False
  let ?c = "at_auth_claims t"
  from acc False obtain a rs bs where a: "get ctx ''tenant_authority'' = JObj a"
    and v: "validate_tenant_identity t a = Inr ()" "validate_membership t a = Inr rs"
      "role_bundles_of a rs = Inr bs" "validate_role_grants t a bs = Inr ()"
      "validate_selected_modules a bs sel = Inr ()"
    by (auto simp: validate_tenant_access_def GLOBAL_TENANT_ID_def bindR_Inr_iff as_obj_iff split: option.splits)
  have T: "get a ''tenant_id'' = JStr (tenant_id ?c)"
    using v(1) by (simp add: validate_tenant_identity_iff identity_ok_def)
  have m: "membership_ok ?c a" and rs: "rs = sorted_set (roles ?c)"
    using v(2) by (simp_all add: validate_membership_iff)
  have ids: "\<forall>role \<in> set bs. \<forall>g \<in> set (mappings (get_or role ''data_source_grants'' (JList []))).
      \<exists>i. get g ''data_source_id'' = JStr i"
    using v(3) gr [OF a] rs unfolding role_bundles_of_iff [OF T] grants_identified_def by fastforce
  have "get profile ''tenant_authority'' = JObj a"
    using p snap a False by (simp add: tenant_authority_snapshot_def)
  then show ?thesis
    using False en_identity_ok [of t a] v(1) en_membership_ok [OF m pr] en_bundles_agree [OF v(3)]
      en_grants_ok [OF v(4) ids] en_modules_ok [OF v(5) fields]
    by (simp add: en_validate_tenant_authority_def tc tenant_object_fields GLOBAL_TENANT_ID_def
        validate_tenant_identity_iff rs)
qed

lemma profile_object_principal:
  "profile_principal_id (profile_object t g pa re au rv ms ex vs li fp) = JStr (principal_id (at_auth_claims t))"
  by (simp add: profile_principal_id_def profile_object_def auth_context_def Let_def split: option.splits)

lemma profile_object_selection:
  assumes "field \<in> {''skills'', ''tools'', ''policies'', ''validators'', ''knowledge_scopes'', ''data_scopes'',
      ''memory_scopes'', ''instructions''}"
  shows "get_or (profile_object t g pa re au rv ms ex vs li fp) field (JList [])
     = str_list (selected_of (selected_by_field ms) field)"
  using assms
  by (elim insertE) (simp_all add: get_or_present profile_object_fields selected_of_def selected_by_field_def str_list_def)

definition recomposition_limit :: "analyzed_task \<Rightarrow> int" where
  "recomposition_limit t = (if at_requires_human_review t then 0 else 1)"

lemma composed_limits:
  assumes "compose t ctx gen parent reason = Inr p"
  shows "limit_of p ''max_recompositions'' = Inr (recomposition_limit t)"
proof (cases "at_requires_human_review t")
  case True
  with assms show ?thesis
    by (elim compose_review) (simp_all add: limit_of_def get_or_present profile_object_fields recomposition_limit_def
        HUMAN_REVIEW_LIMITS_def DEFAULT_LIMITS_def)
next
  case False
  with assms show ?thesis
    by (elim compose_runtime) (simp_all add: limit_of_def get_or_present profile_object_fields recomposition_limit_def
        DEFAULT_LIMITS_def)
qed


lemma review_profile_limits:
  assumes "compose t ctx gen parent reason = Inr p" and "at_requires_human_review t"
  shows "c \<noteq> TokensUsed \<Longrightarrow> limit_of p (limit_field c) = Inr 0"
    and "get_or p ''tools'' (JList []) = JList []"
proof -
  from compose_review [OF assms] obtain au vs where
    p: "p = profile_object t gen parent reason au (human_review_required t) (human_review_selection ctx)
        empty_execution_roles vs HUMAN_REVIEW_LIMITS HUMAN_REVIEW_FAILURE_POLICY" by metis
  show "limit_of p (limit_field c) = Inr 0" if "c \<noteq> TokensUsed"
    using that by (cases c) (simp_all add: p limit_of_def get_or_present profile_object_fields
        HUMAN_REVIEW_LIMITS_def DEFAULT_LIMITS_def)
  show "get_or p ''tools'' (JList []) = JList []"
    by (simp add: p get_or_present profile_object_fields human_review_selection_def str_list_def)
qed

text \<open>C36. Nothing happens before approval: in every state a run can reach under a validated profile of
  a task that needs human review, no tool call, data read, memory operation or recomposition was
  ever charged, and every further attempt to record a tool invocation, a data read or a memory
  operation is refused.\<close>

theorem review_run_inert:
  assumes "compose t ctx gen parent reason = Inr p" and "at_requires_human_review t"
    and "enforcer_init p now = Inr s0" and "validate_profile_for_runtime s0 = Inr ()"
    and "reach (\<lambda>s. s = s0) enforcer_step s"
  shows "(\<forall>c. c \<noteq> TokensUsed \<longrightarrow> counter_get c s = 0) \<and>
     (\<forall>at tool scopes policies risk. fst (record_tool_invocation at tool scopes policies risk s) \<noteq> Inr ()) \<and>
     fst (record_data_read 1 s) \<noteq> Inr () \<and> fst (record_memory_op 1 s) \<noteq> Inr ()"
proof -
  note lim = review_profile_limits [OF assms(1,2)]
  note inv = enforcer_inv.reach_inv [OF assms(5)] and i = init_counters [OF assms(3)]
  have prof: "en_profile s = p" using inv i(1) by (simp add: within_budget_def)
  have start: "counter_get c s0 = 0" if "c \<noteq> TokensUsed" for c
    using validated_recompositions [OF assms(3,4)] lim(1) [of RecompositionRequests] i(2,3) [of c]
    by (cases c) auto
  have zero: "counter_get c s = 0" if "c \<noteq> TokensUsed" for c
    using inv start [OF that] lim(1) [OF that] i(1) by (auto simp: within_budget_def dest!: spec [of _ c])
  have "fst (record_tool_invocation at tool scopes policies risk s) \<noteq> Inr ()" for at tool scopes policies risk
  proof
    assume "fst (record_tool_invocation at tool scopes policies risk s) = Inr ()"
    then obtain s' where "record_tool_invocation at tool scopes policies risk s = (Inr (), s')"
      by (metis prod.collapse)
    then show False unfolding tool_invocation_cases prof by (simp add: lim(2))
  qed
  moreover have "fst (increment_limit c (limit_field c) 1 None s) \<noteq> Inr ()" if "c \<noteq> TokensUsed" for c
    using zero [OF that] lim(1) [OF that] by (simp add: increment_limit_def Let_def prof)
  from this [of DataReads] this [of MemoryOps]
  have "fst (record_data_read 1 s) \<noteq> Inr ()" "fst (record_memory_op 1 s) \<noteq> Inr ()"
    by (simp_all add: record_data_read_def record_memory_op_def)
  ultimately show ?thesis using zero by blast
qed

subsection \<open>Witnesses\<close>

definition sample_enforcer :: enforcer where
  "sample_enforcer = \<lparr>en_profile = sample_profile, en_started_at = 0, en_tool_calls = 0, en_tokens_used = 0,
     en_data_reads = 0, en_memory_ops = 0, en_recomposition_requests = 0\<rparr>"

definition review_enforcer :: enforcer where
  "review_enforcer = sample_enforcer\<lparr>en_profile := review_profile\<rparr>"

definition write_profile :: obj where
  "write_profile =
     [(''tools'', str_list [''filesystem-write'']), (''policies'', str_list [''write-approval-required'']),
      (''data_scopes'', str_list [''repository-write'']), (''risk_level'', JStr ''high''),
      (''limits'', JObj [(''max_tool_calls'', JInt 1), (''max_data_reads'', JInt 1), (''max_duration_seconds'', JInt 60)])]"

definition write_enforcer :: enforcer where
  "write_enforcer = sample_enforcer\<lparr>en_profile := write_profile\<rparr>"

lemma sample_enforcer_ok:
  "enforcer_init sample_profile 0 = Inr sample_enforcer" "validate_profile_for_runtime sample_enforcer = Inr ()"
  by code_simp+

lemma review_enforcer_ok:
  "enforcer_init review_profile 0 = Inr review_enforcer" "validate_profile_for_runtime review_enforcer = Inr ()"
  by code_simp+

theorem limit_is_hard_budget_witness:
  "counter_get TokensUsed (snd (spend (\<lambda>n. increment_limit TokensUsed ''max_tokens'' n None) [50000, 20000, 10000] sample_enforcer)) = 60000"
proof -
  have l: "limit_of (en_profile sample_enforcer) ''max_tokens'' = Inr 60000" "counter_get TokensUsed sample_enforcer \<le> 60000"
    "fst (spend (\<lambda>n. increment_limit TokensUsed ''max_tokens'' n None) [50000, 20000, 10000] sample_enforcer) = 60000"
    "counter_get TokensUsed sample_enforcer = 0"
    by code_simp+
  show ?thesis
    using limit_is_hard_budget [OF l(1,2) prod.collapse [symmetric], where charges = "[50000, 20000, 10000]" and stop = None] l(3,4)
    by simp
qed

theorem run_within_limits_witness:
  "counter_get MemoryOps (snd (record_memory_op 3 sample_enforcer)) \<le> 10"
proof -
  have "enforcer_step sample_enforcer (snd (record_memory_op 3 sample_enforcer))"
    by (rule enforcer_step.intros [of "CallMemoryOp 3"]) (simp add: prod_eq_iff)
  then have r: "reach (\<lambda>s. s = sample_enforcer) enforcer_step (snd (record_memory_op 3 sample_enforcer))"
    by (blast intro: reach_init reach_step)
  have "limit_of sample_profile (limit_field MemoryOps) = Inr 10" by code_simp
  then show ?thesis using run_within_limits [OF sample_enforcer_ok r] by fastforce
qed

theorem tool_invocation_iff_witness:
  "fst (record_tool_invocation 0 ''shell'' [] [''read-only''] ''low'' sample_enforcer) \<noteq> Inr ()"
proof
  assume "fst (record_tool_invocation 0 ''shell'' [] [''read-only''] ''low'' sample_enforcer) = Inr ()"
  then obtain s' where "record_tool_invocation 0 ''shell'' [] [''read-only''] ''low'' sample_enforcer = (Inr (), s')"
    by (metis prod.collapse)
  moreover have "str_in ''shell'' (get_or (en_profile sample_enforcer) ''tools'' (JList [])) = (Inr False :: bool enforced)"
    by code_simp
  ultimately show False unfolding tool_invocation_iff by simp
qed

theorem write_tool_needs_approval_witness:
  "fst (record_tool_invocation 5 ''filesystem-write'' (tool_required_data_scopes ''filesystem-write'')
      (tool_required_policies ''filesystem-write'') (tool_risk_level ''filesystem-write'') write_enforcer) = Inr () \<and>
   ''repository-write'' \<in> set [''repository-write'']"
proof -
  let ?r = "record_tool_invocation 5 ''filesystem-write'' (tool_required_data_scopes ''filesystem-write'')
      (tool_required_policies ''filesystem-write'') (tool_risk_level ''filesystem-write'') write_enforcer"
  have ok: "fst ?r = Inr ()" by code_simp
  then obtain s' where r: "?r = (Inr (), s')" by (metis prod.collapse)
  have p: "get (en_profile write_enforcer) ''tools'' = str_list [''filesystem-write'']"
    "get (en_profile write_enforcer) ''policies'' = str_list [''write-approval-required'']"
    "get (en_profile write_enforcer) ''data_scopes'' = str_list [''repository-write'']"
    "get (en_profile write_enforcer) ''risk_level'' = JStr ''high''"
    by (simp_all add: write_enforcer_def write_profile_def)
  show ?thesis using write_tool_needs_approval [OF r p] ok by blast
qed

theorem unknown_profile_risk_admits_every_tool_witness:
  "require_tool_risk [(''risk_level'', JStr ''moderate'')] ''shell'' ''critical'' = Inr ()"
  by (rule unknown_profile_risk_admits_every_tool [where level = "''moderate''"]) simp_all


theorem review_run_inert_witness: "fst (record_data_read 1 review_enforcer) \<noteq> Inr ()"
  using review_run_inert [OF compose_review_sample _ review_enforcer_ok reach_init [where init = "\<lambda>s. s = review_enforcer"]]
  by (simp add: review_analyzed_def)

definition unidentified_context :: obj where
  "unidentified_context = dict_set ''tenant_authority'' (JObj (dict_set ''role_bundles''
     (JList [JObj [(''id'', JStr ''reviewer''), (''tenant_id'', JStr ''acme''),
         (''capability_grants'', str_list [''review'']),
         (''data_source_grants'', JList [JObj [(''data_source_id'', JStr ''ds-1'')], JObj [(''scope'', JStr ''all'')]]),
         (''derived_runtime_modules'', JObj [(''skills'', str_list [''review-skill'']),
            (''tools'', str_list [''diff-reader'']), (''policies'', str_list [''read-only''])])]]) sample_authority))
     sample_context"

text \<open>The composer and the enforcer disagree on a data-source grant without an identifier: the same
  authority composes, and the enforcer then refuses the emitted profile.\<close>

theorem unidentified_grant_divergence:
  "case compose sample_analyzed unidentified_context 1 None None of
     Inl _ \<Rightarrow> False
   | Inr p \<Rightarrow> (case enforcer_init p 0 of
       Inl _ \<Rightarrow> False
     | Inr s0 \<Rightarrow> validate_profile_for_runtime s0 =
         Inl (Raise (deny ''Tenant data-source grant is missing a data source id.'' ''tenant_data_source_grant_invalid'')))"
  by code_simp

end
