(* ===== verification/Run_Trail.thy ===== *)
theory Run_Trail
  imports Enforcement Artifact_Frame
begin

text \<open>
  The state of a run and the trail it leaves in the event log. A run works on the runtime system, its enforcer, the
  gateway's invocation counter, the clocks and the world outside, which is a type parameter. What its statements do is
  stated with two predicates, relative to a frame, an invariant of the run's state: a statement \<open>leaves\<close> a list of
  events when it always succeeds with them, and \<open>ends\<close> with a relation between its outcome and its events when it may
  raise. The locale \<open>run_frame\<close> says which invariants recording keeps.
\<close>

subsection \<open>State\<close>

record 'w run_state =
  ru_sys :: runtime_sys
  ru_enforcer :: enforcer
  ru_invocation_index :: int
  ru_ticks :: nat
  ru_world :: 'w

type_synonym ('w, 'e, 'a) runner = "('w run_state, 'e, 'a) st"

abbreviation store_of :: "'w run_state \<Rightarrow> store" where
  "store_of s \<equiv> qs_store (ru_sys s)"

text \<open>A clock is a function from the number of the reading.\<close>

definition tick :: "(nat \<Rightarrow> datetime) \<Rightarrow> ('w, 'e, datetime) runner" where
  "tick clock s = (Inr (clock (ru_ticks s)), s\<lparr>ru_ticks := Suc (ru_ticks s)\<rparr>)"

definition on_sys :: "('e, 'a) sys \<Rightarrow> ('w, 'e, 'a) runner" where
  "on_sys m s = (case m (ru_sys s) of (r, q) \<Rightarrow> (r, s\<lparr>ru_sys := q\<rparr>))"

text \<open>A \<open>for\<close> loop that collects the values of its body.\<close>

fun mapS :: "('a \<Rightarrow> ('s, 'e, 'b) st) \<Rightarrow> 'a list \<Rightarrow> ('s, 'e, 'b list) st" where
  "mapS f [] = retS []"
| "mapS f (x # xs) = bindS (f x) (\<lambda>y. bindS (mapS f xs) (\<lambda>ys. retS (y # ys)))"

text \<open>A call whose errors are a case of the caller's.\<close>

definition raising :: "('e \<Rightarrow> 'f) \<Rightarrow> ('s, 'e, 'a) st \<Rightarrow> ('s, 'f, 'a) st" where
  "raising f m s = (case m s of (r, s') \<Rightarrow> (catch_as f r, s'))"

text \<open>Recording with the readings of the clock that the recorder takes.\<close>

definition run_event :: "(nat \<Rightarrow> datetime) \<Rightarrow> string \<Rightarrow> bool \<Rightarrow> event_call \<Rightarrow> ('w, 'e, obj) runner" where
  "run_event clock run redact c = bindS (tick clock) (\<lambda>t. on_sys (record_event t run (c\<lparr>ev_redact := redact\<rparr>)))"

definition run_checkpoint :: "(nat \<Rightarrow> datetime) \<Rightarrow> string \<Rightarrow> bool \<Rightarrow> string option \<Rightarrow> string \<Rightarrow> json \<Rightarrow> ('w, 'e, obj) runner" where
  "run_checkpoint clock run redact step phase state =
     bindS (tick clock) (\<lambda>t. bindS (tick clock) (\<lambda>t'. on_sys (checkpoint t t' run phase state step 0 redact)))"

subsection \<open>Trails\<close>

text \<open>The events between two states of a store, by type and stop reason.\<close>

type_synonym events = "(string \<times> string option) list"

definition trail :: "string \<Rightarrow> store \<Rightarrow> store \<Rightarrow> events \<Rightarrow> bool" where
  "trail run s s' xs \<longleftrightarrow>
     (\<exists>es. st_runtime_events s' = st_runtime_events s @ es \<and>
        list_all2 (\<lambda>e x. get e ''run_id'' = JStr run \<and> get e ''event_type'' = JStr (fst x) \<and> get e ''stop_reason'' = opt_str (snd x)) es xs)"

lemma trail_Nil: "st_runtime_events s' = st_runtime_events s \<Longrightarrow> trail run s s' []"
  by (simp add: trail_def)

lemma trail_append: "trail run s s1 xs \<Longrightarrow> trail run s1 s' ys \<Longrightarrow> trail run s s' (xs @ ys)"
  unfolding trail_def by (elim exE conjE, rule exI, rule conjI [OF _ list_all2_appendI]) auto

lemma trail_logged: "event_of run c e \<Longrightarrow> trail run s (logged run e s) [(ev_event_type c, ev_stop_reason c)]"
  unfolding trail_def by (rule exI [of _ "[e]"]) (simp add: logged_def event_of_def)

subsection \<open>Statements that succeed\<close>

definition leaves :: "('w run_state \<Rightarrow> bool) \<Rightarrow> string \<Rightarrow> ('w, 'e, 'a) runner \<Rightarrow> events \<Rightarrow> bool" where
  "leaves I run m xs \<longleftrightarrow> (\<forall>s. I s \<longrightarrow> (\<exists>x s'. m s = (Inr x, s') \<and> I s' \<and> trail run (store_of s) (store_of s') xs))"

lemma leavesE:
  assumes "leaves I run m xs" and "I s"
  obtains x s' where "m s = (Inr x, s')" "I s'" "trail run (store_of s) (store_of s') xs"
  using assms unfolding leaves_def by blast

lemma leaves_ret: "leaves I run (retS x) []"
  by (simp add: leaves_def trail_Nil)

lemma leaves_lift: "leaves I run (liftS (Inr x)) []"
  by (simp add: leaves_def liftS_def trail_Nil)

lemma leaves_bind:
  assumes "leaves I run (m :: ('w, 'e, 'a) runner) xs" and "\<And>x. leaves I run (f x :: ('w, 'e, 'b) runner) ys"
  shows "leaves I run (bindS m f) (xs @ ys)"
  unfolding leaves_def
proof (intro allI impI)
  fix s :: "'w run_state" assume "I s"
  with assms(1) obtain x s1 where m: "m s = (Inr x, s1)" "I s1" "trail run (store_of s) (store_of s1) xs" by (rule leavesE)
  from assms(2) m(2) obtain y s' where f: "f x s1 = (Inr y, s')" "I s'" "trail run (store_of s1) (store_of s') ys" by (rule leavesE)
  have "bindS m f s = (Inr y, s')" by (simp add: bindS_def m(1) f(1))
  with f(2) trail_append [OF m(3) f(3)]
  show "\<exists>x s'. bindS m f s = (Inr x, s') \<and> I s' \<and> trail run (store_of s) (store_of s') (xs @ ys)" by blast
qed

lemma leaves_then:
  "leaves I run (m :: ('w, 'e, 'a) runner) [] \<Longrightarrow> (\<And>x. leaves I run (f x :: ('w, 'e, 'b) runner) ys) \<Longrightarrow> leaves I run (bindS m f) ys"
  using leaves_bind [of I run m "[]" f ys] by simp

lemma leaves_last: "leaves I run (m :: ('w, 'e, 'a) runner) xs \<Longrightarrow> leaves I run (bindS m (\<lambda>x. retS (g x))) xs"
  using leaves_bind [OF _ leaves_ret] by fastforce

lemma leaves_read: "(\<And>s. I s \<Longrightarrow> \<exists>x. f s = Inr x) \<Longrightarrow> leaves I run (readS f) []"
  unfolding leaves_def readS_def by (metis trail_Nil)

lemma leaves_bind_read: "(\<And>s. leaves I run (k (f s)) xs) \<Longrightarrow> leaves I run (bindS (readS (\<lambda>s. Inr (f s))) k) xs"
  by (simp add: leaves_def bindS_def readS_def)

lemma leaves_map: "(\<And>x. x \<in> set xs \<Longrightarrow> leaves I run (f x) (g x)) \<Longrightarrow> leaves I run (mapS f xs) (concat (map g xs))"
  by (induction xs) (auto intro!: leaves_bind leaves_last simp: leaves_ret)

subsection \<open>Statements that may raise\<close>

definition ends :: "('w run_state \<Rightarrow> bool) \<Rightarrow> string \<Rightarrow> ('w, 'e, 'a) runner \<Rightarrow> (('e, 'a) res \<Rightarrow> events \<Rightarrow> bool) \<Rightarrow> bool" where
  "ends I run m P \<longleftrightarrow> (\<forall>s. I s \<longrightarrow> (\<exists>r s' xs. m s = (r, s') \<and> P r xs \<and> I s' \<and> trail run (store_of s) (store_of s') xs))"

lemma endsE:
  assumes "ends I run m P" and "I s"
  obtains r s' xs where "m s = (r, s')" "P r xs" "I s'" "trail run (store_of s) (store_of s') xs"
  using assms unfolding ends_def by blast

lemma ends_pure: "P r [] \<Longrightarrow> ends I run (liftS r) P" "P (Inr x) [] \<Longrightarrow> ends I run (retS x) P"
  unfolding ends_def by (auto simp: liftS_def retS_def intro: trail_Nil)

lemma ends_read: "(\<And>s. I s \<Longrightarrow> P (f s) []) \<Longrightarrow> ends I run (readS f) P"
  unfolding ends_def readS_def by (metis trail_Nil)

lemma ends_weaken: "ends I run m Q \<Longrightarrow> (\<And>r xs. Q r xs \<Longrightarrow> P r xs) \<Longrightarrow> ends I run m P"
  unfolding ends_def by blast

lemma ends_leaves: "leaves I run m xs \<Longrightarrow> (\<And>x. P (Inr x) xs) \<Longrightarrow> ends I run m P"
  unfolding ends_def leaves_def by blast

lemma ends_any:
  assumes "ends I run (m :: ('w, 'e, 'a) runner) Q" and "\<And>x xs. Q (Inr x) xs \<Longrightarrow> ends I run (f x :: ('w, 'e, 'b) runner) (\<lambda>r ys. P r (xs @ ys))"
    and "\<And>e xs. Q (Inl e) xs \<Longrightarrow> P (Inl e) xs"
  shows "ends I run (bindS m f) P"
  unfolding ends_def
proof (intro allI impI)
  fix s :: "'w run_state" assume "I s"
  with assms(1) obtain r s1 xs where m: "m s = (r, s1)" "Q r xs" "I s1" "trail run (store_of s) (store_of s1) xs" by (rule endsE)
  show "\<exists>r s' xs. bindS m f s = (r, s') \<and> P r xs \<and> I s' \<and> trail run (store_of s) (store_of s') xs"
  proof (cases r)
    case (Inl e)
    with m assms(3) [of e xs] show ?thesis by (auto simp: bindS_def)
  next
    case (Inr x)
    with m(2) have "Q (Inr x) xs" by simp
    from assms(2) [OF this] m(3) obtain r' s' ys where f: "f x s1 = (r', s')" "P r' (xs @ ys)" "I s'"
      "trail run (store_of s1) (store_of s') ys" by (rule endsE)
    have "bindS m f s = (r', s')" by (simp add: bindS_def m(1) Inr f(1))
    with f(2,3) trail_append [OF m(4) f(4)] show ?thesis by blast
  qed
qed

lemma ends_bind:
  assumes "leaves I run (m :: ('w, 'e, 'a) runner) xs" and "\<And>x. ends I run (f x :: ('w, 'e, 'b) runner) (\<lambda>r ys. P r (xs @ ys))"
  shows "ends I run (bindS m f) P"
  by (rule ends_any [where Q = "\<lambda>r ys. ys = xs \<and> (\<exists>x. r = Inr x)"]) (use assms in \<open>auto intro: ends_leaves\<close>)

lemma ends_then:
  assumes "leaves I run (m :: ('w, 'e, 'a) runner) []" and "\<And>x. ends I run (f x :: ('w, 'e, 'b) runner) P"
  shows "ends I run (bindS m f) P"
  by (rule ends_bind [OF assms(1)]) (simp add: assms(2))

text \<open>The first statements of a block, as a passage between two states of the frame.\<close>

definition passes :: "('w run_state \<Rightarrow> bool) \<Rightarrow> string \<Rightarrow> 'w run_state \<Rightarrow> 'w run_state \<Rightarrow> events \<Rightarrow> bool" where
  "passes I run s s' xs \<longleftrightarrow> I s' \<and> trail run (store_of s) (store_of s') xs"

lemma passes_refl: "I s \<Longrightarrow> passes I run s s []"
  by (simp add: passes_def trail_Nil)

lemma passes_step:
  assumes "leaves I run (m :: ('w, 'e, 'a) runner) ys" and "passes I run s0 s xs"
  obtains x s' where "bindS m (f :: 'a \<Rightarrow> ('w, 'e, 'b) runner) s = f x s'" "passes I run s0 s' (xs @ ys)"
proof -
  have "I s" using assms(2) by (simp add: passes_def)
  with assms(1) obtain x s' where m: "m s = (Inr x, s')" "I s'" "trail run (store_of s) (store_of s') ys" by (rule leavesE)
  have "bindS m f s = f x s'" by (simp add: bindS_def m(1))
  moreover have "passes I run s0 s' (xs @ ys)" using m assms(2) trail_append unfolding passes_def by metis
  ultimately show ?thesis by (rule that)
qed

text \<open>A statement whose value the frame of the rest depends on.\<close>

lemma ends_call:
  assumes "\<And>s. I s \<Longrightarrow> \<exists>x s'. (m :: ('w, 'e, 'a) runner) s = (Inr x, s') \<and> J x s' \<and> trail run (store_of s) (store_of s') xs"
    and "\<And>x. ends (J x) run (f x :: ('w, 'e, 'b) runner) (\<lambda>r ys. P r (xs @ ys))" and "\<And>x s. J x s \<Longrightarrow> I s"
  shows "ends I run (bindS m f) P"
  unfolding ends_def
proof (intro allI impI)
  fix s :: "'w run_state" assume "I s"
  then obtain x s1 where m: "m s = (Inr x, s1)" "J x s1" "trail run (store_of s) (store_of s1) xs" using assms(1) by blast
  from assms(2) m(2) obtain r s' ys where f: "f x s1 = (r, s')" "P r (xs @ ys)" "J x s'" "trail run (store_of s1) (store_of s') ys" by (rule endsE)
  have "bindS m f s = (r, s')" by (simp add: bindS_def m(1) f(1))
  with f(2) assms(3) [OF f(3)] trail_append [OF m(3) f(4)]
  show "\<exists>r s' xs. bindS m f s = (r, s') \<and> P r xs \<and> I s' \<and> trail run (store_of s) (store_of s') xs" by blast
qed

text \<open>\<open>try\<close>: the outcome of a block as a value.\<close>

definition outcomeS :: "('s, 'e, 'a) st \<Rightarrow> ('s, 'f, ('e, 'a) res) st" where
  "outcomeS m s = (case m s of (r, s') \<Rightarrow> (Inr r, s'))"

lemma ends_outcome: "ends I run m P \<Longrightarrow> ends I run (outcomeS m) (\<lambda>r xs. \<exists>q. r = Inr q \<and> P q xs)"
  unfolding ends_def outcomeS_def by fastforce

subsection \<open>Frames\<close>

text \<open>The tables that recording does not touch.\<close>

definition same_tables :: "store \<Rightarrow> store \<Rightarrow> bool" where
  "same_tables s s' \<longleftrightarrow> st_runtime_runs s' = st_runtime_runs s \<and> st_runtime_queue_items s' = st_runtime_queue_items s \<and>
     st_runtime_run_attempts s' = st_runtime_run_attempts s \<and> st_runtime_run_claims s' = st_runtime_run_claims s \<and>
     st_runtime_dead_letters s' = st_runtime_dead_letters s \<and> st_runtime_quota_reservations s' = st_runtime_quota_reservations s \<and>
     st_runtime_steps s' = st_runtime_steps s"

lemma same_tables_simps [simp]:
  "same_tables s s" "same_tables s (logged run e s)" "same_tables s (marked run c s)" "same_tables s (logged run e (marked run c s))"
  "same_tables s (s\<lparr>st_tool_invocations := ts\<rparr>)" "same_tables s (s\<lparr>st_validation_results := vs\<rparr>)"
  by (simp_all add: same_tables_def logged_def marked_def)

lemma audit_ok_tables [simp]:
  "audit_ok (s\<lparr>st_tool_invocations := ts\<rparr>) = audit_ok s" "audit_ok (s\<lparr>st_validation_results := vs\<rparr>) = audit_ok s"
  "audit_ok (s\<lparr>st_runtime_runs := t\<rparr>) = audit_ok s" "audit_ok (s\<lparr>st_runtime_steps := t\<rparr>) = audit_ok s"
  by (simp_all add: audit_ok_def event_wf_def checkpoint_wf_def)

locale run_frame =
  fixes I :: "'w run_state \<Rightarrow> bool"
  assumes frame_ok: "I s \<Longrightarrow> audit_ok (store_of s)"
    and frame_tick: "I s \<Longrightarrow> I (s\<lparr>ru_ticks := n\<rparr>)"
    and frame_count: "I s \<Longrightarrow> I (s\<lparr>ru_invocation_index := i\<rparr>)"
    and frame_record: "I s \<Longrightarrow> audit_ok (qs_store q) \<Longrightarrow> same_tables (store_of s) (qs_store q) \<Longrightarrow>
      same_files (qs_artifacts (ru_sys s)) (qs_artifacts q) \<Longrightarrow> I (s\<lparr>ru_sys := q\<rparr>)"
begin

lemma leaves_tick: "leaves I run (tick clock) []"
  by (simp add: leaves_def tick_def trail_Nil frame_tick)

lemma leaves_files:
  assumes "\<And>a. \<exists>x a'. m a = (Inr x :: ('e, 'a) res, a') \<and> same_files a a'"
  shows "leaves I run (on_sys (on_artifacts m) :: ('w, 'e, 'a) runner) []"
  unfolding leaves_def
proof (intro allI impI)
  fix s :: "'w run_state" assume s: "I s"
  obtain x a' where m: "m (qs_artifacts (ru_sys s)) = (Inr x :: ('e, 'a) res, a')" "same_files (qs_artifacts (ru_sys s)) a'" using assms by blast
  have "I (s\<lparr>ru_sys := (ru_sys s)\<lparr>qs_artifacts := a'\<rparr>\<rparr>)" by (rule frame_record [OF s]) (simp_all add: frame_ok [OF s] m(2))
  then show "\<exists>x s'. on_sys (on_artifacts m) s = (Inr x :: ('e, 'a) res, s') \<and> I s' \<and> trail run (store_of s) (store_of s') []"
    by (simp add: on_sys_def on_artifacts_def m trail_Nil)
qed

lemma leaves_event:
  assumes "vocabulary_ok c" and "ev_idempotency_key c = None"
  shows "leaves I run (on_sys (record_event t run c) :: ('w, 'e, obj) runner) [(ev_event_type c, ev_stop_reason c)]"
  unfolding leaves_def
proof (intro allI impI)
  fix s :: "'w run_state" assume s: "I s"
  have fresh: "key_fresh run c (store_of s)" using assms(2) by (simp add: key_fresh_def)
  obtain e q where e: "record_event t run c (ru_sys s) = (Inr e :: ('e, obj) res, q)" "qs_store q = logged run e (store_of s)"
    "event_of run c e" "audit_ok (qs_store q)" using record_event_appends [OF frame_ok [OF s] assms(1) fresh] by blast
  have "same_files (qs_artifacts (ru_sys s)) (qs_artifacts q)" using event_keeps [of t run c, where 'a = 'e] e(1) by (metis keeps_files_def snd_conv)
  then have "I (s\<lparr>ru_sys := q\<rparr>)" by (intro frame_record [OF s e(4)]) (simp_all add: e(2))
  then show "\<exists>x s'. on_sys (record_event t run c) s = (Inr x :: ('e, obj) res, s') \<and> I s' \<and>
      trail run (store_of s) (store_of s') [(ev_event_type c, ev_stop_reason c)]"
    using trail_logged [OF e(3), of "store_of s"] by (simp add: on_sys_def e(1,2))
qed

lemma leaves_table:
  assumes "\<And>st. \<exists>x st'. m st = (Inr x :: ('e, 'a) res, st') \<and> same_tables st st' \<and> audit_ok st' = audit_ok st \<and> st_runtime_events st' = st_runtime_events st"
  shows "leaves I run (on_sys (on_store m) :: ('w, 'e, 'a) runner) []"
  unfolding leaves_def
proof (intro allI impI)
  fix s :: "'w run_state" assume s: "I s"
  obtain x st' where m: "m (store_of s) = (Inr x :: ('e, 'a) res, st')" "same_tables (store_of s) st'" "audit_ok st' = audit_ok (store_of s)"
    "st_runtime_events st' = st_runtime_events (store_of s)" using assms by blast
  have "I (s\<lparr>ru_sys := (ru_sys s)\<lparr>qs_store := st'\<rparr>\<rparr>)" by (rule frame_record [OF s]) (simp_all add: frame_ok [OF s] m)
  then show "\<exists>x s'. on_sys (on_store m) s = (Inr x :: ('e, 'a) res, s') \<and> I s' \<and> trail run (store_of s) (store_of s') []"
    by (simp add: on_sys_def on_store_def m trail_Nil)
qed

lemma leaves_checkpoint:
  assumes "phase \<in> set RUNTIME_PHASES"
  shows "leaves I run (on_sys (checkpoint t t' run phase state step tokens redact) :: ('w, 'e, obj) runner) [(''checkpoint_created'', None)]"
  unfolding leaves_def
proof (intro allI impI)
  fix s :: "'w run_state" assume s: "I s"
  obtain c e q where e: "checkpoint t t' run phase state step tokens redact (ru_sys s) = (Inr c :: ('e, obj) res, q)"
    "qs_store q = logged run e (marked run c (store_of s))" "get e ''event_type'' = JStr ''checkpoint_created''" "get e ''run_id'' = JStr run"
    "get e ''stop_reason'' = JNull" "audit_ok (qs_store q)"
    using checkpoint_appends [OF frame_ok [OF s] assms] by blast
  have "same_files (qs_artifacts (ru_sys s)) (qs_artifacts q)"
    using checkpoint_keeps [of t t' run phase state step tokens redact, where 'a = 'e] e(1) by (metis keeps_files_def snd_conv)
  then have "I (s\<lparr>ru_sys := q\<rparr>)" by (intro frame_record [OF s e(6)]) (simp_all add: e(2))
  moreover have "trail run (store_of s) (qs_store q) [(''checkpoint_created'', None)]"
    unfolding trail_def by (rule exI [of _ "[e]"]) (simp add: e(2-5) logged_def marked_def opt_str_def)
  ultimately show "\<exists>x s'. on_sys (checkpoint t t' run phase state step tokens redact) s = (Inr x :: ('e, obj) res, s') \<and> I s' \<and>
      trail run (store_of s) (store_of s') [(''checkpoint_created'', None)]" by (simp add: on_sys_def e(1))
qed

lemma leaves_run_event:
  assumes "vocabulary_ok c" and "ev_idempotency_key c = None" and "ev_event_type c = t" and "ev_stop_reason c = w"
  shows "leaves I run (run_event clock run redact c) [(t, w)]"
  unfolding run_event_def
proof (rule leaves_then [OF leaves_tick])
  fix clk
  let ?c = "c\<lparr>ev_redact := redact\<rparr>"
  have "vocabulary_ok ?c" "ev_idempotency_key ?c = None" using assms by (simp_all add: vocabulary_ok_def)
  from leaves_event [OF this, of run clk] show "leaves I run (on_sys (record_event clk run ?c)) [(t, w)]" using assms(3,4) by simp
qed

lemma leaves_run_checkpoint:
  "phase \<in> set RUNTIME_PHASES \<Longrightarrow> leaves I run (run_checkpoint clock run redact step phase state) [(''checkpoint_created'', None)]"
  unfolding run_checkpoint_def by (intro leaves_then [OF leaves_tick] leaves_checkpoint)

end

text \<open>The frame of a statement that leaves world and enforcer alone.\<close>

definition quiet :: "'w \<Rightarrow> enforcer \<Rightarrow> 'w run_state \<Rightarrow> bool" where
  "quiet w e s \<longleftrightarrow> audit_ok (store_of s) \<and> ru_world s = w \<and> ru_enforcer s = e"

interpretation quiet: run_frame "quiet w e" for w e
  by unfold_locales (simp_all add: quiet_def)

text \<open>The frame of a run that is registered with a record of which \<open>Q\<close> holds and with certain steps, in a table of steps that
  are stored under their own identifiers.\<close>

definition steps_ok :: "store \<Rightarrow> bool" where
  "steps_ok st \<longleftrightarrow> (\<forall>(k, r) \<in> set (st_runtime_steps st). (\<exists>i. k = JStr i \<and> map_of r ''id'' = Some (JStr i)) \<and>
     (\<exists>run. map_of r ''run_id'' = Some (JStr run)))"

definition live :: "string \<Rightarrow> (obj \<Rightarrow> bool) \<Rightarrow> string set \<Rightarrow> 'w run_state \<Rightarrow> bool" where
  "live run Q S s \<longleftrightarrow> audit_ok (store_of s) \<and> steps_ok (store_of s) \<and>
     (\<exists>r. map_of (st_runtime_runs (store_of s)) (JStr run) = Some r \<and> Q r) \<and>
     (\<forall>i \<in> S. map_of (st_runtime_steps (store_of s)) (JStr i) \<noteq> None)"

interpretation live: run_frame "live run Q S" for run Q S
  by unfold_locales (simp_all add: live_def steps_ok_def same_tables_def)

end
