(* ===== verification/Tenant_Runtime.thy ===== *)
theory Tenant_Runtime
  imports Tenant_Access
begin

text \<open>
  The tenant checks of the runtime plane: \<open>runtime/tenant_status.py\<close>, which decides whether the
  tenant of a task may start work, and \<open>runtime/data_sources.py\<close>, which hands out data sources
  from the sealed profile.
\<close>

subsection \<open>Startable tenants\<close>

datatype tenant_status_error =
    StatusAuthorityRequired
  | StatusTenantMismatch
  | StatusAreaMismatch
  | StatusNotActive

definition task_auth :: "obj \<Rightarrow> json" where
  "task_auth task =
     (case as_obj (get_or task ''context'' (JObj [])) of
        None \<Rightarrow> JObj [] | Some c \<Rightarrow> get_or c ''auth'' (JObj []))"

definition auth_field :: "obj \<Rightarrow> string \<Rightarrow> json" where
  "auth_field task k = (case as_obj (task_auth task) of None \<Rightarrow> JNull | Some auth \<Rightarrow> get auth k)"

definition assert_runtime_tenant_is_startable :: "obj \<Rightarrow> obj \<Rightarrow> (tenant_status_error, unit) res" where
  "assert_runtime_tenant_is_startable task context_response =
     bindR (hashable (auth_field task ''tenant_id'')) (\<lambda>tenant_id.
     if tenant_id = JNull \<or> tenant_id = JStr ''global'' then Inr ()
     else case as_obj (get context_response ''tenant_authority'') of
       None \<Rightarrow> raise_if (get context_response ''composition_status'' \<noteq> JStr ''denied'') StatusAuthorityRequired
     | Some authority \<Rightarrow>
         bindR (raise_if (\<not> py_eq (get authority ''tenant_id'') tenant_id) StatusTenantMismatch) (\<lambda>_.
         bindR (raise_if (\<not> py_eq (get authority ''area_id'') (auth_field task ''area_id'')) StatusAreaMismatch) (\<lambda>_.
         bindR (in_strings (get authority ''status'') ALLOWED_TENANT_STATUSES) (\<lambda>active.
         raise_if (\<not> active) StatusNotActive))))"

text \<open>Only live tenants start: for a task of a named tenant with a tenant authority, the check passes exactly
  when the authority is for that tenant and area and its status is \<open>setup\<close> or \<open>active\<close>.\<close>

theorem startable_iff:
  assumes "auth_field task ''tenant_id'' = JStr tenant" and "tenant \<noteq> ''global''"
    and "auth_field task ''area_id'' = JStr area"
    and "get context_response ''tenant_authority'' = JObj authority"
  shows "assert_runtime_tenant_is_startable task context_response = Inr () \<longleftrightarrow>
     get authority ''tenant_id'' = JStr tenant \<and> get authority ''area_id'' = JStr area \<and>
     get authority ''status'' \<in> {JStr ''setup'', JStr ''active''}"
  using assms
  by (auto simp: assert_runtime_tenant_is_startable_def res_simps ALLOWED_TENANT_STATUSES_def)

theorem startable_iff_witness:
  "assert_runtime_tenant_is_startable
     [(''context'', JObj [(''auth'', JObj [(''tenant_id'', JStr ''acme''), (''area_id'', JStr ''a'')])])]
     [(''tenant_authority'', JObj [(''tenant_id'', JStr ''acme''), (''area_id'', JStr ''a''), (''status'', JStr ''archived'')])]
   \<noteq> Inr ()"
proof -
  let ?task = "[(''context'', JObj [(''auth'', JObj [(''tenant_id'', JStr ''acme''), (''area_id'', JStr ''a'')])])]"
    and ?authority = "[(''tenant_id'', JStr ''acme''), (''area_id'', JStr ''a''), (''status'', JStr ''archived'')]"
  have "auth_field ?task ''tenant_id'' = JStr ''acme''" "auth_field ?task ''area_id'' = JStr ''a''"
    "get [(''tenant_authority'', JObj ?authority)] ''tenant_authority'' = JObj ?authority"
    by (simp_all add: auth_field_def task_auth_def)
  from startable_iff [OF this(1) _ this(2,3)] show ?thesis by simp
qed

subsection \<open>Data sources of a profile\<close>

datatype data_source_error =
    NeedsTenantProfile
  | SourceNotGranted
  | SourceUnknown
  | SourceCrossesTenant
  | SourceUnavailable
  | NotGrantedBySelectedRoles
  | ModeNotGranted

record data_source_handle =
  dh_data_source_id :: string
  dh_tenant_id :: string
  dh_access_mode :: string
  dh_status :: string

record connector =
  cn_tenant_context :: obj
  cn_tenant_authority :: obj

definition connector_init :: "obj \<Rightarrow> connector" where
  "connector_init profile =
     \<lparr>cn_tenant_context = obj_or_empty (get profile ''tenant_context''),
      cn_tenant_authority = obj_or_empty (get profile ''tenant_authority'')\<rparr>"

definition data_source :: "connector \<Rightarrow> string \<Rightarrow> (data_source_error, obj) res" where
  "data_source c i =
     (case find (\<lambda>s. get s ''id'' = JStr i) (mappings (get_or (cn_tenant_authority c) ''data_sources'' (JList []))) of
        None \<Rightarrow> Inl (Raise SourceUnknown)
      | Some s \<Rightarrow> Inr s)"

definition role_modes :: "string \<Rightarrow> obj \<Rightarrow> string list" where
  "role_modes i role =
     concat (map (\<lambda>grant. if get grant ''data_source_id'' = JStr i
                          then string_set (get_or grant ''access_modes'' (JList [])) else [])
       (mappings (get_or role ''data_source_grants'' (JList []))))"

definition granted_access_modes :: "connector \<Rightarrow> string \<Rightarrow> (data_source_error, string list) res" where
  "granted_access_modes c i =
     (let role_ids = string_set (get_or (cn_tenant_context c) ''role_ids'' (JList [])) in
      bindR (filterR (\<lambda>role. in_strings (get role ''id'') role_ids)
               (mappings (get_or (cn_tenant_authority c) ''role_bundles'' (JList [])))) (\<lambda>selected.
      let modes = concat (map (role_modes i) selected)
      in bindR (raise_if (modes = []) NotGrantedBySelectedRoles) (\<lambda>_. Inr modes)))"

definition connect :: "connector \<Rightarrow> string \<Rightarrow> string \<Rightarrow> (data_source_error, data_source_handle) res" where
  "connect c i access_mode =
     (let tenant = py_str (get_or (cn_tenant_context c) ''tenant_id'' (JStr [])) in
      bindR (raise_if (tenant = [] \<or> tenant = ''global'') NeedsTenantProfile) (\<lambda>_.
      bindR (raise_if (i \<notin> set (string_set (get_or (cn_tenant_context c) ''allowed_role_data_sources'' (JList []))))
              SourceNotGranted) (\<lambda>_.
      bindR (data_source c i) (\<lambda>source.
      bindR (raise_if (get source ''tenant_id'' \<noteq> JStr tenant) SourceCrossesTenant) (\<lambda>_.
      bindR (in_strings (get source ''status'') [''planned'', ''active'']) (\<lambda>available.
      bindR (raise_if (\<not> available) SourceUnavailable) (\<lambda>_.
      bindR (granted_access_modes c i) (\<lambda>modes.
      bindR (raise_if (access_mode \<notin> set modes) ModeNotGranted) (\<lambda>_.
      bindR (getitem source ''status'') (\<lambda>status.
      Inr \<lparr>dh_data_source_id = i, dh_tenant_id = tenant, dh_access_mode = access_mode, dh_status = py_str status\<rparr>))))))))))"

lemma role_modes_iff:
  "m \<in> set (role_modes i role) \<longleftrightarrow>
     (\<exists>g \<in> set (mappings (get_or role ''data_source_grants'' (JList []))).
        get g ''data_source_id'' = JStr i \<and> m \<in> set (string_set (get_or g ''access_modes'' (JList []))))"
  by (auto simp: role_modes_def split: if_splits)

text \<open>A data source is handed out only under a grant: the handle names the tenant of the profile, the source is
  the tenant's own, present in its authority and planned or active, it is among the sources the
  profile derives from roles, and a bundle of one of the profile's roles grants exactly the
  requested access mode on it.\<close>

theorem connect_sound:
  assumes "connect c i mode = Inr handle"
  shows "dh_tenant_id handle \<noteq> ''global'' \<and> dh_access_mode handle = mode \<and> dh_data_source_id handle = i \<and>
     i \<in> set (string_set (get_or (cn_tenant_context c) ''allowed_role_data_sources'' (JList []))) \<and>
     (\<exists>s \<in> set (mappings (get_or (cn_tenant_authority c) ''data_sources'' (JList []))).
        get s ''id'' = JStr i \<and> get s ''tenant_id'' = JStr (dh_tenant_id handle) \<and>
        get s ''status'' \<in> {JStr ''planned'', JStr ''active''}) \<and>
     (\<exists>role \<in> set (mappings (get_or (cn_tenant_authority c) ''role_bundles'' (JList []))). \<exists>r.
        get role ''id'' = JStr r \<and> r \<in> set (string_set (get_or (cn_tenant_context c) ''role_ids'' (JList []))) \<and>
        mode \<in> set (role_modes i role))"
proof -
  let ?tenant = "py_str (get_or (cn_tenant_context c) ''tenant_id'' (JStr []))"
  from assms obtain s modes where h: "dh_tenant_id handle = ?tenant" "dh_access_mode handle = mode" "dh_data_source_id handle = i"
    "?tenant \<noteq> ''global''" "i \<in> set (string_set (get_or (cn_tenant_context c) ''allowed_role_data_sources'' (JList [])))"
    and s: "data_source c i = Inr s" "get s ''tenant_id'' = JStr ?tenant"
      "in_strings (get s ''status'') [''planned'', ''active''] = (Inr True :: (data_source_error, bool) res)"
    and m: "granted_access_modes c i = Inr modes" "mode \<in> set modes"
    unfolding connect_def Let_def by (auto simp: res_simps)
  from s(1) have "find (\<lambda>s. get s ''id'' = JStr i) (mappings (get_or (cn_tenant_authority c) ''data_sources'' (JList []))) = Some s"
    by (auto simp: data_source_def split: option.splits)
  then have "get s ''id'' = JStr i" "s \<in> set (mappings (get_or (cn_tenant_authority c) ''data_sources'' (JList [])))"
    by (auto simp: find_Some_iff)
  moreover have "get s ''status'' \<in> {JStr ''planned'', JStr ''active''}" using s(3) by (auto simp: in_strings_True)
  moreover from m have "\<exists>role \<in> set (mappings (get_or (cn_tenant_authority c) ''role_bundles'' (JList []))). \<exists>r.
        get role ''id'' = JStr r \<and> r \<in> set (string_set (get_or (cn_tenant_context c) ''role_ids'' (JList []))) \<and>
        mode \<in> set (role_modes i role)"
    by (fastforce simp: granted_access_modes_def Let_def bindR_Inr_iff filterR_Inr raise_if_Inr in_strings_True)
  ultimately show ?thesis using h s(2) by auto
qed

definition sample_connector :: connector where
  "sample_connector =
     \<lparr>cn_tenant_context = [(''tenant_id'', JStr ''acme''), (''allowed_role_data_sources'', str_list [''ds-1'']),
        (''role_ids'', str_list [''reviewer''])],
      cn_tenant_authority = [(''data_sources'', JList [JObj [(''id'', JStr ''ds-1''), (''tenant_id'', JStr ''acme''), (''status'', JStr ''active'')]]),
        (''role_bundles'', JList [JObj [(''id'', JStr ''reviewer''), (''data_source_grants'',
           JList [JObj [(''data_source_id'', JStr ''ds-1''), (''access_modes'', str_list [''read''])]])]])]\<rparr>"

theorem connect_sound_witness:
  "\<exists>h. connect sample_connector ''ds-1'' ''read'' = Inr h \<and> dh_access_mode h = ''read''"
proof -
  have "case connect sample_connector ''ds-1'' ''read'' of Inl _ \<Rightarrow> False | Inr _ \<Rightarrow> True" by code_simp
  then obtain h where "connect sample_connector ''ds-1'' ''read'' = Inr h" by (auto split: sum.splits)
  then show ?thesis using connect_sound by blast
qed

end
