(* ===== verification/Entrypoint.thy ===== *)
theory Entrypoint
  imports Profile_Seal Run_Trail Tenant_Runtime
begin

text \<open>
  \<open>runtime/entrypoint.py\<close>: from a task to a started run. A task is analysed, its composition context is taken from the
  caller or from the control plane, the tenant is checked, a profile is composed and sealed, and the run is registered
  and announced in the event log. The control-plane client is a parameter, like the hash of the seal.
\<close>

subsection \<open>Policies and summaries\<close>

definition profile_redacts_sensitive_data :: "obj \<Rightarrow> bool" where
  "profile_redacts_sensitive_data profile =
     (case as_obj (get_or profile ''observability'' (JObj [])) of
        None \<Rightarrow> True
      | Some obs \<Rightarrow> truthy (get_or obs ''redact_sensitive_data'' (JBool True)))"

definition profile_summary :: "obj \<Rightarrow> ('e, obj) res" where
  "profile_summary profile =
     bindR (getitem profile ''id'') (\<lambda>ident.
     bindR (getitem profile ''profile_version'') (\<lambda>version.
     bindR (getitem profile ''limits'') (\<lambda>limits.
     bindR (getitem profile ''observability'') (\<lambda>obs.
     Inr [(''profile_id'', ident), (''profile_version'', version), (''selected_modules'', str_list (selected_modules profile)),
          (''limits'', limits), (''observability'', obs)]))))"

subsection \<open>Requests\<close>

datatype entry_error =
    EntryPointError string
  | TenantNotStartable tenant_status_error
  | NotComposable composition_error
  | ControlPlaneError string

record entry_config =
  ep_client :: "(obj \<Rightarrow> (entry_error, obj) res) option"
  ep_environment :: string
  ep_clock :: "nat \<Rightarrow> datetime"
  ep_sha256 :: hash

record start_request =
  sq_context :: "obj option"
  sq_run_id :: "string option"
  sq_mode :: string
  sq_generation :: int
  sq_parent :: "string option"
  sq_reason :: "string option"

record start_result =
  sr_run_id :: string
  sr_analyzed_task :: analyzed_task
  sr_context_request :: obj
  sr_context_response :: obj
  sr_profile :: obj
  sr_profile_artifact_uri :: string
  sr_profile_sha256 :: string

definition assert_profile_generation_request :: "start_request \<Rightarrow> (entry_error, unit) res" where
  "assert_profile_generation_request q =
     bindR (raise_if (sq_generation q < 1) (EntryPointError ''profile_generation must be greater than zero.'')) (\<lambda>_.
     if sq_mode q = ''initial'' then
       raise_if (sq_generation q \<noteq> 1 \<or> sq_parent q \<noteq> None \<or> text_or (sq_reason q) [] \<noteq> [])
         (EntryPointError ''Initial composition cannot include recomposition traceability.'')
     else
       case (sq_parent q, sq_reason q) of
         (Some _, Some reason) \<Rightarrow>
           bindR (require_choice reason RECOMPOSITION_REASONS) (\<lambda>_.
           raise_if (sq_generation q \<le> 1) (EntryPointError ''Recomposition requires profile_generation greater than 1.''))
       | _ \<Rightarrow> Inl (Raise (EntryPointError ''Recomposition requires parent_profile_id and recomposition_reason.'')))"

definition fetch_composition_context :: "entry_config \<Rightarrow> obj \<Rightarrow> (entry_error, obj) res" where
  "fetch_composition_context cfg request =
     (case ep_client cfg of
        None \<Rightarrow> Inl (Raise (EntryPointError
          ''RuntimeEntryPoint requires either a ControlPlaneClient or an explicit composition_context_response.''))
      | Some client \<Rightarrow> client request)"

definition default_run_id :: "string \<Rightarrow> int \<Rightarrow> string option" where
  "default_run_id task_id generation =
     (if generation \<le> 1 then None else Some (slug_id (task_id @ ''-generation-'' @ int_str generation) (Some ''run'')))"

subsection \<open>Start\<close>

text \<open>Everything before the first write: analysis, context, tenant check, composition.\<close>

definition intake :: "entry_config \<Rightarrow> obj \<Rightarrow> start_request \<Rightarrow> (entry_error, analyzed_task \<times> obj \<times> obj \<times> obj) res" where
  "intake cfg task q =
     bindR (assert_profile_generation_request q) (\<lambda>_.
     bindR (analyze task) (\<lambda>analyzed_task.
     let context_request = to_composition_context_request analyzed_task (ep_environment cfg) (sq_mode q) (sq_parent q) in
     bindR (case sq_context q of
              Some response \<Rightarrow> if response \<noteq> [] then Inr response else fetch_composition_context cfg context_request
            | None \<Rightarrow> fetch_composition_context cfg context_request) (\<lambda>context_response.
     bindR (catch_as TenantNotStartable (assert_runtime_tenant_is_startable task context_response)) (\<lambda>_.
     bindR (catch_as NotComposable (compose analyzed_task context_response (sq_generation q) (sq_parent q) (sq_reason q))) (\<lambda>profile.
     Inr (analyzed_task, context_request, context_response, profile))))))"

definition announce :: "entry_config \<Rightarrow> string \<Rightarrow> start_result \<Rightarrow> ('w, entry_error, unit) runner" where
  "announce cfg run sr =
     (let profile = sr_profile sr; t = sr_analyzed_task sr; redact = profile_redacts_sensitive_data profile; event = run_event (ep_clock cfg) run redact in
      bindS (event ((event_call_of ''task_analyzed'' ''composer'')
        \<lparr>ev_planned_action := JObj [(''task_id'', JStr (at_task_id t))],
         ev_result := JObj [(''task_type'', JStr (at_task_type t)), (''risk_level'', JStr (at_risk_level t)), (''domains'', str_list (at_domains t)),
           (''required_inputs'', str_list (at_required_inputs t)), (''available_inputs'', str_list (at_available_inputs t)),
           (''missing_information'', str_list (at_missing_information t))]\<rparr>)) (\<lambda>_.
      bindS (event ((event_call_of ''candidates_discovered'' ''composer'')
        \<lparr>ev_planned_action := JObj (sr_context_request sr), ev_result := JObj (sr_context_response sr)\<rparr>)) (\<lambda>_.
      bindS (event ((event_call_of ''profile_emitted'' ''composer'')\<lparr>ev_result := JObj [(''profile'', JObj profile)]\<rparr>)) (\<lambda>_.
      bindS (liftS (getitem profile ''id'')) (\<lambda>ident.
      bindS (liftS (getitem profile ''validators'')) (\<lambda>validators.
      bindS (liftS (getitem profile ''module_versions'')) (\<lambda>versions.
      bindS (event ((event_call_of ''profile_validated'' ''composer'')
        \<lparr>ev_result := JObj [(''profile_id'', ident), (''validators'', validators), (''module_versions'', versions)]\<rparr>)) (\<lambda>_.
      bindS (liftS (profile_summary profile)) (\<lambda>summary.
      bindS (run_checkpoint (ep_clock cfg) run redact None ''composition'' (JObj summary)) (\<lambda>_.
      bindS (liftS (getitem profile ''profile_version'')) (\<lambda>version.
      bindS (event ((event_call_of ''runtime_started'' ''composer'')
        \<lparr>ev_result := JObj [(''run_id'', JStr run), (''profile_id'', ident), (''profile_version'', version),
           (''profile_artifact_uri'', JStr (sr_profile_artifact_uri sr)), (''profile_sha256'', JStr (sr_profile_sha256 sr))]\<rparr>)) (\<lambda>_.
      retS ()))))))))))))"

definition register_run :: "entry_config \<Rightarrow> start_request \<Rightarrow> analyzed_task \<Rightarrow> obj \<Rightarrow> string \<Rightarrow> string \<Rightarrow> ('w, entry_error, obj) runner" where
  "register_run cfg q t profile uri digest =
     bindS (liftS (bindR (getitem profile ''profile_generation'') py_int)) (\<lambda>generation.
     bindS (tick (ep_clock cfg)) (\<lambda>now.
     on_sys (start_run now (at_task_id t) profile
       (if text_or (sq_run_id q) [] \<noteq> [] then sq_run_id q else default_run_id (at_task_id t) (sq_generation q))
       \<lparr>ro_status = ''running'', ro_profile_artifact_uri = Some uri, ro_profile_sha256 = Some digest,
        ro_profile_generation = Some generation, ro_parent_profile_id = as_str (get profile ''parent_profile_id'')\<rparr>)))"

definition start :: "entry_config \<Rightarrow> obj \<Rightarrow> start_request \<Rightarrow> ('w, entry_error, start_result) runner" where
  "start cfg task q =
     bindS (liftS (intake cfg task q)) (\<lambda>(t, request, response, profile).
     bindS (on_sys (on_artifacts (seal_profile (ep_sha256 cfg) profile))) (\<lambda>(uri, digest).
     bindS (register_run cfg q t profile uri digest) (\<lambda>run.
     bindS (liftS (getitem run ''id'')) (\<lambda>ident.
     let sr = \<lparr>sr_run_id = py_str ident, sr_analyzed_task = t, sr_context_request = request, sr_context_response = response,
               sr_profile = profile, sr_profile_artifact_uri = uri, sr_profile_sha256 = digest\<rparr>
     in bindS (announce cfg (py_str ident) sr) (\<lambda>_. retS sr)))))"

definition continue_recomposition :: "entry_config \<Rightarrow> obj \<Rightarrow> recomposition_request \<Rightarrow> obj option \<Rightarrow> string option \<Rightarrow> ('w, entry_error, start_result) runner" where
  "continue_recomposition cfg task r context run_id =
     start cfg task \<lparr>sq_context = context,
       sq_run_id = Some (text_or run_id (slug_id (rr_source_run_id r @ ''-generation-'' @ int_str (rr_requested_profile_generation r)) (Some ''run''))),
       sq_mode = ''recomposition'', sq_generation = rr_requested_profile_generation r, sq_parent = Some (rr_parent_profile_id r),
       sq_reason = Some (rr_recomposition_reason r)\<rparr>"

subsection \<open>A composed profile starts\<close>

definition startable_profile :: "obj \<Rightarrow> bool" where
  "startable_profile p \<longleftrightarrow> (\<exists>gen. map_of p ''profile_generation'' = Some (JInt gen)) \<and> (\<exists>i. map_of p ''id'' = Some (JStr i) \<and> i \<noteq> []) \<and>
     (\<forall>k \<in> set [''id'', ''profile_version'', ''validators'', ''module_versions'', ''limits'', ''observability'']. map_of p k \<noteq> None)"

lemma composed_startable:
  assumes "compose t ctx gen parent reason = Inr p"
  shows "startable_profile p"
proof -
  from compose_shape [OF assms] obtain au rv ex vs li fp where
    "p = profile_object t gen parent reason au rv (composed_selection t ctx) ex vs li fp" by metis
  then show ?thesis by (simp add: startable_profile_def profile_object_def profile_id_def Let_def)
qed

definition ANNOUNCEMENT :: events where
  "ANNOUNCEMENT = [(''task_analyzed'', None), (''candidates_discovered'', None), (''profile_emitted'', None), (''profile_validated'', None),
     (''checkpoint_created'', None), (''runtime_started'', None)]"

lemma composer_vocabulary:
  "t \<in> set [''task_analyzed'', ''candidates_discovered'', ''profile_emitted'', ''profile_validated'', ''runtime_started''] \<Longrightarrow>
   vocabulary_ok ((event_call_of t ''composer'')\<lparr>ev_planned_action := x, ev_result := y\<rparr>) \<and>
   vocabulary_ok ((event_call_of t ''composer'')\<lparr>ev_result := y\<rparr>)"
  by (auto simp: vocabulary_ok_def event_call_of_def RUNTIME_EVENT_TYPES_def RUNTIME_ACTOR_ROLES_def)

context run_frame
begin

lemma leaves_composer_event:
  assumes "t \<in> set [''task_analyzed'', ''candidates_discovered'', ''profile_emitted'', ''profile_validated'', ''runtime_started'']"
  shows "leaves I run (run_event clock run redact ((event_call_of t ''composer'')\<lparr>ev_planned_action := x, ev_result := y\<rparr>)) [(t, None)]"
    "leaves I run (run_event clock run redact ((event_call_of t ''composer'')\<lparr>ev_result := y\<rparr>)) [(t, None)]"
  using composer_vocabulary [OF assms] by (auto intro!: leaves_run_event simp: event_call_of_def)

lemma announce_leaves:
  assumes "startable_profile (sr_profile sr)"
  shows "leaves I run (announce cfg run sr) ANNOUNCEMENT"
proof -
  obtain ident version validators versions limits obs where p: "map_of (sr_profile sr) ''id'' = Some ident"
    "map_of (sr_profile sr) ''profile_version'' = Some version" "map_of (sr_profile sr) ''validators'' = Some validators"
    "map_of (sr_profile sr) ''module_versions'' = Some versions" "map_of (sr_profile sr) ''limits'' = Some limits"
    "map_of (sr_profile sr) ''observability'' = Some obs"
    using assms unfolding startable_profile_def by fastforce
  have phase: "''composition'' \<in> set RUNTIME_PHASES" by (simp add: RUNTIME_PHASES_def)
  have fields: "getitem (sr_profile sr) ''id'' = Inr ident" "getitem (sr_profile sr) ''profile_version'' = Inr version"
    "getitem (sr_profile sr) ''validators'' = Inr validators" "getitem (sr_profile sr) ''module_versions'' = Inr versions"
    "\<exists>m. profile_summary (sr_profile sr) = (Inr m :: (entry_error, obj) res)"
    using p by (simp_all add: getitem_def profile_summary_def)
  then obtain m where m: "profile_summary (sr_profile sr) = (Inr m :: (entry_error, obj) res)" by blast
  have "leaves I run (announce cfg run sr)
     ([(''task_analyzed'', None)] @ [(''candidates_discovered'', None)] @ [(''profile_emitted'', None)] @ [(''profile_validated'', None)] @
      [(''checkpoint_created'', None)] @ [(''runtime_started'', None)] @ [])"
    unfolding announce_def Let_def fields(1-4) m bindS_lift_Inr
    by (intro leaves_bind leaves_composer_event leaves_run_checkpoint [OF phase] leaves_ret) simp_all
  then show ?thesis by (simp add: ANNOUNCEMENT_def)
qed

end

subsection \<open>What starting does\<close>

text \<open>The frame of the announcement: the run is registered, the world is untouched and the sealed profiles are kept.\<close>

definition sealed :: "artifact_store \<Rightarrow> 'w \<Rightarrow> string \<Rightarrow> (obj \<Rightarrow> bool) \<Rightarrow> 'w run_state \<Rightarrow> bool" where
  "sealed a w run Q s \<longleftrightarrow> live run Q {} s \<and> ru_world s = w \<and> same_files a (qs_artifacts (ru_sys s))"

interpretation sealed: run_frame "sealed a w run Q" for a w run Q
proof
  show "audit_ok (store_of s)" if "sealed a w run Q s" for s using that live.frame_ok by (auto simp: sealed_def)
  show "sealed a w run Q (s\<lparr>ru_ticks := n\<rparr>)" if "sealed a w run Q s" for s n using that live.frame_tick by (auto simp: sealed_def)
  show "sealed a w run Q (s\<lparr>ru_invocation_index := i\<rparr>)" if "sealed a w run Q s" for s i using that live.frame_count by (auto simp: sealed_def)
  show "sealed a w run Q (s\<lparr>ru_sys := q\<rparr>)" if "sealed a w run Q s" "audit_ok (qs_store q)" "same_tables (store_of s) (qs_store q)"
    "same_files (qs_artifacts (ru_sys s)) (qs_artifacts q)" for s q
    using that live.frame_record [of run Q "{}" s q] same_files_trans by (auto simp: sealed_def)
qed

definition started :: "string \<Rightarrow> string \<Rightarrow> obj \<Rightarrow> bool" where
  "started uri digest r \<longleftrightarrow> get r ''status'' = JStr ''running'' \<and> get r ''profile_artifact_uri'' = JStr uri \<and> get r ''profile_sha256'' = JStr digest"

lemma registered:
  assumes s: "audit_ok (store_of s)" "steps_ok (store_of s)" and p: "startable_profile profile"
  obtains run r s' where "register_run cfg q t profile uri digest s = (Inr r, s')" "map_of r ''id'' = Some (JStr run)"
    "sealed (qs_artifacts (ru_sys s)) (ru_world s) run (started uri digest) s'" "trail run (store_of s) (store_of s') []"
proof -
  obtain gen i v where f: "map_of profile ''profile_generation'' = Some (JInt gen)" "map_of profile ''id'' = Some (JStr i)"
    "map_of profile ''profile_version'' = Some v" using p unfolding startable_profile_def by force
  let ?id = "if text_or (sq_run_id q) [] \<noteq> [] then sq_run_id q else default_run_id (at_task_id t) (sq_generation q)"
  let ?o = "\<lparr>ro_status = ''running'', ro_profile_artifact_uri = Some uri, ro_profile_sha256 = Some digest,
        ro_profile_generation = Some gen, ro_parent_profile_id = as_str (get profile ''parent_profile_id'')\<rparr>"
  define run where "run = text_or ?id (slug_id (removeprefix ''task-'' (at_task_id t)) (Some ''run''))"
  obtain r where r: "start_run (ep_clock cfg (ru_ticks s)) (at_task_id t) profile ?id ?o (ru_sys s) =
      (Inr r :: (entry_error, obj) res, (ru_sys s)\<lparr>qs_store := (store_of s)\<lparr>st_runtime_runs := dict_set (JStr run) r (st_runtime_runs (store_of s))\<rparr>\<rparr>)"
    "map_of r ''id'' = Some (JStr run)" "started uri digest r"
    using f by (simp add: start_run_def bindS_def liftS_def require_choice_def RUNTIME_STATUSES_def getitem_def on_store_def insert_runtime_run_def
        insert_into_def put_record_def set_runs_def started_def run_def)
  let ?s' = "s\<lparr>ru_ticks := Suc (ru_ticks s), ru_sys := (ru_sys s)\<lparr>qs_store := (store_of s)\<lparr>st_runtime_runs := dict_set (JStr run) r (st_runtime_runs (store_of s))\<rparr>\<rparr>\<rparr>"
  have "register_run cfg q t profile uri digest s = (Inr r, ?s')"
    using f r(1) by (simp add: register_run_def bindS_def liftS_def getitem_def tick_def on_sys_def)
  moreover have "sealed (qs_artifacts (ru_sys s)) (ru_world s) run (started uri digest) ?s'"
    using s r(3) by (simp add: sealed_def live_def steps_ok_def dict_simps)
  ultimately show ?thesis using that r(2) by (simp add: trail_Nil)
qed

lemma start_outcome:
  fixes s :: "'w run_state"
  assumes "audit_ok (store_of s)" and "steps_ok (store_of s)"
  shows "case intake cfg task q of
      Inl e \<Rightarrow> start cfg task q s = (Inl e, s)
    | Inr (t, request, response, profile) \<Rightarrow> \<exists>sr s'. start cfg task q s = (Inr sr, s') \<and> sr_profile sr = profile \<and> sr_analyzed_task sr = t \<and>
        live (sr_run_id sr) (started (sr_profile_artifact_uri sr) (sr_profile_sha256 sr)) {} s' \<and> ru_world s' = ru_world s \<and>
        trail (sr_run_id sr) (store_of s) (store_of s') ANNOUNCEMENT \<and>
        (unchunked (ar_threshold (qs_artifacts (ru_sys s))) (JObj profile) \<longrightarrow>
           assert_profile_seal (ep_sha256 cfg) (sr_profile_artifact_uri sr) (sr_profile_sha256 sr) (qs_artifacts (ru_sys s')) = Inr ())"
proof (cases "intake cfg task q")
  case (Inl e)
  then show ?thesis by (simp add: start_def bindS_def liftS_def)
next
  case (Inr x)
  obtain t request response profile where x: "x = (t, request, response, profile)" by (cases x)
  have "compose t response (sq_generation q) (sq_parent q) (sq_reason q) = Inr profile"
    using Inr by (auto simp: x intake_def bindR_Inr_iff Let_def catch_as_Inr)
  then have p: "startable_profile profile" by (rule composed_startable)
  then obtain i where i: "map_of profile ''id'' = Some (JStr i)" "i \<noteq> []" unfolding startable_profile_def by blast
  obtain uri a' where seal: "seal_profile (ep_sha256 cfg) profile (qs_artifacts (ru_sys s)) =
      (Inr (uri, profile_sha256 (ep_sha256 cfg) profile) :: (entry_error, string \<times> string) res, a')"
    using seal_profile_written [OF i(1)] by blast
  let ?d = "profile_sha256 (ep_sha256 cfg) profile" and ?s1 = "s\<lparr>ru_sys := (ru_sys s)\<lparr>qs_artifacts := a'\<rparr>\<rparr>"
  have s1: "audit_ok (store_of ?s1)" "steps_ok (store_of ?s1)" using assms by simp_all
  obtain run r s2 where reg: "register_run cfg q t profile uri ?d ?s1 = (Inr r, s2)" "map_of r ''id'' = Some (JStr run)"
    "sealed (qs_artifacts (ru_sys ?s1)) (ru_world ?s1) run (started uri ?d) s2" "trail run (store_of ?s1) (store_of s2) []"
    using registered [OF s1 p] by blast
  define sr where "sr = \<lparr>sr_run_id = run, sr_analyzed_task = t, sr_context_request = request, sr_context_response = response,
               sr_profile = profile, sr_profile_artifact_uri = uri, sr_profile_sha256 = ?d\<rparr>"
  have sr: "sr_profile sr = profile" "sr_run_id sr = run" "sr_analyzed_task sr = t" "sr_profile_artifact_uri sr = uri" "sr_profile_sha256 sr = ?d"
    by (simp_all add: sr_def)
  have "leaves (sealed (qs_artifacts (ru_sys ?s1)) (ru_world ?s1) run (started uri ?d)) run (announce cfg run sr :: ('w, entry_error, unit) runner) ANNOUNCEMENT"
    by (rule sealed.announce_leaves) (simp add: sr p)
  from leavesE [OF this reg(3)] obtain u s' where a: "announce cfg run sr s2 = (Inr u, s')"
    "sealed (qs_artifacts (ru_sys ?s1)) (ru_world ?s1) run (started uri ?d) s'" "trail run (store_of s2) (store_of s') ANNOUNCEMENT" by blast
  have "start cfg task q s = (Inr sr, s')"
    using a(1) reg(1,2) Inr seal
    by (simp add: start_def bindS_def liftS_def x on_sys_def on_artifacts_def getitem_def sr_def Let_def)
  moreover have "trail run (store_of s) (store_of s') ANNOUNCEMENT" using trail_append [OF reg(4) a(3)] by simp
  moreover have "assert_profile_seal (ep_sha256 cfg) uri ?d (qs_artifacts (ru_sys s')) = Inr ()"
    if "unchunked (ar_threshold (qs_artifacts (ru_sys s))) (JObj profile)"
    by (rule seal_holds [OF sealed_artifact_kept [OF seal that i]]) (use a(2) in \<open>simp add: sealed_def\<close>)
  ultimately show ?thesis using a(2) by (simp add: Inr x sealed_def sr del: sort_keys.simps)
qed

text \<open>C8. A task starts or leaves no trace. When the request, the analysis, the tenant check or the composition refuses the
  task, nothing is written. Otherwise the run is registered as running under the sealed profile, the log holds exactly
  the announcement of the run, the world is untouched, and the profile passes its seal in the resulting state.\<close>

theorem start_exact:
  fixes s :: "'w run_state"
  assumes "audit_ok (store_of s)" and "steps_ok (store_of s)"
  shows "case intake cfg task q of
      Inl e \<Rightarrow> start cfg task q s = (Inl e, s)
    | Inr (t, request, response, profile) \<Rightarrow> \<exists>sr s'. start cfg task q s = (Inr sr, s') \<and> sr_profile sr = profile \<and> sr_analyzed_task sr = t \<and>
        live (sr_run_id sr) (started (sr_profile_artifact_uri sr) (sr_profile_sha256 sr)) {} s' \<and> ru_world s' = ru_world s \<and>
        trail (sr_run_id sr) (store_of s) (store_of s') ANNOUNCEMENT \<and>
        (unchunked (ar_threshold (qs_artifacts (ru_sys s))) (JObj profile) \<longrightarrow>
           assert_profile_seal (ep_sha256 cfg) (sr_profile_artifact_uri sr) (sr_profile_sha256 sr) (qs_artifacts (ru_sys s')) = Inr ())"
  by (rule start_outcome [OF assms])

definition plain_task :: obj where
  "plain_task = [(''request'', JStr ''Note it'')]"

definition plain_context :: obj where
  "plain_context =
     [(''composition_status'', JStr ''ready''), (''graph_validation'', JObj [(''is_valid'', JBool True)]),
      (''candidate_modules'', JList [sample_reference ''skill'' ''notes'']), (''applicable_policies'', JList [sample_reference ''policy'' ''base-policy''])]"

definition plain_config :: entry_config where
  "plain_config = \<lparr>ep_client = None, ep_environment = ''dev'', ep_clock = int, ep_sha256 = take 8\<rparr>"

definition plain_request :: start_request where
  "plain_request = \<lparr>sq_context = Some plain_context, sq_run_id = None, sq_mode = ''initial'', sq_generation = 1, sq_parent = None, sq_reason = None\<rparr>"

definition idle_state :: "nat run_state" where
  "idle_state = \<lparr>ru_sys = \<lparr>qs_store = empty_store, qs_artifacts = artifact_store_init [''srv''] ''hetzner://runtime'' 4096 512\<rparr>,
     ru_enforcer = write_enforcer, ru_invocation_index = 0, ru_ticks = 0, ru_world = 0\<rparr>"

lemma intake_plain: "case intake plain_config plain_task plain_request of Inl _ \<Rightarrow> False | Inr (t, request, response, profile) \<Rightarrow> unchunked 4096 (JObj profile)"
  by code_simp

theorem start_exact_witness:
  "\<exists>sr s'. start plain_config plain_task plain_request idle_state = (Inr sr, s') \<and> trail (sr_run_id sr) empty_store (store_of s') ANNOUNCEMENT \<and>
     assert_profile_seal (take 8) (sr_profile_artifact_uri sr) (sr_profile_sha256 sr) (qs_artifacts (ru_sys s')) = Inr ()"
proof -
  have "audit_ok (store_of idle_state)" "steps_ok (store_of idle_state)"
    by (simp_all add: idle_state_def audit_ok_def steps_ok_def empty_store_def indices_ok_def)
  from start_exact [OF this, of plain_config plain_task plain_request] intake_plain show ?thesis
    by (auto simp: idle_state_def plain_config_def artifact_store_init_def split: sum.splits prod.splits)
qed

end
