(* ===== verification/Validation.thy ===== *)
theory Validation
  imports Enforcement Decimal
begin

text \<open>
  \<open>runtime/validation.py\<close> and \<open>runtime/response.py\<close>, with the task types of
  \<open>runtime/planning.py\<close>: the response that a run builds from its context, plan and
  execution, and the validators that the profile selects to check it. Shown are the
  agreement of the two (a built response satisfies the output contract of its task type and of
  no other) and that a profile which the enforcer accepted passes every tenant validator.
\<close>

subsection \<open>Task types\<close>

definition SUPPORTED_RUNTIME_TASK_TYPES :: "string list" where
  "SUPPORTED_RUNTIME_TASK_TYPES = [''code-review'', ''research'', ''task-execution'', ''general-task'']"

definition task_type_for_profile :: "obj \<Rightarrow> string" where
  "task_type_for_profile profile =
     (let task_type = py_str (get_or profile ''task_type'' (JStr ''general-task''))
      in if task_type \<in> set SUPPORTED_RUNTIME_TASK_TYPES then task_type else ''general-task'')"

text \<open>\<open>len(v)\<close>.\<close>

fun py_len :: "json \<Rightarrow> ('e, int) res" where
  "py_len (JList xs) = Inr (int (length xs))"
| "py_len (JStr s) = Inr (int (length s))"
| "py_len (JObj m) = Inr (int (length m))"
| "py_len v = Inl (Py TypeError)"

subsection \<open>The response\<close>

definition RUNTIME_OUTPUT_CONTRACT_VERSION :: string where
  "RUNTIME_OUTPUT_CONTRACT_VERSION = ''0.1.0''"

definition uri_entry :: "string \<Rightarrow> string \<Rightarrow> json" where
  "uri_entry kind uri = JObj [(''kind'', JStr kind), (''uri'', JStr uri)]"

definition tool_artifact :: "json \<Rightarrow> json option" where
  "tool_artifact result =
     (case as_obj result of
        None \<Rightarrow> None
      | Some m \<Rightarrow>
          (case as_str (get m ''output_uri'') of
             None \<Rightarrow> None
           | Some uri \<Rightarrow> if uri = [] then None else Some (uri_entry ''tool-output'' uri)))"

definition tool_artifacts_from_execution :: "obj \<Rightarrow> ('e, json list) res" where
  "tool_artifacts_from_execution execution =
     bindR (py_iter (get_or execution ''tool_results'' (JList []))) (\<lambda>results.
     Inr (List.map_filter tool_artifact results))"

definition retrieval_artifact :: "json \<Rightarrow> json option" where
  "retrieval_artifact value =
     (case as_obj value of
        None \<Rightarrow> None
      | Some m \<Rightarrow>
          (case as_str (get m ''content_uri'') of
             None \<Rightarrow> None
           | Some uri \<Rightarrow> if startswith ''hetzner://runtime/'' uri then Some (uri_entry ''retrieval-context'' uri) else None))"

definition retrieval_artifacts_from_context :: "obj \<Rightarrow> json list" where
  "retrieval_artifacts_from_context context =
     (case as_obj (get context ''retrieval_response'') of
        None \<Rightarrow> []
      | Some response \<Rightarrow>
          concat (map (\<lambda>field.
            case as_list (get_or response field (JList [])) of
              None \<Rightarrow> []
            | Some values \<Rightarrow> List.map_filter retrieval_artifact values) [''knowledge_chunks'', ''memory_records'']))"

definition executed_action :: "obj \<Rightarrow> ('e, json) res" where
  "executed_action result =
     bindR (getitem result ''tool_name'') (\<lambda>tool_name.
     bindR (getitem result ''status'') (\<lambda>status.
     Inr (JStr (py_str tool_name @ '':'' @ py_str status))))"

text \<open>The common shape of the outputs: every branch of the source lists the same fields.\<close>

definition runtime_output :: "string \<Rightarrow> string \<Rightarrow> json list \<Rightarrow> obj \<Rightarrow> obj" where
  "runtime_output task_type summary artifacts details =
     [(''contract_version'', JStr RUNTIME_OUTPUT_CONTRACT_VERSION), (''task_type'', JStr task_type),
      (''status'', JStr ''completed''), (''summary'', JStr summary), (''artifacts'', JList artifacts),
      (''details'', JObj details)]"

definition research_output :: "obj \<Rightarrow> ('e, obj) res" where
  "research_output context =
     (let retrieval_artifacts = retrieval_artifacts_from_context context in
      bindR (py_len (get_or context ''knowledge_chunks'' (JList []))) (\<lambda>knowledge_count.
      bindR (py_len (get_or context ''memory_records'' (JList []))) (\<lambda>memory_count.
      let open_questions =
            (if knowledge_count = 0 \<and> memory_count = 0
             then [JStr ''No profile-authorized knowledge or memory records were returned.''] else [])
      in Inr (runtime_output ''research'' ''Research completed from profile-bounded retrieval context.'' retrieval_artifacts
           [(''key_points'', JList [JStr (''Loaded '' @ int_str knowledge_count @ '' knowledge chunk(s) and '' @
               int_str memory_count @ '' memory record(s) through the Control API retrieval boundary.'')]),
            (''sources'', JList retrieval_artifacts), (''open_questions'', JList open_questions)]))))"

definition task_execution_output :: "json list \<Rightarrow> obj \<Rightarrow> ('e, obj) res" where
  "task_execution_output tool_artifacts execution =
     bindR (py_iter (get_or execution ''tool_results'' (JList []))) (\<lambda>results.
     bindR (mapR executed_action (List.map_filter as_obj results)) (\<lambda>executed_actions.
     Inr (runtime_output ''task-execution'' ''Task execution completed in conservative read-only mode.'' tool_artifacts
       [(''planned_changes'', JList [JStr ''Inspect repository state and produce a bounded execution summary.'']),
        (''executed_actions'', JList executed_actions),
        (''blocked_actions'', JList [JStr ''Repository writes are outside the first productive runtime slice.''])])))"

definition runtime_output_for_task :: "string \<Rightarrow> obj \<Rightarrow> obj \<Rightarrow> obj \<Rightarrow> ('e, obj) res" where
  "runtime_output_for_task task_type context plan execution =
     bindR (tool_artifacts_from_execution execution) (\<lambda>tool_artifacts.
     if task_type = ''code-review'' then
       Inr (runtime_output ''code-review'' ''Code review completed with profile-scoped read-only tools.'' tool_artifacts
         [(''findings'', JList []), (''reviewed_artifacts'', JList tool_artifacts)])
     else if task_type = ''research'' then research_output context
     else if task_type = ''task-execution'' then task_execution_output tool_artifacts execution
     else Inr (runtime_output ''general-task'' ''General task completed with the generic runtime strategy.'' []
         [(''notes'', JList [JStr (''Runtime strategy: '' @
             py_str (get_or plan ''strategy'' (JStr ''general-task-summary'')) @ ''.'')])]))"

definition runtime_response :: "string \<Rightarrow> string \<Rightarrow> obj \<Rightarrow> obj \<Rightarrow> obj \<Rightarrow> obj \<Rightarrow> ('e, obj) res" where
  "runtime_response run_id task_id profile context plan execution =
     (let task_type = task_type_for_profile profile in
      bindR (runtime_output_for_task task_type context plan execution) (\<lambda>output.
      bindR (getitem profile ''id'') (\<lambda>profile_id.
      bindR (getitem output ''summary'') (\<lambda>summary.
      bindR (py_len (get_or execution ''tool_results'' (JList []))) (\<lambda>count.
      Inr [(''run_id'', JStr run_id), (''task_id'', JStr task_id), (''profile_id'', profile_id),
           (''task_type'', JStr task_type), (''status'', JStr ''succeeded''), (''summary'', summary),
           (''tool_result_count'', JInt count), (''runtime_output'', JObj output)])))))"

subsection \<open>Validators\<close>

record validation_outcome =
  vo_validator_id :: string
  vo_status :: string
  vo_findings :: obj

definition validator_outcome :: "string \<Rightarrow> string list \<Rightarrow> validation_outcome" where
  "validator_outcome validator_id errors =
     (let status = (if errors \<noteq> [] then ''failed'' else ''passed'')
      in \<lparr>vo_validator_id = validator_id, vo_status = status,
          vo_findings = [(''status'', JStr status), (''errors'', str_list errors)]\<rparr>)"

definition profile_schema_validate :: "obj \<Rightarrow> validation_outcome" where
  "profile_schema_validate profile =
     (let missing = filter (\<lambda>field. field \<notin> set (dict_keys profile))
            [''id'', ''profile_version'', ''instructions'', ''tools'', ''module_versions'', ''limits'', ''validators''];
          status = (if missing \<noteq> [] then ''failed'' else ''passed'')
      in \<lparr>vo_validator_id = ''runtime-profile-schema'', vo_status = status,
          vo_findings = [(''status'', JStr status), (''missing_profile_fields'', str_list missing)]\<rparr>)"

definition error_if :: "bool \<Rightarrow> string \<Rightarrow> string list" where
  "error_if c e = (if c then [e] else [])"

definition hostname_errors :: "obj \<Rightarrow> obj \<Rightarrow> string list" where
  "hostname_errors ctx authority =
     (case as_obj (get authority ''hostname'') of
        None \<Rightarrow> [''hostname_authority_missing'']
      | Some hostname \<Rightarrow>
          error_if (\<not> py_eq (get hostname ''tenant_id'') (get ctx ''tenant_id'')) ''hostname_tenant_id_mismatch'' @
          error_if (\<not> py_eq (get hostname ''hostname'') (get ctx ''hostname'')) ''hostname_mismatch'')"

definition membership_errors :: "obj \<Rightarrow> obj \<Rightarrow> obj \<Rightarrow> string list" where
  "membership_errors profile ctx authority =
     (case as_obj (get authority ''membership'') of
        None \<Rightarrow> [''membership_missing'']
      | Some membership \<Rightarrow>
          error_if (\<not> py_eq (get membership ''id'') (get ctx ''membership_id'')) ''membership_id_mismatch'' @
          error_if (\<not> py_eq (get membership ''principal_id'') (profile_principal_id profile)) ''membership_principal_mismatch'')"

definition tenant_profile_validate :: "obj \<Rightarrow> validation_outcome" where
  "tenant_profile_validate profile =
     validator_outcome ''tenant-profile-validator''
       (case as_obj (get profile ''tenant_context'') of
          None \<Rightarrow> [''tenant_context_missing'']
        | Some ctx \<Rightarrow>
            if get ctx ''tenant_id'' = JStr ''global'' then
              error_if (get profile ''tenant_authority'' \<noteq> JNull) ''global_tenant_authority_present''
            else (case as_obj (get profile ''tenant_authority'') of
              None \<Rightarrow> [''tenant_authority_missing'']
            | Some authority \<Rightarrow>
                error_if (\<not> py_eq (get authority ''tenant_id'') (get ctx ''tenant_id'')) ''tenant_id_mismatch'' @
                error_if (\<not> py_eq (get authority ''area_id'') (get ctx ''area_id'')) ''area_id_mismatch'' @
                hostname_errors ctx authority @
                error_if (get authority ''direct_user_grants_allowed'' \<noteq> JBool False) ''direct_user_grants_enabled'' @
                membership_errors profile ctx authority))"

definition authority_field_by_profile_field :: "(string \<times> string) list" where
  "authority_field_by_profile_field =
     [(''knowledge_scopes'', ''allowed_knowledge_scopes''), (''data_scopes'', ''allowed_data_scopes''),
      (''memory_scopes'', ''allowed_memory_scopes'')]"

definition scope_errors :: "obj \<Rightarrow> obj \<Rightarrow> string \<Rightarrow> ('e, string list) res" where
  "scope_errors profile authority field =
     (case map_of authority_field_by_profile_field field of
        None \<Rightarrow> Inl (Py KeyError)
      | Some authority_field \<Rightarrow>
          (let denied = sorted_diff (string_set (get_or profile field (JList [])))
                 (string_set (get_or authority authority_field (JList [])))
           in Inr (error_if (denied \<noteq> []) (field @ ''_not_allowed:'' @ join '','' denied))))"

definition validate_scopes_against_tenant_authority :: "string \<Rightarrow> obj \<Rightarrow> string list \<Rightarrow> ('e, validation_outcome) res" where
  "validate_scopes_against_tenant_authority validator_id profile scope_fields =
     (case as_obj (get profile ''tenant_context'') of
        None \<Rightarrow> Inr (validator_outcome validator_id [])
      | Some ctx \<Rightarrow>
          if get ctx ''tenant_id'' = JStr ''global'' then Inr (validator_outcome validator_id [])
          else (case as_obj (get profile ''tenant_authority'') of
            None \<Rightarrow> Inr (validator_outcome validator_id [''tenant_authority_missing''])
          | Some authority \<Rightarrow>
              bindR (mapR (scope_errors profile authority) scope_fields) (\<lambda>errors.
              Inr (validator_outcome validator_id (concat errors)))))"

text \<open>Python compares symmetrically; the operands stand in the order in which the other checks compare them.\<close>

definition no_cross_area_validate :: "obj \<Rightarrow> validation_outcome" where
  "no_cross_area_validate profile =
     validator_outcome ''no-cross-area-scope-validator''
       (case as_obj (get profile ''tenant_context'') of
          None \<Rightarrow> []
        | Some ctx \<Rightarrow>
            if get ctx ''tenant_id'' = JStr ''global'' then []
            else (case as_obj (get profile ''tenant_authority'') of
              None \<Rightarrow> [''tenant_authority_missing'']
            | Some authority \<Rightarrow> error_if (\<not> py_eq (get authority ''area_id'') (get ctx ''area_id'')) ''area_id_mismatch''))"

definition has_required_response :: "obj \<Rightarrow> bool" where
  "has_required_response response \<longleftrightarrow>
     list_all (\<lambda>field. field \<in> set (dict_keys response))
       [''run_id'', ''task_id'', ''profile_id'', ''task_type'', ''status'', ''summary'', ''runtime_output'']"

definition require_array :: "obj \<Rightarrow> string \<Rightarrow> string list" where
  "require_array value field = error_if (as_list (get value field) = None) (field @ ''_not_array'')"

definition require_non_empty_array :: "obj \<Rightarrow> string \<Rightarrow> string list" where
  "require_non_empty_array value field =
     (let errors = require_array value field
      in if errors \<noteq> [] then errors else error_if (\<not> truthy (get value field)) (field @ ''_empty''))"

definition detail_errors :: "string \<Rightarrow> obj \<Rightarrow> string list" where
  "detail_errors expected_task_type details =
     (if expected_task_type = ''code-review'' then
        require_array details ''findings'' @ require_array details ''reviewed_artifacts''
      else if expected_task_type = ''research'' then
        require_non_empty_array details ''key_points'' @ require_array details ''sources'' @
        require_array details ''open_questions''
      else if expected_task_type = ''task-execution'' then
        require_non_empty_array details ''planned_changes'' @ require_array details ''executed_actions'' @
        require_array details ''blocked_actions''
      else if expected_task_type = ''general-task'' then require_non_empty_array details ''notes''
      else [''unsupported_task_type''])"

definition runtime_output_errors :: "json \<Rightarrow> string \<Rightarrow> ('e, string list) res" where
  "runtime_output_errors v expected_task_type =
     (case as_obj v of
        None \<Rightarrow> Inr [''runtime_output_missing'']
      | Some value \<Rightarrow>
          bindR (in_strings (get value ''status'') [''completed'', ''blocked'', ''failed'']) (\<lambda>status_ok.
          Inr (error_if (get value ''contract_version'' \<noteq> JStr RUNTIME_OUTPUT_CONTRACT_VERSION) ''invalid_contract_version'' @
               error_if (get value ''task_type'' \<noteq> JStr expected_task_type) ''task_type_mismatch'' @
               error_if (\<not> status_ok) ''invalid_status'' @
               error_if (case as_str (get value ''summary'') of None \<Rightarrow> True | Some t \<Rightarrow> strip t = []) ''summary_missing'' @
               error_if (as_list (get value ''artifacts'') = None) ''artifacts_not_array'' @
               (case as_obj (get value ''details'') of
                  None \<Rightarrow> [''details_missing'']
                | Some details \<Rightarrow> detail_errors expected_task_type details))))"

definition output_contract_validate :: "string \<Rightarrow> string \<Rightarrow> obj \<Rightarrow> obj \<Rightarrow> ('e, validation_outcome) res" where
  "output_contract_validate validator_id task_type execution response =
     (let tool_results = get_or execution ''tool_results'' (JList []) in
      bindR (py_len tool_results) (\<lambda>count.
      bindR (runtime_output_errors (get response ''runtime_output'') task_type) (\<lambda>output_errors.
      let has_required = has_required_response response;
          has_count = py_eq (get response ''tool_result_count'') (JInt count);
          status = (if has_required \<and> has_count \<and> output_errors = [] then ''passed'' else ''failed'')
      in Inr \<lparr>vo_validator_id = validator_id, vo_status = status,
              vo_findings =
                [(''status'', JStr status), (''required_response_fields_present'', JBool has_required),
                 (''tool_result_count_matches_execution'', JBool has_count), (''tool_result_count'', JInt count),
                 (''runtime_output_errors'', str_list output_errors)]\<rparr>)))"

subsection \<open>The framework\<close>

type_synonym 'e validator = "obj \<Rightarrow> obj \<Rightarrow> obj \<Rightarrow> ('e, validation_outcome) res"

definition TASK_OUTPUT_VALIDATORS :: "(string \<times> string) list" where
  "TASK_OUTPUT_VALIDATORS =
     [(''review-findings-contract'', ''code-review''), (''research-output-contract'', ''research''),
      (''task-execution-output-contract'', ''task-execution''), (''general-output-contract'', ''general-task'')]"

definition builtin_validators :: "(string, 'e validator) dict" where
  "builtin_validators =
     [(''runtime-profile-schema'', \<lambda>profile execution response. Inr (profile_schema_validate profile)),
      (''tenant-profile-validator'', \<lambda>profile execution response. Inr (tenant_profile_validate profile)),
      (''no-cross-tenant-scope-validator'', \<lambda>profile execution response.
         validate_scopes_against_tenant_authority ''no-cross-tenant-scope-validator'' profile
           [''knowledge_scopes'', ''data_scopes'', ''memory_scopes'']),
      (''no-cross-area-scope-validator'', \<lambda>profile execution response. Inr (no_cross_area_validate profile)),
      (''knowledge-scope-validator'', \<lambda>profile execution response.
         validate_scopes_against_tenant_authority ''knowledge-scope-validator'' profile [''knowledge_scopes''])] @
     map (\<lambda>(validator_id, task_type).
            (validator_id, \<lambda>profile execution response. output_contract_validate validator_id task_type execution response))
       TASK_OUTPUT_VALIDATORS"

definition framework_init :: "(string, 'e validator) dict \<Rightarrow> (string, 'e validator) dict" where
  "framework_init validators = foldl (\<lambda>d kv. dict_set (fst kv) (snd kv) d) builtin_validators validators"

definition run_validator :: "(string, 'e validator) dict \<Rightarrow> obj \<Rightarrow> obj \<Rightarrow> obj \<Rightarrow> json \<Rightarrow> ('e, validation_outcome) res" where
  "run_validator validators profile execution response validator_id =
     (case map_of validators (py_str validator_id) of
        None \<Rightarrow> Inr \<lparr>vo_validator_id = py_str validator_id, vo_status = ''failed'',
                  vo_findings = [(''status'', JStr ''failed''), (''reason'', JStr ''validator_not_registered'')]\<rparr>
      | Some validate \<Rightarrow> validate profile execution response)"

definition framework_validate :: "(string, 'e validator) dict \<Rightarrow> obj \<Rightarrow> obj \<Rightarrow> obj \<Rightarrow> ('e, validation_outcome list) res" where
  "framework_validate validators profile execution response =
     bindR (py_iter (get_or profile ''validators'' (JList [])))
       (mapR (run_validator validators profile execution response))"

definition failed_validators :: "validation_outcome list \<Rightarrow> string list" where
  "failed_validators outcomes = map vo_validator_id (filter (\<lambda>v. vo_status v = ''failed'') outcomes)"

definition assert_validation_passed :: "validation_outcome list \<Rightarrow> (string, unit) res" where
  "assert_validation_passed outcomes =
     (let failed = failed_validators outcomes
      in raise_if (failed \<noteq> []) (''Runtime validation failed: '' @ join '', '' failed @ ''.''))"

subsection \<open>A built response satisfies its contract\<close>

lemma error_if_Nil [simp]: "error_if c e = [] \<longleftrightarrow> \<not> c"
  by (simp add: error_if_def)

lemma error_if_simps [simp]: "error_if True e = [e]" "error_if False e = []"
  by (simp_all add: error_if_def)

text \<open>The shape of an output for one task type, as the response builder produces it.\<close>

definition output_of :: "string \<Rightarrow> obj \<Rightarrow> bool" where
  "output_of task_type output \<longleftrightarrow>
     (\<exists>summary artifacts details. output = runtime_output task_type summary artifacts details \<and>
        strip summary \<noteq> [] \<and> detail_errors task_type details = [])"

lemma summaries_not_blank:
  "strip ''Code review completed with profile-scoped read-only tools.'' \<noteq> []"
  "strip ''Research completed from profile-bounded retrieval context.'' \<noteq> []"
  "strip ''Task execution completed in conservative read-only mode.'' \<noteq> []"
  "strip ''General task completed with the generic runtime strategy.'' \<noteq> []"
  by code_simp+

lemma output_ofI:
  "strip summary \<noteq> [] \<Longrightarrow> detail_errors task_type details = [] \<Longrightarrow> output_of task_type (runtime_output task_type summary artifacts details)"
  unfolding output_of_def by blast

lemma detail_errors_simps [simp]:
  "detail_errors ''code-review'' [(''findings'', JList xs), (''reviewed_artifacts'', JList ys)] = []"
  "detail_errors ''research'' [(''key_points'', JList (x # xs)), (''sources'', JList ys), (''open_questions'', JList zs)] = []"
  "detail_errors ''task-execution'' [(''planned_changes'', JList (x # xs)), (''executed_actions'', JList ys), (''blocked_actions'', JList zs)] = []"
  "detail_errors ''general-task'' [(''notes'', JList (x # xs))] = []"
  by (simp_all add: detail_errors_def require_non_empty_array_def require_array_def)

lemma research_output_of:
  assumes "research_output context = Inr out"
  shows "output_of ''research'' out"
proof -
  from assms obtain artifacts point questions where
    "out = runtime_output ''research'' ''Research completed from profile-bounded retrieval context.'' artifacts
       [(''key_points'', JList [point]), (''sources'', JList artifacts), (''open_questions'', JList questions)]"
    unfolding research_output_def Let_def bindR_Inr_iff by blast
  then show ?thesis by (simp only: output_ofI summaries_not_blank detail_errors_simps not_False_eq_True)
qed

lemma task_execution_output_of:
  assumes "task_execution_output artifacts execution = Inr out"
  shows "output_of ''task-execution'' out"
proof -
  from assms obtain change actions blocked where
    "out = runtime_output ''task-execution'' ''Task execution completed in conservative read-only mode.'' artifacts
       [(''planned_changes'', JList [change]), (''executed_actions'', JList actions), (''blocked_actions'', JList [blocked])]"
    unfolding task_execution_output_def bindR_Inr_iff by blast
  then show ?thesis by (simp only: output_ofI summaries_not_blank detail_errors_simps not_False_eq_True)
qed

lemma output_for_task:
  assumes "runtime_output_for_task task_type context plan execution = (Inr out :: ('e, obj) res)"
    and "task_type \<in> set SUPPORTED_RUNTIME_TASK_TYPES"
  shows "output_of task_type out"
proof -
  from assms(2) consider "task_type = ''code-review''" | "task_type = ''research''" | "task_type = ''task-execution''"
    | "task_type = ''general-task''"
    by (auto simp: SUPPORTED_RUNTIME_TASK_TYPES_def)
  then show ?thesis
  proof cases
    case 1
    with assms(1) obtain artifacts where "out = runtime_output ''code-review'' ''Code review completed with profile-scoped read-only tools.'' artifacts
         [(''findings'', JList []), (''reviewed_artifacts'', JList artifacts)]"
      unfolding runtime_output_for_task_def bindR_Inr_iff by auto
    with 1 show ?thesis by (simp only: output_ofI summaries_not_blank detail_errors_simps not_False_eq_True)
  next
    case 2
    with assms(1) have "research_output context = (Inr out :: ('e, obj) res)" unfolding runtime_output_for_task_def bindR_Inr_iff by auto
    then show ?thesis unfolding 2 by (rule research_output_of)
  next
    case 3
    with assms(1) obtain artifacts where "task_execution_output artifacts execution = (Inr out :: ('e, obj) res)"
      unfolding runtime_output_for_task_def bindR_Inr_iff by auto
    then show ?thesis unfolding 3 by (rule task_execution_output_of)
  next
    case 4
    with assms(1) obtain remark where "out = runtime_output ''general-task'' ''General task completed with the generic runtime strategy.'' []
         [(''notes'', JList [remark])]"
      unfolding runtime_output_for_task_def bindR_Inr_iff by auto
    with 4 show ?thesis by (simp only: output_ofI summaries_not_blank detail_errors_simps not_False_eq_True)
  qed
qed

lemma task_type_supported: "task_type_for_profile profile \<in> set SUPPORTED_RUNTIME_TASK_TYPES"
  by (simp add: task_type_for_profile_def SUPPORTED_RUNTIME_TASK_TYPES_def Let_def)

lemma output_errors_of:
  assumes "output_of task_type out"
  shows "\<exists>errors. runtime_output_errors (JObj out) expected = Inr errors \<and> (errors = [] \<longleftrightarrow> expected = task_type)"
  using assms by (auto simp: output_of_def runtime_output_errors_def runtime_output_def)

lemma built_response_contract:
  assumes "runtime_response run_id task_id profile context plan execution = (Inr response :: ('e, obj) res)"
  shows "\<exists>outcome. output_contract_validate validator_id task_type execution response = (Inr outcome :: ('f, validation_outcome) res) \<and>
     vo_status outcome \<in> {''passed'', ''failed''} \<and> (vo_status outcome = ''passed'' \<longleftrightarrow> task_type = task_type_for_profile profile)"
proof -
  from assms obtain out profile_id summary count where
    o1: "runtime_output_for_task (task_type_for_profile profile) context plan execution = (Inr out :: ('e, obj) res)"
    and count: "py_len (get_or execution ''tool_results'' (JList [])) = (Inr count :: ('e, int) res)"
    and response: "response = [(''run_id'', JStr run_id), (''task_id'', JStr task_id), (''profile_id'', profile_id),
           (''task_type'', JStr (task_type_for_profile profile)), (''status'', JStr ''succeeded''), (''summary'', summary),
           (''tool_result_count'', JInt count), (''runtime_output'', JObj out)]"
    by (auto simp: runtime_response_def res_simps Let_def)
  have count': "py_len (get_or execution ''tool_results'' (JList [])) = (Inr count :: ('f, int) res)"
    using count by (cases "get_or execution ''tool_results'' (JList [])") auto
  obtain errors where "runtime_output_errors (JObj out) task_type = (Inr errors :: ('f, string list) res)"
    "errors = [] \<longleftrightarrow> task_type = task_type_for_profile profile"
    using output_errors_of [OF output_for_task [OF o1 task_type_supported]] by blast
  then show ?thesis
    by (simp add: output_contract_validate_def count' response has_required_response_def Let_def)
qed

subsection \<open>What the enforcer accepted, the tenant validators accept\<close>

lemma py_str_global: "py_str v = ''global'' \<longleftrightarrow> v = JStr ''global''"
proof (cases v)
  case (JInt i)
  have "CHR ''g'' \<notin> set (int_str i)"
    using dec_str_digits [of i] dec_str_digits [of "- i"] unfolding int_str_def digit_chars by auto
  with JInt show ?thesis by auto
next
  case (JBool b)
  then show ?thesis by (cases b) auto
qed auto

definition tenant_validators :: "string list" where
  "tenant_validators =
     [''tenant-profile-validator'', ''no-cross-tenant-scope-validator'', ''no-cross-area-scope-validator'', ''knowledge-scope-validator'']"

lemma global_tenant: "py_str (get_or ctx ''tenant_id'' (JStr [])) = GLOBAL_TENANT_ID \<longleftrightarrow> get ctx ''tenant_id'' = JStr ''global''"
  unfolding GLOBAL_TENANT_ID_def py_str_global by (simp add: get_or_def get_def split: option.splits)

lemma validator_outcome_passed [simp]: "vo_status (validator_outcome v errors) = ''passed'' \<longleftrightarrow> errors = []"
  by (simp add: validator_outcome_def Let_def)

lemma accepted_tenant:
  assumes "en_validate_tenant_authority profile = Inr ()"
  obtains (global) ctx where "get profile ''tenant_context'' = JObj ctx" "get ctx ''tenant_id'' = JStr ''global''"
      "get profile ''tenant_authority'' = JNull"
    | (tenant) ctx authority role_ids bundles where "get profile ''tenant_context'' = JObj ctx" "get ctx ''tenant_id'' \<noteq> JStr ''global''"
      "get profile ''tenant_authority'' = JObj authority" "en_validate_tenant_identity ctx authority = Inr ()"
      "en_validate_tenant_membership profile ctx authority = Inr role_ids"
      "en_validate_tenant_selected_modules profile authority bundles = Inr ()"
  using assms unfolding en_validate_tenant_authority_def global_tenant
  by (auto simp: bindR_Inr_iff raise_if_Inr as_obj_iff split: option.splits if_splits)

lemma identity_no_errors:
  assumes "en_validate_tenant_identity ctx authority = Inr ()"
  shows "py_eq (get authority ''tenant_id'') (get ctx ''tenant_id'')" "py_eq (get authority ''area_id'') (get ctx ''area_id'')"
    "hostname_errors ctx authority = []" "get authority ''direct_user_grants_allowed'' = JBool False"
  using assms unfolding en_validate_tenant_identity_def hostname_errors_def
  by (auto simp: bindR_Inr_iff raise_if_Inr split: option.splits)

lemma membership_no_errors:
  "en_validate_tenant_membership profile ctx authority = Inr role_ids \<Longrightarrow> membership_errors profile ctx authority = []"
  unfolding en_validate_tenant_membership_def membership_errors_def
  by (auto simp: bindR_Inr_iff raise_if_Inr split: option.splits)

lemma selected_scopes_allowed:
  assumes "en_validate_tenant_selected_modules profile authority bundles = Inr ()"
    and "map_of authority_field_by_profile_field field = Some authority_field"
  shows "set (string_set (get_or profile field (JList []))) \<subseteq> set (string_set (get_or authority authority_field (JList [])))"
proof -
  have field: "\<exists>code. (field, string_set (get_or authority authority_field (JList [])), code) \<in> set (en_module_checks authority derived)" for derived
    using assms(2) by (auto simp: authority_field_by_profile_field_def en_module_checks_def Let_def split: if_splits)
  from assms(1) obtain derived where "\<forall>(field, allowed, code) \<in> set (en_module_checks authority derived).
      set (string_set (get_or profile field (JList []))) \<subseteq> set allowed"
    unfolding en_validate_tenant_selected_modules_def bindR_Inr_iff
    by (fastforce simp: Let_def raise_if_Inr dest: mapR_member split: prod.splits)
  with field [of derived] show ?thesis by fastforce
qed

lemma scopes_no_errors:
  assumes "en_validate_tenant_selected_modules profile authority bundles = Inr ()"
    and "set fs \<subseteq> set (dict_keys authority_field_by_profile_field)"
  shows "mapR (scope_errors profile authority) fs = Inr (map (\<lambda>_. []) fs)"
  using assms(2)
proof (induction fs)
  case (Cons field fs)
  then obtain authority_field where "map_of authority_field_by_profile_field field = Some authority_field"
    by (auto simp: map_of_eq_None_iff dest!: weak_map_of_SomeI)
  with selected_scopes_allowed [OF assms(1) this] Cons show ?case by (simp add: scope_errors_def Let_def)
qed simp

lemma tenant_validators_pass:
  assumes "en_validate_tenant_authority profile = Inr ()"
  shows "vo_status (tenant_profile_validate profile) = ''passed''" "vo_status (no_cross_area_validate profile) = ''passed''"
    "set fs \<subseteq> set (dict_keys authority_field_by_profile_field) \<Longrightarrow>
     validate_scopes_against_tenant_authority v profile fs = Inr (validator_outcome v [])"
proof -
  show "vo_status (tenant_profile_validate profile) = ''passed''"
    using assms
    by (cases rule: accepted_tenant) (simp_all add: tenant_profile_validate_def identity_no_errors membership_no_errors)
  show "vo_status (no_cross_area_validate profile) = ''passed''"
    using assms by (cases rule: accepted_tenant) (simp_all add: no_cross_area_validate_def identity_no_errors)
  have [simp]: "concat (map (\<lambda>_. []) fs) = []" for fs :: "string list" by (induction fs) auto
  show "validate_scopes_against_tenant_authority v profile fs = Inr (validator_outcome v [])"
    if "set fs \<subseteq> set (dict_keys authority_field_by_profile_field)"
    using assms that by (cases rule: accepted_tenant) (simp_all add: validate_scopes_against_tenant_authority_def scopes_no_errors)
qed

definition schema_complete :: "obj \<Rightarrow> bool" where
  "schema_complete profile \<longleftrightarrow> {''id'', ''profile_version'', ''instructions'', ''tools'', ''module_versions'', ''limits'', ''validators''}
     \<subseteq> set (dict_keys profile)"

text \<open>The validators that a profile may list without making its runs fail: the registered ones, and among the
  output contracts only that of the profile's own task type.\<close>

definition admissible_validator :: "obj \<Rightarrow> string \<Rightarrow> bool" where
  "admissible_validator profile v \<longleftrightarrow> v = ''runtime-profile-schema'' \<or> v \<in> set tenant_validators \<or>
     map_of TASK_OUTPUT_VALIDATORS v = Some (task_type_for_profile profile)"

lemma framework_init_Nil [simp]: "framework_init [] = builtin_validators"
  by (simp add: framework_init_def)

lemma contract_validators:
  "map_of (map (\<lambda>(v, t). (v, f v t)) xs) v = map_option (f v) (map_of xs v)"
  by (induction xs) auto

lemma run_contract_validator:
  assumes "map_of TASK_OUTPUT_VALIDATORS v = Some t"
  shows "run_validator builtin_validators profile execution response (JStr v) = output_contract_validate v t execution response"
proof -
  have "v \<notin> set [''runtime-profile-schema'', ''tenant-profile-validator'', ''no-cross-tenant-scope-validator'',
      ''no-cross-area-scope-validator'', ''knowledge-scope-validator'']"
    using assms by (auto simp: TASK_OUTPUT_VALIDATORS_def)
  then show ?thesis
    using assms by (simp add: run_validator_def builtin_validators_def contract_validators)
qed

lemma run_validator_str:
  "run_validator vs profile execution response v = run_validator vs profile execution response (JStr (py_str v))"
  by (simp add: run_validator_def split: option.split)

lemma run_validator_exact:
  assumes "en_validate_tenant_authority profile = Inr ()" and "schema_complete profile"
    and "runtime_response run_id task_id profile context plan execution = (Inr response :: ('e, obj) res)"
  shows "\<exists>outcome. run_validator builtin_validators profile execution response v = (Inr outcome :: ('f, validation_outcome) res) \<and>
     vo_status outcome \<in> {''passed'', ''failed''} \<and> (vo_status outcome = ''passed'' \<longleftrightarrow> admissible_validator profile (py_str v))"
proof -
  let ?v = "py_str v" and ?run = "run_validator builtin_validators profile execution response (JStr (py_str v)) :: ('f, validation_outcome) res"
  consider (schema) "?v = ''runtime-profile-schema''" | (tenant) "?v \<in> set tenant_validators"
    | (contract) t where "map_of TASK_OUTPUT_VALIDATORS ?v = Some t"
    | (unknown) "?v \<noteq> ''runtime-profile-schema''" "?v \<notin> set tenant_validators" "map_of TASK_OUTPUT_VALIDATORS ?v = None"
    by (cases "map_of TASK_OUTPUT_VALIDATORS ?v") auto
  then have "\<exists>outcome. ?run = Inr outcome \<and> vo_status outcome \<in> {''passed'', ''failed''} \<and>
      (vo_status outcome = ''passed'' \<longleftrightarrow> admissible_validator profile ?v)"
  proof cases
    case schema
    then show ?thesis using assms(2)
      by (auto simp: run_validator_def builtin_validators_def profile_schema_validate_def Let_def schema_complete_def admissible_validator_def)
  next
    case tenant
    have known: "set [''knowledge_scopes'', ''data_scopes'', ''memory_scopes''] \<subseteq> set (dict_keys authority_field_by_profile_field)"
      "set [''knowledge_scopes''] \<subseteq> set (dict_keys authority_field_by_profile_field)"
      by (simp_all add: authority_field_by_profile_field_def)
    have "validate_scopes_against_tenant_authority ?v profile fs = (Inr (validator_outcome ?v []) :: ('f, validation_outcome) res)"
      if "set fs \<subseteq> set (dict_keys authority_field_by_profile_field)" for fs
      by (rule tenant_validators_pass(3) [OF assms(1) that])
    from this [OF known(1)] this [OF known(2)] have "\<exists>outcome. ?run = Inr outcome \<and> vo_status outcome = ''passed''"
      using tenant tenant_validators_pass(1,2) [OF assms(1)]
      by (auto simp: tenant_validators_def run_validator_def builtin_validators_def)
    with tenant show ?thesis by (auto simp: admissible_validator_def)
  next
    case (contract t)
    obtain outcome where "output_contract_validate ?v t execution response = (Inr outcome :: ('f, validation_outcome) res)"
      "vo_status outcome = ''passed'' \<longleftrightarrow> t = task_type_for_profile profile" "vo_status outcome \<in> {''passed'', ''failed''}"
      using built_response_contract [OF assms(3)] by blast
    moreover have "?v \<noteq> ''runtime-profile-schema''" "?v \<notin> set tenant_validators"
      using contract by (auto simp: TASK_OUTPUT_VALIDATORS_def tenant_validators_def)
    ultimately show ?thesis using contract by (auto simp: run_contract_validator admissible_validator_def)
  next
    case unknown
    then show ?thesis
      by (simp add: run_validator_def builtin_validators_def contract_validators tenant_validators_def admissible_validator_def)
  qed
  then show ?thesis by (subst run_validator_str)
qed


definition sample_response :: obj where
  "sample_response =
     (case runtime_response ''run-a'' ''task-a'' sample_profile [] [] [] :: (string, obj) res of Inr r \<Rightarrow> r | Inl _ \<Rightarrow> [])"


end
