(* ===== verification/Planning.thy ===== *)
theory Planning
  imports Validation
begin

text \<open>
  \<open>runtime/skill_handlers.py\<close> and \<open>runtime/planning.py\<close>: the registry of executable skill
  handlers, the division of a profile's skills by execution role, and the plan that a run
  executes. A plan builder of a handler is a function argument of the handler's record, as in
  the source; the built-in handlers are the six of the source.
\<close>

subsection \<open>Handlers and plans\<close>

definition SKILL_HANDLER_RUNTIME_PATH :: string where
  "SKILL_HANDLER_RUNTIME_PATH = ''src/skill_centric_agent_system/runtime/skill_handlers.py''"

record skill_handler_plan =
  hp_skill_name :: string
  hp_skill_version :: string
  hp_handler_id :: string
  hp_strategy :: string
  hp_output_contract :: string
  hp_actions :: "json list"

definition handler_ref :: "skill_handler_plan \<Rightarrow> json" where
  "handler_ref p =
     JObj [(''name'', JStr (hp_skill_name p)), (''version'', JStr (hp_skill_version p)), (''handler_id'', JStr (hp_handler_id p))]"

record runtime_skill_plan =
  sp_strategy :: string
  sp_output_contract :: string
  sp_actions :: "json list"
  sp_skill_handlers :: "json list"

record runtime_skill_selection =
  rs_runtime_skills :: "string list"
  rs_non_runtime_skills :: "string list"
  rs_shared_skills :: "string list"

definition executable_skills :: "runtime_skill_selection \<Rightarrow> string list" where
  "executable_skills r = rs_runtime_skills r @ rs_shared_skills r"

record skill_handler =
  sh_skill_name :: string
  sh_skill_version :: string
  sh_strategy :: string
  sh_output_contract :: string
  sh_build_actions :: "obj \<Rightarrow> json list"
  sh_runtime_path :: string
  sh_test_coverage :: "string list"
  sh_lifecycle_status :: string

definition handler_id :: "skill_handler \<Rightarrow> string" where
  "handler_id h = sh_skill_name h @ ''@'' @ sh_skill_version h"

definition handler_build_plan :: "skill_handler \<Rightarrow> obj \<Rightarrow> skill_handler_plan" where
  "handler_build_plan h profile =
     \<lparr>hp_skill_name = sh_skill_name h, hp_skill_version = sh_skill_version h, hp_handler_id = handler_id h,
      hp_strategy = sh_strategy h, hp_output_contract = sh_output_contract h, hp_actions = sh_build_actions h profile\<rparr>"

definition descriptor :: "skill_handler \<Rightarrow> json" where
  "descriptor h =
     JObj [(''handler_id'', JStr (handler_id h)), (''runtime_path'', JStr (sh_runtime_path h)),
           (''strategy'', JStr (sh_strategy h)), (''output_contract'', JStr (sh_output_contract h)),
           (''test_coverage'', str_list (sh_test_coverage h)), (''lifecycle_status'', JStr (sh_lifecycle_status h))]"

subsection \<open>The registry of handlers\<close>

datatype registration_error = DuplicateHandler string

record handler_registry =
  hr_by_name_version :: "(string \<times> string, skill_handler) dict"
  hr_known_versions :: "(string, string list) dict"

definition add_handler :: "skill_handler \<Rightarrow> handler_registry \<Rightarrow> (registration_error, handler_registry) res" where
  "add_handler h r =
     (let key = (sh_skill_name h, sh_skill_version h);
          versions = (case map_of (hr_known_versions r) (sh_skill_name h) of None \<Rightarrow> [] | Some vs \<Rightarrow> vs)
      in bindR (raise_if (key \<in> set (dict_keys (hr_by_name_version r))) (DuplicateHandler (handler_id h))) (\<lambda>_.
         Inr \<lparr>hr_by_name_version = dict_set key h (hr_by_name_version r),
              hr_known_versions = dict_set (sh_skill_name h) (List.insert (sh_skill_version h) versions) (hr_known_versions r)\<rparr>))"

definition handler_registry_init :: "skill_handler list \<Rightarrow> (registration_error, handler_registry) res" where
  "handler_registry_init handlers = foldR add_handler handlers \<lparr>hr_by_name_version = [], hr_known_versions = []\<rparr>"

definition handlers_of :: "handler_registry \<Rightarrow> skill_handler list" where
  "handlers_of r = sort_key (\<lambda>h. (sh_skill_name h, sh_skill_version h)) (dict_values (hr_by_name_version r))"

definition handler_for :: "handler_registry \<Rightarrow> string \<Rightarrow> string \<Rightarrow> skill_handler option" where
  "handler_for r skill_name skill_version = map_of (hr_by_name_version r) (skill_name, skill_version)"

definition resolve_handler :: "handler_registry \<Rightarrow> string \<Rightarrow> string \<Rightarrow> skill_handler enforced" where
  "resolve_handler r skill_name skill_version =
     (case map_of (hr_by_name_version r) (skill_name, skill_version) of
        Some h \<Rightarrow> Inr h
      | None \<Rightarrow>
          if skill_name \<in> set (dict_keys (hr_known_versions r)) then
            Inl (Raise (deny (''No executable skill handler is registered for '' @ skill_name @ ''@'' @ skill_version @ ''.'')
              ''skill_handler_version_mismatch''))
          else Inl (Raise (deny (''No executable skill handler is registered for selected skill: '' @ skill_name @ ''.'')
              ''skill_handler_not_registered'')))"

subsection \<open>Skills by execution role\<close>

definition selected_skill_names :: "obj \<Rightarrow> string list" where
  "selected_skill_names profile =
     (case as_list (get_or profile ''skills'' (JList [])) of None \<Rightarrow> [] | Some skills \<Rightarrow> map py_str skills)"

definition role_skills :: "obj \<Rightarrow> string \<Rightarrow> string list enforced" where
  "role_skills role_map role_field =
     (case as_list (get_or role_map role_field (JList [])) of
        None \<Rightarrow> Inl (Raise (deny (''Invalid skill execution role list: '' @ role_field @ ''.'') ''skill_execution_roles_invalid''))
      | Some values \<Rightarrow> Inr (map py_str values))"

definition validate_skill_execution_roles :: "string list \<Rightarrow> string list \<Rightarrow> string list \<Rightarrow> string list \<Rightarrow> unit enforced" where
  "validate_skill_execution_roles selected_skills runtime_skills non_runtime_skills shared_skills =
     (let role_assignments = runtime_skills @ non_runtime_skills @ shared_skills;
          unselected = sorted_diff role_assignments selected_skills;
          missing = sorted_diff selected_skills role_assignments;
          duplicate_assignments = sort (filter (\<lambda>s. count_list role_assignments s > 1) (dedupe role_assignments))
      in bindR (raise_if (unselected \<noteq> [])
           (deny (''Skill execution roles include unselected skills: '' @ join '', '' unselected @ ''.'')
              ''skill_execution_roles_unselected'')) (\<lambda>_.
         bindR (raise_if (missing \<noteq> [])
           (deny (''Selected skills are missing role assignments: '' @ join '', '' missing @ ''.'')
              ''skill_execution_roles_missing'')) (\<lambda>_.
         raise_if (duplicate_assignments \<noteq> [])
           (deny (''Skills cannot be assigned to multiple execution roles: '' @ join '', '' duplicate_assignments @ ''.'')
              ''skill_execution_roles_overlap''))))"

definition selected_skills_for_runtime :: "obj \<Rightarrow> runtime_skill_selection enforced" where
  "selected_skills_for_runtime profile =
     (let selected_skills = selected_skill_names profile in
      case as_obj (get profile ''skill_execution_roles'') of
        None \<Rightarrow> Inr \<lparr>rs_runtime_skills = selected_skills, rs_non_runtime_skills = [], rs_shared_skills = []\<rparr>
      | Some role_map \<Rightarrow>
          bindR (role_skills role_map ''runtime_skills'') (\<lambda>runtime_skills.
          bindR (role_skills role_map ''non_runtime_skills'') (\<lambda>non_runtime_skills.
          bindR (role_skills role_map ''shared_skills'') (\<lambda>shared_skills.
          bindR (validate_skill_execution_roles selected_skills runtime_skills non_runtime_skills shared_skills) (\<lambda>_.
          Inr \<lparr>rs_runtime_skills = runtime_skills, rs_non_runtime_skills = non_runtime_skills,
               rs_shared_skills = shared_skills\<rparr>)))))"

definition required_version_pin :: "obj \<Rightarrow> string \<Rightarrow> string enforced" where
  "required_version_pin profile module_name =
     (let missing = deny (''Selected skill is not version-pinned: '' @ module_name @ ''.'') ''selected_skill_version_missing'' in
      case as_obj (get_or profile ''module_versions'' (JObj [])) of
        None \<Rightarrow> Inl (Raise missing)
      | Some pins \<Rightarrow>
          (case map_of pins module_name of None \<Rightarrow> Inl (Raise missing) | Some v \<Rightarrow> Inr (py_str v)))"

subsection \<open>Plans\<close>

definition output_contract_for_task_type :: "obj \<Rightarrow> string" where
  "output_contract_for_task_type profile =
     (case map_of [(''code-review'', ''review-findings-contract''), (''research'', ''research-output-contract''),
                   (''task-execution'', ''task-execution-output-contract''), (''general-task'', ''general-output-contract'')]
             (py_str (get_or profile ''task_type'' (JStr ''general-task''))) of
        None \<Rightarrow> ''general-output-contract'' | Some c \<Rightarrow> c)"

definition aggregate_plans :: "skill_handler_plan list \<Rightarrow> runtime_skill_plan" where
  "aggregate_plans plans =
     (let strategies = map hp_strategy plans; output_contracts = dedupe (map hp_output_contract plans)
      in \<lparr>sp_strategy = (if length strategies = 1 then hd strategies else ''skill-handler-pipeline''),
          sp_output_contract = (if length output_contracts = 1 then hd output_contracts else ''composite-output-contract''),
          sp_actions = concat (map hp_actions plans),
          sp_skill_handlers = map handler_ref plans\<rparr>)"

definition plan_skill :: "handler_registry \<Rightarrow> obj \<Rightarrow> enforcer \<Rightarrow> string \<Rightarrow> skill_handler_plan enforced" where
  "plan_skill r profile e skill_name =
     bindR (require_skill (en_profile e) skill_name) (\<lambda>_.
     bindR (required_version_pin profile skill_name) (\<lambda>skill_version.
     bindR (require_module_version (en_profile e) skill_name skill_version) (\<lambda>_.
     bindR (resolve_handler r skill_name skill_version) (\<lambda>h. Inr (handler_build_plan h profile)))))"

definition build_plan :: "handler_registry \<Rightarrow> obj \<Rightarrow> enforcer \<Rightarrow> runtime_skill_plan enforced" where
  "build_plan r profile e =
     bindR (selected_skills_for_runtime profile) (\<lambda>skill_selection.
     let executable_skill_names = executable_skills skill_selection in
     if executable_skill_names = [] then
       Inr \<lparr>sp_strategy = ''profile-without-executable-skill'', sp_output_contract = output_contract_for_task_type profile,
            sp_actions = [], sp_skill_handlers = []\<rparr>
     else bindR (mapR (plan_skill r profile e) executable_skill_names) (\<lambda>plans. Inr (aggregate_plans plans)))"

definition build_runtime_plan :: "obj \<Rightarrow> enforcer \<Rightarrow> handler_registry \<Rightarrow> obj enforced" where
  "build_runtime_plan profile e skill_handlers =
     (let task_type = task_type_for_profile profile in
      bindR (build_plan skill_handlers profile e) (\<lambda>skill_plan.
      bindR (getitem profile ''objective'') (\<lambda>objective.
      Inr [(''objective'', objective), (''task_type'', JStr task_type),
           (''selected_modules'', str_list (selected_modules profile)),
           (''strategy'', JStr (sp_strategy skill_plan)), (''output_contract'', JStr (sp_output_contract skill_plan)),
           (''skill_handlers'', JList (sp_skill_handlers skill_plan)), (''actions'', JList (sp_actions skill_plan))])))"

subsection \<open>The built-in handlers\<close>

definition tool_action :: "string \<Rightarrow> obj \<Rightarrow> json" where
  "tool_action tool payload = JObj [(''tool'', JStr tool), (''payload'', JObj payload)]"

definition git_diff_analysis_actions :: "obj \<Rightarrow> json list" where
  "git_diff_analysis_actions profile =
     [tool_action ''git-read'' [(''args'', str_list [''status'', ''--short''])],
      tool_action ''filesystem-read'' [(''path'', JStr ''README.md''), (''max_bytes'', JInt 4000)]]"

definition task_execution_planning_actions :: "obj \<Rightarrow> json list" where
  "task_execution_planning_actions profile =
     [tool_action ''git-read'' [(''args'', str_list [''status'', ''--short''])],
      tool_action ''filesystem-list'' [(''path'', JStr ''.''), (''max_entries'', JInt 80)],
      tool_action ''filesystem-read'' [(''path'', JStr ''README.md''), (''max_bytes'', JInt 4000)]]"

definition no_tool_actions :: "obj \<Rightarrow> json list" where
  "no_tool_actions profile = []"

definition document_synthesis_actions :: "obj \<Rightarrow> json list" where
  "document_synthesis_actions profile = []"

definition dependency_audit_actions :: "obj \<Rightarrow> json list" where
  "dependency_audit_actions profile =
     [tool_action ''filesystem-list'' [(''path'', JStr ''.''), (''max_entries'', JInt 120)],
      tool_action ''filesystem-read'' [(''path'', JStr ''package.json''), (''max_bytes'', JInt 6000)],
      tool_action ''filesystem-read'' [(''path'', JStr ''pyproject.toml''), (''max_bytes'', JInt 6000)]]"

definition builtin_handler :: "string \<Rightarrow> string \<Rightarrow> string \<Rightarrow> (obj \<Rightarrow> json list) \<Rightarrow> string list \<Rightarrow> skill_handler" where
  "builtin_handler skill_name strategy output_contract actions test_coverage =
     \<lparr>sh_skill_name = skill_name, sh_skill_version = ''0.1.0'', sh_strategy = strategy,
      sh_output_contract = output_contract, sh_build_actions = actions, sh_runtime_path = SKILL_HANDLER_RUNTIME_PATH,
      sh_test_coverage = test_coverage, sh_lifecycle_status = ''active''\<rparr>"

definition builtin_handlers :: "skill_handler list" where
  "builtin_handlers =
     [builtin_handler ''git-diff-analysis'' ''code-review-readonly'' ''review-findings-contract'' git_diff_analysis_actions
        [''tests/test_runtime_skill_handlers.py::test_builtin_skill_handler_registry_resolves_profile_selected_version'',
         ''tests/test_runtime_skill_handlers.py::test_runtime_loop_records_executed_skill_handler_binding''],
      builtin_handler ''research-context-synthesis'' ''research-context-synthesis'' ''research-output-contract'' no_tool_actions
        [''tests/test_runtime_tool_gateway_and_loop.py::test_minimal_runtime_loop_dispatches_task_type_strategies''],
      builtin_handler ''task-execution-planning'' ''conservative-task-execution'' ''task-execution-output-contract''
        task_execution_planning_actions
        [''tests/test_runtime_tool_gateway_and_loop.py::test_minimal_runtime_loop_dispatches_task_type_strategies''],
      builtin_handler ''dependency-audit'' ''dependency-audit-readonly'' ''task-execution-output-contract'' dependency_audit_actions
        [''tests/test_runtime_skill_handlers.py::test_dependency_audit_skill_handler_builds_expected_actions''],
      builtin_handler ''document-synthesis'' ''document-synthesis'' ''general-output-contract'' document_synthesis_actions
        [''tests/test_runtime_skill_handlers.py::test_document_synthesis_skill_handler_builds_no_tool_actions''],
      builtin_handler ''general-task-summary'' ''general-task-summary'' ''general-output-contract'' no_tool_actions
        [''tests/test_runtime_tool_gateway_and_loop.py::test_minimal_runtime_loop_dispatches_task_type_strategies'']]"

definition builtin_skill_handler_registry :: "(registration_error, handler_registry) res" where
  "builtin_skill_handler_registry = handler_registry_init builtin_handlers"

subsection \<open>Execution roles partition the selected skills\<close>

lemma count_list_distinct: "(\<forall>x \<in> set xs. count_list xs x \<le> 1) \<longleftrightarrow> distinct xs"
proof (induction xs)
  case (Cons x xs)
  have "(\<forall>y \<in> set (x # xs). count_list (x # xs) y \<le> 1) \<longleftrightarrow> x \<notin> set xs \<and> (\<forall>y \<in> set xs. count_list xs y \<le> 1)"
    by (auto simp: count_list_0_iff)
  with Cons show ?case by simp
qed simp

lemma validate_roles_iff:
  "validate_skill_execution_roles selected r n sh = Inr () \<longleftrightarrow>
     set (r @ n @ sh) = set selected \<and> distinct (r @ n @ sh)"
proof -
  have dup: "sort (filter (\<lambda>s. count_list xs s > 1) (dedupe xs)) = [] \<longleftrightarrow> distinct xs" for xs :: "string list"
    unfolding count_list_distinct [symmetric] by (auto simp: filter_empty_conv simp flip: set_empty)
  show ?thesis
    unfolding validate_skill_execution_roles_def Let_def bindR_Inr_iff raise_if_Inr not_not dup sorted_diff_Nil_iff by blast
qed

lemma selection_partition:
  assumes "selected_skills_for_runtime profile = Inr sel"
  shows "set (executable_skills sel) \<subseteq> set (selected_skill_names profile)"
    "set (executable_skills sel) \<inter> set (rs_non_runtime_skills sel) = {}"
    "set (selected_skill_names profile) \<subseteq> set (executable_skills sel) \<union> set (rs_non_runtime_skills sel)"
proof -
  have "set (executable_skills sel) \<subseteq> set (selected_skill_names profile) \<and>
     set (executable_skills sel) \<inter> set (rs_non_runtime_skills sel) = {} \<and>
     set (selected_skill_names profile) \<subseteq> set (executable_skills sel) \<union> set (rs_non_runtime_skills sel)"
    using assms unfolding selected_skills_for_runtime_def Let_def
    by (auto simp: bindR_Inr_iff validate_roles_iff executable_skills_def split: option.splits)
  then show "set (executable_skills sel) \<subseteq> set (selected_skill_names profile)"
    "set (executable_skills sel) \<inter> set (rs_non_runtime_skills sel) = {}"
    "set (selected_skill_names profile) \<subseteq> set (executable_skills sel) \<union> set (rs_non_runtime_skills sel)" by blast+
qed

subsection \<open>Plans bind registered handlers\<close>

lemma registered_handlers:
  assumes "handler_registry_init handlers = Inr r" and "map_of (hr_by_name_version r) (n, v) = Some h"
  shows "h \<in> set handlers \<and> sh_skill_name h = n \<and> sh_skill_version h = v"
proof -
  let ?P = "\<lambda>r. \<forall>n v h. map_of (hr_by_name_version r) (n, v) = Some h \<longrightarrow> h \<in> set handlers \<and> sh_skill_name h = n \<and> sh_skill_version h = v"
  have "?P r"
    using assms(1) unfolding handler_registry_init_def
    by (rule foldR_invariant [rotated 2]) (auto simp: add_handler_def Let_def bindR_Inr_iff dict_simps split: if_splits)
  with assms(2) show ?thesis by blast
qed

definition binds :: "skill_handler list \<Rightarrow> obj \<Rightarrow> enforcer \<Rightarrow> string \<Rightarrow> skill_handler \<Rightarrow> bool" where
  "binds handlers profile e n h \<longleftrightarrow> h \<in> set handlers \<and> sh_skill_name h = n \<and>
     required_version_pin profile n = Inr (sh_skill_version h) \<and>
     str_in n (get_or (en_profile e) ''skills'' (JList [])) = (Inr True :: bool enforced)"

lemma plan_skill_binds:
  assumes "handler_registry_init handlers = Inr r" and "plan_skill r profile e n = Inr p"
  shows "\<exists>h. binds handlers profile e n h \<and> p = handler_build_plan h profile"
proof -
  from assms(2) obtain v h where h: "str_in n (get_or (en_profile e) ''skills'' (JList [])) = (Inr True :: bool enforced)"
    "required_version_pin profile n = Inr v" "map_of (hr_by_name_version r) (n, v) = Some h" "p = handler_build_plan h profile"
    unfolding plan_skill_def require_skill_def
    by (auto simp: bindR_Inr_iff require_listed_Inr resolve_handler_def split: option.splits if_splits)
  with registered_handlers [OF assms(1) h(3)] show ?thesis unfolding binds_def by blast
qed

lemma plan_skills_bind:
  assumes "handler_registry_init handlers = Inr r" and "mapR (plan_skill r profile e) skills = Inr plans"
  shows "\<exists>hs. list_all2 (binds handlers profile e) skills hs \<and> plans = map (\<lambda>h. handler_build_plan h profile) hs"
  using assms(2)
proof (induction skills arbitrary: plans)
  case (Cons n skills)
  then obtain p ps where p: "plan_skill r profile e n = Inr p" "mapR (plan_skill r profile e) skills = Inr ps" "plans = p # ps"
    by (auto simp: bindR_Inr_iff)
  with plan_skill_binds [OF assms(1) p(1)] Cons.IH [OF p(2)] show ?case by (auto intro: list_all2_Cons [THEN iffD2])
qed simp

lemma build_plan_binds:
  assumes "handler_registry_init handlers = Inr r" and "build_plan r profile e = Inr plan"
  obtains sel hs where "selected_skills_for_runtime profile = Inr sel"
    "list_all2 (binds handlers profile e) (executable_skills sel) hs"
    "sp_actions plan = concat (map (\<lambda>h. sh_build_actions h profile) hs)"
    "sp_skill_handlers plan = map (\<lambda>h. handler_ref (handler_build_plan h profile)) hs"
proof -
  from assms(2) obtain sel where sel: "selected_skills_for_runtime profile = Inr sel"
    by (auto simp: build_plan_def bindR_Inr_iff)
  show ?thesis
  proof (cases "executable_skills sel = []")
    case True
    with that [OF sel, of "[]"] sel assms(2) show ?thesis by (auto simp: build_plan_def)
  next
    case False
    with sel assms(2) obtain plans where plans: "mapR (plan_skill r profile e) (executable_skills sel) = Inr plans"
      "plan = aggregate_plans plans" by (auto simp: build_plan_def bindR_Inr_iff)
    then obtain hs where "list_all2 (binds handlers profile e) (executable_skills sel) hs"
      "plans = map (\<lambda>h. handler_build_plan h profile) hs" using plan_skills_bind [OF assms(1)] by blast
    with that [OF sel, of hs] plans(2) show ?thesis
      by (simp add: aggregate_plans_def Let_def handler_build_plan_def comp_def)
  qed
qed


subsection \<open>The built-in handlers only read\<close>

definition builtin_registry :: handler_registry where
  "builtin_registry =
     (case builtin_skill_handler_registry of Inr r \<Rightarrow> r | Inl _ \<Rightarrow> \<lparr>hr_by_name_version = [], hr_known_versions = []\<rparr>)"

lemma builtin_registry_init: "handler_registry_init builtin_handlers = Inr builtin_registry"
proof -
  have "case builtin_skill_handler_registry of Inr r \<Rightarrow> True | Inl _ \<Rightarrow> False" by code_simp
  then show ?thesis by (auto simp: builtin_registry_def builtin_skill_handler_registry_def split: sum.splits)
qed

definition read_only_action :: "json \<Rightarrow> bool" where
  "read_only_action a \<longleftrightarrow> (\<exists>tool payload. a = tool_action tool payload \<and> tool_risk_level tool = ''low'' \<and>
     tool_required_policies tool = [] \<and> tool_required_data_scopes tool = [''repository-readonly''])"

lemma reading_tools: "tool \<in> {''git-read'', ''filesystem-read'', ''filesystem-list''} \<Longrightarrow> read_only_action (tool_action tool payload)"
  unfolding read_only_action_def by (intro exI conjI, rule refl)
    (auto simp: tool_risk_level_def tool_required_policies_def tool_required_data_scopes_def)

lemma builtin_actions_read_only:
  "h \<in> set builtin_handlers \<Longrightarrow> a \<in> set (sh_build_actions h profile) \<Longrightarrow> read_only_action a"
  by (auto simp: builtin_handlers_def builtin_handler_def git_diff_analysis_actions_def task_execution_planning_actions_def
      dependency_audit_actions_def no_tool_actions_def document_synthesis_actions_def intro: reading_tools)

text \<open>The built-in skills only read: every action that a plan of the built-in handlers contains invokes a tool of low
  risk that needs no approval policy and only the read-only repository scope, whatever the profile selects.\<close>

theorem builtin_plans_read_only:
  assumes "builtin_skill_handler_registry = Inr r" and "build_runtime_plan profile e r = Inr plan"
  shows "\<exists>actions. get plan ''actions'' = JList actions \<and> (\<forall>a \<in> set actions. read_only_action a)"
proof -
  from assms(1) have r: "handler_registry_init builtin_handlers = Inr r" by (simp add: builtin_skill_handler_registry_def)
  from assms(2) obtain sp where sp: "build_plan r profile e = Inr sp" "get plan ''actions'' = JList (sp_actions sp)"
    by (auto simp: build_runtime_plan_def Let_def bindR_Inr_iff)
  then obtain skills hs where hs: "list_all2 (binds builtin_handlers profile e) skills hs"
    "sp_actions sp = concat (map (\<lambda>h. sh_build_actions h profile) hs)" using build_plan_binds [OF r] by metis
  then have "set hs \<subseteq> set builtin_handlers" by (auto simp: list_all2_conv_all_nth in_set_conv_nth binds_def)
  then have "\<forall>a \<in> set (sp_actions sp). read_only_action a" using builtin_actions_read_only by (auto simp: hs(2))
  with sp(2) show ?thesis by blast
qed

subsection \<open>Witnesses\<close>

definition planned_profile :: obj where
  "planned_profile =
     [(''objective'', JStr ''Review the diff''), (''task_type'', JStr ''code-review''),
      (''skills'', str_list [''git-diff-analysis'', ''document-synthesis'', ''style-guide'']),
      (''skill_execution_roles'', JObj [(''runtime_skills'', str_list [''git-diff-analysis'']),
         (''non_runtime_skills'', str_list [''style-guide'']), (''shared_skills'', str_list [''document-synthesis''])]),
      (''module_versions'', JObj [(''git-diff-analysis'', JStr ''0.1.0''), (''document-synthesis'', JStr ''0.1.0'')])]"

definition planned_enforcer :: enforcer where
  "planned_enforcer = sample_enforcer\<lparr>en_profile := planned_profile\<rparr>"


theorem builtin_plans_read_only_witness:
  "\<exists>plan actions. build_runtime_plan planned_profile planned_enforcer builtin_registry = Inr plan \<and>
     get plan ''actions'' = JList actions \<and> (\<forall>a \<in> set actions. read_only_action a)"
proof -
  have r: "builtin_skill_handler_registry = Inr builtin_registry"
    using builtin_registry_init by (simp add: builtin_skill_handler_registry_def)
  have "case build_runtime_plan planned_profile planned_enforcer builtin_registry of Inr _ \<Rightarrow> True | Inl _ \<Rightarrow> False" by code_simp
  then obtain plan where "build_runtime_plan planned_profile planned_enforcer builtin_registry = Inr plan" by (auto split: sum.splits)
  with builtin_plans_read_only [OF r this] show ?thesis by blast
qed

end
