(* ===== verification/Runtime_Context.thy ===== *)
theory Runtime_Context
  imports Enforcement
begin

text \<open>
  \<open>runtime/context.py\<close>: the retrieval context of a run. The control-plane client is outside the
  program: it is an argument, a function from the request to an arbitrary response or exception,
  and nothing is assumed of it.
\<close>

definition MEMORY_RENDER_PROFILE :: string where
  "MEMORY_RENDER_PROFILE = ''procedural_memory_context_v1''"

definition MEMORY_INSTRUCTION_STATUS :: string where
  "MEMORY_INSTRUCTION_STATUS = ''not_an_instruction''"

definition MEMORY_ALLOWED_EFFECTS :: "string list" where
  "MEMORY_ALLOWED_EFFECTS = [''planner_hint'', ''retrieval_ranking'', ''composer_candidate_bias'']"

definition MEMORY_FORBIDDEN_EFFECTS :: "string list" where
  "MEMORY_FORBIDDEN_EFFECTS =
     [''tool_grant'', ''scope_grant'', ''policy_override'', ''validator_override'', ''profile_mutation'', ''runtime_authority'']"

subsection \<open>The request\<close>

definition first_role :: "json \<Rightarrow> json option" where
  "first_role v = (case as_list v of Some (r # rs) \<Rightarrow> Some r | _ \<Rightarrow> None)"

definition retrieval_principal :: "obj \<Rightarrow> json" where
  "retrieval_principal profile =
     (let entry = (\<lambda>kind i. JObj [(''kind'', JStr kind), (''id'', JStr i)]) in
      case as_obj (get_or profile ''auth_context'' (JObj [])) of
        None \<Rightarrow> entry ''user'' ''unknown-principal''
      | Some auth \<Rightarrow>
          (case first_role (get_or auth ''roles'' (JList [])) of
             Some r \<Rightarrow> entry ''role'' (py_str r)
           | None \<Rightarrow>
               (case as_obj (get_or auth ''principal'' (JObj [])) of
                  None \<Rightarrow> entry ''user'' ''unknown-principal''
                | Some p \<Rightarrow>
                    (let principal_type = py_str (get_or p ''type'' (JStr ''user''));
                         kind = (if principal_type = ''service'' then ''service'' else ''user'')
                     in entry kind (py_str (get_or p ''id'' (JStr ''unknown-principal'')))))))"

definition module_id :: "string \<Rightarrow> string" where
  "module_id scope_name = (if startswith ''mod-'' scope_name then scope_name else ''mod-'' @ scope_name)"

definition retrieval_request :: "obj \<Rightarrow> string \<Rightarrow> string list \<Rightarrow> string list \<Rightarrow> obj" where
  "retrieval_request profile query knowledge_scopes memory_scopes =
     [(''contract_version'', JStr ''0.1.0''), (''principal'', retrieval_principal profile), (''query'', JStr query),
      (''knowledge_scope_ids'', str_list (map module_id knowledge_scopes)),
      (''memory_scope_ids'', str_list (map module_id memory_scopes)), (''top_k'', JInt 5)]"

definition empty_retrieval_response :: "obj \<Rightarrow> ('e, obj) res" where
  "empty_retrieval_response request =
     bindR (getitem request ''contract_version'') (\<lambda>contract_version.
     bindR (getitem request ''query'') (\<lambda>query.
     Inr [(''contract_version'', contract_version), (''retrieval_status'', JStr ''not_requested''), (''query'', query),
          (''vectorize'', JObj [(''status'', JStr ''d1_prefilter_ready''), (''knowledge_index'', JStr ''scas-knowledge-dev''),
             (''memory_index'', JStr ''scas-memory-dev''),
             (''bindings'', JObj [(''knowledge'', JBool False), (''memory'', JBool False)]),
             (''note'', JStr ''No Control Plane client was provided for retrieval.'')]),
          (''allowed_knowledge_scope_ids'', JList []), (''allowed_memory_scope_ids'', JList []),
          (''knowledge_chunks'', JList []), (''memory_records'', JList []),
          (''vectorize_matches'', JObj [(''knowledge'', JList []), (''memory'', JList [])])]))"

subsection \<open>The response is checked against the request\<close>

definition retrieval_metadata_error :: enforcement_error where
  "retrieval_metadata_error =
     deny ''Retrieval response metadata does not match scoped Knowledge/Memory semantics.'' ''retrieval_response_metadata_invalid''"

definition strings_of :: "obj \<Rightarrow> string \<Rightarrow> ('e, string list) res" where
  "strings_of m field = bindR (py_iter (get_or m field (JList []))) (\<lambda>xs. Inr (map py_str xs))"

definition check_chunk :: "string list \<Rightarrow> json \<Rightarrow> unit enforced" where
  "check_chunk allowed v =
     (case as_obj v of
        None \<Rightarrow> Inr ()
      | Some chunk \<Rightarrow>
          bindR (raise_if (py_str (get chunk ''scope_id'') \<notin> set allowed) retrieval_metadata_error) (\<lambda>_.
          raise_if (get chunk ''record_kind'' \<noteq> JStr ''knowledge_record'' \<or> get chunk ''context_kind'' \<noteq> JStr ''factual_knowledge'')
            retrieval_metadata_error))"

definition check_memory :: "string list \<Rightarrow> json \<Rightarrow> unit enforced" where
  "check_memory allowed v =
     (case as_obj v of
        None \<Rightarrow> Inr ()
      | Some memory \<Rightarrow>
          bindR (raise_if (py_str (get memory ''memory_scope_id'') \<notin> set allowed) retrieval_metadata_error) (\<lambda>_.
          raise_if (get memory ''record_kind'' \<noteq> JStr ''procedural_agent_memory'' \<or>
                    get memory ''instruction_status'' \<noteq> JStr MEMORY_INSTRUCTION_STATUS \<or>
                    get memory ''authoritative'' \<noteq> JBool False) retrieval_metadata_error))"

definition assert_retrieval_response_is_bounded :: "obj \<Rightarrow> obj \<Rightarrow> unit enforced" where
  "assert_retrieval_response_is_bounded request response =
     bindR (strings_of request ''knowledge_scope_ids'') (\<lambda>requested_knowledge.
     bindR (strings_of request ''memory_scope_ids'') (\<lambda>requested_memory.
     bindR (strings_of response ''allowed_knowledge_scope_ids'') (\<lambda>allowed_knowledge.
     bindR (strings_of response ''allowed_memory_scope_ids'') (\<lambda>allowed_memory.
     let unexpected_knowledge = sorted_diff allowed_knowledge requested_knowledge;
         unexpected_memory = sorted_diff allowed_memory requested_memory
     in bindR (raise_if (unexpected_knowledge \<noteq> [] \<or> unexpected_memory \<noteq> [])
          (deny ''Retrieval response included scopes outside the active runtime profile.''
             ''retrieval_response_scope_not_in_runtime_profile'')) (\<lambda>_.
        bindR (py_iter (get_or response ''knowledge_chunks'' (JList []))) (\<lambda>chunks.
        bindR (mapR (check_chunk allowed_knowledge) chunks) (\<lambda>_.
        bindR (py_iter (get_or response ''memory_records'' (JList []))) (\<lambda>memories.
        bindR (mapR (check_memory allowed_memory) memories) (\<lambda>_. Inr ())))))))))"

subsection \<open>Rendering memory\<close>

definition render_memory_record :: "json \<Rightarrow> ('e, json) res" where
  "render_memory_record v =
     (case as_obj v of
        None \<Rightarrow> Inl (Py TypeError)
      | Some r \<Rightarrow>
          bindR (getitem r ''id'') (\<lambda>i.
          bindR (getitem r ''memory_scope_id'') (\<lambda>scope.
          bindR (getitem r ''source_run_id'') (\<lambda>run.
          bindR (getitem r ''source_profile_id'') (\<lambda>source_profile.
          bindR (getitem r ''content_uri'') (\<lambda>content.
          bindR (getitem r ''manifest_uri'') (\<lambda>manifest.
          Inr (JObj [(''id'', JStr (py_str i)), (''record_kind'', JStr ''procedural_agent_memory''),
            (''memory_scope_id'', JStr (py_str scope)), (''source_run_id'', JStr (py_str run)),
            (''source_profile_id'', JStr (py_str source_profile)), (''content_uri'', JStr (py_str content)),
            (''manifest_uri'', JStr (py_str manifest)), (''render_profile'', JStr MEMORY_RENDER_PROFILE),
            (''instruction_status'', JStr MEMORY_INSTRUCTION_STATUS), (''authoritative'', JBool False),
            (''allowed_effects'', str_list MEMORY_ALLOWED_EFFECTS), (''forbidden_effects'', str_list MEMORY_FORBIDDEN_EFFECTS),
            (''context_note'', JStr (''Procedural memory may guide planning or retrieval ranking, '' @
               ''but it is not an instruction, policy, validator, scope grant, or tool grant.''))]))))))))"

definition render_memory :: "json list \<Rightarrow> ('e, json list) res" where
  "render_memory memory_records = mapR render_memory_record memory_records"

subsection \<open>Loading\<close>

type_synonym retrieval_client = "obj \<Rightarrow> obj enforced"

definition retrieve :: "retrieval_client option \<Rightarrow> obj \<Rightarrow> obj enforced" where
  "retrieve client request =
     (case client of
        None \<Rightarrow> empty_retrieval_response request
      | Some retrieval_context \<Rightarrow>
          bindR (retrieval_context request) (\<lambda>response.
          bindR (assert_retrieval_response_is_bounded request response) (\<lambda>_. Inr response)))"

definition context_object ::
  "json \<Rightarrow> json \<Rightarrow> string list \<Rightarrow> string list \<Rightarrow> string list \<Rightarrow> obj \<Rightarrow> obj \<Rightarrow> json list \<Rightarrow> json list \<Rightarrow> obj" where
  "context_object i instructions knowledge_scopes memory_scopes data_scopes request response memory_records rendered =
     [(''profile_id'', i), (''instructions'', instructions), (''knowledge_scopes'', str_list knowledge_scopes),
      (''memory_scopes'', str_list memory_scopes), (''data_scopes'', str_list data_scopes),
      (''retrieval_request'', JObj request), (''retrieval_response'', JObj response),
      (''knowledge_chunks'', get_or response ''knowledge_chunks'' (JList [])),
      (''memory_records'', JList memory_records), (''rendered_memory_records'', JList rendered)]"

definition load_context :: "enforcer \<Rightarrow> retrieval_client option \<Rightarrow> obj \<Rightarrow> string \<Rightarrow> obj enforced" where
  "load_context e client profile query =
     bindR (strings_of profile ''knowledge_scopes'') (\<lambda>knowledge_scopes.
     bindR (strings_of profile ''memory_scopes'') (\<lambda>memory_scopes.
     bindR (strings_of profile ''data_scopes'') (\<lambda>data_scopes.
     bindR (require_knowledge_scopes (en_profile e) knowledge_scopes) (\<lambda>_.
     bindR (require_memory_scopes (en_profile e) memory_scopes) (\<lambda>_.
     bindR (require_data_scopes (en_profile e) data_scopes) (\<lambda>_.
     let request = retrieval_request profile query knowledge_scopes memory_scopes in
     bindR (retrieve client request) (\<lambda>response.
     let memory_records = (case as_list (get_or response ''memory_records'' (JList [])) of None \<Rightarrow> [] | Some xs \<Rightarrow> xs) in
     bindR (render_memory memory_records) (\<lambda>rendered_memory_records.
     bindR (getitem profile ''id'') (\<lambda>profile_id.
     bindR (getitem profile ''instructions'') (\<lambda>instructions.
     Inr (context_object profile_id instructions knowledge_scopes memory_scopes data_scopes request response
            memory_records rendered_memory_records)))))))))))"

subsection \<open>Context stays inside the profile's scopes\<close>

text \<open>What the profile allows a run to see.\<close>

definition in_scope :: "obj \<Rightarrow> string \<Rightarrow> json \<Rightarrow> bool" where
  "in_scope profile field scope \<longleftrightarrow>
     (\<exists>scopes. strings_of profile field = (Inr scopes :: string list enforced) \<and> py_str scope \<in> module_id ` set scopes)"

definition chunk_ok :: "obj \<Rightarrow> json \<Rightarrow> bool" where
  "chunk_ok profile v \<longleftrightarrow> (\<forall>chunk. v = JObj chunk \<longrightarrow> in_scope profile ''knowledge_scopes'' (get chunk ''scope_id'') \<and>
     get chunk ''record_kind'' = JStr ''knowledge_record'')"

definition memory_ok :: "obj \<Rightarrow> json \<Rightarrow> bool" where
  "memory_ok profile v \<longleftrightarrow> (\<exists>m. v = JObj m \<and> in_scope profile ''memory_scopes'' (get m ''memory_scope_id'') \<and>
     get m ''instruction_status'' = JStr MEMORY_INSTRUCTION_STATUS \<and> get m ''authoritative'' = JBool False)"

lemma strings_of_request:
  "strings_of (retrieval_request profile query ks ms) ''knowledge_scope_ids'' = Inr (map module_id ks)"
  "strings_of (retrieval_request profile query ks ms) ''memory_scope_ids'' = Inr (map module_id ms)"
  by (simp_all add: strings_of_def retrieval_request_def str_list_def comp_def)

lemma check_chunk_Inr:
  "check_chunk allowed v = Inr () \<longleftrightarrow> (\<forall>chunk. v = JObj chunk \<longrightarrow> py_str (get chunk ''scope_id'') \<in> set allowed \<and>
     get chunk ''record_kind'' = JStr ''knowledge_record'' \<and> get chunk ''context_kind'' = JStr ''factual_knowledge'')"
  by (cases v) (auto simp: check_chunk_def res_simps)

lemma check_memory_Inr:
  "check_memory allowed v = Inr () \<longleftrightarrow> (\<forall>m. v = JObj m \<longrightarrow> py_str (get m ''memory_scope_id'') \<in> set allowed \<and>
     get m ''record_kind'' = JStr ''procedural_agent_memory'' \<and>
     get m ''instruction_status'' = JStr MEMORY_INSTRUCTION_STATUS \<and> get m ''authoritative'' = JBool False)"
  by (cases v) (auto simp: check_memory_def res_simps)

lemma mapR_unit_all: "mapR f xs = Inr us \<Longrightarrow> \<forall>x \<in> set xs. f x = Inr ()"
  using mapR_member by fastforce

text \<open>The elements of a response that passed the check.\<close>

lemma response_bounded:
  assumes "assert_retrieval_response_is_bounded request response = Inr ()"
    and "strings_of request ''knowledge_scope_ids'' = (Inr ks :: string list enforced)"
    and "strings_of request ''memory_scope_ids'' = (Inr ms :: string list enforced)"
  obtains chunks memories where
    "py_iter (get_or response ''knowledge_chunks'' (JList [])) = (Inr chunks :: json list enforced)"
    "py_iter (get_or response ''memory_records'' (JList [])) = (Inr memories :: json list enforced)"
    "\<forall>v \<in> set chunks. check_chunk ks v = Inr ()" "\<forall>v \<in> set memories. check_memory ms v = Inr ()"
proof -
  from assms obtain allowed_k allowed_m chunks memories us ws where
    sub: "set allowed_k \<subseteq> set ks" "set allowed_m \<subseteq> set ms"
    and it: "py_iter (get_or response ''knowledge_chunks'' (JList [])) = (Inr chunks :: json list enforced)"
      "py_iter (get_or response ''memory_records'' (JList [])) = (Inr memories :: json list enforced)"
    and chk: "mapR (check_chunk allowed_k) chunks = Inr us" "mapR (check_memory allowed_m) memories = Inr ws"
    unfolding assert_retrieval_response_is_bounded_def Let_def by (auto simp: bindR_Inr_iff raise_if_Inr)
  from mapR_unit_all [OF chk(1)] sub(1) have "\<forall>v \<in> set chunks. check_chunk ks v = Inr ()"
    by (fastforce simp: check_chunk_Inr)
  moreover from mapR_unit_all [OF chk(2)] sub(2) have "\<forall>v \<in> set memories. check_memory ms v = Inr ()"
    by (fastforce simp: check_memory_Inr)
  ultimately show ?thesis by (rule that [OF it])
qed

lemma retrieve_bounded:
  assumes "retrieve client (retrieval_request profile query ks ms) = Inr response"
  obtains chunks memories where
    "py_iter (get_or response ''knowledge_chunks'' (JList [])) = (Inr chunks :: json list enforced)"
    "py_iter (get_or response ''memory_records'' (JList [])) = (Inr memories :: json list enforced)"
    "\<forall>v \<in> set chunks. check_chunk (map module_id ks) v = Inr ()"
    "\<forall>v \<in> set memories. check_memory (map module_id ms) v = Inr ()"
proof (cases client)
  case None
  with assms have "get_or response ''knowledge_chunks'' (JList []) = JList []" "get_or response ''memory_records'' (JList []) = JList []"
    by (auto simp: retrieve_def empty_retrieval_response_def bindR_Inr_iff)
  then show ?thesis using that [of "[]" "[]"] by simp
next
  case (Some f)
  with assms have "assert_retrieval_response_is_bounded (retrieval_request profile query ks ms) response = Inr ()"
    by (auto simp: retrieve_def bindR_Inr_iff)
  from response_bounded [OF this strings_of_request] show ?thesis using that by blast
qed

definition powerless :: "json \<Rightarrow> bool" where
  "powerless v \<longleftrightarrow> (\<exists>m. v = JObj m \<and> get m ''authoritative'' = JBool False \<and>
     get m ''instruction_status'' = JStr MEMORY_INSTRUCTION_STATUS \<and> get m ''forbidden_effects'' = str_list MEMORY_FORBIDDEN_EFFECTS)"

lemma rendered_powerless: "render_memory_record v = Inr w \<Longrightarrow> powerless w \<and> (\<exists>m. v = JObj m)"
  unfolding powerless_def by (cases v) (auto simp: render_memory_record_def bindR_Inr_iff)

lemma render_memory_powerless:
  "render_memory vs = Inr ws \<Longrightarrow> length ws = length vs \<and> (\<forall>w \<in> set ws. powerless w) \<and> (\<forall>v \<in> set vs. \<exists>m. v = JObj m)"
  unfolding render_memory_def mapR_Inr_iff
  by (induction rule: list_all2_induct) (use rendered_powerless in auto)


definition scoped_profile :: obj where
  "scoped_profile =
     [(''id'', JStr ''profile-a''), (''instructions'', str_list [''base'']), (''knowledge_scopes'', str_list [''docs'']),
      (''memory_scopes'', str_list [''mod-runs'']), (''data_scopes'', JList [])]"

definition scoped_enforcer :: enforcer where
  "scoped_enforcer = sample_enforcer\<lparr>en_profile := scoped_profile\<rparr>"

definition memory_of :: "string \<Rightarrow> json" where
  "memory_of scope =
     JObj [(''id'', JStr ''m-1''), (''memory_scope_id'', JStr scope), (''record_kind'', JStr ''procedural_agent_memory''),
       (''instruction_status'', JStr ''not_an_instruction''), (''authoritative'', JBool False), (''source_run_id'', JStr ''run-1''),
       (''source_profile_id'', JStr ''profile-a''), (''content_uri'', JStr ''hetzner://runtime/m-1''), (''manifest_uri'', JStr ''u'')]"

text \<open>A control plane that answers with one memory record of the given scope.\<close>

definition answering :: "string \<Rightarrow> retrieval_client" where
  "answering scope request =
     Inr [(''allowed_memory_scope_ids'', get request ''memory_scope_ids''), (''memory_records'', JList [memory_of scope])]"


end
