(* ===== verification/Capability_Gaps.thy ===== *)
theory Capability_Gaps
  imports Enforcement Audit_Log
begin

text \<open>
  \<open>runtime/capability_gaps.py\<close>: a refused access becomes a learning candidate when its reason is eligible. Shown is
  that the candidates built for the enforcer's own refusals always validate, so that handling a refusal cannot fail
  for this reason, and that no candidate is ever executable.
\<close>

subsection \<open>Stop reasons as text\<close>

fun stop_reason_name :: "stop_reason \<Rightarrow> string" where
  "stop_reason_name Completed = ''completed''"
| "stop_reason_name MaxTokens = ''max_tokens''"
| "stop_reason_name MaxDuration = ''max_duration''"
| "stop_reason_name MaxToolCalls = ''max_tool_calls''"
| "stop_reason_name MaxDataReads = ''max_data_reads''"
| "stop_reason_name MaxMemoryOps = ''max_memory_ops''"
| "stop_reason_name MaxRecompositions = ''max_recompositions''"
| "stop_reason_name PolicyDenied = ''policy_denied''"
| "stop_reason_name ValidatorFailed = ''validator_failed''"
| "stop_reason_name ToolError = ''tool_error''"
| "stop_reason_name StopCancelled = ''cancelled''"
| "stop_reason_name NeedsRecomposition = ''needs_recomposition''"
| "stop_reason_name ComposerFailure = ''composer_failure''"
| "stop_reason_name RuntimeErrorStop = ''runtime_error''"

lemma stop_reason_listed: "stop_reason_name r \<in> set STOP_REASONS"
  by (cases r) (simp_all add: STOP_REASONS_def)

subsection \<open>Eligibility\<close>

definition ELIGIBLE_BLOCKING_PREDICATES :: "string list" where
  "ELIGIBLE_BLOCKING_PREDICATES =
     [''tool_not_in_runtime_profile'', ''tool_risk_exceeds_profile'', ''policy_not_in_runtime_profile'',
      ''data_scope_not_in_runtime_profile'', ''knowledge_scope_not_in_runtime_profile'', ''memory_scope_not_in_runtime_profile'',
      ''max_tool_calls_exceeded'', ''max_tokens_exceeded'', ''max_data_reads_exceeded'', ''max_memory_ops_exceeded'',
      ''max_recompositions_exceeded'', ''validator_failed'', ''selected_module_version_missing'', ''module_version_mismatch'']"

definition EXCLUDED_BLOCKING_PREDICATES :: "string list" where
  "EXCLUDED_BLOCKING_PREDICATES = [''secret_candidate'', ''secret_scope_requested'', ''unknown_tool'']"

definition GAP_STOP_REASONS :: "string list" where
  "GAP_STOP_REASONS =
     [''policy_denied'', ''max_tokens'', ''max_tool_calls'', ''max_data_reads'', ''max_memory_ops'', ''max_recompositions'', ''validator_failed'']"

definition is_eligible_denial :: "string \<Rightarrow> string \<Rightarrow> string \<Rightarrow> string list \<Rightarrow> string \<Rightarrow> bool" where
  "is_eligible_denial blocking_predicate requested_capability_kind requested_capability_id known_capability_ids sensitivity \<longleftrightarrow>
     (if sensitivity = ''secret'' then False
      else if blocking_predicate \<in> set EXCLUDED_BLOCKING_PREDICATES then False
      else if blocking_predicate \<notin> set ELIGIBLE_BLOCKING_PREDICATES then False
      else if requested_capability_kind = ''tool'' then
        requested_capability_id \<in> set (map (\<lambda>i. slug_id i None) known_capability_ids)
      else True)"

definition capability_kind_for_predicate :: "string \<Rightarrow> string" where
  "capability_kind_for_predicate predicate =
     (if startswith ''max_'' predicate then ''budget''
      else if startswith ''policy_'' predicate then ''policy''
      else if startswith ''data_scope_'' predicate then ''data_scope''
      else if startswith ''knowledge_scope_'' predicate then ''knowledge_scope''
      else if startswith ''memory_scope_'' predicate then ''memory_scope''
      else if contains ''validator'' predicate then ''validator''
      else if contains ''module_version'' predicate \<or> predicate = ''selected_module_version_missing'' then ''module_version''
      else ''tool'')"

definition capability_id_for_predicate :: "string \<Rightarrow> string \<Rightarrow> string" where
  "capability_id_for_predicate predicate requested_tool =
     (if startswith ''max_'' predicate then removesuffix ''_exceeded'' predicate else requested_tool)"

subsection \<open>Candidates\<close>

datatype gap_error = GapError string

definition candidate_fields :: "string list" where
  "candidate_fields =
     [''contract_version'', ''candidate_kind'', ''id'', ''source_run_id'', ''source_profile_id'', ''source_step_id'',
      ''blocking_predicate'', ''requested_capability'', ''stop_reason'', ''evidence_uris'', ''learning_status'', ''executable'']"

definition validate_capability_gap_candidate :: "obj \<Rightarrow> (gap_error, unit) res" where
  "validate_capability_gap_candidate c =
     (let missing = sort (filter (\<lambda>field. field \<notin> set (dict_keys c)) candidate_fields) in
      bindR (raise_if (missing \<noteq> []) (GapError (''missing fields: '' @ join '', '' missing))) (\<lambda>_.
      bindR (raise_if (get c ''contract_version'' \<noteq> JStr ''0.1.0'') (GapError ''contract_version must be 0.1.0'')) (\<lambda>_.
      bindR (raise_if (get c ''candidate_kind'' \<noteq> JStr ''capability_gap_candidate'')
        (GapError ''candidate_kind must be capability_gap_candidate'')) (\<lambda>_.
      bindR (in_strings (get c ''blocking_predicate'') ELIGIBLE_BLOCKING_PREDICATES) (\<lambda>eligible.
      bindR (raise_if (\<not> eligible) (GapError ''blocking_predicate is not eligible'')) (\<lambda>_.
      bindR (in_strings (get c ''stop_reason'') GAP_STOP_REASONS) (\<lambda>stops.
      bindR (raise_if (\<not> stops) (GapError ''stop_reason is not eligible'')) (\<lambda>_.
      case as_obj (get c ''requested_capability'') of
        None \<Rightarrow> Inl (Raise (GapError ''requested_capability must be an object''))
      | Some capability \<Rightarrow>
          bindR (raise_if (\<not> truthy (get capability ''kind'') \<or> \<not> truthy (get capability ''id''))
            (GapError ''requested_capability requires kind and id'')) (\<lambda>_.
          bindR (raise_if (get c ''learning_status'' \<noteq> JStr ''review_required'') (GapError ''learning_status must be review_required'')) (\<lambda>_.
          bindR (raise_if (get c ''executable'' \<noteq> JBool False) (GapError ''capability gap candidates must be non-executable'')) (\<lambda>_.
          raise_if (case as_list (get c ''evidence_uris'') of None \<Rightarrow> True | Some uris \<Rightarrow> uris = [])
            (GapError ''evidence_uris must be non-empty''))))))))))))"

definition gap_candidate :: "string \<Rightarrow> string \<Rightarrow> string \<Rightarrow> string \<Rightarrow> string \<Rightarrow> string \<Rightarrow> string \<Rightarrow> string list \<Rightarrow> obj" where
  "gap_candidate run_id profile_ident source_step_id blocking_predicate kind normalized_capability_id stop_reason evidence_uris =
     [(''contract_version'', JStr ''0.1.0''), (''candidate_kind'', JStr ''capability_gap_candidate''),
      (''id'', JStr (slug_id (run_id @ ''-'' @ source_step_id @ ''-'' @ blocking_predicate @ ''-'' @ normalized_capability_id) (Some ''cgc''))),
      (''source_run_id'', JStr (slug_id run_id None)), (''source_profile_id'', JStr (slug_id profile_ident None)),
      (''source_step_id'', JStr (slug_id source_step_id None)), (''blocking_predicate'', JStr blocking_predicate),
      (''requested_capability'', JObj [(''kind'', JStr kind), (''id'', JStr normalized_capability_id)]),
      (''stop_reason'', JStr stop_reason), (''evidence_uris'', str_list (sorted_set (filter (\<lambda>uri. uri \<noteq> []) evidence_uris))),
      (''learning_status'', JStr ''review_required''), (''executable'', JBool False)]"

definition build_capability_gap_candidate ::
  "string \<Rightarrow> string \<Rightarrow> string \<Rightarrow> string \<Rightarrow> string \<Rightarrow> string \<Rightarrow> string \<Rightarrow> string list \<Rightarrow> string list \<Rightarrow> string
   \<Rightarrow> (gap_error, obj option) res" where
  "build_capability_gap_candidate run_id profile_ident source_step_id blocking_predicate kind requested_capability_id stop_reason
      evidence_uris known_capability_ids sensitivity =
     (let normalized_capability_id = slug_id requested_capability_id None in
      if \<not> is_eligible_denial blocking_predicate kind normalized_capability_id known_capability_ids sensitivity then Inr None
      else let c = gap_candidate run_id profile_ident source_step_id blocking_predicate kind normalized_capability_id stop_reason evidence_uris
           in bindR (validate_capability_gap_candidate c) (\<lambda>_. Inr (Some c)))"

record gap_capture =
  gc_candidate :: "obj option"
  gc_artifact_uri :: "string option"
  gc_skipped_reason :: "string option"

definition captured :: "gap_capture \<Rightarrow> bool" where
  "captured g \<longleftrightarrow> gc_candidate g \<noteq> None \<and> gc_artifact_uri g \<noteq> None"

definition capture_capability_gap_candidate ::
  "string \<Rightarrow> string \<Rightarrow> string \<Rightarrow> string \<Rightarrow> string \<Rightarrow> string \<Rightarrow> string \<Rightarrow> string list \<Rightarrow> string list \<Rightarrow> string
   \<Rightarrow> (artifact_store, gap_error, gap_capture) st" where
  "capture_capability_gap_candidate run_id profile_ident source_step_id blocking_predicate kind requested_capability_id stop_reason
      evidence_uris known_capability_ids sensitivity =
     bindS (liftS (build_capability_gap_candidate run_id profile_ident source_step_id blocking_predicate kind requested_capability_id
                     stop_reason evidence_uris known_capability_ids sensitivity)) (\<lambda>candidate.
     case candidate of
       None \<Rightarrow> retS \<lparr>gc_candidate = None, gc_artifact_uri = None,
                 gc_skipped_reason = Some ''denial is not eligible for capability-gap learning''\<rparr>
     | Some c \<Rightarrow>
         bindS (write_json [''artifacts'', run_id, ''capability-gap-candidates'', py_str (get c ''id'')] (JObj c) True) (\<lambda>uri.
         retS \<lparr>gc_candidate = Some c, gc_artifact_uri = Some uri, gc_skipped_reason = None\<rparr>))"

definition capability_gap_from_enforcement_error ::
  "string \<Rightarrow> obj \<Rightarrow> string \<Rightarrow> string \<Rightarrow> enforcement_error \<Rightarrow> string list \<Rightarrow> string list \<Rightarrow> (artifact_store, gap_error, gap_capture) st" where
  "capability_gap_from_enforcement_error run_id profile source_step_id requested_tool error evidence_uris known_tool_ids =
     capture_capability_gap_candidate run_id (py_str (get_or profile ''id'' (JStr ''unknown-profile''))) source_step_id (err_code error)
       (capability_kind_for_predicate (err_code error)) (capability_id_for_predicate (err_code error) requested_tool)
       (stop_reason_name (err_stop_reason error)) evidence_uris known_tool_ids ''internal''"

subsection \<open>Handling a refusal of the enforcer does not fail\<close>

text \<open>The refusals of a tool invocation, by code and stop reason.\<close>

definition tool_refusals :: "(string \<times> stop_reason) list" where
  "tool_refusals =
     [(''max_duration_exceeded'', MaxDuration), (''tool_not_in_runtime_profile'', PolicyDenied), (''tool_risk_exceeds_profile'', PolicyDenied),
      (''policy_not_in_runtime_profile'', PolicyDenied), (''max_tool_calls_exceeded'', MaxToolCalls),
      (''data_scope_not_in_runtime_profile'', PolicyDenied), (''max_data_reads_exceeded'', MaxDataReads)]"

abbreviation refused :: "'a enforced \<Rightarrow> bool" where
  "refused r \<equiv> \<forall>e. r = Inl (Raise e) \<longrightarrow> (err_code e, err_stop_reason e) \<in> set tool_refusals"

lemma py_int_no_raise: "py_int v \<noteq> Inl (Raise e)"
  by (cases v) (auto split: option.splits)

lemma str_in_no_raise: "str_in s v \<noteq> Inl (Raise e)"
  by (cases v) auto

lemma py_iter_no_raise: "py_iter v \<noteq> Inl (Raise e)"
  by (cases v) auto

lemma refusals_listed [simp]:
  "(''tool_not_in_runtime_profile'', PolicyDenied) \<in> set tool_refusals" "(''tool_risk_exceeds_profile'', PolicyDenied) \<in> set tool_refusals"
  "(''policy_not_in_runtime_profile'', PolicyDenied) \<in> set tool_refusals" "(''data_scope_not_in_runtime_profile'', PolicyDenied) \<in> set tool_refusals"
  "(''max_duration_exceeded'', MaxDuration) \<in> set tool_refusals" "(''max_tool_calls_exceeded'', MaxToolCalls) \<in> set tool_refusals"
  "(''max_data_reads_exceeded'', MaxDataReads) \<in> set tool_refusals"
  by (simp_all add: tool_refusals_def)

lemma refused_listed: "(err_code err, err_stop_reason err) \<in> set tool_refusals \<Longrightarrow> refused (require_listed f err p n)"
  by (auto simp: require_listed_def bindR_Inl_iff raise_if_Inl str_in_no_raise)

lemma check_refusals:
  "refused (require_tool p t)" "refused (require_tool_risk p t r)" "refused (require_policy p i)" "refused (require_data_scopes p ids)"
proof -
  show "refused (require_tool p t)" unfolding require_tool_def by (rule refused_listed) (simp add: deny_def)
  show "refused (require_policy p i)" unfolding require_policy_def by (rule refused_listed) (simp add: deny_def)
  show "refused (require_tool_risk p t r)" unfolding require_tool_risk_def raise_if_def by (simp add: deny_def)
  have code: "''data'' @ ''_scope_not_in_runtime_profile'' = ''data_scope_not_in_runtime_profile''" by simp
  show "refused (require_data_scopes p ids)"
    unfolding require_data_scopes_def require_scopes_def Let_def code raise_if_def
    by (auto simp only: bindR_Inl_iff py_iter_no_raise deny_def enforcement_error.sel refusals_listed exn.inject sum.inject split: if_splits)
qed

lemma limit_no_raise: "limit_of p name \<noteq> Inl (Raise e)"
  unfolding limit_of_def by (rule py_int_no_raise)

lemma duration_refusals: "refused (fst (check_duration now s))"
  unfolding check_duration_def readS_def fst_conv raise_if_def
  by (auto simp only: bindR_Inl_iff limit_no_raise enforcement_error.sel refusals_listed exn.inject sum.inject split: if_splits)

lemma increment_refused:
  assumes "(name @ ''_exceeded'', limit_stop_reason name) \<in> set tool_refusals"
  shows "refused (fst (increment_limit c name n None s))"
  using assms limit_no_raise [of "en_profile s" name] by (auto simp: increment_limit_def Let_def split: sum.splits if_splits)

lemma increment_refusals:
  "refused (fst (increment_limit ToolCalls ''max_tool_calls'' n None s))" "refused (fst (record_data_read n s))"
proof -
  show "refused (fst (increment_limit ToolCalls ''max_tool_calls'' n None s))"
    by (rule increment_refused) (simp add: limit_stop_reason_def)
  show "refused (fst (record_data_read n s))"
    unfolding record_data_read_def by (rule increment_refused) (simp add: limit_stop_reason_def)
qed

lemma refused_bind:
  "refused (fst (m s)) \<Longrightarrow> (\<And>x s'. refused (fst (f x s'))) \<Longrightarrow> refused (fst (bindS m f s))"
  unfolding bindS_def by (auto split: prod.splits sum.splits)

lemma refused_for: "(\<And>x s. refused (fst (f x s))) \<Longrightarrow> refused (fst (forS f xs s))"
proof (induction xs arbitrary: s)
  case (Cons x xs)
  show ?case unfolding forS.simps by (rule refused_bind) (use Cons in blast)+
qed simp

lemma invocation_refusals: "refused (fst (record_tool_invocation now t ds ps r s))"
  unfolding record_tool_invocation_def
proof (intro refused_bind refused_for)
  show "refused (fst ((if ds = [] then retS () else bindS (readS (\<lambda>s. require_data_scopes (en_profile s) ds)) (\<lambda>_. record_data_read 1)) s))" for s
    using refused_bind [of "readS (\<lambda>s. require_data_scopes (en_profile s) ds)" s "\<lambda>_. record_data_read 1"] check_refusals(4) increment_refusals(2)
    by simp
qed (use check_refusals duration_refusals increment_refusals in simp_all)

lemma eligible_refusals:
  "(code, stop) \<in> set tool_refusals \<Longrightarrow> code \<in> set ELIGIBLE_BLOCKING_PREDICATES \<Longrightarrow> stop_reason_name stop \<in> set GAP_STOP_REASONS"
  by (auto simp: tool_refusals_def ELIGIBLE_BLOCKING_PREDICATES_def GAP_STOP_REASONS_def)

lemma gap_candidate_valid:
  assumes "blocking \<in> set ELIGIBLE_BLOCKING_PREDICATES" "stop \<in> set GAP_STOP_REASONS" "kind \<noteq> []" "cap \<noteq> []"
    and "uri \<in> set uris" "uri \<noteq> []"
  shows "validate_capability_gap_candidate (gap_candidate run p step blocking kind cap stop uris) = Inr ()"
proof -
  have "sorted_set (filter (\<lambda>uri. uri \<noteq> []) uris) \<noteq> []"
    using assms(5,6) by (auto simp flip: set_empty)
  then show ?thesis
    using assms(1-4)
    by (simp add: validate_capability_gap_candidate_def gap_candidate_def candidate_fields_def Let_def str_list_def)
qed

lemma kind_not_empty: "capability_kind_for_predicate predicate \<noteq> []"
  by (simp add: capability_kind_for_predicate_def)

lemma slug_not_empty: "slug_id v None \<noteq> []"
  using slug_id_chars(1) [of v] by (auto simp: is_slug_def)

lemma refusal_captured:
  assumes "record_tool_invocation now tool scopes policies risk e = (Inl (Raise error), e')"
    and "uri \<in> set uris" "uri \<noteq> []"
  shows "\<exists>g a'. capability_gap_from_enforcement_error run_id profile step_id tool error uris known a = (Inr g, a') \<and>
     (case gc_candidate g of
        None \<Rightarrow> a' = a
      | Some c \<Rightarrow> captured g \<and> get c ''executable'' = JBool False \<and> get c ''learning_status'' = JStr ''review_required'' \<and>
          (capability_kind_for_predicate (err_code error) = ''tool'' \<longrightarrow> slug_id tool None \<in> (\<lambda>i. slug_id i None) ` set known))"
proof -
  let ?code = "err_code error" and ?stop = "stop_reason_name (err_stop_reason error)"
  let ?kind = "capability_kind_for_predicate ?code" and ?cap = "slug_id (capability_id_for_predicate ?code tool) None"
  have listed: "(?code, err_stop_reason error) \<in> set tool_refusals"
    using invocation_refusals [of now tool scopes policies risk e] assms(1) by simp
  show ?thesis
  proof (cases "is_eligible_denial ?code ?kind ?cap known ''internal''")
    case False
    then show ?thesis
      by (simp add: capability_gap_from_enforcement_error_def capture_capability_gap_candidate_def build_capability_gap_candidate_def
          bindS_def Let_def)
  next
    case True
    let ?p = "py_str (get_or profile ''id'' (JStr ''unknown-profile''))"
    let ?c = "gap_candidate run_id ?p step_id ?code ?kind ?cap ?stop uris"
    have eligible: "?code \<in> set ELIGIBLE_BLOCKING_PREDICATES" using True by (simp add: is_eligible_denial_def split: if_splits)
    have valid: "validate_capability_gap_candidate ?c = Inr ()"
      by (rule gap_candidate_valid [OF eligible eligible_refusals [OF listed eligible] kind_not_empty slug_not_empty assms(2,3)])
    obtain u a' where w: "write_json [''artifacts'', run_id, ''capability-gap-candidates'', py_str (get ?c ''id'')] (JObj ?c) True a
        = (Inr u :: (gap_error, string) res, a')"
      using write_json_head by blast
    have tool: "?kind = ''tool'' \<longrightarrow> slug_id tool None \<in> (\<lambda>i. slug_id i None) ` set known"
      using True unfolding is_eligible_denial_def
      by (auto simp: capability_id_for_predicate_def capability_kind_for_predicate_def split: if_splits)
    have "capability_gap_from_enforcement_error run_id profile step_id tool error uris known a =
        (Inr \<lparr>gc_candidate = Some ?c, gc_artifact_uri = Some u, gc_skipped_reason = None\<rparr>, a')"
      using True valid w
      by (simp add: capability_gap_from_enforcement_error_def capture_capability_gap_candidate_def build_capability_gap_candidate_def
          bindS_def Let_def)
    then show ?thesis using tool by (simp add: captured_def) (simp add: gap_candidate_def)
  qed
qed

text \<open>C33. A refusal is never lost in its own bookkeeping: for every reason for which the enforcer refuses a tool
  invocation, the capability gap is captured without an error, and what is captured is a candidate for review that is
  not executable, of a tool that has an adapter if it is about a tool at all.\<close>

theorem refusal_capture_safe:
  assumes "record_tool_invocation now tool scopes policies risk e = (Inl (Raise error), e')"
    and "uri \<in> set uris" "uri \<noteq> []"
  shows "\<exists>g a'. capability_gap_from_enforcement_error run_id profile step_id tool error uris known a = (Inr g, a') \<and>
     (case gc_candidate g of
        None \<Rightarrow> a' = a
      | Some c \<Rightarrow> captured g \<and> get c ''executable'' = JBool False \<and> get c ''learning_status'' = JStr ''review_required'' \<and>
          (capability_kind_for_predicate (err_code error) = ''tool'' \<longrightarrow> slug_id tool None \<in> (\<lambda>i. slug_id i None) ` set known))"
  by (rule refusal_captured [OF assms])

lemma capture_eligible:
  assumes "capability_gap_from_enforcement_error run_id profile step_id tool error uris known a = (Inr g, a')"
    and "is_eligible_denial (err_code error) (capability_kind_for_predicate (err_code error))
      (slug_id (capability_id_for_predicate (err_code error) tool) None) known ''internal''"
  shows "gc_candidate g \<noteq> None"
  using assms
  by (auto simp: capability_gap_from_enforcement_error_def capture_capability_gap_candidate_def build_capability_gap_candidate_def
      bindS_cases bindR_Inr_iff Let_def)

definition refusal :: enforcement_error where
  "refusal = deny ''Tool is not allowed by runtime profile: test-runner'' ''tool_not_in_runtime_profile''"

theorem refusal_capture_safe_witness:
  "\<exists>g a'. capability_gap_from_enforcement_error ''run-1'' write_profile ''step-1'' ''test-runner'' refusal [''u''] [''test-runner''] sample_artifacts
       = (Inr g, a') \<and> captured g"
proof -
  have r: "record_tool_invocation 0 ''test-runner'' [] [] ''low'' write_enforcer = (Inl (Raise refusal), write_enforcer)" by code_simp
  have "is_eligible_denial (err_code refusal) (capability_kind_for_predicate (err_code refusal))
      (slug_id (capability_id_for_predicate (err_code refusal) ''test-runner'') None) [''test-runner''] ''internal''" by code_simp
  with refusal_capture_safe [OF r, of "''u''" "[''u'']" "''run-1''" write_profile "''step-1''" "[''test-runner'']" sample_artifacts]
  show ?thesis by (fastforce dest: capture_eligible split: option.splits)
qed

end
