(* ===== verification/Tool_Gateway.thy ===== *)
theory Tool_Gateway
  imports Capability_Gaps Run_Trail
begin

text \<open>
  \<open>runtime/tool_gateway.py\<close>: the one place where a run touches the world. A tool adapter is a function on the world, so
  that the effect of an invocation is visible in the state of the run. The clock of the recorder and the monotonic
  clock of the enforcer are functions from the number of the reading; a reading that an event needs is taken when the
  event is recorded.
\<close>

subsection \<open>Errors of a run\<close>

datatype run_error =
    Enforced enforcement_error
  | ToolDenied string stop_reason
  | ToolFailed string string stop_reason obj
  | GapRaised gap_error
  | ValidationFailed string
  | RunCancelled

type_synonym ('w, 'a) run = "('w, run_error, 'a) runner"

text \<open>A failing adapter raises an exception, given by its text and the name of its class.\<close>

type_synonym 'w adapter = "obj \<Rightarrow> 'w \<Rightarrow> (string \<times> string + obj) \<times> 'w"

record 'w gateway =
  gw_profile :: obj
  gw_run_id :: string
  gw_step_id :: string
  gw_adapters :: "(string, 'w adapter) dict"
  gw_redact :: bool
  gw_clock :: "nat \<Rightarrow> datetime"
  gw_monotonic :: "nat \<Rightarrow> datetime"

record tool_result =
  tr_id :: string
  tr_tool_name :: string
  tr_status :: string
  tr_input_uri :: string
  tr_output_uri :: string
  tr_output :: obj

definition gateway_event :: "'w gateway \<Rightarrow> event_call \<Rightarrow> ('w, obj) run" where
  "gateway_event g c =
     bindS (tick (gw_clock g)) (\<lambda>t.
     on_sys (record_event t (gw_run_id g) (c\<lparr>ev_step_id := Some (gw_step_id g), ev_redact := gw_redact g\<rparr>)))"

definition gateway_write :: "'w gateway \<Rightarrow> string \<Rightarrow> json \<Rightarrow> ('w, string) run" where
  "gateway_write g name payload =
     on_sys (on_artifacts (write_json [''tool_outputs'', gw_run_id g, name] payload (gw_redact g)))"

subsection \<open>A refused access\<close>

definition gap_errors :: "(artifact_store, gap_error, 'a) st \<Rightarrow> (run_error, 'a) sys" where
  "gap_errors m s = (case m (qs_artifacts s) of (r, a) \<Rightarrow> (catch_as GapRaised r, s\<lparr>qs_artifacts := a\<rparr>))"

definition record_denied_access :: "'w gateway \<Rightarrow> string \<Rightarrow> obj \<Rightarrow> enforcement_error \<Rightarrow> ('w, unit) run" where
  "record_denied_access g tool_name payload error =
     bindS (readS (\<lambda>s. Inr (uri_for (qs_artifacts (ru_sys s))
       [''events'', gw_run_id g, gw_step_id g @ ''-'' @ tool_name @ ''-access-denied'']))) (\<lambda>evidence_uri.
     bindS (on_sys (gap_errors (capability_gap_from_enforcement_error (gw_run_id g) (gw_profile g) (gw_step_id g) tool_name error
              [evidence_uri] (dict_keys (gw_adapters g))))) (\<lambda>gap.
     bindS (gateway_event g
       ((event_call_of ''access_attempted'' ''policy_engine'')
          \<lparr>ev_planned_action := JObj [(''tool_name'', JStr tool_name), (''payload'', JObj payload)],
           ev_result := JObj ([(''effect'', JStr ''deny''), (''reason'', JStr (err_code error))] @
             (if captured gap then [(''capability_gap_candidate_uri'', opt_str (gc_artifact_uri gap))] else [])),
           ev_stop_reason := Some (stop_reason_name (err_stop_reason error))\<rparr>)) (\<lambda>_.
     retS ())))"

subsection \<open>The hook after a tool\<close>

fun exn_name :: "'e exn \<Rightarrow> string" where
  "exn_name (Py ValueError) = ''ValueError''"
| "exn_name (Py OSError) = ''FileNotFoundError''"
| "exn_name e = ''Exception''"

definition read_hook_artifact :: "artifact_store \<Rightarrow> json \<Rightarrow> string \<Rightarrow> json \<times> string list \<times> obj" where
  "read_hook_artifact a uri label =
     (case as_str uri of
        None \<Rightarrow> (JNull, [label @ ''_artifact_missing''], [])
      | Some u \<Rightarrow>
          if u = [] then (JNull, [label @ ''_artifact_missing''], [])
          else (case read_json u a :: (unit, json) res of
                  Inr v \<Rightarrow> (v, [], [])
                | Inl e \<Rightarrow> (JNull, [label @ ''_artifact_unreadable''], [(label @ ''_artifact_error'', JStr (exn_name e))])))"

definition check_mapping_field :: "json \<Rightarrow> string \<Rightarrow> json \<Rightarrow> string \<Rightarrow> string list" where
  "check_mapping_field payload field expected violation =
     (case as_obj payload of None \<Rightarrow> [] | Some m \<Rightarrow> if \<not> py_eq (get m field) expected then [violation] else [])"

definition invocation_mismatches :: "'w gateway \<Rightarrow> string \<Rightarrow> string \<Rightarrow> string \<Rightarrow> string \<Rightarrow> obj \<Rightarrow> string list" where
  "invocation_mismatches g tool_name status input_uri output_uri record =
     concat (map (\<lambda>(field, expected).
        if get record field \<noteq> JStr expected then [''tool_invocation_'' @ field @ ''_mismatch''] else [])
      [(''run_id'', gw_run_id g), (''step_id'', gw_step_id g), (''tool_name'', tool_name), (''status'', status),
       (''input_uri'', input_uri), (''output_uri'', output_uri)])"

definition audit_mismatches :: "'w gateway \<Rightarrow> string \<Rightarrow> string \<Rightarrow> string \<Rightarrow> obj \<Rightarrow> obj \<Rightarrow> json \<Rightarrow> json \<Rightarrow> string list" where
  "audit_mismatches g tool_name status output_uri record event execution_payload result_payload =
     (if get event ''event_type'' \<noteq> JStr ''tool_invocation_completed'' then [''audit_event_type_mismatch''] else []) @
     (if get event ''actor_role'' \<noteq> JStr ''executor'' then [''audit_event_actor_mismatch''] else []) @
     (if get event ''step_id'' \<noteq> JStr (gw_step_id g) then [''audit_event_step_mismatch''] else []) @
     check_mapping_field execution_payload ''tool_invocation_id'' (get record ''id'') ''audit_event_invocation_mismatch'' @
     check_mapping_field execution_payload ''status'' (JStr status) ''audit_event_status_mismatch'' @
     check_mapping_field result_payload ''tool_name'' (JStr tool_name) ''audit_event_tool_mismatch'' @
     check_mapping_field result_payload ''output_uri'' (JStr output_uri) ''audit_event_output_uri_mismatch''"

text \<open>The violations in the order in which the hook finds them, and the evidence it records.\<close>

definition hook_evaluation ::
  "'w gateway \<Rightarrow> artifact_store \<Rightarrow> string \<Rightarrow> string \<Rightarrow> string \<Rightarrow> string \<Rightarrow> obj \<Rightarrow> obj \<Rightarrow> string list \<times> obj" where
  "hook_evaluation g a tool_name status input_uri output_uri record event =
     (let (input_payload, v1, e1) = read_hook_artifact a (JStr input_uri) ''input'';
          (output_payload, v2, e2) = read_hook_artifact a (JStr output_uri) ''output'';
          (execution_payload, v3, e3) = read_hook_artifact a (get event ''execution_uri'') ''completed_event_execution'';
          (result_payload, v4, e4) = read_hook_artifact a (get event ''result_uri'') ''completed_event_result'';
          violations = v1 @ v2 @ v3 @ v4 @
            check_mapping_field input_payload ''tool_name'' (JStr tool_name) ''input_artifact_tool_mismatch'' @
            check_mapping_field output_payload ''tool_name'' (JStr tool_name) ''output_artifact_tool_mismatch'' @
            check_mapping_field output_payload ''status'' (JStr status) ''output_artifact_status_mismatch'' @
            (case as_obj output_payload of
               None \<Rightarrow> [] | Some m \<Rightarrow> if ''output'' \<notin> set (dict_keys m) then [''output_artifact_payload_missing''] else []) @
            invocation_mismatches g tool_name status input_uri output_uri record @
            audit_mismatches g tool_name status output_uri record event execution_payload result_payload;
          checks = JObj [(''input_artifact_readable'', JBool (is_obj input_payload)),
                         (''output_artifact_readable'', JBool (is_obj output_payload)),
                         (''tool_invocation_persisted'', JBool (\<not> list_ex (startswith ''tool_invocation_'') violations)),
                         (''audit_event_persisted'', JBool (\<not> list_ex (startswith ''audit_event_'') violations))]
      in (violations,
          [(''hook_id'', JStr ''runtime-after-tool''), (''tool_id'', JStr tool_name), (''tool_invocation_id'', get record ''id''),
           (''tool_invocation_status'', JStr status), (''artifact_reference'', JStr output_uri), (''audit_event_id'', get event ''id''),
           (''redaction_status'', JStr (if gw_redact g then ''applied'' else ''not_required'')), (''checks'', checks)] @
          e1 @ e2 @ e3 @ e4 @
          [(''status'', JStr (if violations \<noteq> [] then ''failed'' else ''passed'')), (''violations'', str_list violations)]))"

definition evaluate_runtime_after_tool_hook ::
  "'w gateway \<Rightarrow> string \<Rightarrow> string \<Rightarrow> string \<Rightarrow> string \<Rightarrow> obj \<Rightarrow> obj \<Rightarrow> ('w, unit) run" where
  "evaluate_runtime_after_tool_hook g tool_name status input_uri output_uri record event =
     bindS (readS (\<lambda>s. Inr (hook_evaluation g (qs_artifacts (ru_sys s)) tool_name status input_uri output_uri record event))) (\<lambda>(violations, evidence).
     bindS (gateway_event g
       ((event_call_of ''runtime_after_tool_hook_evaluated'' ''policy_engine'')
          \<lparr>ev_execution := JObj [(''hook_id'', JStr ''runtime-after-tool''), (''tool_invocation_id'', get record ''id'')],
           ev_result := JObj evidence, ev_stop_reason := (if violations \<noteq> [] then Some ''policy_denied'' else None)\<rparr>)) (\<lambda>_.
     if violations \<noteq> [] then
       liftS (Inl (Raise (ToolFailed (''runtime-after-tool hook failed: '' @ join '', '' violations)
         ''runtime_after_tool_hook_failed'' PolicyDenied evidence)))
     else retS ()))"

subsection \<open>Invocation\<close>

definition run_adapter :: "'w adapter \<Rightarrow> obj \<Rightarrow> ('w, string \<times> obj) run" where
  "run_adapter adapter payload s =
     (case adapter payload (ru_world s) of
        (Inr out, w) \<Rightarrow> (Inr (''succeeded'', out), s\<lparr>ru_world := w\<rparr>)
      | (Inl (message, class), w) \<Rightarrow>
          (Inr (''failed'', [(''error'', JStr message), (''error_type'', JStr class)]), s\<lparr>ru_world := w\<rparr>))"

definition next_invocation :: "'w gateway \<Rightarrow> string \<Rightarrow> ('w, string) run" where
  "next_invocation g tool_name s =
     (Inr (slug_id (gw_run_id g @ ''-'' @ tool_name @ ''-'' @ int_str (ru_invocation_index s)) (Some ''tool'')),
      s\<lparr>ru_invocation_index := ru_invocation_index s + 1\<rparr>)"

definition granted_event :: "string \<Rightarrow> string \<Rightarrow> event_call" where
  "granted_event tool_name input_uri =
     (event_call_of ''access_attempted'' ''policy_engine'')
       \<lparr>ev_planned_action := JObj [(''tool_name'', JStr tool_name), (''input_uri'', JStr input_uri)],
        ev_result := JObj [(''effect'', JStr ''allow''), (''risk_level'', JStr (tool_risk_level tool_name)),
          (''required_data_scopes'', str_list (tool_required_data_scopes tool_name)),
          (''required_policies'', str_list (tool_required_policies tool_name))]\<rparr>"

text \<open>What follows the adapter: the output, the invocation record, the completion event and the hook.\<close>

definition conclude_invocation :: "'w gateway \<Rightarrow> string \<Rightarrow> string \<Rightarrow> string \<Rightarrow> string \<Rightarrow> string \<times> obj \<Rightarrow> ('w, tool_result) run" where
  "conclude_invocation g tool_name invocation_id input_uri started_at outcome =
     (let status = fst outcome; out = snd outcome in
      bindS (gateway_write g (invocation_id @ ''-output'')
        (JObj [(''tool_name'', JStr tool_name), (''status'', JStr status), (''output'', JObj out)])) (\<lambda>output_uri.
      bindS (tick (gw_clock g)) (\<lambda>completed_at.
      bindS (on_sys (on_store (insert_tool_invocation
        [(''id'', JStr invocation_id), (''run_id'', JStr (gw_run_id g)), (''step_id'', JStr (gw_step_id g)), (''tool_name'', JStr tool_name),
         (''status'', JStr status), (''input_uri'', JStr input_uri), (''output_uri'', JStr output_uri), (''started_at'', JStr started_at),
         (''completed_at'', JStr (iso_timestamp completed_at))]))) (\<lambda>record.
      bindS (gateway_event g
        ((event_call_of ''tool_invocation_completed'' ''executor'')
           \<lparr>ev_execution := JObj [(''tool_invocation_id'', JStr invocation_id), (''status'', JStr status)],
            ev_result := JObj [(''tool_name'', JStr tool_name), (''output_uri'', JStr output_uri)],
            ev_stop_reason := (if status = ''succeeded'' then None else Some ''tool_error'')\<rparr>)) (\<lambda>completed_event.
      bindS (evaluate_runtime_after_tool_hook g tool_name status input_uri output_uri record completed_event) (\<lambda>_.
      if status \<noteq> ''succeeded'' then
        liftS (Inl (Raise (ToolFailed (''Tool '' @ tool_name @ '' failed: '' @ py_str (get out ''error''))
          ''tool_execution_failed'' ToolError out)))
      else retS \<lparr>tr_id = py_str (get record ''id''), tr_tool_name = tool_name, tr_status = status, tr_input_uri = input_uri,
                 tr_output_uri = output_uri, tr_output = out\<rparr>))))))"

definition granted_invocation :: "'w gateway \<Rightarrow> string \<Rightarrow> obj \<Rightarrow> ('w, tool_result) run" where
  "granted_invocation g tool_name payload =
     (case map_of (gw_adapters g) tool_name of
        None \<Rightarrow> liftS (Inl (Raise (ToolFailed (''No adapter is registered for tool: '' @ tool_name) ''tool_adapter_missing'' ToolError [])))
      | Some adapter \<Rightarrow>
          bindS (next_invocation g tool_name) (\<lambda>invocation_id.
          bindS (gateway_write g (invocation_id @ ''-input'')
            (JObj [(''tool_name'', JStr tool_name), (''payload'', JObj payload)])) (\<lambda>input_uri.
          bindS (tick (gw_clock g)) (\<lambda>started.
          bindS (gateway_event g (granted_event tool_name input_uri)) (\<lambda>_.
          bindS (gateway_event g
            ((event_call_of ''tool_invocation_started'' ''executor'')
               \<lparr>ev_planned_action := JObj [(''tool_name'', JStr tool_name), (''input_uri'', JStr input_uri)]\<rparr>)) (\<lambda>_.
          bindS (run_adapter adapter payload)
            (conclude_invocation g tool_name invocation_id input_uri (iso_timestamp started))))))))"

definition invoke :: "'w gateway \<Rightarrow> string \<Rightarrow> obj \<Rightarrow> ('w, tool_result) run" where
  "invoke g tool_name payload =
     bindS (tick (gw_monotonic g)) (\<lambda>now s.
     case record_tool_invocation now tool_name (tool_required_data_scopes tool_name) (tool_required_policies tool_name)
            (tool_risk_level tool_name) (ru_enforcer s) of
       (Inl (Py x), e) \<Rightarrow> (Inl (Py x), s\<lparr>ru_enforcer := e\<rparr>)
     | (Inl (Raise error), e) \<Rightarrow>
         bindS (record_denied_access g tool_name payload error) (\<lambda>_.
         liftS (Inl (Raise (ToolDenied (err_message error) (err_stop_reason error))))) (s\<lparr>ru_enforcer := e\<rparr>)
     | (Inr _, e) \<Rightarrow> granted_invocation g tool_name payload (s\<lparr>ru_enforcer := e\<rparr>))"

subsection \<open>What an invocation leaves in the log\<close>

lemma gateway_vocabulary:
  "vocabulary_ok (granted_event t u)" "vocabulary_ok ((event_call_of ''tool_invocation_started'' ''executor'')\<lparr>ev_planned_action := p\<rparr>)"
  "stop \<in> {None, Some ''tool_error''} \<Longrightarrow> vocabulary_ok ((event_call_of ''tool_invocation_completed'' ''executor'')\<lparr>ev_execution := x, ev_result := q, ev_stop_reason := stop\<rparr>)"
  "stop \<in> {None, Some ''policy_denied''} \<Longrightarrow>
     vocabulary_ok ((event_call_of ''runtime_after_tool_hook_evaluated'' ''policy_engine'')\<lparr>ev_execution := x, ev_result := q, ev_stop_reason := stop\<rparr>)"
  by (auto simp: vocabulary_ok_def granted_event_def event_call_of_def RUNTIME_EVENT_TYPES_def RUNTIME_ACTOR_ROLES_def STOP_REASONS_def)

lemma denied_vocabulary:
  "vocabulary_ok ((event_call_of ''access_attempted'' ''policy_engine'')\<lparr>ev_planned_action := p, ev_result := q, ev_stop_reason := Some (stop_reason_name why)\<rparr>)"
  by (simp add: vocabulary_ok_def event_call_of_def stop_reason_listed RUNTIME_EVENT_TYPES_def RUNTIME_ACTOR_ROLES_def)

text \<open>After the adapter: completion and hook are logged, whatever the adapter did, and a result is returned exactly when the
  adapter succeeded and the hook found nothing.\<close>

definition concluded :: "string \<Rightarrow> string \<Rightarrow> obj \<Rightarrow> (run_error, tool_result) res \<Rightarrow> (string \<times> string option) list \<Rightarrow> bool" where
  "concluded tool status out r xs \<longleftrightarrow>
     (\<exists>hook. xs = [(''tool_invocation_completed'', if status = ''succeeded'' then None else Some ''tool_error''),
                (''runtime_after_tool_hook_evaluated'', hook)] \<and>
        (case r of
           Inr t \<Rightarrow> status = ''succeeded'' \<and> hook = None \<and> tr_tool_name t = tool \<and> tr_status t = ''succeeded'' \<and> tr_output t = out
         | Inl e \<Rightarrow> (\<exists>msg code why d. e = Raise (ToolFailed msg code why d)) \<and> (status = ''succeeded'' \<longrightarrow> hook = Some ''policy_denied'')))"

definition adapter_outcome :: "string \<times> string + obj \<Rightarrow> string \<times> obj" where
  "adapter_outcome r = (case r of Inr out \<Rightarrow> (''succeeded'', out) | Inl (message, class) \<Rightarrow> (''failed'', [(''error'', JStr message), (''error_type'', JStr class)]))"

lemma run_adapter_outcome:
  "run_adapter adapter payload s = (Inr (adapter_outcome (fst (adapter payload (ru_world s)))), s\<lparr>ru_world := snd (adapter payload (ru_world s))\<rparr>)"
  by (auto simp: run_adapter_def adapter_outcome_def split: prod.splits sum.splits)

lemma output_keeps: "name \<noteq> [] \<Longrightarrow> same_files a (snd (write_json [''tool_outputs'', run, name] payload redact a))"
  by (rule write_json_keeps [OF areas(2), of name]) (simp_all add: SEALED_AREAS_def)

lemma gap_keeps: "same_files a (snd (capability_gap_from_enforcement_error run profile step tool error uris known a))"
proof -
  have w: "same_files b (snd (write_json [''artifacts'', run, ''capability-gap-candidates'', i] payload redact b :: (gap_error, string) res \<times> artifact_store))"
    for b i payload redact by (rule write_json_keeps [OF areas(3), of "''capability-gap-candidates''"]) (simp_all add: SEALED_AREAS_def)
  show ?thesis
    unfolding capability_gap_from_enforcement_error_def capture_capability_gap_candidate_def
    by (rule bind_keeps) (auto simp: liftS_def retS_def intro!: bind_keeps w split: option.split)
qed

context run_frame
begin

lemma leaves_write:
  assumes "name \<noteq> []"
  shows "leaves I (gw_run_id g) (gateway_write (g :: 'w gateway) name payload) []"
  unfolding gateway_write_def
proof (rule leaves_files)
  fix a
  let ?w = "write_json [''tool_outputs'', gw_run_id g, name] payload (gw_redact g) a :: (run_error, string) res \<times> artifact_store"
  obtain uri a' where w: "?w = (Inr uri, a')" using write_json_head by blast
  have "same_files a (snd ?w)" by (rule output_keeps [OF assms])
  with w show "\<exists>x a'. ?w = (Inr x, a') \<and> same_files a a'" by simp
qed

lemma leaves_next: "leaves I run (next_invocation g tool) []"
  by (simp add: leaves_def next_invocation_def trail_Nil frame_count)

lemma leaves_insert: "leaves I run (on_sys (on_store (insert_tool_invocation r))) []"
  by (rule leaves_table) (simp add: insert_tool_invocation_def)

lemma leaves_gap:
  assumes "\<And>a. \<exists>x a'. m a = (Inr x, a')" and "\<And>a. same_files a (snd (m a))"
  shows "leaves I run (on_sys (gap_errors m) :: ('w, 'a) run) []"
proof -
  have "gap_errors m = on_artifacts (\<lambda>a. case m a of (r, a') \<Rightarrow> (catch_as GapRaised r, a'))"
    by (auto simp: gap_errors_def on_artifacts_def fun_eq_iff split: prod.splits)
  moreover have "\<exists>x a'. (case m a of (r, a') \<Rightarrow> (catch_as GapRaised r, a')) = (Inr x, a') \<and> same_files a a'" for a
    using assms(1) [of a] assms(2) [of a] by (auto simp: catch_as_def)
  ultimately show ?thesis using leaves_files by metis
qed

lemma leaves_gateway_event:
  assumes "vocabulary_ok c" and "ev_idempotency_key c = None" and "ev_event_type c = t" and "ev_stop_reason c = w"
  shows "leaves I (gw_run_id g) (gateway_event g c) [(t, w)]"
  unfolding gateway_event_def
proof (rule leaves_then [OF leaves_tick])
  fix clk
  let ?c = "c\<lparr>ev_step_id := Some (gw_step_id g), ev_redact := gw_redact g\<rparr>"
  have "vocabulary_ok ?c" "ev_idempotency_key ?c = None" using assms by (simp_all add: vocabulary_ok_def)
  from leaves_event [OF this, of "gw_run_id g" clk]
  show "leaves I (gw_run_id g) (on_sys (record_event clk (gw_run_id g) ?c)) [(t, w)]" using assms(3,4) by simp
qed

lemma hook_ends:
  "ends I (gw_run_id g) (evaluate_runtime_after_tool_hook g t st iu ou rec ev)
     (\<lambda>r xs. \<exists>why. xs = [(''runtime_after_tool_hook_evaluated'', why)] \<and> (r = Inr () \<longleftrightarrow> why = None) \<and>
        (r \<noteq> Inr () \<longrightarrow> why = Some ''policy_denied'' \<and> (\<exists>msg d. r = Inl (Raise (ToolFailed msg ''runtime_after_tool_hook_failed'' PolicyDenied d)))))"
proof -
  have "leaves I (gw_run_id g) (readS (\<lambda>s. Inr (hook_evaluation g (qs_artifacts (ru_sys s)) t st iu ou rec ev))) []"
    by (rule leaves_read) simp
  then show ?thesis
    unfolding evaluate_runtime_after_tool_hook_def
  proof (rule ends_bind)
    fix x :: "string list \<times> obj"
    obtain violations evidence where x: "x = (violations, evidence)" by (cases x)
    let ?c = "(event_call_of ''runtime_after_tool_hook_evaluated'' ''policy_engine'')
          \<lparr>ev_execution := JObj [(''hook_id'', JStr ''runtime-after-tool''), (''tool_invocation_id'', get rec ''id'')],
           ev_result := JObj evidence, ev_stop_reason := (if violations \<noteq> [] then Some ''policy_denied'' else None)\<rparr>"
    have "leaves I (gw_run_id g) (gateway_event g ?c)
        [(''runtime_after_tool_hook_evaluated'', if violations \<noteq> [] then Some ''policy_denied'' else None)]"
      by (rule leaves_gateway_event [OF gateway_vocabulary(4)]) (simp_all add: event_call_of_def)
    then show "ends I (gw_run_id g) (case x of (violations, evidence) \<Rightarrow> bindS (gateway_event g
       ((event_call_of ''runtime_after_tool_hook_evaluated'' ''policy_engine'')
          \<lparr>ev_execution := JObj [(''hook_id'', JStr ''runtime-after-tool''), (''tool_invocation_id'', get rec ''id'')],
           ev_result := JObj evidence, ev_stop_reason := (if violations \<noteq> [] then Some ''policy_denied'' else None)\<rparr>)) (\<lambda>_.
       if violations \<noteq> [] then liftS (Inl (Raise (ToolFailed (''runtime-after-tool hook failed: '' @ join '', '' violations)
         ''runtime_after_tool_hook_failed'' PolicyDenied evidence))) else retS ()))
      (\<lambda>r ys. \<exists>why. [] @ ys = [(''runtime_after_tool_hook_evaluated'', why)] \<and> (r = Inr () \<longleftrightarrow> why = None) \<and>
        (r \<noteq> Inr () \<longrightarrow> why = Some ''policy_denied'' \<and> (\<exists>msg d. r = Inl (Raise (ToolFailed msg ''runtime_after_tool_hook_failed'' PolicyDenied d)))))"
      unfolding x prod.case by (rule ends_bind) (auto intro!: ends_pure)
  qed
qed

text \<open>A refusal leaves one event, with the reason of the refusal.\<close>

lemma denied_leaves:
  assumes "record_tool_invocation now tool scopes policies risk e = (Inl (Raise error), e')"
  shows "leaves I (gw_run_id g) (record_denied_access (g :: 'w gateway) tool payload error)
    [(''access_attempted'', Some (stop_reason_name (err_stop_reason error)))]"
  unfolding record_denied_access_def
proof (rule leaves_bind_read)
  fix s :: "'w run_state"
  let ?uri = "uri_for (qs_artifacts (ru_sys s)) [''events'', gw_run_id g, gw_step_id g @ ''-'' @ tool @ ''-access-denied'']"
  have gap: "leaves I (gw_run_id g) (on_sys (gap_errors (capability_gap_from_enforcement_error (gw_run_id g) (gw_profile g) (gw_step_id g) tool error
      [?uri] (dict_keys (gw_adapters g)))) :: ('w, gap_capture) run) []"
    by (rule leaves_gap [OF _ gap_keeps]) (use refusal_captured [OF assms, of ?uri "[?uri]"] in \<open>force simp: uri_for_def\<close>)
  let ?ev = "\<lambda>gap. (event_call_of ''access_attempted'' ''policy_engine'')
          \<lparr>ev_planned_action := JObj [(''tool_name'', JStr tool), (''payload'', JObj payload)],
           ev_result := JObj ([(''effect'', JStr ''deny''), (''reason'', JStr (err_code error))] @
             (if captured gap then [(''capability_gap_candidate_uri'', opt_str (gc_artifact_uri gap))] else [])),
           ev_stop_reason := Some (stop_reason_name (err_stop_reason error))\<rparr>"
  have event: "leaves I (gw_run_id g) (gateway_event g (?ev gap)) [(''access_attempted'', Some (stop_reason_name (err_stop_reason error)))]" for gap
    by (rule leaves_gateway_event [OF denied_vocabulary]) (simp_all add: event_call_of_def)
  show "leaves I (gw_run_id g) (bindS (on_sys (gap_errors (capability_gap_from_enforcement_error (gw_run_id g) (gw_profile g) (gw_step_id g) tool error
      [?uri] (dict_keys (gw_adapters g))))) (\<lambda>gap. bindS (gateway_event g (?ev gap)) (\<lambda>_. retS ())))
    [(''access_attempted'', Some (stop_reason_name (err_stop_reason error)))]"
    by (rule leaves_then [OF gap leaves_last [OF event]])
qed

lemma conclude_ends:
  "ends I (gw_run_id g) (conclude_invocation (g :: 'w gateway) tool i iu started (status, out)) (concluded tool status out)"
proof -
  let ?ev = "\<lambda>ou. (event_call_of ''tool_invocation_completed'' ''executor'')
           \<lparr>ev_execution := JObj [(''tool_invocation_id'', JStr i), (''status'', JStr status)],
            ev_result := JObj [(''tool_name'', JStr tool), (''output_uri'', JStr ou)],
            ev_stop_reason := (if status = ''succeeded'' then None else Some ''tool_error'')\<rparr>"
  have event: "leaves I (gw_run_id g) (gateway_event g (?ev ou))
      [(''tool_invocation_completed'', if status = ''succeeded'' then None else Some ''tool_error'')]" for ou
    by (rule leaves_gateway_event [OF gateway_vocabulary(3)]) (simp_all add: event_call_of_def)
  show ?thesis
    unfolding conclude_invocation_def Let_def fst_conv snd_conv
    by (rule ends_bind [OF leaves_write], simp, rule ends_bind [OF leaves_tick], rule ends_bind [OF leaves_insert], rule ends_bind [OF event],
        rule ends_any [OF hook_ends]) (auto intro!: ends_pure simp: concluded_def)
qed

lemma granted_prefix:
  assumes s: "I s" and a: "map_of (gw_adapters g) tool = Some adapter"
  obtains s1 i iu st where "granted_invocation g tool payload s = bindS (run_adapter adapter payload) (conclude_invocation g tool i iu st) s1"
    "passes I (gw_run_id g) s s1 [(''access_attempted'', None), (''tool_invocation_started'', None)]"
proof -
  have here: "passes I (gw_run_id g) s s []" using s by (rule passes_refl)
  have allow: "leaves I (gw_run_id g) (gateway_event g (granted_event tool iu)) [(''access_attempted'', None)]" for iu
    by (rule leaves_gateway_event [OF gateway_vocabulary(1)]) (simp_all add: granted_event_def event_call_of_def)
  have start: "leaves I (gw_run_id g) (gateway_event g ((event_call_of ''tool_invocation_started'' ''executor'')\<lparr>ev_planned_action := p\<rparr>))
      [(''tool_invocation_started'', None)]" for p
    by (rule leaves_gateway_event [OF gateway_vocabulary(2)]) (simp_all add: event_call_of_def)
  have input: "leaves I (gw_run_id g) (gateway_write g (i @ ''-input'') p) []" for i p by (rule leaves_write) simp
  have "\<exists>s1 i iu st. granted_invocation g tool payload s = bindS (run_adapter adapter payload) (conclude_invocation g tool i iu st) s1 \<and>
      passes I (gw_run_id g) s s1 [(''access_attempted'', None), (''tool_invocation_started'', None)]"
    unfolding granted_invocation_def a option.case
    apply (rule passes_step [OF leaves_next here], erule ssubst)
    apply (erule passes_step [OF input], erule ssubst)
    apply (erule passes_step [OF leaves_tick], erule ssubst)
    apply (erule passes_step [OF allow], erule ssubst)
    apply (erule passes_step [OF start], erule ssubst)
    by (intro exI conjI, rule refl, simp)
  then show ?thesis using that by blast
qed

end

lemma granted_audited:
  fixes s :: "'w run_state"
  assumes ok: "audit_ok (store_of s)" and a: "map_of (gw_adapters g) tool = Some adapter"
  shows "\<exists>r s' xs. granted_invocation g tool payload s = (r, s') \<and>
     concluded tool (fst (adapter_outcome (fst (adapter payload (ru_world s))))) (snd (adapter_outcome (fst (adapter payload (ru_world s))))) r xs \<and>
     audit_ok (store_of s') \<and> trail (gw_run_id g) (store_of s) (store_of s') ([(''access_attempted'', None), (''tool_invocation_started'', None)] @ xs) \<and>
     ru_world s' = snd (adapter payload (ru_world s)) \<and> ru_enforcer s' = ru_enforcer s"
proof -
  let ?w = "snd (adapter payload (ru_world s))" and ?o = "adapter_outcome (fst (adapter payload (ru_world s)))"
  have here: "quiet (ru_world s) (ru_enforcer s) s" using ok by (simp add: quiet_def)
  obtain s1 i iu st where
    s1: "granted_invocation g tool payload s = bindS (run_adapter adapter payload) (conclude_invocation g tool i iu st) s1"
    "passes (quiet (ru_world s) (ru_enforcer s)) (gw_run_id g) s s1 [(''access_attempted'', None), (''tool_invocation_started'', None)]"
    by (rule quiet.granted_prefix [OF here a])
  then have w: "ru_world s1 = ru_world s" "quiet ?w (ru_enforcer s) (s1\<lparr>ru_world := ?w\<rparr>)" by (simp_all add: passes_def quiet_def)
  have "ends (quiet ?w (ru_enforcer s)) (gw_run_id g) (conclude_invocation g tool i iu st ?o) (concluded tool (fst ?o) (snd ?o))"
    using quiet.conclude_ends [of ?w "ru_enforcer s" g tool i iu st "fst ?o" "snd ?o"] by simp
  from this w(2) obtain r s' xs where c: "conclude_invocation g tool i iu st ?o (s1\<lparr>ru_world := ?w\<rparr>) = (r, s')"
    "concluded tool (fst ?o) (snd ?o) r xs" "quiet ?w (ru_enforcer s) s'" "trail (gw_run_id g) (store_of (s1\<lparr>ru_world := ?w\<rparr>)) (store_of s') xs"
    by (rule endsE)
  have "granted_invocation g tool payload s = (r, s')" using c(1) by (simp add: s1(1) bindS_def run_adapter_outcome w(1))
  moreover have "trail (gw_run_id g) (store_of s) (store_of s') ([(''access_attempted'', None), (''tool_invocation_started'', None)] @ xs)"
    by (rule trail_append [of _ _ "store_of s1"]) (use s1(2) c(4) in \<open>simp_all add: passes_def\<close>)
  ultimately show ?thesis using c(2,3) by (auto simp: quiet_def)
qed

lemma invocation_trail:
  fixes s :: "'w run_state"
  assumes "audit_ok (store_of s)"
  shows "case record_tool_invocation (gw_monotonic g (ru_ticks s)) tool (tool_required_data_scopes tool) (tool_required_policies tool)
           (tool_risk_level tool) (ru_enforcer s) of
      (Inl (Py x), e) \<Rightarrow> \<exists>s'. invoke g tool payload s = (Inl (Py x), s') \<and> ru_world s' = ru_world s \<and> ru_enforcer s' = e \<and> audit_ok (store_of s') \<and>
         trail (gw_run_id g) (store_of s) (store_of s') []
    | (Inl (Raise err), e) \<Rightarrow> \<exists>s'. invoke g tool payload s = (Inl (Raise (ToolDenied (err_message err) (err_stop_reason err))), s') \<and>
         ru_world s' = ru_world s \<and> ru_enforcer s' = e \<and> audit_ok (store_of s') \<and>
         trail (gw_run_id g) (store_of s) (store_of s') [(''access_attempted'', Some (stop_reason_name (err_stop_reason err)))]
    | (Inr _, e) \<Rightarrow> (case map_of (gw_adapters g) tool of
         None \<Rightarrow> \<exists>s' msg. invoke g tool payload s = (Inl (Raise (ToolFailed msg ''tool_adapter_missing'' ToolError [])), s') \<and>
           ru_world s' = ru_world s \<and> ru_enforcer s' = e \<and> audit_ok (store_of s') \<and> trail (gw_run_id g) (store_of s) (store_of s') []
       | Some adapter \<Rightarrow> \<exists>r s' xs. invoke g tool payload s = (r, s') \<and> ru_world s' = snd (adapter payload (ru_world s)) \<and> ru_enforcer s' = e \<and>
           audit_ok (store_of s') \<and>
           trail (gw_run_id g) (store_of s) (store_of s') ([(''access_attempted'', None), (''tool_invocation_started'', None)] @ xs) \<and>
           concluded tool (fst (adapter_outcome (fst (adapter payload (ru_world s))))) (snd (adapter_outcome (fst (adapter payload (ru_world s))))) r xs)"
proof -
  let ?s1 = "s\<lparr>ru_ticks := Suc (ru_ticks s)\<rparr>"
  let ?call = "record_tool_invocation (gw_monotonic g (ru_ticks s)) tool (tool_required_data_scopes tool) (tool_required_policies tool) (tool_risk_level tool)"
  obtain r e where call: "?call (ru_enforcer s) = (r, e)" by (cases "?call (ru_enforcer s)")
  have ok: "audit_ok (store_of (?s1\<lparr>ru_enforcer := e\<rparr>))" using assms by simp
  have step: "invoke g tool payload s = (case r of
       Inl (Py x) \<Rightarrow> (Inl (Py x), ?s1\<lparr>ru_enforcer := e\<rparr>)
     | Inl (Raise error) \<Rightarrow> bindS (record_denied_access g tool payload error) (\<lambda>_.
         liftS (Inl (Raise (ToolDenied (err_message error) (err_stop_reason error))))) (?s1\<lparr>ru_enforcer := e\<rparr>)
     | Inr _ \<Rightarrow> granted_invocation g tool payload (?s1\<lparr>ru_enforcer := e\<rparr>))"
    by (simp add: invoke_def bindS_def tick_def call split: sum.splits exn.splits)
  show ?thesis
  proof (cases r)
    case (Inr u)
    show ?thesis
    proof (cases "map_of (gw_adapters g) tool")
      case None
      with Inr assms show ?thesis by (simp add: call step granted_invocation_def liftS_def trail_Nil)
    next
      case (Some adapter)
      with Inr granted_audited [OF ok Some, of payload] show ?thesis by (simp add: call step) blast
    qed
  next
    case (Inl x)
    show ?thesis
    proof (cases x)
      case (Py y)
      with Inl assms show ?thesis by (simp add: call step trail_Nil)
    next
      case (Raise err)
      from call Inl Raise have refusal: "?call (ru_enforcer s) = (Inl (Raise err), e)" by simp
      have here: "quiet (ru_world s) e (?s1\<lparr>ru_enforcer := e\<rparr>)" using ok by (simp add: quiet_def)
      from quiet.denied_leaves [OF refusal] here obtain u s' where
        "record_denied_access g tool payload err (?s1\<lparr>ru_enforcer := e\<rparr>) = (Inr u, s')" "quiet (ru_world s) e s'"
        "trail (gw_run_id g) (store_of (?s1\<lparr>ru_enforcer := e\<rparr>)) (store_of s') [(''access_attempted'', Some (stop_reason_name (err_stop_reason err)))]"
        by (rule leavesE)
      with Inl Raise show ?thesis by (simp add: call step bindS_def liftS_def quiet_def)
    qed
  qed
qed

text \<open>C3. Every tool invocation is accounted for. What happens is decided by the enforcer alone: a refused call raises, leaves
  the world as it was and one event with the reason of the refusal; an admitted call whose tool has an adapter runs that
  adapter exactly once, between the recorded permission and start and the recorded completion and hook, and returns a
  result only if the adapter succeeded and the hook found nothing; an admitted call without adapter raises and leaves
  no event although the enforcer has charged it.\<close>

theorem invocation_audited:
  fixes s :: "'w run_state"
  assumes "audit_ok (store_of s)"
  shows "case record_tool_invocation (gw_monotonic g (ru_ticks s)) tool (tool_required_data_scopes tool) (tool_required_policies tool)
           (tool_risk_level tool) (ru_enforcer s) of
      (Inl (Py x), e) \<Rightarrow> \<exists>s'. invoke g tool payload s = (Inl (Py x), s') \<and> ru_world s' = ru_world s \<and> ru_enforcer s' = e \<and> audit_ok (store_of s') \<and>
         trail (gw_run_id g) (store_of s) (store_of s') []
    | (Inl (Raise err), e) \<Rightarrow> \<exists>s'. invoke g tool payload s = (Inl (Raise (ToolDenied (err_message err) (err_stop_reason err))), s') \<and>
         ru_world s' = ru_world s \<and> ru_enforcer s' = e \<and> audit_ok (store_of s') \<and>
         trail (gw_run_id g) (store_of s) (store_of s') [(''access_attempted'', Some (stop_reason_name (err_stop_reason err)))]
    | (Inr _, e) \<Rightarrow> (case map_of (gw_adapters g) tool of
         None \<Rightarrow> \<exists>s' msg. invoke g tool payload s = (Inl (Raise (ToolFailed msg ''tool_adapter_missing'' ToolError [])), s') \<and>
           ru_world s' = ru_world s \<and> ru_enforcer s' = e \<and> audit_ok (store_of s') \<and> trail (gw_run_id g) (store_of s) (store_of s') []
       | Some adapter \<Rightarrow> \<exists>r s' xs. invoke g tool payload s = (r, s') \<and> ru_world s' = snd (adapter payload (ru_world s)) \<and> ru_enforcer s' = e \<and>
           audit_ok (store_of s') \<and>
           trail (gw_run_id g) (store_of s) (store_of s') ([(''access_attempted'', None), (''tool_invocation_started'', None)] @ xs) \<and>
           concluded tool (fst (adapter_outcome (fst (adapter payload (ru_world s))))) (snd (adapter_outcome (fst (adapter payload (ru_world s))))) r xs)"
  by (rule invocation_trail [OF assms])

text \<open>A state with an empty store, a world that counts and the one tool that writes.\<close>

definition demo_state :: "nat run_state" where
  "demo_state = \<lparr>ru_sys = \<lparr>qs_store = empty_store, qs_artifacts = sample_artifacts\<rparr>, ru_enforcer = write_enforcer, ru_invocation_index = 0,
     ru_ticks = 0, ru_world = 0\<rparr>"

definition demo_gateway :: "nat gateway" where
  "demo_gateway = \<lparr>gw_profile = write_profile, gw_run_id = ''run-1'', gw_step_id = ''step-1'',
     gw_adapters = [(''filesystem-write'', \<lambda>payload w. (Inr payload, w + 1))], gw_redact = False, gw_clock = int, gw_monotonic = int\<rparr>"

theorem invocation_audited_witness:
  "\<exists>r s' xs. invoke demo_gateway ''filesystem-write'' [] demo_state = (r, s') \<and> ru_world s' = 1 \<and>
     trail ''run-1'' empty_store (store_of s') ([(''access_attempted'', None), (''tool_invocation_started'', None)] @ xs)"
proof -
  have ok: "audit_ok (store_of demo_state)" by (simp add: demo_state_def audit_ok_def empty_store_def indices_ok_def)
  have "case fst (record_tool_invocation (gw_monotonic demo_gateway (ru_ticks demo_state)) ''filesystem-write'' (tool_required_data_scopes ''filesystem-write'')
      (tool_required_policies ''filesystem-write'') (tool_risk_level ''filesystem-write'') (ru_enforcer demo_state)) of Inr _ \<Rightarrow> True | Inl _ \<Rightarrow> False"
    by code_simp
  with invocation_audited [OF ok, of demo_gateway "''filesystem-write''" "[]"] show ?thesis
    by (auto simp: demo_gateway_def demo_state_def split: prod.splits sum.splits)
qed

end
