(* ===== verification/Error_Taxonomy.thy ===== *)
theory Error_Taxonomy
  imports Flight_Recorder
begin

text \<open>
  \<open>runtime/error_taxonomy.py\<close>: the classification that is recorded with the outcome of a run, and the optional judge
  that may refine it. The judge is a parameter: any function from its payload to a JSON value that may raise.
\<close>

record error_classification =
  ec_error_class :: string
  ec_error_confidence :: string
  ec_classification_source :: string
  ec_error_evidence :: obj
  ec_runtime_playbook :: string

definition ERROR_CLASSES :: "string list" where
  "ERROR_CLASSES =
     [''F1_INEFFICIENCY_PATH'', ''F2_INTERFACE_CONTRACT_BREAKDOWN'', ''R8_POLICY_CONFLICT_CONTEXT_CONTAMINATION'', ''NONE'']"

definition as_dict :: "error_classification \<Rightarrow> obj" where
  "as_dict c =
     [(''error_class'', JStr (ec_error_class c)), (''error_confidence'', JStr (ec_error_confidence c)),
      (''classification_source'', JStr (ec_classification_source c)), (''error_evidence'', JObj (ec_error_evidence c)),
      (''runtime_playbook'', JStr (ec_runtime_playbook c))]"

definition rule_based :: "string \<Rightarrow> string \<Rightarrow> obj \<Rightarrow> string \<Rightarrow> error_classification" where
  "rule_based c confidence evidence playbook =
     \<lparr>ec_error_class = c, ec_error_confidence = confidence, ec_classification_source = ''rule_based_runtime_v1'',
      ec_error_evidence = evidence, ec_runtime_playbook = playbook\<rparr>"

subsection \<open>Failures\<close>

definition classify_runtime_failure :: "string \<Rightarrow> string \<Rightarrow> string option \<Rightarrow> int \<Rightarrow> int \<Rightarrow> error_classification" where
  "classify_runtime_failure error stop_reason error_code tool_calls tokens_used =
     (let message = casefold error;
          normalized_code = casefold (text_or error_code []);
          seen = [(''stop_reason'', JStr stop_reason), (''error_code'', opt_str error_code), (''message'', JStr error)]
      in if stop_reason = ''policy_denied'' \<or> contains ''policy'' normalized_code then
           rule_based ''R8_POLICY_CONFLICT_CONTEXT_CONTAMINATION'' ''high'' (seen @ [(''signal'', JStr ''policy_denied_or_policy_gate'')])
             ''fail_closed_and_emit_policy_conflict_event_then_request_policy_or_prompt_cleanup''
         else if stop_reason = ''validator_failed'' \<or> contains ''contract'' message \<or> contains ''schema'' message \<or> contains ''validation'' message then
           rule_based ''F2_INTERFACE_CONTRACT_BREAKDOWN'' ''medium'' (seen @ [(''signal'', JStr ''validator_or_contract_failure'')])
             ''normalize_interface_retry_once_then_fail_closed''
         else
           rule_based ''NONE'' ''low'' (seen @ [(''tool_calls'', JInt tool_calls), (''tokens_used'', JInt tokens_used)])
             ''generic_runtime_error_path'')"

subsection \<open>Successes\<close>

text \<open>\<open>int(max_tokens * 0.75)\<close>: exact in binary floating point up to \<open>2 ^ 51\<close>, far above any token limit, and truncated
  for the positive limits for which it is computed.\<close>

definition three_quarters :: "int \<Rightarrow> int" where
  "three_quarters n = (3 * n) div 4"

definition list_length :: "json \<Rightarrow> int" where
  "list_length v = (case as_list v of None \<Rightarrow> 0 | Some xs \<Rightarrow> int (length xs))"

definition inefficiency_signals :: "int \<Rightarrow> int \<Rightarrow> int \<Rightarrow> int \<Rightarrow> int \<Rightarrow> bool list" where
  "inefficiency_signals action_count tool_calls tool_result_count tokens_used max_tokens =
     [tool_calls > max 2 (action_count * 2), tool_result_count > max 2 (action_count * 2),
      max_tokens > 0 \<and> tokens_used > three_quarters max_tokens]"

definition classify_runtime_success :: "obj \<Rightarrow> obj \<Rightarrow> int \<Rightarrow> int \<Rightarrow> json \<Rightarrow> ('e, error_classification) res" where
  "classify_runtime_success plan execution tool_calls tokens_used profile_limits =
     (let action_count = list_length (get_or plan ''actions'' (JList []));
          tool_result_count = list_length (get_or execution ''tool_results'' (JList []))
      in case as_obj profile_limits of
           None \<Rightarrow> Inl (Py AttributeError)
         | Some limits \<Rightarrow>
             bindR (py_int (get_or limits ''max_tokens'' (JInt 0))) (\<lambda>max_tokens.
             let signals = inefficiency_signals action_count tool_calls tool_result_count tokens_used max_tokens
             in Inr (if 2 \<le> length (filter (\<lambda>signal. signal) signals) then
                       rule_based ''F1_INEFFICIENCY_PATH'' ''medium''
                         [(''action_count'', JInt action_count), (''tool_calls'', JInt tool_calls),
                          (''tool_result_count'', JInt tool_result_count), (''tokens_used'', JInt tokens_used), (''max_tokens'', JInt max_tokens)]
                         ''optimize_plan_and_tool_selection_before_next_run''
                     else
                       rule_based ''NONE'' ''high''
                         [(''action_count'', JInt action_count), (''tool_calls'', JInt tool_calls), (''tokens_used'', JInt tokens_used)]
                         ''no_action_required'')))"

subsection \<open>The judge\<close>

type_synonym 'e judge = "obj \<Rightarrow> ('e, json) res"

definition judged :: "error_classification \<Rightarrow> obj \<Rightarrow> ('e, error_classification) res" where
  "judged base raw =
     (case as_str (get raw ''error_class'') of
        None \<Rightarrow> Inr base
      | Some error_class \<Rightarrow>
          if error_class \<notin> set ERROR_CLASSES then Inr base
          else bindR (in_strings (get raw ''error_confidence'') [''low'', ''medium'', ''high'']) (\<lambda>known.
               case (known, as_str (get raw ''runtime_playbook'')) of
                 (True, Some playbook) \<Rightarrow>
                   Inr \<lparr>ec_error_class = error_class, ec_error_confidence = py_str (get raw ''error_confidence''),
                        ec_classification_source = ''llm_judge_v1'',
                        ec_error_evidence = dict_set ''llm_judge_evidence'' (JObj (obj_or_empty (get raw ''error_evidence''))) (ec_error_evidence base),
                        ec_runtime_playbook = playbook\<rparr>
               | _ \<Rightarrow> Inr base))"

definition apply_optional_llm_judge :: "error_classification \<Rightarrow> bool \<Rightarrow> 'e judge option \<Rightarrow> obj \<Rightarrow> ('e, error_classification) res" where
  "apply_optional_llm_judge base enabled judge context =
     (if \<not> enabled then Inr base
      else if ec_error_confidence base \<noteq> ''low'' then Inr base
      else case judge of
        None \<Rightarrow> Inr base
      | Some classify \<Rightarrow>
          bindR (classify [(''base_classification'', JObj (as_dict base)), (''context'', JObj context)]) (\<lambda>raw.
          case as_obj raw of None \<Rightarrow> Inr base | Some m \<Rightarrow> judged base m))"

subsection \<open>What the judge can change\<close>

lemma judged_cases:
  assumes "judged base raw = Inr c"
  obtains "c = base" | "ec_error_class c \<in> set ERROR_CLASSES" "ec_error_confidence c \<in> {''low'', ''medium'', ''high''}"
    "ec_classification_source c = ''llm_judge_v1''" "\<forall>k. k \<noteq> ''llm_judge_evidence'' \<longrightarrow> map_of (ec_error_evidence c) k = map_of (ec_error_evidence base) k"
proof -
  note c = assms [unfolded judged_def]
  show ?thesis
  proof (cases "get raw ''error_confidence''")
    case (JStr conf)
    with c show ?thesis using that by (auto simp: bindR_Inr_iff dict_simps split: option.splits if_splits bool.splits)
  qed (use c that in \<open>auto simp: bindR_Inr_iff split: option.splits if_splits bool.splits\<close>)
qed

lemma judge_fixed: "ec_error_confidence base \<noteq> ''low'' \<Longrightarrow> apply_optional_llm_judge base enabled judge context = Inr base"
  by (simp add: apply_optional_llm_judge_def)

text \<open>C34. The judge has no say over policy: however it answers, a failure that the policy caused is classified as a policy
  conflict and a failed validation as a broken contract, with the evidence of the rules. Where the judge is heard, its
  class is one of the four of the taxonomy, and the evidence of the rules stays under its keys.\<close>

theorem judge_contained:
  fixes judge :: "'e judge option"
  assumes "apply_optional_llm_judge (classify_runtime_failure error stop code tool_calls tokens) enabled judge context = Inr c"
  shows "(stop = ''policy_denied'' \<longrightarrow> c = classify_runtime_failure error stop code tool_calls tokens \<and>
       ec_error_class c = ''R8_POLICY_CONFLICT_CONTEXT_CONTAMINATION'') \<and>
     (stop = ''validator_failed'' \<longrightarrow> c = classify_runtime_failure error stop code tool_calls tokens) \<and>
     ec_error_class c \<in> set ERROR_CLASSES \<and>
     (\<forall>k \<in> {''stop_reason'', ''error_code'', ''message''}.
        map_of (ec_error_evidence c) k = map_of (ec_error_evidence (classify_runtime_failure error stop code tool_calls tokens)) k)"
proof -
  let ?base = "classify_runtime_failure error stop code tool_calls tokens"
  have known: "ec_error_class ?base \<in> set ERROR_CLASSES"
    by (simp add: classify_runtime_failure_def rule_based_def ERROR_CLASSES_def Let_def)
  have policy: "stop = ''policy_denied'' \<Longrightarrow> ec_error_confidence ?base = ''high'' \<and> ec_error_class ?base = ''R8_POLICY_CONFLICT_CONTEXT_CONTAMINATION''"
    by (simp add: classify_runtime_failure_def rule_based_def Let_def)
  have invalid: "stop = ''validator_failed'' \<Longrightarrow> ec_error_confidence ?base \<noteq> ''low''"
    by (simp add: classify_runtime_failure_def rule_based_def Let_def)
  have "c = ?base \<or> ec_error_confidence ?base = ''low'' \<and> (\<exists>m. judged ?base m = (Inr c :: ('e, error_classification) res))"
    using assms by (auto simp: apply_optional_llm_judge_def bindR_Inr_iff split: if_splits option.splits)
  then consider "c = ?base" | m where "ec_error_confidence ?base = ''low''" "judged ?base m = (Inr c :: ('e, error_classification) res)" by blast
  then show ?thesis
  proof cases
    case 1
    with policy known show ?thesis by simp
  next
    case 2
    from 2(2) show ?thesis
    proof (cases rule: judged_cases)
      case 1
      with policy known show ?thesis by simp
    next
      case judge: 2
      have "stop \<noteq> ''policy_denied''" "stop \<noteq> ''validator_failed''" using policy invalid 2(1) by auto
      with judge show ?thesis by simp
    qed
  qed
qed

definition eager_judge :: "unit judge" where
  "eager_judge payload = Inr (JObj [(''error_class'', JStr ''NONE''), (''error_confidence'', JStr ''high''), (''runtime_playbook'', JStr ''retry'')])"

theorem judge_contained_witness:
  "\<exists>c. apply_optional_llm_judge (classify_runtime_failure ''refused'' ''policy_denied'' None 1 2) True (Some eager_judge) [] = Inr c \<and>
     ec_error_class c = ''R8_POLICY_CONFLICT_CONTEXT_CONTAMINATION''"
proof -
  let ?b = "classify_runtime_failure ''refused'' ''policy_denied'' None 1 2"
  have "ec_error_confidence ?b \<noteq> ''low''" by code_simp
  from judge_fixed [OF this] have a: "apply_optional_llm_judge ?b True (Some eager_judge) [] = Inr ?b" .
  from judge_contained [OF this] show ?thesis using a by blast
qed

end
