(* ===== verification/Loop.thy ===== *)
theory Loop
  imports Entrypoint Planning Runtime_Context Tool_Gateway Error_Taxonomy
begin

text \<open>
  \<open>runtime/loop.py\<close>: the execution of a started run in its four steps, its cancellation, failure and recomposition. The
  adapters, the retrieval client, the cancellation checker and the judge are parameters. The checker is a function of
  the state of the run, which counts its readings, so that a cancellation may arrive at any point. The model of one run is a total
  function; the loop over recompositions is a partial function, shown to return.
\<close>

subsection \<open>Configuration and results\<close>

record 'w loop =
  lp_adapters :: "(string, 'w adapter) dict"
  lp_client :: "retrieval_client option"
  lp_handlers :: handler_registry
  lp_judge_enabled :: bool
  lp_judge :: "string judge option"
  lp_cancelled :: "('w run_state \<Rightarrow> string \<Rightarrow> bool) option"
  lp_clock :: "nat \<Rightarrow> datetime"
  lp_monotonic :: "nat \<Rightarrow> datetime"
  lp_sha256 :: hash

datatype loop_error =
    LoopFailed string "string option" "recomposition_request option"
  | Escaped run_error
  | JudgeFailed string
  | RestartFailed entry_error

record loop_result =
  lr_run_id :: string
  lr_status :: string
  lr_stop_reason :: string
  lr_response :: obj
  lr_attempt_run_ids :: "string list"
  lr_recomposed_profile_ids :: "json list"

subsection \<open>Errors of a run\<close>

fun error_message :: "run_error \<Rightarrow> string" where
  "error_message (Enforced e) = err_message e"
| "error_message (ToolDenied m r) = m"
| "error_message (ToolFailed m c r d) = m"
| "error_message (GapRaised (GapError m)) = m"
| "error_message (ValidationFailed m) = m"
| "error_message RunCancelled = ''Runtime run was cancelled.''"

fun error_stop_reason :: "run_error \<Rightarrow> string" where
  "error_stop_reason (Enforced e) = stop_reason_name (err_stop_reason e)"
| "error_stop_reason (ToolDenied m r) = stop_reason_name r"
| "error_stop_reason (ToolFailed m c r d) = stop_reason_name r"
| "error_stop_reason (GapRaised g) = ''tool_error''"
| "error_stop_reason (ValidationFailed m) = ''validator_failed''"
| "error_stop_reason RunCancelled = ''cancelled''"

fun error_code :: "run_error \<Rightarrow> string option" where
  "error_code (Enforced e) = Some (err_code e)"
| "error_code (ToolFailed m c r d) = Some c"
| "error_code e = None"

fun error_type :: "run_error \<Rightarrow> string" where
  "error_type (Enforced e) = ''ProfileEnforcementError''"
| "error_type (ToolDenied m r) = ''ToolDeniedError''"
| "error_type (ToolFailed m c r d) = ''ToolExecutionError''"
| "error_type (GapRaised g) = ''CapabilityGapCandidateError''"
| "error_type (ValidationFailed m) = ''RuntimeValidationError''"
| "error_type RunCancelled = ''RuntimeCancellationError''"

fun is_validation_error :: "run_error \<Rightarrow> bool" where
  "is_validation_error (ValidationFailed m) = True"
| "is_validation_error e = False"

definition failure_policy_field :: "run_error \<Rightarrow> string option" where
  "failure_policy_field error =
     (if is_validation_error error then Some ''on_validator_failure''
      else if error_stop_reason error = ''policy_denied'' then Some ''on_policy_denial''
      else if startswith ''max_'' (error_stop_reason error) then Some ''on_budget_exhausted''
      else None)"

definition recomposition_reason :: "run_error \<Rightarrow> string option" where
  "recomposition_reason error =
     (if is_validation_error error then Some ''validator_failure''
      else if error_stop_reason error = ''policy_denied'' then Some ''missing_capability''
      else if startswith ''max_'' (error_stop_reason error) then Some ''budget_exhausted''
      else None)"

definition profile_allows_recomposition :: "obj \<Rightarrow> run_error \<Rightarrow> bool" where
  "profile_allows_recomposition profile error =
     (case as_obj (get_or profile ''failure_policy'' (JObj [])) of
        None \<Rightarrow> False
      | Some failure_policy \<Rightarrow>
          (case failure_policy_field error of None \<Rightarrow> False | Some policy_field \<Rightarrow> get failure_policy policy_field = JStr ''recompose_once''))"

subsection \<open>Parts of a step\<close>

definition raise_if_cancelled :: "'w loop \<Rightarrow> string \<Rightarrow> ('w, unit) run" where
  "raise_if_cancelled cfg run_id =
     bindS (readS (\<lambda>s. Inr (case get_runtime_run run_id (store_of s) of None \<Rightarrow> False | Some r \<Rightarrow> get r ''status'' = JStr ''cancelled''))) (\<lambda>stored.
     if stored then liftS (Inl (Raise RunCancelled))
     else case lp_cancelled cfg of
       None \<Rightarrow> retS ()
     | Some check \<Rightarrow> (\<lambda>s. (if check s run_id then Inl (Raise RunCancelled) else Inr (), s\<lparr>ru_ticks := Suc (ru_ticks s)\<rparr>)))"

definition on_enforcer :: "'a enf \<Rightarrow> ('w, 'a) run" where
  "on_enforcer m s = (case m (ru_enforcer s) of (r, e) \<Rightarrow> (catch_as Enforced r, s\<lparr>ru_enforcer := e\<rparr>))"

definition step_guard :: "'w loop \<Rightarrow> string \<Rightarrow> ('w, unit) run" where
  "step_guard cfg run_id =
     bindS (raise_if_cancelled cfg run_id) (\<lambda>_.
     bindS (tick (lp_monotonic cfg)) (\<lambda>now. on_enforcer (check_duration now)))"

definition open_step :: "'w loop \<Rightarrow> string \<Rightarrow> int \<Rightarrow> string \<Rightarrow> ('w, string) run" where
  "open_step cfg run_id step_index kind =
     bindS (tick (lp_clock cfg)) (\<lambda>t.
     bindS (on_sys (start_step t run_id step_index kind None None)) (\<lambda>step.
     bindS (liftS (getitem step ''id'')) (\<lambda>ident. retS (py_str ident))))"

definition step_event :: "'w loop \<Rightarrow> string \<Rightarrow> bool \<Rightarrow> string \<Rightarrow> string \<Rightarrow> string \<Rightarrow> json \<Rightarrow> json \<Rightarrow> string option \<Rightarrow> ('w, obj) run" where
  "step_event cfg run_id redact step_id event_type actor planned result stop =
     run_event (lp_clock cfg) run_id redact
       ((event_call_of event_type actor)\<lparr>ev_step_id := Some step_id, ev_planned_action := planned, ev_result := result, ev_stop_reason := stop\<rparr>)"

definition end_step :: "'w loop \<Rightarrow> string \<Rightarrow> string \<Rightarrow> string \<Rightarrow> ('w, obj) run" where
  "end_step cfg step_id status stop = bindS (tick (lp_clock cfg)) (\<lambda>t. on_sys (complete_step t step_id status (Some stop) 0))"

definition finish_step :: "'w loop \<Rightarrow> string \<Rightarrow> bool \<Rightarrow> string \<Rightarrow> string \<Rightarrow> string \<Rightarrow> obj \<Rightarrow> ('w, unit) run" where
  "finish_step cfg run_id redact step_id phase actor state =
     bindS (run_checkpoint (lp_clock cfg) run_id redact (Some step_id) phase (JObj state)) (\<lambda>_.
     bindS (step_event cfg run_id redact step_id ''step_completed'' actor JNull (JObj state) (Some ''completed'')) (\<lambda>_.
     bindS (end_step cfg step_id ''succeeded'' ''completed'') (\<lambda>_. retS ())))"

definition fail_step :: "'w loop \<Rightarrow> string \<Rightarrow> bool \<Rightarrow> string \<Rightarrow> string \<Rightarrow> obj \<Rightarrow> run_error \<Rightarrow> ('w, 'a) run" where
  "fail_step cfg run_id redact step_id actor result error =
     bindS (step_event cfg run_id redact step_id ''step_completed'' actor JNull (JObj result) (Some (error_stop_reason error))) (\<lambda>_.
     bindS (end_step cfg step_id ''failed'' (error_stop_reason error)) (\<lambda>_. liftS (Inl (Raise error))))"

subsection \<open>The four steps\<close>

definition context_step :: "'w loop \<Rightarrow> string \<Rightarrow> obj \<Rightarrow> bool \<Rightarrow> ('w, obj) run" where
  "context_step cfg run_id profile redact =
     bindS (step_guard cfg run_id) (\<lambda>_.
     bindS (open_step cfg run_id 0 ''context'') (\<lambda>step_id.
     bindS (step_event cfg run_id redact step_id ''step_started'' ''context_manager'' (JObj [(''phase'', JStr ''context'')]) JNull None) (\<lambda>_.
     bindS (liftS (getitem profile ''objective'')) (\<lambda>objective.
     bindS (readS (\<lambda>s. catch_as Enforced (load_context (ru_enforcer s) (lp_client cfg) profile (py_str objective)))) (\<lambda>context.
     bindS (finish_step cfg run_id redact step_id ''context'' ''context_manager'' context) (\<lambda>_.
     retS context))))))"

definition planner_step :: "'w loop \<Rightarrow> string \<Rightarrow> obj \<Rightarrow> obj \<Rightarrow> bool \<Rightarrow> ('w, obj) run" where
  "planner_step cfg run_id profile context redact =
     bindS (step_guard cfg run_id) (\<lambda>_.
     bindS (open_step cfg run_id 1 ''planner'') (\<lambda>step_id.
     bindS (step_event cfg run_id redact step_id ''step_started'' ''planner''
       (JObj [(''phase'', JStr ''planner''), (''context_keys'', str_list (sort (dict_keys context)))]) JNull None) (\<lambda>_.
     bindS (readS (\<lambda>s. catch_as Enforced (build_runtime_plan profile (ru_enforcer s) (lp_handlers cfg)))) (\<lambda>plan.
     bindS (finish_step cfg run_id redact step_id ''planner'' ''planner'' plan) (\<lambda>_.
     retS plan)))))"

definition run_gateway :: "'w loop \<Rightarrow> string \<Rightarrow> obj \<Rightarrow> bool \<Rightarrow> string \<Rightarrow> 'w gateway" where
  "run_gateway cfg run_id profile redact step_id =
     \<lparr>gw_profile = profile, gw_run_id = run_id, gw_step_id = step_id, gw_adapters = lp_adapters cfg, gw_redact = redact,
      gw_clock = lp_clock cfg, gw_monotonic = lp_monotonic cfg\<rparr>"

definition new_gateway :: "('w, unit) run" where
  "new_gateway s = (Inr (), s\<lparr>ru_invocation_index := 0\<rparr>)"

text \<open>An action that is not an object is skipped and yields no result.\<close>

definition execute_action :: "'w loop \<Rightarrow> string \<Rightarrow> 'w gateway \<Rightarrow> json \<Rightarrow> ('w, json list) run" where
  "execute_action cfg run_id g action =
     bindS (raise_if_cancelled cfg run_id) (\<lambda>_.
     case as_obj action of
       None \<Rightarrow> retS []
     | Some act \<Rightarrow>
         bindS (liftS (getitem act ''tool'')) (\<lambda>tool.
         bindS (invoke g (py_str tool) (obj_or_empty (get_or act ''payload'' (JObj [])))) (\<lambda>result.
         retS [JObj [(''id'', JStr (tr_id result)), (''tool_name'', JStr (tr_tool_name result)), (''status'', JStr (tr_status result)),
                     (''output_uri'', JStr (tr_output_uri result))]])))"

definition execute_actions :: "'w loop \<Rightarrow> string \<Rightarrow> 'w gateway \<Rightarrow> obj \<Rightarrow> ('w, json list) run" where
  "execute_actions cfg run_id g plan =
     bindS (liftS (py_iter (get_or plan ''actions'' (JList [])))) (\<lambda>actions.
     bindS (mapS (execute_action cfg run_id g) actions) (\<lambda>results. retS (concat results)))"

definition executor_step :: "'w loop \<Rightarrow> string \<Rightarrow> obj \<Rightarrow> obj \<Rightarrow> bool \<Rightarrow> ('w, obj) run" where
  "executor_step cfg run_id profile plan redact =
     bindS (step_guard cfg run_id) (\<lambda>_.
     bindS (open_step cfg run_id 2 ''executor'') (\<lambda>step_id.
     bindS (step_event cfg run_id redact step_id ''step_started'' ''executor'' (JObj plan) JNull None) (\<lambda>_.
     bindS new_gateway (\<lambda>_.
     bindS (outcomeS (execute_actions cfg run_id (run_gateway cfg run_id profile redact step_id) plan)) (\<lambda>outcome.
     case outcome of
       Inr tool_results \<Rightarrow>
         (let execution = [(''strategy'', get_or plan ''strategy'' (JStr ''generic'')), (''tool_results'', JList tool_results)]
          in bindS (finish_step cfg run_id redact step_id ''executor'' ''executor'' execution) (\<lambda>_. retS execution))
     | Inl (Raise (ToolDenied m r)) \<Rightarrow>
         fail_step cfg run_id redact step_id ''executor'' [(''status'', JStr ''failed''), (''error'', JStr m)] (ToolDenied m r)
     | Inl (Raise (ToolFailed m c r d)) \<Rightarrow>
         fail_step cfg run_id redact step_id ''executor'' [(''status'', JStr ''failed''), (''error'', JStr m)] (ToolFailed m c r d)
     | Inl e \<Rightarrow> liftS (Inl e))))))"

definition record_outcome :: "'w loop \<Rightarrow> string \<Rightarrow> bool \<Rightarrow> string \<Rightarrow> validation_outcome \<Rightarrow> ('w, unit) run" where
  "record_outcome cfg run_id redact step_id v =
     (let validation_id = slug_id (run_id @ ''-'' @ vo_validator_id v) (Some ''validation'') in
      bindS (on_sys (on_artifacts (write_json [''traces'', run_id, ''validation'', vo_validator_id v] (JObj (vo_findings v)) redact))) (\<lambda>findings_uri.
      bindS (tick (lp_clock cfg)) (\<lambda>t.
      bindS (on_sys (on_store (insert_validation_result
        [(''id'', JStr validation_id), (''run_id'', JStr run_id), (''step_id'', JStr step_id), (''validator_id'', JStr (vo_validator_id v)),
         (''status'', JStr (vo_status v)), (''findings_uri'', JStr findings_uri), (''created_at'', JStr (iso_timestamp t))]))) (\<lambda>_.
      bindS (run_event (lp_clock cfg) run_id redact
        ((event_call_of ''validator_executed'' ''validator'')
           \<lparr>ev_step_id := Some step_id, ev_execution := JObj [(''validation_result_id'', JStr validation_id)],
            ev_result := JObj [(''status'', JStr (vo_status v)), (''findings_uri'', JStr findings_uri)],
            ev_stop_reason := (if vo_status v = ''failed'' then Some ''validator_failed'' else None)\<rparr>)) (\<lambda>_. retS ())))))"

definition validator_step :: "'w loop \<Rightarrow> string \<Rightarrow> string \<Rightarrow> obj \<Rightarrow> obj \<Rightarrow> obj \<Rightarrow> obj \<Rightarrow> bool \<Rightarrow> ('w, obj) run" where
  "validator_step cfg run_id task_id profile context plan execution redact =
     bindS (step_guard cfg run_id) (\<lambda>_.
     bindS (open_step cfg run_id 3 ''validator'') (\<lambda>step_id.
     bindS (liftS (getitem profile ''validators'')) (\<lambda>validators.
     bindS (step_event cfg run_id redact step_id ''step_started'' ''validator''
       (JObj [(''phase'', JStr ''validator''), (''validators'', validators)]) JNull None) (\<lambda>_.
     bindS (liftS (runtime_response run_id task_id profile context plan execution)) (\<lambda>response.
     bindS (liftS (framework_validate (framework_init []) profile execution response)) (\<lambda>outcomes.
     bindS (mapS (record_outcome cfg run_id redact step_id) outcomes) (\<lambda>_.
     case assert_validation_passed outcomes of
       Inl (Raise m) \<Rightarrow> fail_step cfg run_id redact step_id ''validator'' [(''status'', JStr ''failed'')] (ValidationFailed m)
     | Inl (Py x) \<Rightarrow> liftS (Inl (Py x))
     | Inr _ \<Rightarrow>
         bindS (finish_step cfg run_id redact step_id ''validator'' ''validator'' response) (\<lambda>_. retS response))))))))"

text \<open>The body of the \<open>try\<close> statement of \<open>run\<close>: plan, execution and response of the run.\<close>

definition run_steps :: "'w loop \<Rightarrow> start_result \<Rightarrow> bool \<Rightarrow> ('w, obj \<times> obj \<times> obj) run" where
  "run_steps cfg sr redact =
     (let run_id = sr_run_id sr; profile = sr_profile sr in
      bindS (readS (\<lambda>s. catch_as Enforced (validate_profile_for_runtime (ru_enforcer s)))) (\<lambda>_.
      bindS (raise_if_cancelled cfg run_id) (\<lambda>_.
      bindS (context_step cfg run_id profile redact) (\<lambda>context.
      bindS (raise_if_cancelled cfg run_id) (\<lambda>_.
      bindS (planner_step cfg run_id profile context redact) (\<lambda>plan.
      bindS (raise_if_cancelled cfg run_id) (\<lambda>_.
      bindS (executor_step cfg run_id profile plan redact) (\<lambda>execution.
      bindS (raise_if_cancelled cfg run_id) (\<lambda>_.
      bindS (validator_step cfg run_id (at_task_id (sr_analyzed_task sr)) profile context plan execution redact) (\<lambda>response.
      retS (plan, execution, response)))))))))))"

subsection \<open>Ending a run\<close>

definition end_run :: "'w loop \<Rightarrow> string \<Rightarrow> string \<Rightarrow> string \<Rightarrow> ('w, loop_error, obj) runner" where
  "end_run cfg run_id status stop =
     bindS (readS (\<lambda>s. Inr (en_tokens_used (ru_enforcer s)))) (\<lambda>tokens.
     bindS (tick (lp_clock cfg)) (\<lambda>t. on_sys (complete_run t run_id status stop tokens)))"

definition judge_outcome :: "'w loop \<Rightarrow> error_classification \<Rightarrow> obj \<Rightarrow> (loop_error, error_classification) res" where
  "judge_outcome cfg base context = catch_as JudgeFailed (apply_optional_llm_judge base (lp_judge_enabled cfg) (lp_judge cfg) context)"

definition cancel_run :: "'w loop \<Rightarrow> string \<Rightarrow> bool \<Rightarrow> ('w, loop_error, obj) runner" where
  "cancel_run cfg run_id redact =
     (let response = [(''run_id'', JStr run_id), (''status'', JStr ''cancelled''), (''stop_reason'', JStr ''cancelled'')] in
      bindS (run_event (lp_clock cfg) run_id redact
        ((event_call_of ''runtime_cancelled'' ''runtime'')\<lparr>ev_result := JObj response, ev_stop_reason := Some ''cancelled''\<rparr>)) (\<lambda>_.
      bindS (end_run cfg run_id ''cancelled'' ''cancelled'') (\<lambda>_. retS response)))"

definition fail_run :: "'w loop \<Rightarrow> string \<Rightarrow> run_error \<Rightarrow> bool \<Rightarrow> ('w, loop_error, string) runner" where
  "fail_run cfg run_id error redact =
     (let stop_reason = error_stop_reason error in
      bindS (readS (\<lambda>s. judge_outcome cfg
        (classify_runtime_failure (error_message error) stop_reason (error_code error) (en_tool_calls (ru_enforcer s)) (en_tokens_used (ru_enforcer s)))
        [(''run_id'', JStr run_id), (''status'', JStr ''failed''), (''stop_reason'', JStr stop_reason), (''error_type'', JStr (error_type error))])) (\<lambda>c.
      bindS (run_event (lp_clock cfg) run_id redact
        ((event_call_of ''runtime_failed'' (if stop_reason \<noteq> ''tool_error'' then ''policy_engine'' else ''executor''))
           \<lparr>ev_result := JObj [(''error'', JStr (error_message error)), (''error_type'', JStr (error_type error)), (''error_classification'', JObj (as_dict c))],
            ev_stop_reason := Some stop_reason\<rparr>)) (\<lambda>_.
      bindS (end_run cfg run_id ''failed'' stop_reason) (\<lambda>_. retS stop_reason))))"

text \<open>The identifier of a profile is a string, and its generation a number or the text of one.\<close>

definition request_recomposition :: "'w loop \<Rightarrow> start_result \<Rightarrow> string \<Rightarrow> bool \<Rightarrow> ('w, loop_error, recomposition_request) runner" where
  "request_recomposition cfg sr reason redact =
     (let profile = sr_profile sr in
      bindS (liftS (getitem profile ''id'')) (\<lambda>ident.
      bindS (liftS (bindR (getitem profile ''profile_generation'') py_int)) (\<lambda>generation.
      let request = \<lparr>rr_source_run_id = sr_run_id sr, rr_task_id = at_task_id (sr_analyzed_task sr), rr_parent_profile_id = py_str ident,
                     rr_requested_profile_generation = generation + 1, rr_recomposition_reason = reason\<rparr> in
      bindS (run_event (lp_clock cfg) (sr_run_id sr) redact
        ((event_call_of ''recomposition_requested'' ''composer'')
           \<lparr>ev_result := JObj (as_event_result request), ev_stop_reason := Some ''needs_recomposition''\<rparr>)) (\<lambda>_.
      bindS (end_run cfg (sr_run_id sr) ''failed'' ''needs_recomposition'') (\<lambda>_. retS request)))))"

definition handle_runtime_error ::
  "'w loop \<Rightarrow> start_result \<Rightarrow> run_error \<Rightarrow> bool \<Rightarrow> ('w, loop_error, string \<times> recomposition_request option) runner" where
  "handle_runtime_error cfg sr error redact =
     (let run_id = sr_run_id sr;
          failing = (\<lambda>e. bindS (fail_run cfg run_id e redact) (\<lambda>stop. retS (stop, None)))
      in case recomposition_reason error of
           None \<Rightarrow> failing error
         | Some reason \<Rightarrow>
             if \<not> profile_allows_recomposition (sr_profile sr) error then failing error
             else bindS (outcomeS (on_enforcer record_recomposition_request)) (\<lambda>admission.
                  case admission of
                    Inl (Raise budget_error) \<Rightarrow> failing budget_error
                  | Inl (Py x) \<Rightarrow> liftS (Inl (Py x))
                  | Inr _ \<Rightarrow> bindS (request_recomposition cfg sr reason redact) (\<lambda>request. retS (''needs_recomposition'', Some request))))"

definition loop_result_of :: "string \<Rightarrow> string \<Rightarrow> string \<Rightarrow> obj \<Rightarrow> loop_result" where
  "loop_result_of run_id status stop response =
     \<lparr>lr_run_id = run_id, lr_status = status, lr_stop_reason = stop, lr_response = response, lr_attempt_run_ids = [run_id],
      lr_recomposed_profile_ids = []\<rparr>"

definition succeed_run :: "'w loop \<Rightarrow> start_result \<Rightarrow> bool \<Rightarrow> obj \<times> obj \<times> obj \<Rightarrow> ('w, loop_error, loop_result) runner" where
  "succeed_run cfg sr redact outcome =
     (let (plan, execution, response) = outcome; run_id = sr_run_id sr; profile = sr_profile sr in
      bindS (readS (\<lambda>s. bindR (classify_runtime_success plan execution (en_tool_calls (ru_enforcer s)) (en_tokens_used (ru_enforcer s))
          (get_or profile ''limits'' (JObj []))) (\<lambda>base.
        judge_outcome cfg base [(''run_id'', JStr run_id), (''task_type'', get profile ''task_type''), (''status'', JStr ''succeeded'')]))) (\<lambda>c.
      let response = dict_set ''error_classification'' (JObj (as_dict c)) response in
      bindS (run_event (lp_clock cfg) run_id redact
        ((event_call_of ''runtime_completed'' ''validator'')\<lparr>ev_result := JObj response, ev_stop_reason := Some ''completed''\<rparr>)) (\<lambda>_.
      bindS (end_run cfg run_id ''succeeded'' ''completed'') (\<lambda>_.
      retS (loop_result_of run_id ''succeeded'' ''completed'' response)))))"

subsection \<open>One run\<close>

definition seal_check :: "'w loop \<Rightarrow> start_result \<Rightarrow> artifact_store \<Rightarrow> (loop_error, unit) res" where
  "seal_check cfg sr a =
     catch_as (\<lambda>m. LoopFailed m (Some ''profile_integrity_failure'') None)
       (assert_profile_seal (lp_sha256 cfg) (sr_profile_artifact_uri sr) (sr_profile_sha256 sr) a)"

definition install_enforcer :: "'w loop \<Rightarrow> obj \<Rightarrow> ('w, loop_error, unit) runner" where
  "install_enforcer cfg profile =
     bindS (tick (lp_monotonic cfg)) (\<lambda>now.
     bindS (liftS (catch_as (\<lambda>e. Escaped (Enforced e)) (enforcer_init profile now))) (\<lambda>e s. (Inr (), s\<lparr>ru_enforcer := e\<rparr>)))"

definition loop_run :: "'w loop \<Rightarrow> start_result \<Rightarrow> ('w, loop_error, loop_result) runner" where
  "loop_run cfg sr =
     bindS (readS (\<lambda>s. seal_check cfg sr (qs_artifacts (ru_sys s)))) (\<lambda>_.
     let run_id = sr_run_id sr; redact = profile_redacts_sensitive_data (sr_profile sr) in
     bindS (install_enforcer cfg (sr_profile sr)) (\<lambda>_.
     bindS (outcomeS (run_steps cfg sr redact)) (\<lambda>outcome.
     case outcome of
       Inr x \<Rightarrow> succeed_run cfg sr redact x
     | Inl (Py x) \<Rightarrow> liftS (Inl (Py x))
     | Inl (Raise RunCancelled) \<Rightarrow>
         bindS (cancel_run cfg run_id redact) (\<lambda>response. retS (loop_result_of run_id ''cancelled'' ''cancelled'' response))
     | Inl (Raise (GapRaised g)) \<Rightarrow> liftS (Inl (Raise (Escaped (GapRaised g))))
     | Inl (Raise error) \<Rightarrow>
         bindS (handle_runtime_error cfg sr error redact) (\<lambda>(stop_reason, request).
         liftS (Inl (Raise (LoopFailed (error_message error) (Some stop_reason) request)))))))"

subsection \<open>Recomposition\<close>

definition attempts_result :: "string list \<Rightarrow> json list \<Rightarrow> loop_result \<Rightarrow> loop_result" where
  "attempts_result attempts recomposed result =
     \<lparr>lr_run_id = lr_run_id result, lr_status = lr_status result, lr_stop_reason = lr_stop_reason result,
      lr_response = dict_set ''recomposed_profile_ids'' (JList recomposed) (dict_set ''attempt_run_ids'' (str_list attempts) (lr_response result)),
      lr_attempt_run_ids = attempts, lr_recomposed_profile_ids = recomposed\<rparr>"

text \<open>The next attempt: a started run and the identifier of its profile.\<close>

definition restart :: "entry_config \<Rightarrow> obj \<Rightarrow> obj option \<Rightarrow> recomposition_request \<Rightarrow> ('w, loop_error, start_result \<times> json) runner" where
  "restart ep task context request =
     bindS (raising RestartFailed (continue_recomposition ep task request context None)) (\<lambda>sr.
     bindS (liftS (getitem (sr_profile sr) ''id'')) (\<lambda>ident. retS (sr, ident)))"

partial_function (option) attempt_loop ::
  "'w loop \<Rightarrow> entry_config \<Rightarrow> obj \<Rightarrow> obj option \<Rightarrow> start_result \<Rightarrow> string list \<Rightarrow> json list \<Rightarrow> 'w run_state \<Rightarrow>
   ((loop_error, loop_result) res \<times> 'w run_state) option" where
  "attempt_loop cfg ep task context sr attempts recomposed s =
     (case loop_run cfg sr s of
        (Inr result, s') \<Rightarrow> Some (Inr (attempts_result (attempts @ [sr_run_id sr]) recomposed result), s')
      | (Inl e, s') \<Rightarrow>
          (case e of
             Raise (LoopFailed m stop (Some request)) \<Rightarrow>
               (case restart ep task context request s' of
                  (Inl e', s'') \<Rightarrow> Some (Inl e', s'')
                | (Inr next, s'') \<Rightarrow>
                    attempt_loop cfg ep task context (fst next) (attempts @ [sr_run_id sr]) (recomposed @ [snd next]) s'')
           | _ \<Rightarrow> Some (Inl e, s')))"

definition run_with_recomposition ::
  "'w loop \<Rightarrow> entry_config \<Rightarrow> obj \<Rightarrow> obj option \<Rightarrow> start_result \<Rightarrow> 'w run_state \<Rightarrow> ((loop_error, loop_result) res \<times> 'w run_state) option" where
  "run_with_recomposition cfg ep task context sr = attempt_loop cfg ep task context sr [] []"

end
