(* ===== verification/Run_Outcome.thy ===== *)
theory Run_Outcome
  imports Loop
begin

text \<open>
  What a run leaves behind. The steps of a run are followed in the frame of a registered run whose record is fixed: no step
  closes the run, and only the last statement of \<open>run\<close> does. Each way out of a run has its closing event and its status.
\<close>

subsection \<open>Statements that raise only exceptions of the language\<close>

definition plain :: "('e, 'a) res \<Rightarrow> bool" where
  "plain r \<longleftrightarrow> (\<forall>e. r \<noteq> Inl (Raise e))"

lemma plain_simps [simp]: "plain (Inr y)" "plain (Inl (Py x))" "plain (getitem m k)"
  by (auto simp: plain_def getitem_def split: option.splits)

lemma plain_json [simp]: "plain (py_iter v)" "plain (py_len v)" "plain (in_strings v xs)"
  by (cases v; simp)+

lemma plain_int: "plain (py_int v)"
  by (cases v) (auto simp: plain_def split: option.splits)

lemma plain_bind: "plain m \<Longrightarrow> (\<And>x. plain (f x)) \<Longrightarrow> plain (bindR m f)"
  by (auto simp: plain_def bindR_def split: sum.splits)

lemma plain_map: "(\<And>x. plain (f x)) \<Longrightarrow> plain (mapR f xs)"
  by (induction xs) (auto intro!: plain_bind)

lemma response_plain: "plain (runtime_response run task profile context plan execution)"
  unfolding runtime_response_def runtime_output_for_task_def tool_artifacts_from_execution_def research_output_def task_execution_output_def
    executed_action_def Let_def
  by (auto intro!: plain_bind plain_map)

lemma scopes_plain: "plain (validate_scopes_against_tenant_authority v profile fs)"
  unfolding validate_scopes_against_tenant_authority_def scope_errors_def Let_def
  by (auto intro!: plain_bind plain_map split: option.split)

lemma contract_plain: "plain (output_contract_validate v t execution response)"
  unfolding output_contract_validate_def runtime_output_errors_def Let_def
  by (auto intro!: plain_bind split: option.split)

lemma validator_plain: "(v, f) \<in> set builtin_validators \<Longrightarrow> plain (f profile execution response)"
  by (auto simp: builtin_validators_def scopes_plain contract_plain)

lemma framework_plain: "plain (framework_validate (framework_init []) profile execution response)"
  unfolding framework_validate_def framework_init_Nil run_validator_def
  by (auto intro!: plain_bind plain_map dest!: map_of_SomeD intro: validator_plain split: option.split)

subsection \<open>Statements that leave the run open\<close>

definition CLOSING :: "string list" where
  "CLOSING = [''runtime_completed'', ''runtime_failed'', ''runtime_cancelled'', ''recomposition_requested'']"

definition inside :: "events \<Rightarrow> bool" where
  "inside xs \<longleftrightarrow> (\<forall>x \<in> set xs. fst x \<notin> set CLOSING)"

lemma inside_simps [simp]: "inside []" "inside (x # xs) \<longleftrightarrow> fst x \<notin> set CLOSING \<and> inside xs" "inside (xs @ ys) \<longleftrightarrow> inside xs \<and> inside ys"
  by (auto simp: inside_def)

text \<open>A statement that closes nothing, raises no error of the capture of gaps, and leaves a trail of \<open>T\<close> when it succeeds.\<close>

definition goes :: "events set \<Rightarrow> (run_error, 'a) res \<Rightarrow> events \<Rightarrow> bool" where
  "goes T r xs \<longleftrightarrow> inside xs \<and> (case r of Inr _ \<Rightarrow> xs \<in> T | Inl e \<Rightarrow> \<forall>g. e \<noteq> Raise (GapRaised g))"

definition conc :: "events set \<Rightarrow> events set \<Rightarrow> events set" where
  "conc T U = {xs @ ys |xs ys. xs \<in> T \<and> ys \<in> U}"

lemma endsD: "ends I run m P \<Longrightarrow> I s \<Longrightarrow> \<exists>r s' xs. m s = (r, s') \<and> P r xs \<and> I s' \<and> trail run (store_of s) (store_of s') xs"
  by (simp add: ends_def)

lemma goes_bind:
  assumes "ends I run (m :: ('w, 'a) run) (goes T)" and "\<And>x. ends I run (f x :: ('w, 'b) run) (goes U)"
  shows "ends I run (bindS m f) (goes (conc T U))"
proof (rule ends_any [OF assms(1)])
  show "ends I run (f x) (\<lambda>r ys. goes (conc T U) r (xs @ ys))" if "goes T (Inr x) xs" for x xs
    by (rule ends_weaken [OF assms(2)]) (use that in \<open>auto simp: goes_def conc_def split: sum.splits\<close>)
qed (simp add: goes_def)

lemma conc_simps [simp]: "conc {[]} U = U" "conc U {[]} = U" "conc {xs} {ys} = {xs @ ys}"
  by (auto simp: conc_def)

lemma goes_then: "ends I run (m :: ('w, 'a) run) (goes {[]}) \<Longrightarrow> (\<And>x. ends I run (f x :: ('w, 'b) run) (goes U)) \<Longrightarrow> ends I run (bindS m f) (goes U)"
  using goes_bind [of I run m "{[]}" f U] by simp

lemma goes_last: "ends I run (m :: ('w, 'a) run) (goes T) \<Longrightarrow> ends I run (bindS m (\<lambda>x. retS (g x)) :: ('w, 'b) run) (goes T)"
  using goes_bind [of I run m T "\<lambda>x. retS (g x)" "{[]}"] by (simp add: ends_pure goes_def)

lemma goes_leaves: "leaves I run (m :: ('w, 'a) run) xs \<Longrightarrow> inside xs \<Longrightarrow> ends I run m (goes {xs})"
  by (erule ends_leaves) (simp add: goes_def)

lemma goes_event: "leaves I run (m :: ('w, 'a) run) xs \<Longrightarrow> inside xs \<Longrightarrow> (\<And>x. ends I run (f x :: ('w, 'b) run) (goes U)) \<Longrightarrow> ends I run (bindS m f) (goes (conc {xs} U))"
  by (rule goes_bind [OF goes_leaves])

lemma goes_mono: "ends I run m (goes T) \<Longrightarrow> T \<subseteq> U \<Longrightarrow> ends I run m (goes U)"
  by (erule ends_weaken) (auto simp: goes_def split: sum.splits)

lemma goes_plain: "plain r \<Longrightarrow> ends I run (liftS r :: ('w, 'a) run) (goes {[]})"
  by (rule ends_pure) (auto simp: goes_def plain_def split: sum.splits)

lemma goes_enforced: "ends I run (readS (\<lambda>s. catch_as Enforced (f s)) :: ('w, 'a) run) (goes {[]})"
proof (rule ends_read)
  fix s :: "'w run_state"
  show "goes {[]} (catch_as Enforced (f s)) []"
    by (cases "f s" rule: sum.exhaust [case_names Inl Inr]; cases "projl (f s)") (auto simp: goes_def catch_as_def)
qed

lemma goes_raise: "(\<forall>g. e \<noteq> GapRaised g) \<Longrightarrow> ends I run (liftS (Inl (Raise e)) :: ('w, 'a) run) (goes T)"
  by (rule ends_pure) (simp add: goes_def)

lemma goes_map:
  assumes "\<And>x. ends I run (f x :: ('w, 'b) run) (goes {[], t})"
  shows "ends I run (mapS f xs) (goes (range (\<lambda>n. concat (replicate n t))))"
proof (induction xs)
  case Nil
  have "[] \<in> range (\<lambda>n. concat (replicate n t))" by (rule range_eqI [of _ _ 0]) simp
  then show ?case unfolding mapS.simps by (intro ends_pure) (simp add: goes_def)
next
  case (Cons x xs)
  have "ends I run (mapS f (x # xs)) (goes (conc {[], t} (range (\<lambda>n. concat (replicate n t)))))"
    unfolding mapS.simps by (rule goes_bind [OF assms goes_last [OF Cons.IH]])
  then show ?case
  proof (rule goes_mono)
    have "t @ concat (replicate n t) \<in> range (\<lambda>n. concat (replicate n t))" for n by (rule range_eqI [of _ _ "Suc n"]) simp
    then show "conc {[], t} (range (\<lambda>n. concat (replicate n t))) \<subseteq> range (\<lambda>n. concat (replicate n t))"
      unfolding conc_def by auto
  qed
qed

subsection \<open>Steps of a registered run\<close>

lemma live_others [simp]:
  "live run Q S (s\<lparr>ru_enforcer := e\<rparr>) = live run Q S s" "live run Q S (s\<lparr>ru_world := w\<rparr>) = live run Q S s"
  "live run Q S (s\<lparr>ru_ticks := n\<rparr>) = live run Q S s" "live run Q S (s\<lparr>ru_invocation_index := i\<rparr>) = live run Q S s"
  by (simp_all add: live_def)

lemma live_mono: "live run Q S s \<Longrightarrow> T \<subseteq> S \<Longrightarrow> live run Q T s"
  by (auto simp: live_def)

lemma cancelled_goes: "ends (live run Q S) run (raise_if_cancelled cfg run) (goes {[]})"
  by (auto simp: ends_def goes_def raise_if_cancelled_def bindS_def readS_def liftS_def intro: trail_Nil intro!: exI [of _ "[]"] split: option.splits)

lemma enforcer_goes: "ends (live run Q S) run (on_enforcer m) (goes {[]})"
  unfolding ends_def
proof (intro allI impI)
  fix s :: "'w run_state" assume "live run Q S s"
  moreover obtain r e where m: "m (ru_enforcer s) = (r, e)" by fastforce
  moreover have "goes {[]} (catch_as Enforced r) []"
    by (cases r rule: sum.exhaust [case_names Inl Inr]; cases "projl r") (auto simp: goes_def catch_as_def)
  ultimately show "\<exists>r s' xs. on_enforcer m s = (r, s') \<and> goes {[]} r xs \<and> live run Q S s' \<and> trail run (store_of s) (store_of s') xs"
    by (auto simp: on_enforcer_def intro: trail_Nil)
qed

lemma guard_goes: "ends (live run Q S) run (step_guard cfg run) (goes {[]})"
  unfolding step_guard_def by (intro goes_then cancelled_goes goes_leaves live.leaves_tick enforcer_goes) simp

lemma steps_found:
  assumes "steps_ok st"
  shows "\<exists>x. find_by_run_idempotency (dict_values (st_runtime_steps st)) run key = (Inr x :: ('e, obj option) res) \<and>
     (\<forall>r. x = Some r \<longrightarrow> (\<exists>i. map_of r ''id'' = Some (JStr i) \<and> map_of (st_runtime_steps st) (JStr i) \<noteq> None))"
proof -
  let ?q = "\<lambda>r. get r ''run_id'' = JStr run \<and> get r ''idempotency_key'' = JStr key"
  have "find_by_run_idempotency (dict_values (st_runtime_steps st)) run key = (Inr (find ?q (dict_values (st_runtime_steps st))) :: ('e, obj option) res)"
    unfolding find_by_run_idempotency_def
    by (rule findR_pure) (use assms in \<open>force simp: steps_ok_def andR_def bindR_def getitem_def get_def get_or_def\<close>)
  moreover have "\<exists>i. map_of r ''id'' = Some (JStr i) \<and> map_of (st_runtime_steps st) (JStr i) \<noteq> None"
    if "find ?q (dict_values (st_runtime_steps st)) = Some r" for r
  proof -
    from that obtain k where "(k, r) \<in> set (st_runtime_steps st)" by (auto simp: find_Some_iff in_set_conv_nth) (metis prod.collapse)
    with assms show ?thesis by (force simp: steps_ok_def weak_map_of_SomeI)
  qed
  ultimately show ?thesis by blast
qed

lemma dict_set_subset: "set (dict_set k v d) \<subseteq> insert (k, v) (set d)"
  by (induction d) (auto split: if_splits)

lemma steps_ok_set:
  assumes "steps_ok st" "map_of r ''id'' = Some (JStr i)" "map_of r ''run_id'' = Some (JStr run)"
  shows "steps_ok (st\<lparr>st_runtime_steps := dict_set (JStr i) r (st_runtime_steps st)\<rparr>)"
proof -
  show ?thesis
    unfolding steps_ok_def
  proof
    fix x assume "x \<in> set (st_runtime_steps (st\<lparr>st_runtime_steps := dict_set (JStr i) r (st_runtime_steps st)\<rparr>))"
    then have "x = (JStr i, r) \<or> x \<in> set (st_runtime_steps st)" using dict_set_subset [of "JStr i" r "st_runtime_steps st"] by auto
    then show "case x of (k, r) \<Rightarrow> (\<exists>i. k = JStr i \<and> map_of r ''id'' = Some (JStr i)) \<and> (\<exists>run. map_of r ''run_id'' = Some (JStr run))"
      using assms by (auto simp: steps_ok_def)
  qed
qed

lemma open_step_live:
  assumes s: "live run Q S s" and kind: "kind \<in> set RUNTIME_STEP_KINDS"
  shows "\<exists>i s'. open_step cfg run n kind s = (Inr i, s') \<and> live run Q (insert i S) s' \<and> trail run (store_of s) (store_of s') []"
proof -
  define sid where "sid = slug_id (run @ ''-'' @ kind @ ''-'' @ int_str n) (Some ''step'')"
  define key where "key = run @ '':step:'' @ int_str n @ '':'' @ kind"
  define r where "r = [(''id'', JStr sid), (''run_id'', JStr run), (''step_index'', JInt n), (''kind'', JStr kind), (''status'', JStr ''running''),
        (''started_at'', JStr (iso_timestamp (lp_clock cfg (ru_ticks s)))), (''completed_at'', JNull), (''stop_reason'', JNull),
        (''token_budget'', opt_int None), (''tokens_used'', JInt 0), (''idempotency_key'', JStr key), (''attempt'', JInt 1)]"
  have step: "start_step (lp_clock cfg (ru_ticks s)) run n kind None None = (on_store (insert_runtime_step r) :: (run_error, obj) sys)"
    using kind by (simp add: start_step_def require_choice_def bindS_lift_Inr r_def sid_def key_def text_or_def)
  have ok: "steps_ok (store_of s)" using s by (simp add: live_def)
  obtain x where x: "find_by_run_idempotency (dict_values (st_runtime_steps (store_of s))) run key = (Inr x :: (run_error, obj option) res)"
    "\<And>r. x = Some r \<Longrightarrow> \<exists>i. map_of r ''id'' = Some (JStr i) \<and> map_of (st_runtime_steps (store_of s)) (JStr i) \<noteq> None"
    using steps_found [OF ok, of run key, where 'e = run_error] by blast
  show ?thesis
  proof (cases x)
    case None
    let ?st = "(store_of s)\<lparr>st_runtime_steps := dict_set (JStr sid) r (st_runtime_steps (store_of s))\<rparr>"
    let ?s' = "s\<lparr>ru_ticks := Suc (ru_ticks s), ru_sys := (ru_sys s)\<lparr>qs_store := ?st\<rparr>\<rparr>"
    have "insert_runtime_step r (store_of s) = (Inr r :: (run_error, obj) res, ?st)"
      using x(1) None by (simp add: insert_runtime_step_def bindS_def readS_def getitem_def r_def insert_into_def put_record_def set_steps_def)
    then have "open_step cfg run n kind s = (Inr sid, ?s')"
      by (simp add: open_step_def bindS_def tick_def step on_sys_def on_store_def liftS_def) (simp add: r_def getitem_def)
    moreover have "steps_ok ?st" using ok by (rule steps_ok_set) (simp_all add: r_def)
    ultimately show ?thesis using s by (auto simp: live_def dict_simps intro: trail_Nil)
  next
    case (Some y)
    with x(2) obtain i where i: "map_of y ''id'' = Some (JStr i)" "map_of (st_runtime_steps (store_of s)) (JStr i) \<noteq> None" by blast
    have "insert_runtime_step r (store_of s) = (Inr y :: (run_error, obj) res, store_of s)"
      using x(1) Some by (simp add: insert_runtime_step_def bindS_def readS_def getitem_def r_def)
    then have "open_step cfg run n kind s = (Inr i, s\<lparr>ru_ticks := Suc (ru_ticks s)\<rparr>)"
      using i(1) by (simp add: open_step_def bindS_def tick_def step on_sys_def on_store_def liftS_def getitem_def)
    then show ?thesis using s i(2) by (auto simp: live_def intro: trail_Nil)
  qed
qed

definition step_stop :: "string option \<Rightarrow> bool" where
  "step_stop stop \<longleftrightarrow> (case stop of None \<Rightarrow> True | Some w \<Rightarrow> w \<in> set STOP_REASONS)"

context run_frame
begin

lemma leaves_step_event:
  assumes "t \<in> set [''step_started'', ''step_completed'']" and "actor \<in> set RUNTIME_ACTOR_ROLES" and "step_stop stop"
  shows "leaves I run (step_event cfg run redact i t actor planned result stop :: ('w, obj) run) [(t, stop)]"
  unfolding step_event_def
  by (rule leaves_run_event) (use assms in \<open>auto simp: vocabulary_ok_def event_call_of_def RUNTIME_EVENT_TYPES_def step_stop_def split: option.splits\<close>)

end

lemma end_step_leaves:
  assumes "i \<in> S" and "status \<in> set RUNTIME_STATUSES" and "stop \<in> set STOP_REASONS"
  shows "leaves (live run Q S) run (end_step cfg i status stop) []"
  unfolding end_step_def
proof (rule leaves_then [OF live.leaves_tick])
  fix t
  have cs: "complete_step t i status (Some stop) 0 = (on_store (update_runtime_step i
       [(''status'', JStr status), (''completed_at'', JStr (iso_timestamp t)), (''stop_reason'', JStr stop), (''tokens_used'', JInt 0)]) :: (run_error, obj) sys)"
    using assms by (simp add: complete_step_def require_choice_def require_stop_reason_def bindS_lift_Inr opt_str_def)
  show "leaves (live run Q S) run (on_sys (complete_step t i status (Some stop) 0) :: ('w, obj) run) []"
    unfolding leaves_def cs
  proof (intro allI impI)
    fix s :: "'w run_state" assume s: "live run Q S s"
    let ?fs = "[(''status'', JStr status), (''completed_at'', JStr (iso_timestamp t)), (''stop_reason'', JStr stop), (''tokens_used'', JInt 0)]"
    from s assms(1) obtain r where r: "map_of (st_runtime_steps (store_of s)) (JStr i) = Some r" by (auto simp: live_def)
    let ?st = "(store_of s)\<lparr>st_runtime_steps := dict_mod (JStr i) (update ?fs) (st_runtime_steps (store_of s))\<rparr>"
    have "update_runtime_step i ?fs (store_of s) = (Inr (update ?fs r) :: (run_error, obj) res, ?st)"
      using r by (simp add: update_runtime_step_def update_in_def update_record_def set_steps_def)
    moreover have "steps_ok ?st"
      using s by (auto simp: live_def steps_ok_def dict_mod_def map_of_update split: if_splits)
    ultimately show "\<exists>x s'. on_sys (on_store (update_runtime_step i ?fs)) s = (Inr x :: (run_error, obj) res, s') \<and> live run Q S s' \<and>
        trail run (store_of s) (store_of s') []"
      using s by (auto simp: on_sys_def on_store_def live_def dict_simps intro: trail_Nil)
  qed
qed

lemma error_stop_listed: "error_stop_reason e \<in> set STOP_REASONS"
  by (cases e rule: error_stop_reason.cases) (simp_all add: stop_reason_listed, simp_all add: STOP_REASONS_def)

text \<open>The frame of every step: guard and registration, then the work, then checkpoint, completion event and status.\<close>

lemma step_goes:
  assumes kind: "kind \<in> set RUNTIME_STEP_KINDS"
    and body: "\<And>i. ends (live run Q (insert i S)) run (body i :: ('w, 'a) run) (goes T)"
  shows "ends (live run Q S) run (bindS (step_guard cfg run) (\<lambda>_. bindS (open_step cfg run n kind) body)) (goes T)"
proof (rule goes_then [OF guard_goes])
  show "ends (live run Q S) run (bindS (open_step cfg run n kind) body) (goes T)"
  proof (rule ends_call [where J = "\<lambda>i. live run Q (insert i S)" and xs = "[]"])
    show "\<exists>x s'. open_step cfg run n kind s = (Inr x, s') \<and> live run Q (insert x S) s' \<and> trail run (store_of s) (store_of s') []"
      if "live run Q S s" for s using open_step_live [OF that kind] .
  qed (use body in \<open>auto elim: live_mono\<close>)
qed

lemma finish_leaves:
  assumes "i \<in> S" and "phase \<in> set RUNTIME_PHASES" and "actor \<in> set RUNTIME_ACTOR_ROLES"
  shows "leaves (live run Q S) run (finish_step cfg run redact i phase actor state) [(''checkpoint_created'', None), (''step_completed'', Some ''completed'')]"
proof -
  have "leaves (live run Q S) run (finish_step cfg run redact i phase actor state) ([(''checkpoint_created'', None)] @ [(''step_completed'', Some ''completed'')] @ [])"
    unfolding finish_step_def
    by (intro leaves_bind leaves_last live.leaves_run_checkpoint live.leaves_step_event end_step_leaves assms)
      (simp_all add: step_stop_def STOP_REASONS_def RUNTIME_STATUSES_def)
  then show ?thesis by simp
qed

lemma fail_goes:
  assumes "i \<in> S" and "actor \<in> set RUNTIME_ACTOR_ROLES" and "\<forall>g. e \<noteq> GapRaised g"
  shows "ends (live run Q S) run (fail_step cfg run redact i actor result e :: ('w, 'a) run) (goes T)"
proof -
  have "ends (live run Q S) run (fail_step cfg run redact i actor result e :: ('w, 'a) run) (goes (conc {[(''step_completed'', Some (error_stop_reason e))]} {}))"
    unfolding fail_step_def
    by (intro goes_event live.leaves_step_event goes_then goes_leaves end_step_leaves goes_raise assms)
      (simp_all add: step_stop_def RUNTIME_STATUSES_def CLOSING_def error_stop_listed)
  then show ?thesis by (rule goes_mono) (simp add: conc_def)
qed

subsection \<open>Tools within a run\<close>

definition TOOL_EVENTS :: events where
  "TOOL_EVENTS = [(''access_attempted'', None), (''tool_invocation_started'', None), (''tool_invocation_completed'', None),
     (''runtime_after_tool_hook_evaluated'', None)]"

lemma concluded_goes:
  "concluded tool status out r xs \<Longrightarrow> goes {TOOL_EVENTS} r ([(''access_attempted'', None), (''tool_invocation_started'', None)] @ xs)"
  by (auto simp: concluded_def goes_def TOOL_EVENTS_def CLOSING_def split: sum.splits)

lemma granted_goes:
  assumes "gw_run_id g = run"
  shows "ends (live run Q S) run (granted_invocation g tool payload) (goes {TOOL_EVENTS})"
proof (cases "map_of (gw_adapters g) tool")
  case None
  then show ?thesis unfolding granted_invocation_def by (simp add: goes_raise)
next
  case (Some adapter)
  show ?thesis
    unfolding ends_def
  proof (intro allI impI)
    fix s :: "'a run_state" assume here: "live run Q S s"
    let ?I = "live run Q S" and ?pre = "[(''access_attempted'', None), (''tool_invocation_started'', None)]"
    obtain s1 i iu st where s1: "granted_invocation g tool payload s = bindS (run_adapter adapter payload) (conclude_invocation g tool i iu st) s1"
      "passes ?I (gw_run_id g) s s1 ?pre" by (rule live.granted_prefix [OF here Some])
    let ?o = "adapter_outcome (fst (adapter payload (ru_world s1)))" and ?s2 = "s1\<lparr>ru_world := snd (adapter payload (ru_world s1))\<rparr>"
    have "ends ?I (gw_run_id g) (conclude_invocation g tool i iu st ?o) (concluded tool (fst ?o) (snd ?o))"
      using live.conclude_ends [of run Q S g tool i iu st "fst ?o" "snd ?o"] by simp
    moreover have "?I ?s2" using s1(2) by (simp add: passes_def)
    ultimately obtain r s' xs where c: "conclude_invocation g tool i iu st ?o ?s2 = (r, s')" "concluded tool (fst ?o) (snd ?o) r xs" "?I s'"
      "trail (gw_run_id g) (store_of ?s2) (store_of s') xs" by (rule endsE)
    have "granted_invocation g tool payload s = (r, s')" using c(1) by (simp add: s1(1) bindS_def run_adapter_outcome)
    moreover have "trail run (store_of s) (store_of s') (?pre @ xs)"
      by (rule trail_append [of _ _ "store_of s1"]) (use s1(2) c(4) assms in \<open>simp_all add: passes_def\<close>)
    ultimately show "\<exists>r s' xs. granted_invocation g tool payload s = (r, s') \<and> goes {TOOL_EVENTS} r xs \<and> ?I s' \<and> trail run (store_of s) (store_of s') xs"
      using concluded_goes [OF c(2)] c(3) by blast
  qed
qed

lemma denied_goes:
  assumes "record_tool_invocation now tool scopes policies risk e = (Inl (Raise error), e')" and "gw_run_id g = run"
  shows "ends (live run Q S) run (bindS (record_denied_access g tool payload error) (\<lambda>_. liftS (Inl (Raise (ToolDenied m w)))) :: ('w, 'a) run) (goes T)"
proof -
  have "leaves (live run Q S) run (record_denied_access g tool payload error) [(''access_attempted'', Some (stop_reason_name (err_stop_reason error)))]"
    using live.denied_leaves [OF assms(1), of run Q S g payload] assms(2) by simp
  from goes_event [OF this _ goes_raise [of _ _ _ "{}"]] show ?thesis
    by (rule goes_mono) (simp_all add: CLOSING_def conc_def)
qed

lemma invoke_goes:
  assumes "gw_run_id g = run"
  shows "ends (live run Q S) run (invoke g tool payload) (goes {TOOL_EVENTS})"
  unfolding invoke_def
proof (rule goes_then [OF goes_leaves [OF live.leaves_tick]])
  fix now
  let ?call = "record_tool_invocation now tool (tool_required_data_scopes tool) (tool_required_policies tool) (tool_risk_level tool)"
  let ?rest = "\<lambda>s. case ?call (ru_enforcer s) of
       (Inl (Py x), e) \<Rightarrow> (Inl (Py x), s\<lparr>ru_enforcer := e\<rparr>)
     | (Inl (Raise error), e) \<Rightarrow> bindS (record_denied_access g tool payload error) (\<lambda>_.
         liftS (Inl (Raise (ToolDenied (err_message error) (err_stop_reason error))))) (s\<lparr>ru_enforcer := e\<rparr>)
     | (Inr _, e) \<Rightarrow> granted_invocation g tool payload (s\<lparr>ru_enforcer := e\<rparr>)"
  show "ends (live run Q S) run ?rest (goes {TOOL_EVENTS})"
    unfolding ends_def
  proof (intro allI impI)
    fix s :: "'a run_state" assume here: "live run Q S s"
    obtain r e where call: "?call (ru_enforcer s) = (r, e)" by fastforce
    have here': "live run Q S (s\<lparr>ru_enforcer := e\<rparr>)" using here by simp
    show "\<exists>r s' xs. ?rest s = (r, s') \<and> goes {TOOL_EVENTS} r xs \<and> live run Q S s' \<and> trail run (store_of s) (store_of s') xs"
    proof (cases r)
      case (Inr u)
      with endsD [OF granted_goes [OF assms] here'] show ?thesis by (simp add: call)
    next
      case (Inl x)
      show ?thesis
      proof (cases x)
        case (Py y)
        with Inl here show ?thesis by (auto simp: call goes_def intro!: exI [of _ "[]"] trail_Nil)
      next
        case (Raise error)
        with call Inl have "?call (ru_enforcer s) = (Inl (Raise error), e)" by simp
        from endsD [OF denied_goes [OF this assms] here'] Inl Raise show ?thesis by (simp add: call)
      qed
    qed
  qed
qed simp

subsection \<open>The trail of a successful run\<close>

definition step_events :: "events \<Rightarrow> events" where
  "step_events mid = (''step_started'', None) # mid @ [(''checkpoint_created'', None), (''step_completed'', Some ''completed'')]"

lemma goes_try:
  assumes "ends I run (m :: ('w, 'a) run) (goes T)" and "\<And>x. ends I run (f (Inr x) :: ('w, 'b) run) (goes U)"
    and "\<And>e. \<forall>g. e \<noteq> Raise (GapRaised g) \<Longrightarrow> ends I run (f (Inl e)) (goes {})"
  shows "ends I run (bindS (outcomeS m) f) (goes (conc T U))"
proof (rule ends_any [OF ends_outcome [OF assms(1)]])
  fix q xs assume "\<exists>r. Inr q = (Inr r :: (run_error, (run_error, 'a) res) res) \<and> goes T r xs"
  then have q: "goes T q xs" by simp
  show "ends I run (f q) (\<lambda>r ys. goes (conc T U) r (xs @ ys))"
  proof (cases q)
    case (Inr x)
    with q show ?thesis by (simp only:) (rule ends_weaken [OF assms(2)], auto simp: goes_def conc_def split: sum.splits)
  next
    case (Inl e)
    with q have "ends I run (f (Inl e)) (goes {})" by (intro assms(3)) (simp add: goes_def)
    then show ?thesis unfolding Inl by (rule ends_weaken) (use Inl q in \<open>auto simp: goes_def split: sum.splits\<close>)
  qed
qed simp

lemma started_leaves:
  "actor \<in> set RUNTIME_ACTOR_ROLES \<Longrightarrow> leaves (live run Q S) run (step_event cfg run redact i ''step_started'' actor p r None) [(''step_started'', None)]"
  by (rule live.leaves_step_event) (simp_all add: step_stop_def)

lemma finish_goes:
  assumes "i \<in> S" and "phase \<in> set RUNTIME_PHASES" and "actor \<in> set RUNTIME_ACTOR_ROLES"
  shows "ends (live run Q S) run (bindS (finish_step cfg run redact i phase actor state) (\<lambda>_. retS x))
     (goes {[(''checkpoint_created'', None), (''step_completed'', Some ''completed'')]})"
  by (rule goes_last [OF goes_leaves [OF finish_leaves]]) (simp_all add: assms CLOSING_def)

lemma actors: "{''context_manager'', ''planner'', ''executor'', ''validator''} \<subseteq> set RUNTIME_ACTOR_ROLES"
  "set RUNTIME_STEP_KINDS \<subseteq> set RUNTIME_PHASES"
  by (simp_all add: RUNTIME_ACTOR_ROLES_def RUNTIME_STEP_KINDS_def RUNTIME_PHASES_def)

lemma started_goes:
  assumes "actor \<in> {''context_manager'', ''planner'', ''executor'', ''validator''}"
    and "ends (live run Q S) run (m :: ('w, 'b) run) (goes U)"
  shows "ends (live run Q S) run (bindS (step_event cfg run redact i ''step_started'' actor p r None) (\<lambda>_. m)) (goes (conc {[(''step_started'', None)]} U))"
  by (rule goes_event [OF started_leaves]) (use assms actors(1) in \<open>auto simp: CLOSING_def\<close>)

lemma context_goes: "ends (live run Q S) run (context_step cfg run profile redact) (goes {step_events []})"
  unfolding context_step_def
  apply (rule step_goes, simp add: RUNTIME_STEP_KINDS_def, rule goes_mono, rule started_goes, simp)
   apply (rule goes_then [OF goes_plain], simp)
   apply (rule goes_then [OF goes_enforced])
   apply (rule finish_goes)
     apply (simp_all add: step_events_def RUNTIME_ACTOR_ROLES_def RUNTIME_PHASES_def)
  done

lemma planner_goes: "ends (live run Q S) run (planner_step cfg run profile context redact) (goes {step_events []})"
  unfolding planner_step_def
  apply (rule step_goes, simp add: RUNTIME_STEP_KINDS_def, rule goes_mono, rule started_goes, simp)
   apply (rule goes_then [OF goes_enforced])
   apply (rule finish_goes)
     apply (simp_all add: step_events_def RUNTIME_ACTOR_ROLES_def RUNTIME_PHASES_def)
  done

lemma action_goes:
  assumes "gw_run_id g = run"
  shows "ends (live run Q S) run (execute_action cfg run g action) (goes {[], TOOL_EVENTS})"
  unfolding execute_action_def
proof (rule goes_then [OF cancelled_goes])
  show "ends (live run Q S) run (case as_obj action of None \<Rightarrow> retS [] | Some act \<Rightarrow>
         bindS (liftS (getitem act ''tool'')) (\<lambda>tool.
         bindS (invoke g (py_str tool) (obj_or_empty (get_or act ''payload'' (JObj [])))) (\<lambda>result.
         retS [JObj [(''id'', JStr (tr_id result)), (''tool_name'', JStr (tr_tool_name result)), (''status'', JStr (tr_status result)),
                     (''output_uri'', JStr (tr_output_uri result))]]))) (goes {[], TOOL_EVENTS})"
  proof (cases "as_obj action")
    case None
    then show ?thesis unfolding None option.case by (intro ends_pure) (simp add: goes_def)
  next
    case (Some act)
    show ?thesis
      unfolding Some option.case
      by (rule goes_then [OF goes_plain], simp, rule goes_mono [OF goes_last [OF invoke_goes [OF assms]]]) simp
  qed
qed

definition tool_trails :: "events set" where
  "tool_trails = range (\<lambda>n. concat (replicate n TOOL_EVENTS))"

lemma actions_go:
  "gw_run_id g = run \<Longrightarrow> ends (live run Q S) run (execute_actions cfg run g plan) (goes tool_trails)"
  unfolding execute_actions_def tool_trails_def
  by (rule goes_then [OF goes_plain], simp, rule goes_last, rule goes_map [OF action_goes])

lemma executor_goes: "ends (live run Q S) run (executor_step cfg run profile plan redact) (goes {step_events xs |xs. xs \<in> tool_trails})"
  unfolding executor_step_def
  apply (rule step_goes, simp add: RUNTIME_STEP_KINDS_def, rule goes_mono, rule started_goes, simp)
   apply (rule goes_then [of _ _ new_gateway])
    apply (rule goes_leaves, simp add: leaves_def new_gateway_def trail_Nil, simp)
   apply (rule goes_try [OF actions_go], simp add: run_gateway_def)
    apply (simp add: Let_def, rule finish_goes)
      apply (simp_all add: RUNTIME_ACTOR_ROLES_def RUNTIME_PHASES_def)
   subgoal for i e
     by (cases e; cases "case e of Raise x \<Rightarrow> x") (auto intro!: fail_goes goes_raise ends_pure simp: RUNTIME_ACTOR_ROLES_def goes_def)
  apply (auto simp: conc_def step_events_def)
  done

definition verdict_event :: "validation_outcome \<Rightarrow> string \<times> string option" where
  "verdict_event v = (''validator_executed'', if vo_status v = ''failed'' then Some ''validator_failed'' else None)"

context run_frame
begin

lemma leaves_finding:
  "leaves I run (on_sys (on_artifacts (write_json [''traces'', run, ''validation'', v] payload redact)) :: ('w, string) run) []"
proof (rule leaves_files)
  fix a
  let ?w = "write_json [''traces'', run, ''validation'', v] payload redact a :: (run_error, string) res \<times> artifact_store"
  obtain uri a' where w: "?w = (Inr uri, a')" using write_json_head by blast
  have "same_files a (snd ?w)" by (rule trace_keeps [of "''validation''"]) simp_all
  with w show "\<exists>x a'. ?w = (Inr x, a') \<and> same_files a a'" by simp
qed

lemma leaves_verdict: "leaves I run (record_outcome cfg run redact i v :: ('w, unit) run) [verdict_event v]"
proof -
  have insert: "leaves I run (on_sys (on_store (insert_validation_result r)) :: ('w, obj) run) []" for r
    by (rule leaves_table) (simp add: insert_validation_result_def)
  have event: "leaves I run (run_event (lp_clock cfg) run redact ((event_call_of ''validator_executed'' ''validator'')
      \<lparr>ev_step_id := Some i, ev_execution := x, ev_result := y,
       ev_stop_reason := (if vo_status v = ''failed'' then Some ''validator_failed'' else None)\<rparr>) :: ('w, obj) run) [verdict_event v]" for x y
    unfolding verdict_event_def
    by (rule leaves_run_event)
      (auto simp: vocabulary_ok_def event_call_of_def RUNTIME_EVENT_TYPES_def RUNTIME_ACTOR_ROLES_def STOP_REASONS_def)
  show ?thesis
    unfolding record_outcome_def Let_def
    by (intro leaves_then [OF leaves_finding] leaves_then [OF leaves_tick] leaves_then [OF insert] leaves_last event)
qed

end

definition verdict_trails :: "events set" where
  "verdict_trails = range (\<lambda>k. replicate k (''validator_executed'', None))"

lemma verdicts_go:
  fixes m :: "('w, 'a) run"
  assumes "ends (live run Q S) run m (goes (if failed_validators vs = [] then U else {}))"
  shows "ends (live run Q S) run (bindS (mapS (record_outcome cfg run redact i) vs) (\<lambda>_. m)) (goes (conc verdict_trails U))"
proof -
  have "leaves (live run Q S) run (mapS (record_outcome cfg run redact i) vs :: ('w, unit list) run) (concat (map (\<lambda>v. [verdict_event v]) vs))"
    by (rule leaves_map [OF live.leaves_verdict])
  then have "leaves (live run Q S) run (mapS (record_outcome cfg run redact i) vs :: ('w, unit list) run) (map verdict_event vs)" by simp
  then have "ends (live run Q S) run (bindS (mapS (record_outcome cfg run redact i) vs) (\<lambda>_. m))
      (goes (conc {map verdict_event vs} (if failed_validators vs = [] then U else {})))"
    by (rule goes_event [OF _ _ assms]) (auto simp: inside_def verdict_event_def CLOSING_def)
  then show ?thesis
  proof (rule goes_mono)
    have "map verdict_event vs = replicate (length vs) (''validator_executed'', None)" if "failed_validators vs = []"
      using that by (auto simp: failed_validators_def verdict_event_def filter_empty_conv map_replicate_const [symmetric])
    then show "conc {map verdict_event vs} (if failed_validators vs = [] then U else {}) \<subseteq> conc verdict_trails U"
      by (auto simp: conc_def verdict_trails_def)
  qed
qed

lemma validator_goes:
  "ends (live run Q S) run (validator_step cfg run task profile context plan execution redact) (goes {step_events xs |xs. xs \<in> verdict_trails})"
  unfolding validator_step_def
  apply (rule step_goes, simp add: RUNTIME_STEP_KINDS_def)
  apply (rule goes_then [OF goes_plain], simp)
  apply (rule goes_mono, rule started_goes, simp)
   apply (rule goes_then [OF goes_plain [OF response_plain]])
   apply (rule goes_then [OF goes_plain [OF framework_plain]])
   apply (rule verdicts_go [where U = "{[(''checkpoint_created'', None), (''step_completed'', Some ''completed'')]}"])
   subgoal for i validators response vs
     by (cases "failed_validators vs = []")
       (auto simp: assert_validation_passed_def raise_if_def Let_def RUNTIME_ACTOR_ROLES_def RUNTIME_PHASES_def intro!: finish_goes fail_goes)
  apply (auto simp: conc_def step_events_def)
  done

text \<open>Context and plan, the tools one after the other, the verdicts of the validators.\<close>

definition success_trail :: "nat \<Rightarrow> nat \<Rightarrow> events" where
  "success_trail n k = step_events [] @ step_events [] @ step_events (concat (replicate n TOOL_EVENTS)) @
     step_events (replicate k (''validator_executed'', None))"

lemma steps_go: "ends (live (sr_run_id sr) Q S) (sr_run_id sr) (run_steps cfg sr redact) (goes {success_trail n k |n k. True})"
  unfolding run_steps_def Let_def
  apply (rule goes_mono)
   apply (rule goes_then [OF goes_enforced])
   apply (rule goes_then [OF cancelled_goes], rule goes_bind [OF context_goes])
   apply (rule goes_then [OF cancelled_goes], rule goes_bind [OF planner_goes])
   apply (rule goes_then [OF cancelled_goes], rule goes_bind [OF executor_goes])
   apply (rule goes_then [OF cancelled_goes], rule goes_last [OF validator_goes])
  apply (auto simp: conc_def success_trail_def tool_trails_def verdict_trails_def)
  done

subsection \<open>Closing a run\<close>

definition closed :: "string \<Rightarrow> string \<Rightarrow> obj \<Rightarrow> bool" where
  "closed status stop r \<longleftrightarrow> get r ''status'' = JStr status \<and> get r ''stop_reason'' = JStr stop"

definition closes :: "string \<Rightarrow> string \<Rightarrow> string \<Rightarrow> string \<Rightarrow> 'w run_state \<Rightarrow> 'w run_state \<Rightarrow> bool" where
  "closes run status t stop s s' \<longleftrightarrow> live run (closed status stop) {} s' \<and> trail run (store_of s) (store_of s') [(t, Some stop)]"

lemma end_run_live:
  assumes s: "live run Q S s" and "status \<in> set RUNTIME_STATUSES" and "stop \<in> set STOP_REASONS"
  shows "\<exists>x s'. end_run cfg run status stop s = (Inr x, s') \<and> live run (closed status stop) {} s' \<and> trail run (store_of s) (store_of s') []"
proof -
  let ?fs = "[(''status'', JStr status), (''completed_at'', JStr (iso_timestamp (lp_clock cfg (ru_ticks s)))),
    (''tokens_used_total'', JInt (en_tokens_used (ru_enforcer s))), (''stop_reason'', JStr stop)]"
  from s obtain r where r: "map_of (st_runtime_runs (store_of s)) (JStr run) = Some r" by (auto simp: live_def)
  let ?st = "(store_of s)\<lparr>st_runtime_runs := dict_mod (JStr run) (update ?fs) (st_runtime_runs (store_of s))\<rparr>"
  have "end_run cfg run status stop s = (Inr (update ?fs r), s\<lparr>ru_ticks := Suc (ru_ticks s), ru_sys := (ru_sys s)\<lparr>qs_store := ?st\<rparr>\<rparr>)"
    using assms(2,3) r by (simp add: end_run_def bindS_def readS_def tick_def complete_run_def liftS_def require_choice_def on_sys_def on_store_def
        update_runtime_run_def update_in_def update_record_def set_runs_def)
  moreover have "closed status stop (update ?fs r)" by (simp add: closed_def get_update)
  ultimately show ?thesis using s r by (auto simp: live_def steps_ok_def dict_simps intro: trail_Nil)
qed

lemma closing:
  assumes s: "live run Q S s" and "status \<in> set RUNTIME_STATUSES" and "stop \<in> set STOP_REASONS"
    and c: "vocabulary_ok c" "ev_idempotency_key c = None" "ev_event_type c = t" "ev_stop_reason c = Some stop"
  shows "\<exists>s'. bindS (run_event clock run redact c) (\<lambda>_. bindS (end_run cfg run status stop) (\<lambda>_. retS x)) s = (Inr x, s') \<and> closes run status t stop s s'"
proof -
  have "leaves (live run Q S) run (run_event clock run redact c :: ('a, loop_error, obj) runner) [(t, Some stop)]"
    by (rule live.leaves_run_event [OF c])
  from leavesE [OF this s] obtain e s1 where e: "run_event clock run redact c s = (Inr e :: (loop_error, obj) res, s1)" "live run Q S s1"
    "trail run (store_of s) (store_of s1) [(t, Some stop)]" by blast
  from end_run_live [OF e(2) assms(2,3)] obtain y s' where "end_run cfg run status stop s1 = (Inr y, s')" "live run (closed status stop) {} s'"
    "trail run (store_of s1) (store_of s') []" by blast
  with e trail_append [OF e(3), of "store_of s'" "[]"] show ?thesis by (simp add: bindS_def closes_def)
qed

lemma cancel_closes:
  assumes "live run Q S s"
  shows "\<exists>y s'. cancel_run cfg run redact s = (Inr y, s') \<and> closes run ''cancelled'' ''runtime_cancelled'' ''cancelled'' s s'"
  unfolding cancel_run_def Let_def
  by (rule exI, rule closing [OF assms]) 
    (simp_all add: RUNTIME_STATUSES_def STOP_REASONS_def vocabulary_ok_def event_call_of_def RUNTIME_EVENT_TYPES_def RUNTIME_ACTOR_ROLES_def)

text \<open>An outcome that is not one of the loop's own: an exception of the language, or one of the judge.\<close>

definition abnormal :: "(loop_error, 'a) res \<Rightarrow> bool" where
  "abnormal r \<longleftrightarrow> (\<exists>m. r = Inl (Raise (JudgeFailed m))) \<or> (\<exists>x. r = Inl (Py x))"

lemma plain_abnormal: "plain (r :: (loop_error, 'a) res) \<Longrightarrow> r = Inl e \<Longrightarrow> abnormal (Inl e :: (loop_error, 'b) res)"
  by (cases e) (auto simp: plain_def abnormal_def)

lemma judge_abnormal: "abnormal (judge_outcome cfg base ctx) \<or> (\<exists>c. judge_outcome cfg base ctx = Inr c)"
  by (cases "apply_optional_llm_judge base (lp_judge_enabled cfg) (lp_judge cfg) ctx")
    (auto simp: judge_outcome_def catch_as_def abnormal_def elim: map_exn.elims split: sum.splits, metis exn.exhaust map_exn.simps)

lemma judge_bind_abnormal:
  assumes "plain m" and "bindR m (\<lambda>base. judge_outcome cfg base ctx) = Inl e"
  shows "abnormal (Inl e :: (loop_error, 'b) res)"
proof (cases m)
  case (Inl x)
  then show ?thesis using assms(2) plain_abnormal [OF assms(1) Inl, where 'b = 'b] by (simp add: bindR_def)
next
  case (Inr base)
  with assms(2) have "judge_outcome cfg base ctx = Inl e" by (simp add: bindR_def)
  with judge_abnormal [of cfg base ctx] show ?thesis by (simp add: abnormal_def)
qed

lemma fail_closes:
  assumes "live run Q S s"
  shows "\<exists>r s'. fail_run cfg run e redact s = (r, s') \<and>
     (abnormal r \<and> s' = s \<or> r = Inr (error_stop_reason e) \<and> closes run ''failed'' ''runtime_failed'' (error_stop_reason e) s s')"
proof -
  let ?j = "\<lambda>s. judge_outcome cfg (classify_runtime_failure (error_message e) (error_stop_reason e) (error_code e) (en_tool_calls (ru_enforcer s)) (en_tokens_used (ru_enforcer s)))
        [(''run_id'', JStr run), (''status'', JStr ''failed''), (''stop_reason'', JStr (error_stop_reason e)), (''error_type'', JStr (error_type e))]"
  show ?thesis
  proof (cases "?j s")
    case (Inl x)
    with judge_abnormal have "abnormal (Inl x :: (loop_error, string) res)" by (metis abnormal_def sum.distinct(1) sum.inject(1))
    then show ?thesis by (simp add: fail_run_def Let_def bindS_def readS_def Inl)
  next
    case (Inr c)
    let ?ev = "(event_call_of ''runtime_failed'' (if error_stop_reason e \<noteq> ''tool_error'' then ''policy_engine'' else ''executor''))
           \<lparr>ev_result := JObj [(''error'', JStr (error_message e)), (''error_type'', JStr (error_type e)), (''error_classification'', JObj (as_dict c))],
            ev_stop_reason := Some (error_stop_reason e)\<rparr>"
    have closing: "\<exists>s'. bindS (run_event (lp_clock cfg) run redact ?ev) (\<lambda>_. bindS (end_run cfg run ''failed'' (error_stop_reason e)) (\<lambda>_. retS (error_stop_reason e))) s =
        (Inr (error_stop_reason e), s') \<and> closes run ''failed'' ''runtime_failed'' (error_stop_reason e) s s'"
      by (rule closing [OF assms])
        (simp_all add: error_stop_listed RUNTIME_STATUSES_def vocabulary_ok_def event_call_of_def RUNTIME_EVENT_TYPES_def RUNTIME_ACTOR_ROLES_def)
    have read: "readS ?j s = (Inr c, s)" by (simp add: readS_def Inr)
    from closing obtain s' where s': "bindS (run_event (lp_clock cfg) run redact ?ev) (\<lambda>_. bindS (end_run cfg run ''failed'' (error_stop_reason e)) (\<lambda>_. retS (error_stop_reason e))) s =
        (Inr (error_stop_reason e), s')" "closes run ''failed'' ''runtime_failed'' (error_stop_reason e) s s'" by blast
    have "fail_run cfg run e redact s = (Inr (error_stop_reason e), s')"
      unfolding fail_run_def Let_def bindS_run [of "readS ?j" s, OF read] by (rule s'(1))
    with s'(2) show ?thesis by blast
  qed
qed

lemma request_closes:
  assumes "live (sr_run_id sr) Q S s"
  shows "\<exists>r s'. request_recomposition cfg sr reason redact s = (r, s') \<and>
     (abnormal r \<and> s' = s \<or> (\<exists>q. r = Inr q \<and> rr_source_run_id q = sr_run_id sr) \<and>
        closes (sr_run_id sr) ''failed'' ''recomposition_requested'' ''needs_recomposition'' s s')"
proof -
  have py: "plain (bindR (getitem (sr_profile sr) ''profile_generation'') py_int :: (loop_error, int) res)" by (intro plain_bind plain_int) simp
  show ?thesis
  proof (cases "getitem (sr_profile sr) ''id'' :: (loop_error, json) res")
    case (Inl e)
    with plain_abnormal [OF plain_simps(3) Inl, where 'b = recomposition_request] show ?thesis
      by (simp add: request_recomposition_def Let_def bindS_def liftS_def)
  next
    case id: (Inr ident)
    show ?thesis
    proof (cases "bindR (getitem (sr_profile sr) ''profile_generation'') py_int :: (loop_error, int) res")
      case (Inl e)
      with id plain_abnormal [OF py Inl, where 'b = recomposition_request] show ?thesis
        by (simp add: request_recomposition_def Let_def bindS_def liftS_def)
    next
      case (Inr gen)
      let ?q = "\<lparr>rr_source_run_id = sr_run_id sr, rr_task_id = at_task_id (sr_analyzed_task sr), rr_parent_profile_id = py_str ident,
                     rr_requested_profile_generation = gen + 1, rr_recomposition_reason = reason\<rparr>"
      let ?m = "bindS (run_event (lp_clock cfg) (sr_run_id sr) redact ((event_call_of ''recomposition_requested'' ''composer'')
           \<lparr>ev_result := JObj (as_event_result ?q), ev_stop_reason := Some ''needs_recomposition''\<rparr>))
         (\<lambda>_. bindS (end_run cfg (sr_run_id sr) ''failed'' ''needs_recomposition'') (\<lambda>_. retS ?q))"
      have "\<exists>s'. ?m s = (Inr ?q, s') \<and> closes (sr_run_id sr) ''failed'' ''recomposition_requested'' ''needs_recomposition'' s s'"
        by (rule closing [OF assms])
          (simp_all add: STOP_REASONS_def RUNTIME_STATUSES_def vocabulary_ok_def event_call_of_def RUNTIME_EVENT_TYPES_def RUNTIME_ACTOR_ROLES_def)
      moreover have "request_recomposition cfg sr reason redact s = ?m s"
        by (simp add: request_recomposition_def Let_def id Inr bindS_lift_Inr)
      ultimately show ?thesis by auto
    qed
  qed
qed

lemma handle_closes:
  fixes s :: "'w run_state"
  assumes live: "live (sr_run_id sr) Q S s"
  shows "\<exists>r s'. handle_runtime_error cfg sr e redact s = (r, s') \<and>
     (abnormal r \<and> live (sr_run_id sr) Q S s' \<and> store_of s' = store_of s \<or>
      (\<exists>w. r = Inr (w, None) \<and> closes (sr_run_id sr) ''failed'' ''runtime_failed'' w s s') \<or>
      (\<exists>q. r = Inr (''needs_recomposition'', Some q) \<and> rr_source_run_id q = sr_run_id sr \<and> profile_allows_recomposition (sr_profile sr) e \<and>
         closes (sr_run_id sr) ''failed'' ''recomposition_requested'' ''needs_recomposition'' s s'))"
proof -
  let ?run = "sr_run_id sr"
  let ?failing = "\<lambda>e. bindS (fail_run cfg ?run e redact) (\<lambda>stop. retS (stop, None :: recomposition_request option))"
  have failing: "\<exists>r s'. ?failing e t = (r, s') \<and> (abnormal r \<and> s' = t \<or> (\<exists>w. r = Inr (w, None) \<and> closes ?run ''failed'' ''runtime_failed'' w t s'))"
    if "live ?run Q S t" for e and t :: "'w run_state"
    using fail_closes [OF that, of cfg e redact] by (auto simp: bindS_def abnormal_def)
  show ?thesis
  proof (cases "recomposition_reason e = None \<or> \<not> profile_allows_recomposition (sr_profile sr) e")
    case True
    then have "handle_runtime_error cfg sr e redact = ?failing e" by (auto simp: handle_runtime_error_def Let_def split: option.splits)
    with failing [OF live, of e] live show ?thesis by fastforce
  next
    case False
    then obtain reason where reason: "recomposition_reason e = Some reason" "profile_allows_recomposition (sr_profile sr) e" by auto
    obtain a en where a: "record_recomposition_request (ru_enforcer s) = (a, en)" by fastforce
    let ?s = "s\<lparr>ru_enforcer := en\<rparr>"
    have live': "live ?run Q S ?s" using live by simp
    have same: "closes ?run st t w ?s s' = closes ?run st t w s s'" for st t w s' by (simp add: closes_def)
    have h: "handle_runtime_error cfg sr e redact s = (case catch_as Enforced a of
          Inl (Raise budget_error) \<Rightarrow> ?failing budget_error
        | Inl (Py x) \<Rightarrow> liftS (Inl (Py x))
        | Inr _ \<Rightarrow> bindS (request_recomposition cfg sr reason redact) (\<lambda>request. retS (''needs_recomposition'', Some request))) ?s"
      using reason by (simp add: handle_runtime_error_def bindS_def [of "outcomeS _"] outcomeS_def on_enforcer_def a)
    show ?thesis
    proof (cases "catch_as Enforced a")
      case (Inr u)
      from request_closes [OF live', of cfg reason redact] reason(2) live' show ?thesis
        unfolding h Inr sum.case by (auto simp: bindS_def abnormal_def same)
    next
      case (Inl x)
      show ?thesis
      proof (cases x)
        case (Py y)
        with live' show ?thesis unfolding h Inl by (simp add: liftS_def abnormal_def)
      next
        case (Raise err)
        from failing [OF live', of err] live' show ?thesis unfolding h Inl Raise sum.case exn.case by (auto simp: same)
      qed
    qed
  qed
qed

subsection \<open>The outcome of a run\<close>

text \<open>A run that was closed: its record has the status and the reason, and its trail since \<open>s0\<close> is one of \<open>T\<close> followed by the closing event.\<close>

definition closed_after :: "events set \<Rightarrow> string \<Rightarrow> string \<Rightarrow> string \<Rightarrow> string \<Rightarrow> store \<Rightarrow> 'w run_state \<Rightarrow> bool" where
  "closed_after T run status t stop s0 s' \<longleftrightarrow>
     live run (closed status stop) {} s' \<and> (\<exists>xs \<in> T. inside xs \<and> trail run s0 (store_of s') (xs @ [(t, Some stop)]))"

definition run_spec :: "start_result \<Rightarrow> obj \<Rightarrow> store \<Rightarrow> (loop_error, loop_result) res \<Rightarrow> 'w run_state \<Rightarrow> bool" where
  "run_spec sr r s0 res s' \<longleftrightarrow>
     (case res of
        Inr x \<Rightarrow>
          lr_run_id x = sr_run_id sr \<and> lr_attempt_run_ids x = [sr_run_id sr] \<and>
          (lr_status x = ''succeeded'' \<and> lr_stop_reason x = ''completed'' \<and>
             closed_after {success_trail n k |n k. True} (sr_run_id sr) ''succeeded'' ''runtime_completed'' ''completed'' s0 s' \<or>
           lr_status x = ''cancelled'' \<and> lr_stop_reason x = ''cancelled'' \<and>
             closed_after UNIV (sr_run_id sr) ''cancelled'' ''runtime_cancelled'' ''cancelled'' s0 s')
      | Inl (Raise (LoopFailed m stop None)) \<Rightarrow>
          \<exists>w. stop = Some w \<and> closed_after UNIV (sr_run_id sr) ''failed'' ''runtime_failed'' w s0 s'
      | Inl (Raise (LoopFailed m stop (Some q))) \<Rightarrow>
          stop = Some ''needs_recomposition'' \<and> rr_source_run_id q = sr_run_id sr \<and> (\<exists>e. profile_allows_recomposition (sr_profile sr) e) \<and>
          closed_after UNIV (sr_run_id sr) ''failed'' ''recomposition_requested'' ''needs_recomposition'' s0 s'
      | Inl e \<Rightarrow>
          abnormal res \<and> live (sr_run_id sr) ((=) r) {} s' \<and> (\<exists>xs. inside xs \<and> trail (sr_run_id sr) s0 (store_of s') xs))"

lemma closes_after:
  assumes "closes run status t stop s1 s'" and "trail run s0 (store_of s1) xs" and "xs \<in> T" and "inside xs"
  shows "closed_after T run status t stop s0 s'"
  using assms trail_append [OF assms(2)] by (auto simp: closes_def closed_after_def)

lemma abnormal_spec:
  "abnormal (res :: (loop_error, loop_result) res) \<Longrightarrow> live (sr_run_id sr) ((=) r) {} s' \<Longrightarrow> inside xs \<Longrightarrow> trail (sr_run_id sr) s0 (store_of s') xs \<Longrightarrow>
   run_spec sr r s0 res s'"
  by (auto simp: run_spec_def abnormal_def)

lemma succeed_spec:
  assumes live: "live (sr_run_id sr) ((=) r) {} s" and trail: "trail (sr_run_id sr) s0 (store_of s) (success_trail n k)" and inside: "inside (success_trail n k)"
  shows "\<exists>res s'. succeed_run cfg sr redact (plan, execution, response) s = (res, s') \<and> run_spec sr r s0 res s'"
proof -
  let ?run = "sr_run_id sr"
  let ?j = "\<lambda>s. bindR (classify_runtime_success plan execution (en_tool_calls (ru_enforcer s)) (en_tokens_used (ru_enforcer s))
          (get_or (sr_profile sr) ''limits'' (JObj []))) (\<lambda>base.
        judge_outcome cfg base [(''run_id'', JStr ?run), (''task_type'', get (sr_profile sr) ''task_type''), (''status'', JStr ''succeeded'')])"
  show ?thesis
  proof (cases "?j s")
    case (Inl e)
    have "plain (classify_runtime_success plan execution c1 c2 limits :: (loop_error, error_classification) res)" for c1 c2 limits
      by (auto simp: classify_runtime_success_def Let_def intro!: plain_bind plain_int split: option.split)
    then have "abnormal (Inl e :: (loop_error, loop_result) res)" by (rule judge_bind_abnormal [OF _ Inl])
    then have "run_spec sr r s0 (Inl e) s" by (rule abnormal_spec [OF _ live inside trail])
    then show ?thesis by (simp add: succeed_run_def Let_def bindS_def readS_def Inl)
  next
    case (Inr c)
    let ?x = "dict_set ''error_classification'' (JObj (as_dict c)) response"
    let ?res = "loop_result_of ?run ''succeeded'' ''completed'' ?x"
    let ?m = "bindS (run_event (lp_clock cfg) ?run redact ((event_call_of ''runtime_completed'' ''validator'')\<lparr>ev_result := JObj ?x, ev_stop_reason := Some ''completed''\<rparr>))
        (\<lambda>_. bindS (end_run cfg ?run ''succeeded'' ''completed'') (\<lambda>_. retS ?res))"
    have "\<exists>s'. ?m s = (Inr ?res, s') \<and> closes ?run ''succeeded'' ''runtime_completed'' ''completed'' s s'"
      by (rule closing [OF live])
        (simp_all add: STOP_REASONS_def RUNTIME_STATUSES_def vocabulary_ok_def event_call_of_def RUNTIME_EVENT_TYPES_def RUNTIME_ACTOR_ROLES_def)
    then obtain s' where m: "?m s = (Inr ?res, s')" "closes ?run ''succeeded'' ''runtime_completed'' ''completed'' s s'" by blast
    have read: "readS ?j s = (Inr c, s)" by (simp add: readS_def Inr)
    have "succeed_run cfg sr redact (plan, execution, response) s = (Inr ?res, s')"
      unfolding succeed_run_def Let_def prod.case bindS_run [of "readS ?j" s, OF read] by (rule m(1))
    moreover have "run_spec sr r s0 (Inr ?res) s'"
      using closes_after [OF m(2) trail _ inside, of "{success_trail n k |n k. True}"] by (auto simp: run_spec_def loop_result_of_def)
    ultimately show ?thesis by blast
  qed
qed

lemma install_live:
  assumes "live run Q S s"
  shows "\<exists>res s1. install_enforcer cfg profile s = (res, s1) \<and> live run Q S s1 \<and> store_of s1 = store_of s \<and> (res = Inr () \<or> (\<exists>x. res = Inl (Py x)))"
proof (cases "py_int (get_or profile ''profile_generation'' (JInt 1)) :: (enforcement_error, int) res")
  case (Inl e)
  then obtain x where "e = Py x" using plain_int [of "get_or profile ''profile_generation'' (JInt 1)", where 'a = enforcement_error]
    by (cases e) (auto simp: plain_def)
  with Inl assms show ?thesis by (simp add: install_enforcer_def bindS_def tick_def liftS_def enforcer_init_def catch_as_def bindR_def)
next
  case (Inr n)
  with assms show ?thesis by (simp add: install_enforcer_def bindS_def tick_def liftS_def enforcer_init_def catch_as_def bindR_def)
qed

lemma error_spec:
  assumes live: "live (sr_run_id sr) ((=) r) {} s" and xs: "inside xs" "trail (sr_run_id sr) s0 (store_of s) xs"
  shows "\<exists>res s'. bindS (handle_runtime_error cfg sr e redact) (\<lambda>(stop_reason, request).
      liftS (Inl (Raise (LoopFailed (error_message e) (Some stop_reason) request)))) s = (res, s') \<and> run_spec sr r s0 res s'"
proof -
  from handle_closes [OF live, of cfg e redact] obtain h s' where h: "handle_runtime_error cfg sr e redact s = (h, s')"
    "abnormal h \<and> live (sr_run_id sr) ((=) r) {} s' \<and> store_of s' = store_of s \<or>
      (\<exists>w. h = Inr (w, None) \<and> closes (sr_run_id sr) ''failed'' ''runtime_failed'' w s s') \<or>
      (\<exists>q. h = Inr (''needs_recomposition'', Some q) \<and> rr_source_run_id q = sr_run_id sr \<and> profile_allows_recomposition (sr_profile sr) e \<and>
         closes (sr_run_id sr) ''failed'' ''recomposition_requested'' ''needs_recomposition'' s s')" by blast
  from h(2) consider (abnormal) x where "h = Inl x" "abnormal h" "live (sr_run_id sr) ((=) r) {} s'" "store_of s' = store_of s"
    | (failed) w where "h = Inr (w, None)" "closes (sr_run_id sr) ''failed'' ''runtime_failed'' w s s'"
    | (again) q where "h = Inr (''needs_recomposition'', Some q)" "rr_source_run_id q = sr_run_id sr" "profile_allows_recomposition (sr_profile sr) e"
        "closes (sr_run_id sr) ''failed'' ''recomposition_requested'' ''needs_recomposition'' s s'" by (auto simp: abnormal_def)
  then show ?thesis
  proof cases
    case abnormal
    then have "abnormal (Inl x :: (loop_error, loop_result) res)" by (simp add: abnormal_def)
    then have "run_spec sr r s0 (Inl x) s'" by (rule abnormal_spec [OF _ abnormal(3) xs(1)]) (simp add: abnormal(4) xs(2))
    then show ?thesis by (simp add: bindS_def h(1) abnormal(1))
  next
    case failed
    with closes_after [OF failed(2) xs(2) UNIV_I xs(1)] show ?thesis by (simp add: bindS_def h(1) liftS_def run_spec_def)
  next
    case again
    with closes_after [OF again(4) xs(2) UNIV_I xs(1)] show ?thesis by (auto simp: bindS_def h(1) liftS_def run_spec_def)
  qed
qed

lemma cancel_spec:
  assumes live: "live (sr_run_id sr) ((=) r) {} s" and xs: "inside xs" "trail (sr_run_id sr) s0 (store_of s) xs"
  shows "\<exists>res s'. bindS (cancel_run cfg (sr_run_id sr) redact) (\<lambda>response. retS (loop_result_of (sr_run_id sr) ''cancelled'' ''cancelled'' response)) s = (res, s') \<and>
     run_spec sr r s0 res s'"
proof -
  from cancel_closes [OF live] obtain y s' where c: "cancel_run cfg (sr_run_id sr) redact s = (Inr y, s')"
    "closes (sr_run_id sr) ''cancelled'' ''runtime_cancelled'' ''cancelled'' s s'" by blast
  from closes_after [OF c(2) xs(2) UNIV_I xs(1)] show ?thesis by (simp add: bindS_def c(1) run_spec_def loop_result_of_def)
qed

lemma run_closes:
  fixes s :: "'w run_state"
  assumes live: "live (sr_run_id sr) ((=) r) {} s" and seal: "seal_check cfg sr (qs_artifacts (ru_sys s)) = Inr ()"
  shows "\<exists>res s'. loop_run cfg sr s = (res, s') \<and> run_spec sr r (store_of s) res s'"
proof -
  let ?run = "sr_run_id sr" and ?redact = "profile_redacts_sensitive_data (sr_profile sr)"
  from install_live [OF live] obtain i s1 where i: "install_enforcer cfg (sr_profile sr) s = (i, s1)" "live ?run ((=) r) {} s1" "store_of s1 = store_of s"
    "i = Inr () \<or> (\<exists>x. i = Inl (Py x))" by blast
  show ?thesis
  proof (cases i)
    case (Inl e)
    with i(4) have "abnormal (Inl e :: (loop_error, loop_result) res)" by (auto simp: abnormal_def)
    then have "run_spec sr r (store_of s) (Inl e) s1" by (rule abnormal_spec [OF _ i(2), where xs = "[]"]) (simp_all add: i(3) trail_Nil)
    then show ?thesis by (simp add: loop_run_def bindS_def readS_def seal Let_def i(1) Inl)
  next
    case (Inr u)
    from endsD [OF steps_go [where cfg = cfg and redact = ?redact] i(2)] obtain res s2 xs where st: "run_steps cfg sr ?redact s1 = (res, s2)" "goes {success_trail n k |n k. True} res xs"
      "live ?run ((=) r) {} s2" "trail ?run (store_of s1) (store_of s2) xs" by (elim exE conjE)
    have xs: "inside xs" "trail ?run (store_of s) (store_of s2) xs" using st(2,4) i(3) by (simp_all add: goes_def)
    have run: "loop_run cfg sr s = (case res of
         Inr x \<Rightarrow> succeed_run cfg sr ?redact x
       | Inl (Py x) \<Rightarrow> liftS (Inl (Py x))
       | Inl (Raise RunCancelled) \<Rightarrow>
           bindS (cancel_run cfg ?run ?redact) (\<lambda>response. retS (loop_result_of ?run ''cancelled'' ''cancelled'' response))
       | Inl (Raise (GapRaised g)) \<Rightarrow> liftS (Inl (Raise (Escaped (GapRaised g))))
       | Inl (Raise error) \<Rightarrow>
           bindS (handle_runtime_error cfg sr error ?redact) (\<lambda>(stop_reason, request).
           liftS (Inl (Raise (LoopFailed (error_message error) (Some stop_reason) request))))) s2"
      by (simp add: loop_run_def Let_def bindS_def [of "readS _"] bindS_def [of "install_enforcer _ _"] bindS_def [of "outcomeS _"] readS_def seal i(1) Inr
          outcomeS_def st(1) del: error_message.simps)
    show ?thesis
    proof (cases res)
      case (Inr x)
      with st(2) obtain n k where "xs = success_trail n k" by (auto simp: goes_def)
      with Inr succeed_spec [OF st(3), of "store_of s" n k cfg ?redact "fst x" "fst (snd x)" "snd (snd x)"] xs show ?thesis by (simp add: run)
    next
      case (Inl x)
      show ?thesis
      proof (cases x)
        case (Py y)
        have "run_spec sr r (store_of s) (Inl (Py y)) s2" by (rule abnormal_spec [OF _ st(3) xs]) (simp add: abnormal_def)
        with Inl Py show ?thesis by (simp add: run liftS_def)
      next
        case (Raise err)
        with Inl st(2) have "\<forall>g. err \<noteq> GapRaised g" by (simp add: goes_def)
        with Inl Raise error_spec [OF st(3) xs, of cfg err ?redact] cancel_spec [OF st(3) xs, of cfg ?redact] show ?thesis
          unfolding run by (cases err) simp_all
      qed
    qed
  qed
qed

lemma run_sealed:
  "seal_check cfg sr (qs_artifacts (ru_sys s)) = Inl e \<Longrightarrow> loop_run cfg sr s = (Inl e, s)"
  by (simp add: loop_run_def bindS_def readS_def)


definition plain_loop :: "nat loop" where
  "plain_loop = \<lparr>lp_adapters = [], lp_client = None, lp_handlers = builtin_registry, lp_judge_enabled = False, lp_judge = None,
     lp_cancelled = None, lp_clock = int, lp_monotonic = int, lp_sha256 = take 8\<rparr>"

lemma plain_started:
  obtains sr s r where "start plain_config plain_task plain_request idle_state = (Inr sr, s)" "live (sr_run_id sr) ((=) r) {} s"
    "seal_check plain_loop sr (qs_artifacts (ru_sys s)) = Inr ()"
proof -
  have "audit_ok (store_of idle_state)" "steps_ok (store_of idle_state)"
    by (simp_all add: idle_state_def audit_ok_def steps_ok_def empty_store_def indices_ok_def)
  from start_outcome [OF this, of plain_config plain_task plain_request] intake_plain
  obtain sr s where st: "start plain_config plain_task plain_request idle_state = (Inr sr, s)"
    "live (sr_run_id sr) (started (sr_profile_artifact_uri sr) (sr_profile_sha256 sr)) {} s"
    "assert_profile_seal (take 8) (sr_profile_artifact_uri sr) (sr_profile_sha256 sr) (qs_artifacts (ru_sys s)) = Inr ()"
    by (auto simp: idle_state_def plain_config_def artifact_store_init_def split: sum.splits prod.splits)
  from st(2) obtain r where "live (sr_run_id sr) ((=) r) {} s" by (auto simp: live_def)
  moreover have "seal_check plain_loop sr (qs_artifacts (ru_sys s)) = Inr ()" using st(3) by (simp add: seal_check_def plain_loop_def catch_as_def)
  ultimately show ?thesis using that st(1) by blast
qed


subsection \<open>Recomposition ends\<close>

text \<open>No composed profile asks for a recomposition.\<close>

lemma composed_final:
  assumes "compose t ctx gen parent reason = Inr p"
  shows "\<not> profile_allows_recomposition p e"
proof -
    have field: "get_or (profile_object t gen parent reason a rv ms ex vs li fp) ''failure_policy'' (JObj []) = JObj fp" for a rv ms ex vs li fp
    by (simp add: profile_object_def get_or_def)
  have fp: "get_or p ''failure_policy'' (JObj []) \<in> {JObj DEFAULT_FAILURE_POLICY, JObj HUMAN_REVIEW_FAILURE_POLICY}"
  proof (cases "at_requires_human_review t")
    case True
    from compose_review [OF assms this] obtain a vs where "p = profile_object t gen parent reason a (human_review_required t) (human_review_selection ctx)
        empty_execution_roles vs HUMAN_REVIEW_LIMITS HUMAN_REVIEW_FAILURE_POLICY" by metis
    then show ?thesis by (simp add: field)
  next
    case False
    from compose_runtime [OF assms this] obtain a ex vs where "p = profile_object t gen parent reason a (human_review_not_required t) (runtime_selection t ctx)
        ex vs DEFAULT_LIMITS DEFAULT_FAILURE_POLICY" by metis
    then show ?thesis by (simp add: field)
  qed
  have "get m f \<noteq> JStr ''recompose_once''" if "m \<in> {DEFAULT_FAILURE_POLICY, HUMAN_REVIEW_FAILURE_POLICY}" for m f
  proof -
    have "get m f = JNull \<or> get m f \<in> snd ` set m" by (force simp: get_def get_or_def dest: map_of_SomeD split: option.splits)
    moreover have "JStr ''recompose_once'' \<notin> snd ` set m" using that by (auto simp: DEFAULT_FAILURE_POLICY_def HUMAN_REVIEW_FAILURE_POLICY_def)
    ultimately show ?thesis by (intro notI) simp
  qed
  with fp show ?thesis by (auto simp: profile_allows_recomposition_def split: option.splits)
qed

lemma intake_composed:
  "intake cfg task q = Inr (t, request, response, p) \<Longrightarrow> compose t response (sq_generation q) (sq_parent q) (sq_reason q) = Inr p"
  by (auto simp: intake_def bindR_Inr_iff Let_def catch_as_Inr)

lemma first_attempt:
  fixes s :: "'w run_state"
  assumes live: "live (sr_run_id sr) Q {} s"
  obtains (result) x s' where "loop_run cfg sr s = (Inr x, s')" "lr_run_id x = sr_run_id sr"
  | (request) m w q s' Q' where "loop_run cfg sr s = (Inl (Raise (LoopFailed m w (Some q))), s')" "\<exists>e. profile_allows_recomposition (sr_profile sr) e"
      "live (sr_run_id sr) Q' {} s'"
  | (error) e s' where "loop_run cfg sr s = (Inl e, s')" "\<forall>m w q. e \<noteq> Raise (LoopFailed m w (Some q))"
proof -
  from live obtain r where r: "live (sr_run_id sr) ((=) r) {} s" by (auto simp: live_def)
  show ?thesis
  proof (cases "seal_check cfg sr (qs_artifacts (ru_sys s))")
    case (Inl e)
    then have "e \<noteq> Raise (LoopFailed m w (Some q))" for m w q by (auto simp: seal_check_def catch_as_def elim: map_exn.elims split: sum.splits)
    with run_sealed [OF Inl] error show ?thesis by blast
  next
    case (Inr u)
    then have "seal_check cfg sr (qs_artifacts (ru_sys s)) = Inr ()" by simp
    from run_closes [OF r this] obtain res s' where run: "loop_run cfg sr s = (res, s')" "run_spec sr r (store_of s) res s'" by blast
    show ?thesis
    proof (cases res)
      case (Inr x)
      with run result show ?thesis by (simp add: run_spec_def)
    next
      case (Inl e)
      show ?thesis
      proof (cases "\<exists>m w q. e = Raise (LoopFailed m w (Some q))")
        case True
        then obtain m w q where "e = Raise (LoopFailed m w (Some q))" by blast
        with run Inl request show ?thesis by (auto simp: run_spec_def closed_after_def)
      qed (use run(1) Inl error in blast)
    qed
  qed
qed

lemma attempt_return: "loop_run cfg sr s = (Inr x, s') \<Longrightarrow>
   attempt_loop cfg ep task ctx sr as ps s = Some (Inr (attempts_result (as @ [sr_run_id sr]) ps x), s')"
  by (subst attempt_loop.simps) simp

lemma attempt_error: "loop_run cfg sr s = (Inl e, s') \<Longrightarrow> \<forall>m w q. e \<noteq> Raise (LoopFailed m w (Some q)) \<Longrightarrow>
   attempt_loop cfg ep task ctx sr as ps s = Some (Inl e, s')"
  by (subst attempt_loop.simps) (auto split: exn.splits loop_error.splits option.splits)

lemma attempt_again: "loop_run cfg sr s = (Inl (Raise (LoopFailed m w (Some q))), s') \<Longrightarrow>
   attempt_loop cfg ep task ctx sr as ps s =
     (case restart ep task ctx q s' of
        (Inl e, s'') \<Rightarrow> Some (Inl e, s'')
      | (Inr (sr', ident), s'') \<Rightarrow> attempt_loop cfg ep task ctx sr' (as @ [sr_run_id sr]) (ps @ [ident]) s'')"
  by (subst attempt_loop.simps) (simp split: prod.splits sum.splits)

lemma attempt_last:
  fixes s :: "'w run_state"
  assumes live: "live (sr_run_id sr) Q {} s" and final: "\<forall>e. \<not> profile_allows_recomposition (sr_profile sr) e"
  shows "\<exists>res s'. attempt_loop cfg ep task ctx sr as ps s = Some (res, s') \<and>
     (case res of Inr x \<Rightarrow> lr_run_id x = sr_run_id sr \<and> lr_attempt_run_ids x = as @ [sr_run_id sr] \<and> lr_recomposed_profile_ids x = ps
        | Inl e \<Rightarrow> \<forall>m w q. e \<noteq> Raise (LoopFailed m w (Some q)))"
  using live
proof (cases rule: first_attempt [where cfg = cfg])
  case (result x s')
  then show ?thesis by (simp add: attempt_return attempts_result_def)
next
  case (error e s')
  with attempt_error [OF error] show ?thesis by simp
qed (use final in blast)

lemma restart_live:
  fixes s :: "'w run_state"
  assumes "live run Q {} s"
  shows "\<exists>res s'. restart ep task ctx q s = (res, s') \<and>
     (case res of Inr (sr, ident) \<Rightarrow> (\<exists>Q. live (sr_run_id sr) Q {} s') \<and> (\<forall>e. \<not> profile_allows_recomposition (sr_profile sr) e)
        | Inl e \<Rightarrow> \<forall>m w q. e \<noteq> Raise (LoopFailed m w (Some q)))"
proof -
  define sq where "sq = \<lparr>sq_context = ctx,
       sq_run_id = Some (text_or None (slug_id (rr_source_run_id q @ ''-generation-'' @ int_str (rr_requested_profile_generation q)) (Some ''run''))),
       sq_mode = ''recomposition'', sq_generation = rr_requested_profile_generation q, sq_parent = Some (rr_parent_profile_id q),
       sq_reason = Some (rr_recomposition_reason q)\<rparr>"
  have start: "continue_recomposition ep task q ctx None = start ep task sq" by (simp add: continue_recomposition_def sq_def)
  have ok: "audit_ok (store_of s)" "steps_ok (store_of s)" using assms by (simp_all add: live_def)
  show ?thesis
  proof (cases "intake ep task sq")
    case (Inl e)
    with start_outcome [OF ok, of ep task sq] have "start ep task sq s = (Inl e, s)" by simp
    then show ?thesis by (cases e) (simp_all add: restart_def raising_def bindS_def start catch_as_def)
  next
    case (Inr x)
    obtain t request response p where x: "x = (t, request, response, p)" by (cases x)
    with start_outcome [OF ok, of ep task sq] Inr obtain sr s' where s': "start ep task sq s = (Inr sr, s')" "sr_profile sr = p" "\<exists>Q. live (sr_run_id sr) Q {} s'"
      by auto
    have c: "compose t response (sq_generation sq) (sq_parent sq) (sq_reason sq) = Inr p" using Inr x by (intro intake_composed) simp
    from composed_startable [OF c] obtain i where "map_of p ''id'' = Some (JStr i)" unfolding startable_profile_def by blast
    with s' composed_final [OF c] show ?thesis by (simp add: restart_def raising_def bindS_def start catch_as_def liftS_def getitem_def)
  qed
qed

text \<open>C5. Recomposition ends: from every registered run, \<open>run_with_recomposition\<close> returns after at most two attempts. A
  result names its attempts in order, beginning with the given run and ending with the one that produced it, and one
  profile for every attempt after the first; an error that is raised never carries a recomposition request.\<close>

theorem recomposition_terminates:
  fixes s :: "'w run_state"
  assumes "live (sr_run_id sr) Q {} s"
  shows "\<exists>res s'. run_with_recomposition cfg ep task ctx sr s = Some (res, s') \<and>
     (case res of
        Inr x \<Rightarrow> length (lr_attempt_run_ids x) \<le> 2 \<and> hd (lr_attempt_run_ids x) = sr_run_id sr \<and> last (lr_attempt_run_ids x) = lr_run_id x \<and>
          length (lr_recomposed_profile_ids x) + 1 = length (lr_attempt_run_ids x)
      | Inl e \<Rightarrow> \<forall>m w q. e \<noteq> Raise (LoopFailed m w (Some q)))"
  using assms
proof (cases rule: first_attempt [where cfg = cfg])
  case (result x s')
  then show ?thesis by (simp add: run_with_recomposition_def attempt_return attempts_result_def)
next
  case (error e s')
  with attempt_error [OF error] show ?thesis by (simp add: run_with_recomposition_def)
next
  case (request m w q s' Q')
  from restart_live [OF request(3), of ep task ctx q] obtain again s'' where again: "restart ep task ctx q s' = (again, s'')"
    "case again of Inr (sr, ident) \<Rightarrow> (\<exists>Q. live (sr_run_id sr) Q {} s'') \<and> (\<forall>e. \<not> profile_allows_recomposition (sr_profile sr) e)
        | Inl e \<Rightarrow> \<forall>m w q. e \<noteq> Raise (LoopFailed m w (Some q))" by blast
  show ?thesis
  proof (cases again)
    case (Inl e)
    with again show ?thesis by (simp add: run_with_recomposition_def attempt_again [OF request(1)])
  next
    case (Inr x)
    obtain sr' ident where x: "x = (sr', ident)" by (cases x)
    with again(2) Inr obtain Q'' where "live (sr_run_id sr') Q'' {} s''" "\<forall>e. \<not> profile_allows_recomposition (sr_profile sr') e" by auto
    from attempt_last [OF this, of cfg ep task ctx "[sr_run_id sr]" "[ident]"] show ?thesis
      by (auto simp: run_with_recomposition_def attempt_again [OF request(1)] again(1) Inr x split: sum.splits)
  qed
qed

theorem recomposition_terminates_witness:
  "\<exists>sr s res s'. start plain_config plain_task plain_request idle_state = (Inr sr, s) \<and>
     run_with_recomposition plain_loop plain_config plain_task (Some plain_context) sr s = Some (res, s')"
proof -
  obtain sr s r where "start plain_config plain_task plain_request idle_state = (Inr sr, s)" "live (sr_run_id sr) ((=) r) {} s"
    by (rule plain_started)
  with recomposition_terminates [of sr "(=) r" s plain_loop plain_config plain_task "Some plain_context"] show ?thesis by blast
qed

end
