(* ===== verification/Queue.thy ===== *)
theory Queue
  imports Flight_Recorder Tenant_Runtime
begin

text \<open>
  \<open>runtime/queue.py\<close>: the queue manager on top of the runtime store and the artifact store.
  Readings of the clock are arguments, in the order the methods take them. The seeded
  jitter of \<open>random.Random\<close> is a function argument. The back-off multiplier is a whole
  number, as in the default configuration, so delays are exact.
\<close>

subsection \<open>State, errors, configuration\<close>

datatype queue_error =
    NeedsTenant
  | TenantDisabled
  | BacklogExceeded
  | ItemNotFound string
  | TerminalCannotCancel
  | NotRetryable
  | TaskNotObject
  | ContextNotObject
  | TenantStatus tenant_status_error

type_synonym queue_sys = runtime_sys

type_synonym 'a qst = "(queue_sys, queue_error, 'a) st"

record queue_config =
  qc_lease_seconds :: int
  qc_heartbeat_seconds :: int
  qc_max_attempts :: int
  qc_retry_delay_seconds :: int
  qc_retry_backoff_multiplier :: int
  qc_retry_jitter_seconds :: int
  qc_global_running_limit :: "int option"
  qc_tenant_running_limits :: "(string \<times> int) list"
  qc_tenant_queued_limits :: "(string \<times> int) list"
  qc_tenant_token_limits_per_minute :: "(string \<times> int) list"
  qc_tenant_tool_call_limits_per_minute :: "(string \<times> int) list"
  qc_allowed_tenant_ids :: "string list"
  qc_disabled_tenant_ids :: "string list"
  qc_environment :: string
  qc_queue_name :: string
  qc_worker_pool_size :: int

definition default_queue_config :: queue_config where
  "default_queue_config =
     \<lparr>qc_lease_seconds = 300, qc_heartbeat_seconds = 30, qc_max_attempts = 3, qc_retry_delay_seconds = 30,
      qc_retry_backoff_multiplier = 2, qc_retry_jitter_seconds = 0, qc_global_running_limit = None,
      qc_tenant_running_limits = [], qc_tenant_queued_limits = [],
      qc_tenant_token_limits_per_minute = [], qc_tenant_tool_call_limits_per_minute = [],
      qc_allowed_tenant_ids = [], qc_disabled_tenant_ids = [], qc_environment = ''dev'', qc_queue_name = ''default'', qc_worker_pool_size = 1\<rparr>"

record enqueue_options =
  eo_priority :: int
  eo_scheduled_at :: "string option"
  eo_max_attempts :: int
  eo_idempotency_key :: "string option"
  eo_environment :: string
  eo_queue_name :: string
  eo_tenant_queued_limits :: "(string \<times> int) list"
  eo_disabled_tenant_ids :: "string list"

definition default_options :: enqueue_options where
  "default_options = \<lparr>eo_priority = 0, eo_scheduled_at = None, eo_max_attempts = 3, eo_idempotency_key = None,
     eo_environment = ''dev'', eo_queue_name = ''default'', eo_tenant_queued_limits = [], eo_disabled_tenant_ids = []\<rparr>"

subsection \<open>Enqueueing\<close>

definition tenant_queued_count :: "string \<Rightarrow> store \<Rightarrow> (queue_error, nat) res" where
  "tenant_queued_count tenant s =
     bindR (filterR (\<lambda>item. andR (Inr (get item ''tenant_id'' = JStr tenant))
                                 (in_strings (get item ''status'') CLAIMABLE_STATUSES))
              (dict_values (st_runtime_queue_items s))) (\<lambda>xs. Inr (length xs))"

definition enqueue_key :: "analyzed_task \<Rightarrow> enqueue_options \<Rightarrow> string" where
  "enqueue_key t opts = text_or (eo_idempotency_key opts) (at_task_id t @ '':initial'')"

definition queue_record ::
  "analyzed_task \<Rightarrow> enqueue_options \<Rightarrow> string \<Rightarrow> string \<Rightarrow> string option \<Rightarrow> obj" where
  "queue_record t opts now task_payload_uri composition_context_uri =
     [(''id'', JStr (slug_id (enqueue_key t opts) (Some ''queue''))),
      (''task_id'', JStr (at_task_id t)),
      (''tenant_id'', JStr (tenant_id (at_auth_claims t))),
      (''area_id'', JStr (area_id (at_auth_claims t))),
      (''environment'', JStr (eo_environment opts)),
      (''queue_name'', JStr (eo_queue_name opts)),
      (''status'', JStr (queue_status_name Queued)),
      (''priority'', JInt (eo_priority opts)),
      (''scheduled_at'', JStr (text_or (eo_scheduled_at opts) now)),
      (''attempts'', JInt 0),
      (''max_attempts'', JInt (eo_max_attempts opts)),
      (''claimed_by'', JNull), (''claimed_at'', JNull), (''claimed_until'', JNull), (''lease_expires_at'', JNull),
      (''heartbeat_at'', JNull), (''attempt_id'', JNull),
      (''task_payload_uri'', JStr task_payload_uri),
      (''composition_context_uri'', opt_str composition_context_uri),
      (''run_id'', JNull), (''last_error'', JNull),
      (''idempotency_key'', JStr (enqueue_key t opts)),
      (''created_at'', JStr now),
      (''updated_at'', JStr now)]"

definition admission :: "obj \<Rightarrow> obj option \<Rightarrow> enqueue_options \<Rightarrow> analyzed_task \<Rightarrow> store \<Rightarrow> (queue_error, unit) res" where
  "admission task context_response opts t s =
     (let tenant = tenant_id (at_auth_claims t) in
      bindR (raise_if (tenant = ''global'') NeedsTenant) (\<lambda>_.
      bindR (raise_if (tenant \<in> set (eo_disabled_tenant_ids opts)) TenantDisabled) (\<lambda>_.
      bindR (case context_response of
               None \<Rightarrow> Inr ()
             | Some ctx \<Rightarrow>
                 if get ctx ''tenant_authority'' = JNull then Inr ()
                 else catch_as TenantStatus (assert_runtime_tenant_is_startable task ctx)) (\<lambda>_.
      case map_of (eo_tenant_queued_limits opts) tenant of
        None \<Rightarrow> Inr ()
      | Some limit \<Rightarrow>
          bindR (tenant_queued_count tenant s) (\<lambda>n. raise_if (int n \<ge> limit) BacklogExceeded)))))"

definition write_context :: "string \<Rightarrow> obj option \<Rightarrow> string option qst" where
  "write_context queue_id context_response =
     (case context_response of
        None \<Rightarrow> retS None
      | Some ctx \<Rightarrow>
          bindS (on_artifacts (write_json_raw [''queue'', queue_id, ''composition-context-response''] (JObj ctx)))
            (\<lambda>uri. retS (Some uri)))"

definition enqueue :: "datetime \<Rightarrow> obj \<Rightarrow> obj option \<Rightarrow> enqueue_options \<Rightarrow> obj qst" where
  "enqueue clock task context_response opts =
     bindS (liftS (analyze task)) (\<lambda>t.
     bindS (readS (\<lambda>s. admission task context_response opts t (qs_store s))) (\<lambda>_.
     let now = iso_timestamp clock; queue_id = slug_id (enqueue_key t opts) (Some ''queue'') in
     bindS (on_artifacts (write_json_raw [''queue'', queue_id, ''task-payload''] (JObj task))) (\<lambda>task_payload_uri.
     bindS (write_context queue_id context_response) (\<lambda>composition_context_uri.
     on_store (insert_runtime_queue_item (queue_record t opts now task_payload_uri composition_context_uri))))))"

subsection \<open>Claims, heartbeats, recovery\<close>

definition claim_request_of :: "datetime \<Rightarrow> string \<Rightarrow> queue_config \<Rightarrow> claim_request" where
  "claim_request_of clock worker_id config =
     \<lparr>cr_worker_id = worker_id, cr_claimed_at = iso_timestamp clock,
      cr_lease_expires_at = iso_timestamp (clock + seconds (qc_lease_seconds config)),
      cr_tenant_running_limits = qc_tenant_running_limits config,
      cr_global_running_limit = qc_global_running_limit config,
      cr_allowed_tenant_ids = qc_allowed_tenant_ids config, cr_disabled_tenant_ids = qc_disabled_tenant_ids config,
      cr_environment = Some (qc_environment config), cr_queue_name = Some (qc_queue_name config)\<rparr>"

definition claim_next :: "datetime \<Rightarrow> string \<Rightarrow> queue_config \<Rightarrow> obj option qst" where
  "claim_next clock worker_id config =
     on_store (claim_next_runtime_queue_item (claim_request_of clock worker_id config))"

definition claim_next_attempt :: "datetime \<Rightarrow> string \<Rightarrow> queue_config \<Rightarrow> claim_bundle option qst" where
  "claim_next_attempt clock worker_id config =
     on_store (claim_next_runtime_queue_attempt (claim_request_of clock worker_id config))"

definition heartbeat :: "datetime \<Rightarrow> string \<Rightarrow> queue_config \<Rightarrow> obj qst" where
  "heartbeat clock queue_id config =
     (let until = iso_timestamp (clock + seconds (qc_lease_seconds config)) in
      on_store (heartbeat_runtime_queue_item queue_id
        [(''heartbeat_at'', JStr (iso_timestamp clock)), (''claimed_until'', JStr until),
         (''lease_expires_at'', JStr until), (''updated_at'', JStr (iso_timestamp clock))]))"

definition recover_stale_claims :: "datetime \<Rightarrow> obj list qst" where
  "recover_stale_claims clock = on_store (recover_stale_runtime_queue_items (iso_timestamp clock))"

subsection \<open>Status changes\<close>

record status_options =
  so_run_id :: "string option"
  so_attempt_id :: "string option"
  so_scheduled_at :: "string option"
  so_last_error :: "string option"
  so_clear_claim :: bool

definition no_status_options :: status_options where
  "no_status_options = \<lparr>so_run_id = None, so_attempt_id = None, so_scheduled_at = None, so_last_error = None, so_clear_claim = False\<rparr>"

definition when_some :: "string \<Rightarrow> string option \<Rightarrow> obj" where
  "when_some k x = (case x of None \<Rightarrow> [] | Some s \<Rightarrow> [(k, JStr s)])"

definition status_fields :: "datetime \<Rightarrow> queue_status \<Rightarrow> status_options \<Rightarrow> obj" where
  "status_fields clock status so =
     [(''status'', JStr (queue_status_name status)), (''updated_at'', JStr (iso_timestamp clock))] @
     when_some ''run_id'' (so_run_id so) @ when_some ''attempt_id'' (so_attempt_id so) @
     when_some ''scheduled_at'' (so_scheduled_at so) @
     (if so_last_error so \<noteq> None \<or> status = Succeeded then [(''last_error'', opt_str (so_last_error so))] else []) @
     (if so_clear_claim so
      then [(''claimed_by'', JNull), (''claimed_at'', JNull), (''claimed_until'', JNull), (''lease_expires_at'', JNull),
            (''heartbeat_at'', JNull)]
      else [])"

definition update_status :: "datetime \<Rightarrow> string \<Rightarrow> queue_status \<Rightarrow> status_options \<Rightarrow> obj qst" where
  "update_status clock queue_id status so =
     on_store (update_runtime_queue_item queue_id (status_fields clock status so))"

definition mark_running :: "datetime \<Rightarrow> string \<Rightarrow> string \<Rightarrow> string option \<Rightarrow> obj qst" where
  "mark_running clock queue_id run_id attempt_id =
     update_status clock queue_id Running (no_status_options\<lparr>so_run_id := Some run_id, so_attempt_id := attempt_id\<rparr>)"

definition mark_succeeded :: "datetime \<Rightarrow> string \<Rightarrow> string \<Rightarrow> obj qst" where
  "mark_succeeded clock queue_id run_id =
     update_status clock queue_id Succeeded (no_status_options\<lparr>so_run_id := Some run_id\<rparr>)"

definition cancel_run :: "string \<Rightarrow> json \<Rightarrow> unit qst" where
  "cancel_run completed_at effective_run_id s =
     (if effective_run_id = JNull then (Inr (), s)
      else let run_id = py_str effective_run_id in
        case get_runtime_run run_id (qs_store s) of
          None \<Rightarrow> (Inr (), s)
        | Some run \<Rightarrow>
            bindS (readS (\<lambda>_. in_strings (get run ''status'') [''succeeded'', ''failed'', ''cancelled''])) (\<lambda>terminal.
              if terminal then retS ()
              else bindS (on_store (update_runtime_run run_id
                     [(''status'', JStr ''cancelled''), (''stop_reason'', JStr ''cancelled''), (''completed_at'', JStr completed_at)]))
                   (\<lambda>_. retS ())) s)"

text \<open>The two clock readings of \<open>mark_cancelled\<close>: the completion time, then the update time.\<close>

definition mark_cancelled :: "datetime \<Rightarrow> datetime \<Rightarrow> string \<Rightarrow> string option \<Rightarrow> obj qst" where
  "mark_cancelled clock clock' queue_id run_id s =
     (case get_runtime_queue_item queue_id (qs_store s) of
        None \<Rightarrow> (Inl (Raise (ItemNotFound queue_id)), s)
      | Some item \<Rightarrow>
          (bindS (readS (\<lambda>_. getitem item ''status'')) (\<lambda>status.
           if status = JStr ''cancelled'' then retS item
           else bindS (readS (\<lambda>_. bindR (in_strings status [''succeeded'', ''failed'', ''dead_lettered'']) (\<lambda>terminal.
                  raise_if terminal TerminalCannotCancel))) (\<lambda>_.
                let completed_at = iso_timestamp clock in
                bindS (update_status clock' queue_id Cancelled (no_status_options\<lparr>so_run_id := run_id, so_clear_claim := True\<rparr>)) (\<lambda>stored.
                bindS (\<lambda>s. (Inr (), s\<lparr>qs_store := snd (release_runtime_queue_claims queue_id completed_at ''cancelled'' (qs_store s))\<rparr>)) (\<lambda>_.
                bindS (cancel_run completed_at (case run_id of
                         Some r \<Rightarrow> if r = [] then get stored ''run_id'' else JStr r
                       | None \<Rightarrow> get stored ''run_id'')) (\<lambda>_.
                retS stored)))))) s)"

subsection \<open>Failures\<close>

definition retry_delay :: "(string \<Rightarrow> int \<Rightarrow> int) \<Rightarrow> queue_config \<Rightarrow> string \<Rightarrow> int \<Rightarrow> int" where
  "retry_delay randint config queue_id attempts =
     qc_retry_delay_seconds config * qc_retry_backoff_multiplier config ^ nat (max (attempts - 1) 0) +
     (if qc_retry_jitter_seconds config > 0 then randint queue_id (qc_retry_jitter_seconds config) else 0)"

text \<open>The clock readings of \<open>mark_failed_or_retry\<close>: for the schedule, for the update, for the dead letter.
  The error is its class name and message.\<close>

definition mark_failed_or_retry ::
  "(string \<Rightarrow> int \<Rightarrow> int) \<Rightarrow> datetime \<Rightarrow> datetime \<Rightarrow> datetime \<Rightarrow> obj \<Rightarrow> string \<Rightarrow> string \<Rightarrow> queue_config \<Rightarrow> string option \<Rightarrow> obj qst" where
  "mark_failed_or_retry randint clock1 clock2 clock3 item error_type error_message config run_id =
     bindS (readS (\<lambda>_. bindR (getitem item ''attempts'') py_int)) (\<lambda>attempts.
     bindS (readS (\<lambda>_. bindR (getitem item ''max_attempts'') py_int)) (\<lambda>max_attempts.
     bindS (readS (\<lambda>_. getitem item ''id'')) (\<lambda>i.
     let status = (if attempts < max_attempts then RetryScheduled else DeadLettered);
         queue_id = py_str i;
         scheduled_at = iso_timestamp (clock1 + seconds (retry_delay randint config queue_id attempts)) in
     bindS (update_status clock2 queue_id status
              (no_status_options\<lparr>so_run_id := run_id, so_scheduled_at := Some scheduled_at,
                 so_last_error := Some (error_type @ '': '' @ error_message), so_clear_claim := True\<rparr>)) (\<lambda>stored.
     if status = DeadLettered then
       bindS (readS (\<lambda>_. getitem item ''tenant_id'')) (\<lambda>tenant.
       bindS (readS (\<lambda>_. getitem item ''attempts'')) (\<lambda>a.
       bindS (on_store (insert_runtime_dead_letter
         [(''id'', JStr (slug_id (queue_id @ ''-'' @ py_str a) (Some ''dlq''))),
          (''queue_id'', JStr queue_id), (''run_id'', opt_str run_id), (''attempt_id'', get item ''attempt_id''),
          (''tenant_id'', JStr (py_str tenant)), (''error_type'', JStr error_type),
          (''error_message'', JStr error_message), (''created_at'', JStr (iso_timestamp clock3))])) (\<lambda>_.
       retS stored)))
     else retS stored))))"

subsection \<open>Loading payloads and manual retry\<close>

definition load_task :: "obj \<Rightarrow> artifact_store \<Rightarrow> (queue_error, obj) res" where
  "load_task item a =
     bindR (getitem item ''task_payload_uri'') (\<lambda>uri.
     bindR (read_json (py_str uri) a) (\<lambda>task.
     case as_obj task of None \<Rightarrow> Inl (Raise TaskNotObject) | Some m \<Rightarrow> Inr m))"

definition load_composition_context :: "obj \<Rightarrow> artifact_store \<Rightarrow> (queue_error, obj option) res" where
  "load_composition_context item a =
     (let uri = get item ''composition_context_uri'' in
      if uri = JNull then Inr None
      else bindR (read_json (py_str uri) a) (\<lambda>ctx.
           case as_obj ctx of None \<Rightarrow> Inl (Raise ContextNotObject) | Some m \<Rightarrow> Inr (Some m)))"

definition retry :: "datetime \<Rightarrow> string \<Rightarrow> string option \<Rightarrow> string option \<Rightarrow> int option \<Rightarrow> obj qst" where
  "retry clock queue_id scheduled_at idempotency_key max_attempts s =
     (case get_runtime_queue_item queue_id (qs_store s) of
        None \<Rightarrow> (Inl (Raise (ItemNotFound queue_id)), s)
      | Some item \<Rightarrow>
          (bindS (readS (\<lambda>_. bindR (getitem item ''status'') (\<lambda>status.
              bindR (in_strings status [''failed'', ''cancelled'', ''dead_lettered'']) (\<lambda>ok. raise_if (\<not> ok) NotRetryable)))) (\<lambda>_.
           bindS (readS (\<lambda>_. case idempotency_key of
                Some k \<Rightarrow> if k \<noteq> [] then Inr k else bindR (getitem item ''attempts'') (\<lambda>a. bindR (py_int a) (\<lambda>n.
                  Inr (py_str (or_else (get item ''idempotency_key'') (JStr queue_id)) @ '':manual-retry:'' @ int_str (n + 1))))
              | None \<Rightarrow> bindR (getitem item ''attempts'') (\<lambda>a. bindR (py_int a) (\<lambda>n.
                  Inr (py_str (or_else (get item ''idempotency_key'') (JStr queue_id)) @ '':manual-retry:'' @ int_str (n + 1)))))) (\<lambda>key.
           bindS (readS (\<lambda>s. load_task item (qs_artifacts s))) (\<lambda>task.
           bindS (readS (\<lambda>s. load_composition_context item (qs_artifacts s))) (\<lambda>ctx.
           bindS (readS (\<lambda>_. bindR (getitem item ''priority'') py_int)) (\<lambda>priority.
           bindS (readS (\<lambda>_. case max_attempts of
                Some m \<Rightarrow> if m \<noteq> 0 then Inr m else bindR (getitem item ''max_attempts'') py_int
              | None \<Rightarrow> bindR (getitem item ''max_attempts'') py_int)) (\<lambda>limit.
           enqueue clock task ctx
             (default_options\<lparr>eo_priority := priority, eo_scheduled_at := scheduled_at, eo_max_attempts := limit,
                eo_idempotency_key := Some key,
                eo_environment := py_str (or_else (get item ''environment'') (JStr ''dev'')),
                eo_queue_name := py_str (or_else (get item ''queue_name'') (JStr ''default''))\<rparr>)))))))) s)"

definition queue_item_is_cancelled :: "string \<Rightarrow> store \<Rightarrow> bool" where
  "queue_item_is_cancelled queue_id s =
     (case get_runtime_queue_item queue_id s of None \<Rightarrow> False | Some item \<Rightarrow> get item ''status'' = JStr ''cancelled'')"

subsection \<open>What enqueueing did\<close>

definition queue_id_of :: "analyzed_task \<Rightarrow> enqueue_options \<Rightarrow> string" where
  "queue_id_of t opts = slug_id (enqueue_key t opts) (Some ''queue'')"

abbreviation task_path :: "string \<Rightarrow> string list" where
  "task_path queue_id \<equiv> [''queue'', queue_id, ''task-payload'']"

abbreviation context_path :: "string \<Rightarrow> string list" where
  "context_path queue_id \<equiv> [''queue'', queue_id, ''composition-context-response'']"

definition sorted_obj :: "obj \<Rightarrow> obj" where
  "sorted_obj m = sort_key fst (map (\<lambda>kv. (fst kv, sort_keys (snd kv))) m)"

lemma sort_keys_JObj: "sort_keys (JObj m) = JObj (sorted_obj m)"
  by (simp add: sorted_obj_def)

lemma queue_id_slug: "is_slug (queue_id_of t opts)"
proof -
  have "list_all slug_char ''queue''" "is_lower (hd ''queue'')" by code_simp+
  then show ?thesis unfolding queue_id_of_def using slug_id_is_slug [of "Some ''queue''" "enqueue_key t opts"] by simp
qed

lemma queue_paths:
  assumes "queue_id \<noteq> []"
  shows "relative_path (task_path queue_id) = [''queue'', slug_id (removesuffix ''.json'' queue_id) None, ''task-payload.json'']"
    "relative_path (context_path queue_id) =
       [''queue'', slug_id (removesuffix ''.json'' queue_id) None, ''composition-context-response.json'']"
proof -
  have "slug_id (removesuffix ''.json'' ''queue'') None = ''queue''"
    "slug_id (removesuffix ''.json'' ''task-payload'') None = ''task-payload''"
    "slug_id (removesuffix ''.json'' ''composition-context-response'') None = ''composition-context-response''"
    by code_simp+
  then show "relative_path (task_path queue_id) = [''queue'', slug_id (removesuffix ''.json'' queue_id) None, ''task-payload.json'']"
    "relative_path (context_path queue_id) =
       [''queue'', slug_id (removesuffix ''.json'' queue_id) None, ''composition-context-response.json'']"
    using assms by (simp_all add: relative_path_def Let_def)
qed

lemma write_small:
  assumes "unchunked (ar_threshold a) v" and "relative_path path \<noteq> []"
  shows "write_json_raw path v a = (Inr (uri_for a (relative_path path)) :: ('e, string) res,
     a\<lparr>ar_json := dict_set (relative_path path) (sort_keys v) (ar_json a)\<rparr>)"
  using assms by (simp add: write_json_raw_def chunk_unchanged uri_for_def Let_def)

definition small_payload :: "artifact_store \<Rightarrow> obj \<Rightarrow> obj option \<Rightarrow> bool" where
  "small_payload a task ctx \<longleftrightarrow> unchunked (ar_threshold a) (JObj task) \<and>
     (\<forall>c. ctx = Some c \<longrightarrow> unchunked (ar_threshold a) (JObj c))"

text \<open>The artifacts after the payloads of an item were written.\<close>

definition with_payloads :: "string \<Rightarrow> obj \<Rightarrow> obj option \<Rightarrow> artifact_store \<Rightarrow> artifact_store" where
  "with_payloads queue_id task ctx a =
     (let json = dict_set (relative_path (task_path queue_id)) (JObj (sorted_obj task)) (ar_json a)
      in a\<lparr>ar_json := (case ctx of None \<Rightarrow> json
            | Some c \<Rightarrow> dict_set (relative_path (context_path queue_id)) (JObj (sorted_obj c)) json)\<rparr>)"

definition payload_record :: "datetime \<Rightarrow> analyzed_task \<Rightarrow> enqueue_options \<Rightarrow> obj option \<Rightarrow> artifact_store \<Rightarrow> obj" where
  "payload_record clock t opts ctx a =
     queue_record t opts (iso_timestamp clock) (uri_for a (relative_path (task_path (queue_id_of t opts))))
       (map_option (\<lambda>_. uri_for a (relative_path (context_path (queue_id_of t opts)))) ctx)"

lemma enqueue_small:
  assumes "analyze task = (Inr t :: (queue_error, analyzed_task) res)" and "small_payload (qs_artifacts s) task ctx"
    and "admission task ctx opts t (qs_store s) = Inr ()"
  shows "enqueue clock task ctx opts s =
     (case insert_runtime_queue_item (payload_record clock t opts ctx (qs_artifacts s)) (qs_store s) of
        (r, st) \<Rightarrow> (r, \<lparr>qs_store = st, qs_artifacts = with_payloads (queue_id_of t opts) task ctx (qs_artifacts s)\<rparr>))"
proof -
  let ?q = "queue_id_of t opts" and ?a = "qs_artifacts s"
  have q: "?q \<noteq> []" using queue_id_slug [of t opts] by (simp add: is_slug_def)
  note paths = queue_paths [OF q]
  let ?a1 = "?a\<lparr>ar_json := dict_set (relative_path (task_path ?q)) (JObj (sorted_obj task)) (ar_json ?a)\<rparr>"
  have w1: "write_json_raw (task_path ?q) (JObj task) ?a = (Inr (uri_for ?a (relative_path (task_path ?q))) :: (queue_error, string) res, ?a1)"
    using assms(2) paths(1) by (subst write_small) (simp_all add: small_payload_def sorted_obj_def)
  have w2: "write_context ?q ctx (s\<lparr>qs_artifacts := ?a1\<rparr>) =
      (Inr (map_option (\<lambda>_. uri_for ?a (relative_path (context_path ?q))) ctx),
       s\<lparr>qs_artifacts := with_payloads ?q task ctx ?a\<rparr>)"
  proof (cases ctx)
    case (Some c)
    then have "write_json_raw (context_path ?q) (JObj c) ?a1 = (Inr (uri_for ?a1 (relative_path (context_path ?q))) :: (queue_error, string) res,
        ?a1\<lparr>ar_json := dict_set (relative_path (context_path ?q)) (sort_keys (JObj c)) (ar_json ?a1)\<rparr>)"
      using assms(2) paths(2) by (intro write_small) (simp_all add: small_payload_def)
    then show ?thesis using Some
      by (simp add: write_context_def on_artifacts_def bindS_def with_payloads_def sorted_obj_def uri_for_def)
  qed (simp add: write_context_def with_payloads_def)
  show ?thesis
    unfolding enqueue_def
    by (simp add: bindS_def assms(1,3) on_artifacts_def on_store_def w1 w2 payload_record_def Let_def
        flip: queue_id_of_def split: prod.splits)
qed

lemma enqueue_Inr:
  assumes "enqueue clock task ctx opts s = (Inr x, s')" and "small_payload (qs_artifacts s) task ctx"
  obtains t where "analyze task = (Inr t :: (queue_error, analyzed_task) res)"
    "admission task ctx opts t (qs_store s) = Inr ()"
    "insert_runtime_queue_item (payload_record clock t opts ctx (qs_artifacts s)) (qs_store s) = (Inr x :: (queue_error, obj) res, qs_store s')"
    "qs_artifacts s' = with_payloads (queue_id_of t opts) task ctx (qs_artifacts s)"
proof -
  obtain t where t: "analyze task = (Inr t :: (queue_error, analyzed_task) res)"
    using assms(1) by (auto simp: enqueue_def bindS_cases)
  have adm: "admission task ctx opts t (qs_store s) = Inr ()"
    using assms(1) t by (auto simp: enqueue_def bindS_cases)
  obtain st where "insert_runtime_queue_item (payload_record clock t opts ctx (qs_artifacts s)) (qs_store s) = (Inr x :: (queue_error, obj) res, st)"
    "s' = \<lparr>qs_store = st, qs_artifacts = with_payloads (queue_id_of t opts) task ctx (qs_artifacts s)\<rparr>"
    using assms(1) enqueue_small [OF t assms(2) adm, of clock] by (auto split: prod.splits)
  then show thesis using that [OF t adm] by simp
qed

lemma payload_lookups:
  assumes "queue_id \<noteq> []"
  shows "map_of (ar_json (with_payloads queue_id task ctx a)) (relative_path (task_path queue_id)) = Some (JObj (sorted_obj task))"
    "ctx = Some c \<Longrightarrow> map_of (ar_json (with_payloads queue_id task ctx a)) (relative_path (context_path queue_id)) = Some (JObj (sorted_obj c))"
    "uri_for (with_payloads queue_id task ctx a) p = uri_for a p"
  using queue_paths [OF assms] by (auto simp: with_payloads_def Let_def dict_simps uri_for_def split: option.splits)

lemma payload_record_fields:
  "get (payload_record clock t opts ctx a) ''task_payload_uri'' = JStr (uri_for a (relative_path (task_path (queue_id_of t opts))))"
  "getitem (payload_record clock t opts ctx a) ''task_payload_uri'' = Inr (JStr (uri_for a (relative_path (task_path (queue_id_of t opts)))))"
  "get (payload_record clock t opts ctx a) ''composition_context_uri'' =
     opt_str (map_option (\<lambda>_. uri_for a (relative_path (context_path (queue_id_of t opts)))) ctx)"
  "get (payload_record clock t opts ctx a) ''idempotency_key'' = JStr (enqueue_key t opts)"
  "getitem (payload_record clock t opts ctx a) ''id'' = Inr (JStr (queue_id_of t opts))"
  "get (payload_record clock t opts ctx a) ''status'' = JStr ''queued''"
  by (simp_all add: payload_record_def queue_record_def queue_id_of_def)

text \<open>Loading reads what the artifacts hold under the paths of the item.\<close>

lemma load_payloads:
  fixes item :: obj
  assumes "queue_id \<noteq> []"
    and "getitem item ''task_payload_uri'' = (Inr (JStr (uri_for a (relative_path (task_path queue_id)))) :: (queue_error, json) res)"
    and "get item ''composition_context_uri'' = opt_str (map_option (\<lambda>_. uri_for a (relative_path (context_path queue_id))) ctx)"
  shows "load_task item (with_payloads queue_id task ctx a) = Inr (sorted_obj task)"
    "load_composition_context item (with_payloads queue_id task ctx a) = Inr (map_option sorted_obj ctx)"
proof -
  let ?a = "with_payloads queue_id task ctx a"
  have ne: "relative_path (task_path queue_id) \<noteq> []" "relative_path (context_path queue_id) \<noteq> []"
    using queue_paths [OF assms(1)] by simp_all
  have r1: "read_json (uri_for a (relative_path (task_path queue_id))) ?a = (Inr (JObj (sorted_obj task)) :: (queue_error, json) res)"
    using read_json_at [OF payload_lookups(1) [OF assms(1)] ne(1)] by (simp add: payload_lookups(3) [OF assms(1)])
  then show "load_task item ?a = Inr (sorted_obj task)" by (simp add: load_task_def assms(2))
  have r2: "read_json (uri_for a (relative_path (context_path queue_id))) ?a = (Inr (JObj (sorted_obj c)) :: (queue_error, json) res)"
    if "ctx = Some c" for c
    using read_json_at [OF payload_lookups(2) [OF assms(1) that] ne(2)] by (simp add: payload_lookups(3) [OF assms(1)])
  show "load_composition_context item ?a = Inr (map_option sorted_obj ctx)"
    using r2 by (cases ctx) (simp_all add: load_composition_context_def assms(3) Let_def)
qed

lemma enqueue_load:
  assumes "enqueue clock task ctx opts s = (Inr x, s')" and "small_payload (qs_artifacts s) task ctx"
    and "analyze task = (Inr t :: (queue_error, analyzed_task) res)"
    and "\<forall>item \<in> set (dict_values (st_runtime_queue_items (qs_store s))). get item ''idempotency_key'' \<noteq> JStr (enqueue_key t opts)"
  shows "get_runtime_queue_item (queue_id_of t opts) (qs_store s') = Some x \<and> get x ''status'' = JStr ''queued'' \<and>
     load_task x (qs_artifacts s') = Inr (sorted_obj task) \<and>
     load_composition_context x (qs_artifacts s') = Inr (map_option sorted_obj ctx)"
proof -
  let ?r = "payload_record clock t opts ctx (qs_artifacts s)"
  from enqueue_Inr [OF assms(1,2)] assms(3) have
    ins: "insert_runtime_queue_item ?r (qs_store s) = (Inr x :: (queue_error, obj) res, qs_store s')"
    and ar: "qs_artifacts s' = with_payloads (queue_id_of t opts) task ctx (qs_artifacts s)" by auto
  have q: "queue_id_of t opts \<noteq> []" using queue_id_slug [of t opts] by (simp add: is_slug_def)
  have none: "find (\<lambda>i. py_eq (get i ''idempotency_key'') (JStr (enqueue_key t opts)))
      (dict_values (st_runtime_queue_items (qs_store s))) = None"
    using assms(4) by (auto simp: find_None_iff)
  have i: "getitem ?r ''id'' = (Inr (JStr (queue_id_of t opts)) :: (queue_error, json) res)" by (simp add: payload_record_fields)
  have "x = ?r \<and> qs_store s' = set_queue_items (dict_set (JStr (queue_id_of t opts)) ?r (st_runtime_queue_items (qs_store s))) (qs_store s)"
    using ins unfolding insert_runtime_queue_item_def payload_record_fields(4) Let_def
    by (auto simp: none [simplified] insert_into_def put_record_def i)
  then have x: "x = ?r" "get_runtime_queue_item (queue_id_of t opts) (qs_store s') = Some x"
    by (simp_all add: get_runtime_queue_item_def dict_simps set_queue_items_def)
  show ?thesis
    using x load_payloads [OF q payload_record_fields(2,3), where task = task] ar
    by (simp add: payload_record_fields)
qed


text \<open>After an accepted enqueue of a fresh key, a later write of payloads under the same queue identifier
  changes what the item loads.\<close>

lemma overwritten_payload:
  assumes "enqueue clock task ctx opts s = (Inr x, s1)" and "small_payload (qs_artifacts s) task ctx"
    and "analyze task = (Inr t :: (queue_error, analyzed_task) res)"
    and "\<forall>item \<in> set (dict_values (st_runtime_queue_items (qs_store s))). get item ''idempotency_key'' \<noteq> JStr (enqueue_key t opts)"
  shows "load_task x (with_payloads (queue_id_of t opts) task' ctx' (qs_artifacts s1)) = Inr (sorted_obj task')"
proof -
  let ?q = "queue_id_of t opts" and ?a = "with_payloads (queue_id_of t opts) task' ctx' (qs_artifacts s1)"
  from enqueue_Inr [OF assms(1,2)] assms(3) have a1: "qs_artifacts s1 = with_payloads ?q task ctx (qs_artifacts s)"
    and ins: "insert_runtime_queue_item (payload_record clock t opts ctx (qs_artifacts s)) (qs_store s) = (Inr x :: (queue_error, obj) res, qs_store s1)"
    by auto
  have none: "find (\<lambda>i. py_eq (get i ''idempotency_key'') (JStr (enqueue_key t opts)))
      (dict_values (st_runtime_queue_items (qs_store s))) = None"
    using assms(4) by (auto simp: find_None_iff)
  have "insert_into st_runtime_queue_items set_queue_items (payload_record clock t opts ctx (qs_artifacts s)) (qs_store s)
      = (Inr x :: (queue_error, obj) res, qs_store s1)"
    using ins unfolding insert_runtime_queue_item_def payload_record_fields(4) Let_def by (simp add: none [simplified])
  then have x: "x = payload_record clock t opts ctx (qs_artifacts s)" by (blast dest: insert_into_Inr)
  have q: "?q \<noteq> []" using queue_id_slug [of t opts] by (simp add: is_slug_def)
  have "read_json (uri_for ?a (relative_path (task_path ?q))) ?a = (Inr (JObj (sorted_obj task')) :: (queue_error, json) res)"
    using payload_lookups(1) [OF q] queue_paths [OF q] by (intro read_json_at) simp_all
  then show ?thesis by (simp add: load_task_def x payload_record_fields a1 payload_lookups(3) [OF q])
qed

text \<open>Two idempotency keys that differ only in characters the slug drops share one queue identifier, and
  the second enqueue silently replaces the first item: the first request is lost.\<close>

theorem colliding_keys_lose_work:
  assumes "enqueue clock task ctx opts s = (Inr x, s1)" and "small_payload (qs_artifacts s) task ctx"
    and "enqueue clock' task' ctx' opts' s1 = (Inr y, s2)" and "small_payload (qs_artifacts s1) task' ctx'"
    and "analyze task = (Inr t :: (queue_error, analyzed_task) res)" and "analyze task' = (Inr t' :: (queue_error, analyzed_task) res)"
    and "\<forall>item \<in> set (dict_values (st_runtime_queue_items (qs_store s))). get item ''idempotency_key'' \<noteq> JStr (enqueue_key t opts)"
    and "\<forall>item \<in> set (dict_values (st_runtime_queue_items (qs_store s1))). get item ''idempotency_key'' \<noteq> JStr (enqueue_key t' opts')"
    and "queue_id_of t opts = queue_id_of t' opts'"
  shows "get_runtime_queue_item (queue_id_of t opts) (qs_store s1) = Some x \<and>
     get_runtime_queue_item (queue_id_of t opts) (qs_store s2) = Some y \<and> load_task x (qs_artifacts s2) = Inr (sorted_obj task')"
proof -
  from enqueue_Inr [OF assms(3,4)] assms(6) have
    "qs_artifacts s2 = with_payloads (queue_id_of t opts) task' ctx' (qs_artifacts s1)" by (auto simp: assms(9))
  then show ?thesis
    using enqueue_load [OF assms(1,2,5,7)] enqueue_load [OF assms(3,4,6,8)] assms(9)
      overwritten_payload [OF assms(1,2,5,7)] by simp
qed

text \<open>Repeating an enqueue is not idempotent: with a key that is already queued the stored item is
  returned, but its payload artifact has been overwritten, so the worker executes the task of the
  second request under the item of the first.\<close>

theorem repeated_enqueue_replaces_payload:
  assumes "enqueue clock task ctx opts s = (Inr x, s1)" and "small_payload (qs_artifacts s) task ctx"
    and "enqueue clock' task' ctx' opts' s1 = (Inr y, s2)" and "small_payload (qs_artifacts s1) task' ctx'"
    and "analyze task = (Inr t :: (queue_error, analyzed_task) res)" and "analyze task' = (Inr t' :: (queue_error, analyzed_task) res)"
    and "\<forall>item \<in> set (dict_values (st_runtime_queue_items (qs_store s))). get item ''idempotency_key'' \<noteq> JStr (enqueue_key t opts)"
    and "enqueue_key t opts = enqueue_key t' opts'"
  shows "y = x \<and> qs_store s2 = qs_store s1 \<and> load_task x (qs_artifacts s1) = Inr (sorted_obj task) \<and>
     load_task x (qs_artifacts s2) = Inr (sorted_obj task')"
proof -
  have q: "queue_id_of t opts = queue_id_of t' opts'" using assms(8) by (simp add: queue_id_of_def)
  from enqueue_Inr [OF assms(3,4)] assms(6) have ar: "qs_artifacts s2 = with_payloads (queue_id_of t opts) task' ctx' (qs_artifacts s1)"
    and ins2: "insert_runtime_queue_item (payload_record clock' t' opts' ctx' (qs_artifacts s1)) (qs_store s1) = (Inr y :: (queue_error, obj) res, qs_store s2)"
    by (auto simp: q)
  from enqueue_Inr [OF assms(1,2)] assms(5) have
    ins: "insert_runtime_queue_item (payload_record clock t opts ctx (qs_artifacts s)) (qs_store s) = (Inr x :: (queue_error, obj) res, qs_store s1)" by auto
  have "insert_runtime_queue_item (payload_record clock' t' opts' ctx' (qs_artifacts s1)) (qs_store s1) = (Inr x :: (queue_error, obj) res, qs_store s1)"
    using insert_item_again [OF ins payload_record_fields(4)] by (simp add: payload_record_fields assms(8))
  then show ?thesis
    using ins2 enqueue_load [OF assms(1,2,5,7)] overwritten_payload [OF assms(1,2,5,7)] by (simp add: ar)
qed


subsection \<open>Samples\<close>

definition queue_task :: "string \<Rightarrow> obj" where
  "queue_task request =
     [(''id'', JStr ''task-1''), (''request'', JStr request),
      (''context'', JObj [(''auth'', JObj [(''tenant_id'', JStr ''acme''), (''roles'', JList [JStr ''editor'']),
         (''membership_id'', JStr ''m-1'')])])]"

definition keyed :: "string \<Rightarrow> enqueue_options" where
  "keyed key = default_options\<lparr>eo_idempotency_key := Some key\<rparr>"

definition sample_system :: queue_sys where
  "sample_system = \<lparr>qs_store = empty_store, qs_artifacts = artifact_store_init [''srv''] ''hetzner://runtime'' 40 8\<rparr>"

definition first_enqueue :: "(queue_error, obj) res \<times> queue_sys" where
  "first_enqueue = enqueue (seconds 100) (queue_task ''Review the code'') None (keyed ''A 1'') sample_system"

definition queued_item :: obj where
  "queued_item = (case fst first_enqueue of Inr x \<Rightarrow> x | Inl _ \<Rightarrow> [])"

definition queued_system :: queue_sys where
  "queued_system = snd first_enqueue"

definition second_enqueue :: "string \<Rightarrow> (queue_error, obj) res \<times> queue_sys" where
  "second_enqueue key = enqueue (seconds 200) (queue_task ''Review the docs'') None (keyed key) queued_system"

lemma first_enqueue_accepted:
  "enqueue (seconds 100) (queue_task ''Review the code'') None (keyed ''A 1'') sample_system = (Inr queued_item, queued_system)"
proof -
  have "case fst first_enqueue of Inr x \<Rightarrow> True | Inl _ \<Rightarrow> False" by code_simp
  then show ?thesis
    unfolding queued_item_def queued_system_def first_enqueue_def by (auto simp: prod_eq_iff split: sum.splits)
qed

lemma queue_task_analyzed:
  "\<exists>t. analyze (queue_task ''Review the code'') = (Inr t :: (queue_error, analyzed_task) res)"
  "\<exists>t. analyze (queue_task ''Review the docs'') = (Inr t :: (queue_error, analyzed_task) res)"
proof -
  have "case (analyze (queue_task ''Review the code'') :: (queue_error, analyzed_task) res) of Inr t \<Rightarrow> True | Inl _ \<Rightarrow> False"
    "case (analyze (queue_task ''Review the docs'') :: (queue_error, analyzed_task) res) of Inr t \<Rightarrow> True | Inl _ \<Rightarrow> False"
    by code_simp+
  then show "\<exists>t. analyze (queue_task ''Review the code'') = (Inr t :: (queue_error, analyzed_task) res)"
    "\<exists>t. analyze (queue_task ''Review the docs'') = (Inr t :: (queue_error, analyzed_task) res)"
    by (auto split: sum.splits)
qed

lemma sample_payloads_small:
  "small_payload (qs_artifacts sample_system) (queue_task ''Review the code'') None"
  "small_payload (qs_artifacts queued_system) (queue_task ''Review the docs'') None"
proof -
  have "unchunked (ar_threshold (qs_artifacts sample_system)) (JObj (queue_task ''Review the code''))"
    "unchunked (ar_threshold (qs_artifacts queued_system)) (JObj (queue_task ''Review the docs''))" by code_simp+
  then show "small_payload (qs_artifacts sample_system) (queue_task ''Review the code'') None"
    "small_payload (qs_artifacts queued_system) (queue_task ''Review the docs'') None"
    by (simp_all add: small_payload_def)
qed

lemma sample_system_empty: "\<forall>item \<in> set (dict_values (st_runtime_queue_items (qs_store sample_system))). P item"
  by (simp add: sample_system_def empty_store_def)

lemma keyed_simps:
  "enqueue_key t (keyed key) = (if key = [] then at_task_id t @ '':initial'' else key)"
  "queue_id_of t (keyed key) = slug_id (if key = [] then at_task_id t @ '':initial'' else key) (Some ''queue'')"
  by (simp_all add: enqueue_key_def queue_id_of_def keyed_def default_options_def text_or_def)


theorem colliding_keys_lose_work_witness:
  "case second_enqueue ''a-1'' of
     (Inr y, s2) \<Rightarrow> load_task queued_item (qs_artifacts s2) = Inr (sorted_obj (queue_task ''Review the docs''))
   | _ \<Rightarrow> False"
proof -
  have "case fst (second_enqueue ''a-1'') of Inr y \<Rightarrow> True | Inl _ \<Rightarrow> False" by code_simp
  then obtain y where e: "second_enqueue ''a-1'' = (Inr y, snd (second_enqueue ''a-1''))"
    by (auto simp: prod_eq_iff split: sum.splits)
  have fresh: "\<forall>item \<in> set (dict_values (st_runtime_queue_items (qs_store queued_system))). get item ''idempotency_key'' \<noteq> JStr ''a-1''"
    by code_simp
  have q: "slug_id ''A 1'' (Some ''queue'') = slug_id ''a-1'' (Some ''queue'')" by code_simp
  from queue_task_analyzed obtain t t' where t: "analyze (queue_task ''Review the code'') = (Inr t :: (queue_error, analyzed_task) res)"
    and t': "analyze (queue_task ''Review the docs'') = (Inr t' :: (queue_error, analyzed_task) res)" by blast
  have "load_task queued_item (qs_artifacts (snd (second_enqueue ''a-1''))) = Inr (sorted_obj (queue_task ''Review the docs''))"
    using colliding_keys_lose_work [OF first_enqueue_accepted sample_payloads_small(1) e [unfolded second_enqueue_def]
        sample_payloads_small(2) t t' sample_system_empty] fresh q
    by (simp add: keyed_simps second_enqueue_def)
  then show ?thesis by (subst e) simp
qed

theorem repeated_enqueue_replaces_payload_witness:
  "case second_enqueue ''A 1'' of
     (Inr y, s2) \<Rightarrow> y = queued_item \<and> load_task queued_item (qs_artifacts s2) = Inr (sorted_obj (queue_task ''Review the docs''))
   | _ \<Rightarrow> False"
proof -
  have "case fst (second_enqueue ''A 1'') of Inr y \<Rightarrow> True | Inl _ \<Rightarrow> False" by code_simp
  then obtain y where e: "second_enqueue ''A 1'' = (Inr y, snd (second_enqueue ''A 1''))"
    by (auto simp: prod_eq_iff split: sum.splits)
  from queue_task_analyzed obtain t t' where t: "analyze (queue_task ''Review the code'') = (Inr t :: (queue_error, analyzed_task) res)"
    and t': "analyze (queue_task ''Review the docs'') = (Inr t' :: (queue_error, analyzed_task) res)" by blast
  have "y = queued_item \<and> load_task queued_item (qs_artifacts (snd (second_enqueue ''A 1''))) = Inr (sorted_obj (queue_task ''Review the docs''))"
    using repeated_enqueue_replaces_payload [OF first_enqueue_accepted sample_payloads_small(1) e [unfolded second_enqueue_def]
        sample_payloads_small(2) t t' sample_system_empty]
    by (simp add: keyed_simps second_enqueue_def)
  then show ?thesis by (subst e) simp
qed

end
