(* ===== verification/Queue_Lifecycle.thy ===== *)
theory Queue_Lifecycle
  imports Queue
begin

text \<open>
  The life cycle of a queue item under the queue manager of \<open>runtime/queue.py\<close>: what cancelling, failing and
  finishing an item leaves in the store.
\<close>

subsection \<open>Cancellation\<close>

lemma status_fields_lookup:
  "map_of (rev (status_fields clock status so)) ''status'' = Some (JStr (queue_status_name status))"
  "so_clear_claim so \<Longrightarrow> map_of (rev (status_fields clock status so)) ''claimed_by'' = Some JNull"
  "so_clear_claim so \<Longrightarrow> map_of (rev (status_fields clock status so)) ''claimed_until'' = Some JNull"
  "so_clear_claim so \<Longrightarrow> map_of (rev (status_fields clock status so)) ''lease_expires_at'' = Some JNull"
  "so_scheduled_at so = Some t \<Longrightarrow> map_of (rev (status_fields clock status so)) ''scheduled_at'' = Some (JStr t)"
  by (auto simp: status_fields_def when_some_def split: option.splits)

lemma update_status_stored:
  assumes "get_runtime_queue_item i (qs_store s) = Some item"
  shows "update_status clock i status so s =
     (Inr (update (status_fields clock status so) item),
      s\<lparr>qs_store := set_queue_items (dict_mod (JStr i) (update (status_fields clock status so))
          (st_runtime_queue_items (qs_store s))) (qs_store s)\<rparr>)"
  using assms
  by (simp add: update_status_def on_store_def update_runtime_queue_item_def update_in_def update_record_def
      get_runtime_queue_item_def)

lemma stored_after_mod:
  assumes "get_runtime_queue_item i st = Some item"
  shows "get_runtime_queue_item i (set_queue_items (dict_mod (JStr i) f (st_runtime_queue_items st)) st) = Some (f item)"
  using assms by (simp add: get_runtime_queue_item_def set_queue_items_def dict_simps)

lemma cancel_run_keeps:
  assumes "cancel_run at r s = (x, s')"
  shows "st_runtime_queue_items (qs_store s') = st_runtime_queue_items (qs_store s)"
    "st_runtime_run_claims (qs_store s') = st_runtime_run_claims (qs_store s)"
  using assms
  by (auto simp: cancel_run_def Let_def bindS_def readS_def on_store_def update_runtime_run_def update_in_def set_runs_def
      split: if_splits option.splits sum.splits prod.splits)

lemma release_claims_none_active:
  "c \<in> set (dict_values (st_runtime_run_claims (snd (release_runtime_queue_claims i at reason st)))) \<Longrightarrow> \<not> claim_is_active i c"
  by (auto simp: release_runtime_queue_claims_def Let_def set_claims_def claim_is_active_def
      release_fields_def get_update split: if_splits)

lemma mark_cancelled_open:
  assumes "mark_cancelled clock clock' i run s = (Inr x, s')"
    and "get_runtime_queue_item i (qs_store s) = Some item" and "getitem item ''status'' = (Inr (JStr st) :: (queue_error, json) res)"
    and "st \<noteq> ''cancelled''"
  shows "st \<notin> {''succeeded'', ''failed'', ''dead_lettered''}"
    and "\<exists>flds. x = update flds item \<and> get x ''status'' = JStr ''cancelled'' \<and> get x ''claimed_by'' = JNull \<and>
           get x ''claimed_until'' = JNull \<and> get_runtime_queue_item i (qs_store s') = Some x"
    and "\<forall>c \<in> set (dict_values (st_runtime_run_claims (qs_store s'))). \<not> claim_is_active i c"
proof -
  let ?so = "no_status_options\<lparr>so_run_id := run, so_clear_claim := True\<rparr>"
  let ?f = "update (status_fields clock' Cancelled ?so)"
  let ?s1 = "s\<lparr>qs_store := set_queue_items (dict_mod (JStr i) ?f (st_runtime_queue_items (qs_store s))) (qs_store s)\<rparr>"
  let ?s2 = "?s1\<lparr>qs_store := snd (release_runtime_queue_claims i (iso_timestamp clock) ''cancelled'' (qs_store ?s1))\<rparr>"
  show live: "st \<notin> {''succeeded'', ''failed'', ''dead_lettered''}"
    using assms by (auto simp: mark_cancelled_def bindS_def readS_def)
  have upd: "update_status clock' i Cancelled ?so s = (Inr (?f item), ?s1)" by (rule update_status_stored [OF assms(2)])
  have "\<exists>r. x = ?f item \<and> cancel_run (iso_timestamp clock) r ?s2 = (Inr (), s')"
    using assms(1) live assms(4) unfolding mark_cancelled_def assms(2) option.case
    by (simp add: bindS_def readS_def assms(3) upd Let_def split: prod.splits sum.splits) blast
  then obtain r where x: "x = ?f item" and r: "cancel_run (iso_timestamp clock) r ?s2 = (Inr (), s')" by blast
  note kept = cancel_run_keeps [OF r]
  have "get_runtime_queue_item i (qs_store s') = Some x"
    using stored_after_mod [OF assms(2), of ?f] kept(1)
    by (simp add: get_runtime_queue_item_def x release_runtime_queue_claims_def set_claims_def Let_def)
  moreover have "get x ''status'' = JStr ''cancelled''" "get x ''claimed_by'' = JNull" "get x ''claimed_until'' = JNull"
    by (simp_all add: x get_update status_fields_lookup)
  ultimately show "\<exists>flds. x = update flds item \<and> get x ''status'' = JStr ''cancelled'' \<and> get x ''claimed_by'' = JNull \<and>
      get x ''claimed_until'' = JNull \<and> get_runtime_queue_item i (qs_store s') = Some x" using x by blast
  show "\<forall>c \<in> set (dict_values (st_runtime_run_claims (qs_store s'))). \<not> claim_is_active i c"
    using release_claims_none_active kept(2) by simp
qed

text \<open>C29. Cancellation is final for the queue and only for live items: an item that already ended is refused with the
  store unchanged, a cancelled one is returned unchanged, and any other item becomes \<open>cancelled\<close>, loses its lease,
  keeps no active claim and can never be claimed again.\<close>

theorem cancellation_outcome:
  assumes "get_runtime_queue_item i (qs_store s) = Some item" and "getitem item ''status'' = (Inr (JStr st) :: (queue_error, json) res)"
  shows "(st \<in> {''succeeded'', ''failed'', ''dead_lettered''} \<longrightarrow>
            mark_cancelled clock clock' i run s = (Inl (Raise TerminalCannotCancel), s)) \<and>
     (st = ''cancelled'' \<longrightarrow> mark_cancelled clock clock' i run s = (Inr item, s)) \<and>
     (\<forall>x s'. mark_cancelled clock clock' i run s = (Inr x, s') \<and> st \<noteq> ''cancelled'' \<longrightarrow>
        get_runtime_queue_item i (qs_store s') = Some x \<and> get x ''status'' = JStr ''cancelled'' \<and>
        get x ''claimed_by'' = JNull \<and> get x ''claimed_until'' = JNull \<and> (\<forall>q. \<not> eligible q x) \<and>
        (\<forall>c \<in> set (dict_values (st_runtime_run_claims (qs_store s'))). \<not> claim_is_active i c))"
proof (intro conjI impI allI)
  show "mark_cancelled clock clock' i run s = (Inl (Raise TerminalCannotCancel), s)"
    if "st \<in> {''succeeded'', ''failed'', ''dead_lettered''}"
    using that assms by (auto simp: mark_cancelled_def bindS_def readS_def)
  show "mark_cancelled clock clock' i run s = (Inr item, s)" if "st = ''cancelled''"
    using that assms by (simp add: mark_cancelled_def bindS_def readS_def)
next
  fix x s' assume c: "mark_cancelled clock clock' i run s = (Inr x, s') \<and> st \<noteq> ''cancelled''"
  note open_case = mark_cancelled_open [OF conjunct1 [OF c] assms conjunct2 [OF c]]
  from open_case(2,3) show "get_runtime_queue_item i (qs_store s') = Some x" "get x ''status'' = JStr ''cancelled''"
    "get x ''claimed_by'' = JNull" "get x ''claimed_until'' = JNull"
    "\<forall>c \<in> set (dict_values (st_runtime_run_claims (qs_store s'))). \<not> claim_is_active i c" by auto
  from \<open>get x ''status'' = JStr ''cancelled''\<close> show "\<not> eligible q x" for q
    by (simp add: eligible_def sfield_def CLAIMABLE_STATUSES_def)
qed

definition queued_id :: string where
  "queued_id = slug_id ''A 1'' (Some ''queue'')"

definition cancelled_system :: queue_sys where
  "cancelled_system = snd (mark_cancelled (seconds 300) (seconds 300) queued_id None queued_system)"

definition cancelled_item :: obj where
  "cancelled_item = (case fst (mark_cancelled (seconds 300) (seconds 300) queued_id None queued_system) of Inr x \<Rightarrow> x | Inl _ \<Rightarrow> [])"

lemma sample_cancelled:
  "get_runtime_queue_item queued_id (qs_store queued_system) = Some queued_item"
  "getitem queued_item ''status'' = (Inr (JStr ''queued'') :: (queue_error, json) res)"
  "mark_cancelled (seconds 300) (seconds 300) queued_id None queued_system = (Inr cancelled_item, cancelled_system)"
proof -
  have "case fst (mark_cancelled (seconds 300) (seconds 300) queued_id None queued_system) of Inr x \<Rightarrow> True | Inl _ \<Rightarrow> False"
    by code_simp
  then show "mark_cancelled (seconds 300) (seconds 300) queued_id None queued_system = (Inr cancelled_item, cancelled_system)"
    unfolding cancelled_item_def cancelled_system_def by (auto simp: prod_eq_iff split: sum.splits)
  show "get_runtime_queue_item queued_id (qs_store queued_system) = Some queued_item"
    "getitem queued_item ''status'' = (Inr (JStr ''queued'') :: (queue_error, json) res)" by code_simp+
qed

theorem cancellation_outcome_witness:
  "get_runtime_queue_item queued_id (qs_store cancelled_system) = Some cancelled_item \<and> \<not> eligible sample_request cancelled_item"
  using cancellation_outcome [OF sample_cancelled(1,2), of "seconds 300" "seconds 300" None] by (simp add: sample_cancelled(3))

subsection \<open>Unguarded status changes\<close>

lemma cancelled_stored:
  assumes "mark_cancelled clock clock' i run s = (Inr x, s')"
  shows "\<exists>item. get_runtime_queue_item i (qs_store s) = Some item" and "\<exists>item. get_runtime_queue_item i (qs_store s') = Some item"
proof -
  show ex: "\<exists>item. get_runtime_queue_item i (qs_store s) = Some item"
    using assms by (auto simp: mark_cancelled_def split: option.splits)
  then obtain item where item: "get_runtime_queue_item i (qs_store s) = Some item" by blast
  show "\<exists>item. get_runtime_queue_item i (qs_store s') = Some item"
    using assms item
    by (auto simp: mark_cancelled_def bindS_cases readS_def Let_def update_status_stored [OF item]
        dest!: cancel_run_keeps(1)
        simp: get_runtime_queue_item_def release_runtime_queue_claims_def set_claims_def set_queue_items_def dict_simps
        split: if_splits)
qed

text \<open>A cancellation can be undone by the worker: status changes are not guarded by the current status, so marking
  the item as running after it was cancelled (a cancellation between the claim and the start of the run) makes it a
  running item again, and the cancellation check of the run no longer sees it.\<close>

theorem cancellation_lost_by_start:
  assumes "mark_cancelled clock clock' i run s = (Inr x, s1)"
  shows "\<exists>y s2. mark_running clock'' i run_id attempt_id s1 = (Inr y, s2) \<and> get_runtime_queue_item i (qs_store s2) = Some y \<and>
     get y ''status'' = JStr ''running'' \<and> \<not> queue_item_is_cancelled i (qs_store s2)"
proof -
  from cancelled_stored(2) [OF assms] obtain item where item: "get_runtime_queue_item i (qs_store s1) = Some item" by blast
  show ?thesis
    unfolding mark_running_def update_status_stored [OF item]
    by (simp add: stored_after_mod [OF item] queue_item_is_cancelled_def get_update status_fields_lookup)
qed

theorem cancellation_lost_by_start_witness:
  "\<exists>y s2. mark_running (seconds 400) queued_id ''run-1'' None cancelled_system = (Inr y, s2) \<and>
     get y ''status'' = JStr ''running'' \<and> queue_item_is_cancelled queued_id (qs_store cancelled_system) \<and>
     \<not> queue_item_is_cancelled queued_id (qs_store s2)"
proof -
  have "queue_item_is_cancelled queued_id (qs_store cancelled_system)" by code_simp
  then show ?thesis using cancellation_lost_by_start [OF sample_cancelled(3)] by blast
qed

subsection \<open>Failures\<close>

lemma retry_delay_bounds:
  assumes "\<And>seed n. n > 0 \<Longrightarrow> 0 \<le> randint seed n \<and> randint seed n \<le> n"
  shows "qc_retry_delay_seconds config * qc_retry_backoff_multiplier config ^ nat (attempts - 1) \<le> retry_delay randint config i attempts"
    and "retry_delay randint config i attempts
       \<le> qc_retry_delay_seconds config * qc_retry_backoff_multiplier config ^ nat (attempts - 1) + max 0 (qc_retry_jitter_seconds config)"
proof -
  have "nat (max (attempts - 1) 0) = nat (attempts - 1)" by simp
  then show "qc_retry_delay_seconds config * qc_retry_backoff_multiplier config ^ nat (attempts - 1) \<le> retry_delay randint config i attempts"
    "retry_delay randint config i attempts
       \<le> qc_retry_delay_seconds config * qc_retry_backoff_multiplier config ^ nat (attempts - 1) + max 0 (qc_retry_jitter_seconds config)"
    using assms [of "qc_retry_jitter_seconds config" i] by (auto simp: retry_delay_def)
qed



end
