(* ===== verification/Quotas.thy ===== *)
theory Quotas
  imports Flight_Recorder
begin

text \<open>
  \<open>runtime/quotas.py\<close>: reservations of tokens and tool calls per tenant and minute. The readings of the clock are
  numbered by the statement that takes them: the quota window, the event of a refused token request, the event of a
  refused tool-call request, the reservation record and the event of the reservation.
\<close>

subsection \<open>Operations\<close>

datatype quota_error = QuotaExceeded string

record quota_config =
  uc_tenant_token_limits_per_minute :: "(string \<times> int) list"
  uc_tenant_tool_call_limits_per_minute :: "(string \<times> int) list"

type_synonym 'a quo = "(quota_error, 'a) sys"

definition used_quota :: "string \<Rightarrow> string \<Rightarrow> string \<Rightarrow> store \<Rightarrow> (quota_error, int) res" where
  "used_quota tenant quota_window field s =
     foldR (\<lambda>r used.
       bindR (andR (Inr (get r ''tenant_id'' = JStr tenant))
             (andR (Inr (get r ''quota_window'' = JStr quota_window))
                   (in_strings (get r ''status'') [''reserved'', ''finalized'']))) (\<lambda>counted.
       if counted then bindR (py_int (get_or r field (JInt 0))) (\<lambda>n. Inr (used + n)) else Inr used))
       (dict_values (st_runtime_quota_reservations s)) 0"

definition assert_within_limit ::
  "datetime \<Rightarrow> string \<Rightarrow> string \<Rightarrow> string \<Rightarrow> int \<Rightarrow> int option \<Rightarrow> string \<Rightarrow> string \<Rightarrow> unit quo" where
  "assert_within_limit clock tenant quota_window field requested limit run_id stop_reason =
     (case limit of
        None \<Rightarrow> retS ()
      | Some l \<Rightarrow>
          bindS (readS (\<lambda>s. used_quota tenant quota_window field (qs_store s))) (\<lambda>used.
          if used + requested \<le> l then retS ()
          else bindS (record_event clock run_id
                 ((event_call_of ''quota_exhausted'' ''quota_manager'')
                    \<lparr>ev_result := JObj [(''tenant_id'', JStr tenant), (''quota_window'', JStr quota_window), (''field'', JStr field),
                       (''requested'', JInt requested), (''used'', JInt used), (''limit'', JInt l)],
                     ev_stop_reason := Some stop_reason\<rparr>)) (\<lambda>_.
               liftS (Inl (Raise (QuotaExceeded stop_reason))))))"

definition limit_amount :: "obj \<Rightarrow> string \<Rightarrow> (quota_error, int) res" where
  "limit_amount profile k =
     (case as_obj (get_or profile ''limits'' (JObj [])) of None \<Rightarrow> Inr 0 | Some limits \<Rightarrow> py_int (get_or limits k (JInt 0)))"

definition quota_window_of :: "datetime \<Rightarrow> string" where
  "quota_window_of clock = take 16 (iso_timestamp clock)"

definition reservation_record ::
  "datetime \<Rightarrow> string \<Rightarrow> string \<Rightarrow> string \<Rightarrow> string \<Rightarrow> int \<Rightarrow> int \<Rightarrow> obj" where
  "reservation_record clock queue_id run_id tenant quota_window tokens tool_calls =
     [(''id'', JStr (slug_id (queue_id @ ''-'' @ run_id @ ''-'' @ quota_window) (Some ''quota''))),
      (''queue_id'', JStr queue_id), (''run_id'', JStr run_id), (''tenant_id'', JStr tenant),
      (''quota_window'', JStr quota_window), (''reserved_tokens'', JInt tokens), (''reserved_tool_calls'', JInt tool_calls),
      (''status'', JStr ''reserved''), (''created_at'', JStr (iso_timestamp clock)), (''finalized_at'', JNull)]"

definition reserve :: "(nat \<Rightarrow> datetime) \<Rightarrow> string \<Rightarrow> string \<Rightarrow> string \<Rightarrow> obj \<Rightarrow> quota_config \<Rightarrow> obj quo" where
  "reserve clock queue_id run_id tenant profile config =
     bindS (liftS (limit_amount profile ''max_tokens'')) (\<lambda>tokens.
     bindS (liftS (limit_amount profile ''max_tool_calls'')) (\<lambda>tool_calls.
     let quota_window = quota_window_of (clock 0) in
     bindS (assert_within_limit (clock 1) tenant quota_window ''reserved_tokens'' tokens
              (map_of (uc_tenant_token_limits_per_minute config) tenant) run_id ''max_tokens'') (\<lambda>_.
     bindS (assert_within_limit (clock 2) tenant quota_window ''reserved_tool_calls'' tool_calls
              (map_of (uc_tenant_tool_call_limits_per_minute config) tenant) run_id ''max_tool_calls'') (\<lambda>_.
     bindS (on_store (insert_runtime_quota_reservation
              (reservation_record (clock 3) queue_id run_id tenant quota_window tokens tool_calls))) (\<lambda>reservation.
     bindS (record_event (clock 4) run_id
              ((event_call_of ''quota_reserved'' ''quota_manager'')
                 \<lparr>ev_result := JObj [(''tenant_id'', JStr tenant), (''quota_window'', JStr quota_window),
                    (''reserved_tokens'', JInt tokens), (''reserved_tool_calls'', JInt tool_calls)]\<rparr>)) (\<lambda>_.
     retS reservation))))))"

definition settle :: "string \<Rightarrow> datetime \<Rightarrow> string \<Rightarrow> obj quo" where
  "settle status clock reservation_id =
     on_store (update_runtime_quota_reservation reservation_id
       [(''status'', JStr status), (''finalized_at'', JStr (iso_timestamp clock))])"

definition finalize :: "datetime \<Rightarrow> string \<Rightarrow> obj quo" where
  "finalize = settle ''finalized''"

definition refund :: "datetime \<Rightarrow> string \<Rightarrow> obj quo" where
  "refund = settle ''refunded''"

subsection \<open>Quota in use\<close>

definition counted :: "string \<Rightarrow> string \<Rightarrow> obj \<Rightarrow> bool" where
  "counted tenant quota_window r \<longleftrightarrow> get r ''tenant_id'' = JStr tenant \<and> get r ''quota_window'' = JStr quota_window \<and>
     sfield r ''status'' \<in> {''reserved'', ''finalized''}"

definition amount :: "string \<Rightarrow> string \<Rightarrow> string \<Rightarrow> obj \<Rightarrow> int" where
  "amount tenant quota_window field r = (if counted tenant quota_window r then ifield r field else 0)"

definition in_use :: "string \<Rightarrow> string \<Rightarrow> string \<Rightarrow> store \<Rightarrow> int" where
  "in_use tenant quota_window field s =
     sum_list (map (amount tenant quota_window field) (dict_values (st_runtime_quota_reservations s)))"

definition quota_fields :: "string list" where
  "quota_fields = [''reserved_tokens'', ''reserved_tool_calls'']"

definition reservation_wf :: "obj \<Rightarrow> bool" where
  "reservation_wf r \<longleftrightarrow> has_text r ''status'' \<and> (\<forall>field \<in> set quota_fields. has_int r field \<and> 0 \<le> ifield r field)"

definition reservations_wf :: "store \<Rightarrow> bool" where
  "reservations_wf s \<longleftrightarrow> (\<forall>r \<in> set (dict_values (st_runtime_quota_reservations s)). reservation_wf r)"

lemma used_quota_in_use:
  assumes "reservations_wf s" and "field \<in> set quota_fields"
  shows "used_quota tenant w field s = Inr (in_use tenant w field s)"
proof -
  have "foldR (\<lambda>r used. bindR (andR (Inr (get r ''tenant_id'' = JStr tenant))
             (andR (Inr (get r ''quota_window'' = JStr w)) (in_strings (get r ''status'') [''reserved'', ''finalized'']))) (\<lambda>counted.
       if counted then bindR (py_int (get_or r field (JInt 0))) (\<lambda>n. Inr (used + n)) else Inr used)) rs u
     = (Inr (u + sum_list (map (amount tenant w field) rs)) :: (quota_error, int) res)" if "\<forall>r \<in> set rs. reservation_wf r" for rs u
    using that
  proof (induction rs arbitrary: u)
    case (Cons r rs)
    then have "get r ''status'' = JStr (sfield r ''status'')" "get_or r field (JInt 0) = JInt (ifield r field)"
      using assms(2) by (auto simp: reservation_wf_def has_text_def has_int_def get_def get_or_def)
    with Cons show ?case by (auto simp: amount_def counted_def)
  qed simp
  then show ?thesis using assms(1) by (simp add: used_quota_def in_use_def reservations_wf_def)
qed

lemma sum_dict_set_le:
  fixes g :: "obj \<Rightarrow> int"
  assumes "\<forall>v \<in> set (dict_values d). 0 \<le> g v"
  shows "sum_list (map g (dict_values (dict_set k v d))) \<le> sum_list (map g (dict_values d)) + g v"
  using assms by (induction k v d rule: dict_set.induct) auto

lemma sum_dict_mod_le:
  fixes g :: "obj \<Rightarrow> int"
  assumes "\<forall>kv \<in> set d. fst kv = k \<longrightarrow> g (f (snd kv)) \<le> g (snd kv)"
  shows "sum_list (map g (dict_values (dict_mod k f d))) \<le> sum_list (map g (dict_values d))"
  using assms unfolding dict_mod_def by (induction d) (auto intro: add_mono)

lemma amount_nonneg: "reservation_wf r \<Longrightarrow> field \<in> set quota_fields \<Longrightarrow> 0 \<le> amount tenant w field r"
  by (auto simp: amount_def reservation_wf_def)

lemma event_keeps_reservations:
  assumes "record_event clock run_id c s = (x, s')"
  shows "st_runtime_quota_reservations (qs_store s') = st_runtime_quota_reservations (qs_store s)"
  using record_event_effect [OF assms]
  by (auto simp: event_effect_def allocate_runtime_event_index_def bindS_cases)

lemma assert_within_limit_cases:
  assumes "assert_within_limit clock tenant w field requested limit run_id stop s = (x, s')"
  shows "st_runtime_quota_reservations (qs_store s') = st_runtime_quota_reservations (qs_store s)"
    and "x = Inr () \<Longrightarrow> limit = Some l \<Longrightarrow> \<exists>used. used_quota tenant w field (qs_store s) = Inr used \<and> used + requested \<le> l"
  using assms
  by (auto simp: assert_within_limit_def bindS_cases dest: event_keeps_reservations split: option.splits if_splits)

definition admitted :: "quota_config \<Rightarrow> string \<Rightarrow> string \<Rightarrow> int \<Rightarrow> int \<Rightarrow> store \<Rightarrow> bool" where
  "admitted config tenant w tokens tool_calls s \<longleftrightarrow>
     (\<forall>l. map_of (uc_tenant_token_limits_per_minute config) tenant = Some l \<longrightarrow>
        (\<exists>u. used_quota tenant w ''reserved_tokens'' s = Inr u \<and> u + tokens \<le> l)) \<and>
     (\<forall>l. map_of (uc_tenant_tool_call_limits_per_minute config) tenant = Some l \<longrightarrow>
        (\<exists>u. used_quota tenant w ''reserved_tool_calls'' s = Inr u \<and> u + tool_calls \<le> l))"

lemma used_quota_cong:
  "st_runtime_quota_reservations s = st_runtime_quota_reservations s' \<Longrightarrow> used_quota t w f s = used_quota t w f s'"
  by (simp add: used_quota_def)

lemma reserve_effect:
  assumes "reserve clock queue_id run_id tenant profile config s = (x, s')"
  shows "st_runtime_quota_reservations (qs_store s') = st_runtime_quota_reservations (qs_store s) \<or>
     (\<exists>tokens tool_calls. limit_amount profile ''max_tokens'' = Inr tokens \<and> limit_amount profile ''max_tool_calls'' = Inr tool_calls \<and>
        admitted config tenant (quota_window_of (clock 0)) tokens tool_calls (qs_store s) \<and>
        (\<exists>r. r = reservation_record (clock 3) queue_id run_id tenant (quota_window_of (clock 0)) tokens tool_calls \<and>
         st_runtime_quota_reservations (qs_store s') = dict_set (get r ''id'') r (st_runtime_quota_reservations (qs_store s))))"
  using assms unfolding reserve_def Let_def
proof (elim bind_lift)
  let ?w = "quota_window_of (clock 0)"
  fix tokens tool_calls
  let ?r = "reservation_record (clock 3) queue_id run_id tenant ?w tokens tool_calls"
  assume amounts: "limit_amount profile ''max_tokens'' = Inr tokens" "limit_amount profile ''max_tool_calls'' = Inr tool_calls"
  assume run: "bindS (assert_within_limit (clock 1) tenant ?w ''reserved_tokens'' tokens
              (map_of (uc_tenant_token_limits_per_minute config) tenant) run_id ''max_tokens'') (\<lambda>_.
     bindS (assert_within_limit (clock 2) tenant ?w ''reserved_tool_calls'' tool_calls
              (map_of (uc_tenant_tool_call_limits_per_minute config) tenant) run_id ''max_tool_calls'') (\<lambda>_.
     bindS (on_store (insert_runtime_quota_reservation ?r)) (\<lambda>reservation.
     bindS (record_event (clock 4) run_id ((event_call_of ''quota_reserved'' ''quota_manager'')
                 \<lparr>ev_result := JObj [(''tenant_id'', JStr tenant), (''quota_window'', JStr ?w),
                    (''reserved_tokens'', JInt tokens), (''reserved_tool_calls'', JInt tool_calls)]\<rparr>)) (\<lambda>_.
     retS reservation)))) s = (x, s')"
  have put: "insert_runtime_quota_reservation ?r st = (y, st') \<Longrightarrow>
      st_runtime_quota_reservations st' = dict_set (get ?r ''id'') ?r (st_runtime_quota_reservations st)" for st st' and y :: "(quota_error, obj) res"
    by (auto simp: insert_runtime_quota_reservation_def insert_into_def put_record_def set_quota_reservations_def reservation_record_def)
  let ?first = "assert_within_limit (clock 1) tenant ?w ''reserved_tokens'' tokens
          (map_of (uc_tenant_token_limits_per_minute config) tenant) run_id ''max_tokens''"
  let ?second = "assert_within_limit (clock 2) tenant ?w ''reserved_tool_calls'' tool_calls
          (map_of (uc_tenant_tool_call_limits_per_minute config) tenant) run_id ''max_tool_calls''"
  from bindS_cases [THEN iffD1, OF run]
  consider (refused) e where "?first s = (Inl e, s')"
    | (refused2) s1 e where "?first s = (Inr (), s1)" "?second s1 = (Inl e, s')"
    | (both) s1 s2 where "?first s = (Inr (), s1)" "?second s1 = (Inr (), s2)"
        "bindS (on_store (insert_runtime_quota_reservation ?r)) (\<lambda>reservation.
          bindS (record_event (clock 4) run_id ((event_call_of ''quota_reserved'' ''quota_manager'')
                 \<lparr>ev_result := JObj [(''tenant_id'', JStr tenant), (''quota_window'', JStr ?w),
                    (''reserved_tokens'', JInt tokens), (''reserved_tool_calls'', JInt tool_calls)]\<rparr>)) (\<lambda>_.
          retS reservation)) s2 = (x, s')"
    by (auto simp: bindS_cases [of ?second])
  then show ?thesis
  proof cases
    case refused
    from assert_within_limit_cases(1) [OF this] show ?thesis by simp
  next
    case refused2
    from assert_within_limit_cases(1) [OF refused2(1)] assert_within_limit_cases(1) [OF refused2(2)] show ?thesis by simp
  next
    case both
    have stored: "st_runtime_quota_reservations (qs_store s') = dict_set (get ?r ''id'') ?r (st_runtime_quota_reservations (qs_store s2))"
      using both(3) by (elim bind_on_store) (auto simp: bindS_cases dest!: put event_keeps_reservations)
    have kept: "st_runtime_quota_reservations (qs_store s1) = st_runtime_quota_reservations (qs_store s)"
      "st_runtime_quota_reservations (qs_store s2) = st_runtime_quota_reservations (qs_store s)"
      using assert_within_limit_cases(1) [OF both(1)] assert_within_limit_cases(1) [OF both(2)] by simp_all
    have "admitted config tenant ?w tokens tool_calls (qs_store s)"
      using assert_within_limit_cases(2) [OF both(1) refl] assert_within_limit_cases(2) [OF both(2) refl]
        used_quota_cong [OF kept(1)] by (simp add: admitted_def)
    with amounts stored kept(2) show ?thesis by auto
  qed
qed auto

subsection \<open>Limits hold\<close>

text \<open>Reservations under a fixed configuration, by profiles with non-negative budgets; a reservation is finalized
  only while it is reserved, as the worker does.\<close>

inductive quota_step :: "quota_config \<Rightarrow> runtime_sys \<Rightarrow> runtime_sys \<Rightarrow> bool" for config where
  reserving: "reserve clock queue_id run_id tenant profile config s = (x, s') \<Longrightarrow>
    (\<And>k n. limit_amount profile k = Inr n \<Longrightarrow> 0 \<le> n) \<Longrightarrow> quota_step config s s'"
| finalizing: "finalize clock i s = (x, s') \<Longrightarrow>
    (\<And>r. (JStr i, r) \<in> set (st_runtime_quota_reservations (qs_store s)) \<Longrightarrow> sfield r ''status'' = ''reserved'') \<Longrightarrow> quota_step config s s'"
| refunding: "refund clock i s = (x, s') \<Longrightarrow> quota_step config s s'"

definition within_quota :: "(string \<times> int) list \<Rightarrow> string \<Rightarrow> store \<Rightarrow> bool" where
  "within_quota limits field s \<longleftrightarrow> (\<forall>tenant w l. map_of limits tenant = Some l \<longrightarrow> in_use tenant w field s \<le> max 0 l)"

definition quota_invariant :: "quota_config \<Rightarrow> store \<Rightarrow> bool" where
  "quota_invariant config s \<longleftrightarrow> reservations_wf s \<and>
     within_quota (uc_tenant_token_limits_per_minute config) ''reserved_tokens'' s \<and>
     within_quota (uc_tenant_tool_call_limits_per_minute config) ''reserved_tool_calls'' s"

lemma in_use_le:
  "(\<And>tenant w. in_use tenant w f s' \<le> in_use tenant w f s) \<Longrightarrow> within_quota L f s \<Longrightarrow> within_quota L f s'"
  unfolding within_quota_def by (meson order_trans)

lemma settle_keeps:
  assumes "settle status clock i s = (x, s')" and "reservations_wf (qs_store s)" and "status \<notin> {''reserved'', ''finalized''} \<or>
      (\<forall>r. (JStr i, r) \<in> set (st_runtime_quota_reservations (qs_store s)) \<longrightarrow> sfield r ''status'' = ''reserved'')"
    and "field \<in> set quota_fields"
  shows "reservations_wf (qs_store s')" and "in_use tenant w field (qs_store s') \<le> in_use tenant w field (qs_store s)"
proof -
  let ?flds = "[(''status'', JStr status), (''finalized_at'', JStr (iso_timestamp clock))]"
  let ?d = "st_runtime_quota_reservations (qs_store s)"
  have d: "st_runtime_quota_reservations (qs_store s') = ?d \<or> st_runtime_quota_reservations (qs_store s') = dict_mod (JStr i) (update ?flds) ?d"
    using assms(1) by (auto simp: settle_def on_store_def update_runtime_quota_reservation_def update_in_def update_record_def
        set_quota_reservations_def split: prod.splits sum.splits option.splits)
  have wf: "reservation_wf (update ?flds r)" if "reservation_wf r" for r
    using that by (auto simp: reservation_wf_def field_updates quota_fields_def)
  show "reservations_wf (qs_store s')" using d assms(2) wf by (fastforce simp: reservations_wf_def dict_mod_def)
  have "amount tenant w field (update ?flds r) \<le> amount tenant w field r" if "(JStr i, r) \<in> set ?d" for r
  proof -
    have "0 \<le> amount tenant w field r" using amount_nonneg assms(2,4) that by (force simp: reservations_wf_def)
    moreover have "field \<noteq> ''status''" "field \<noteq> ''finalized_at''" using assms(4) by (auto simp: quota_fields_def)
    ultimately show ?thesis using assms(3) that
      by (auto simp: amount_def counted_def get_update field_updates)
  qed
  then have "in_use tenant w field (qs_store s') \<le> in_use tenant w field (qs_store s)"
    if "st_runtime_quota_reservations (qs_store s') = dict_mod (JStr i) (update ?flds) ?d"
    unfolding in_use_def that by (intro sum_dict_mod_le) auto
  then show "in_use tenant w field (qs_store s') \<le> in_use tenant w field (qs_store s)" using d by (auto simp: in_use_def)
qed

lemma reservation_record_facts:
  assumes "r = reservation_record clock queue_id run_id tenant w tokens tool_calls"
  shows "0 \<le> tokens \<Longrightarrow> 0 \<le> tool_calls \<Longrightarrow> reservation_wf r"
    "amount t w' ''reserved_tokens'' r = (if t = tenant \<and> w' = w then tokens else 0)"
    "amount t w' ''reserved_tool_calls'' r = (if t = tenant \<and> w' = w then tool_calls else 0)"
  by (auto simp: assms reservation_record_def reservation_wf_def has_text_iff has_int_iff ifield_def sfield_def quota_fields_def
      amount_def counted_def)

lemma reserved_within:
  assumes "reservations_wf s" and "st_runtime_quota_reservations s' = dict_set k r (st_runtime_quota_reservations s)"
    and "field \<in> set quota_fields" and "within_quota L field s"
    and "\<And>t w'. amount t w' field r = (if t = tenant \<and> w' = w then n else 0)"
    and "\<And>l. map_of L tenant = Some l \<Longrightarrow> \<exists>u. used_quota tenant w field s = Inr u \<and> u + n \<le> l"
  shows "within_quota L field s'"
  unfolding within_quota_def
proof (intro allI impI)
  fix t w' l assume l: "map_of L t = Some l"
  have le: "in_use t w' field s' \<le> in_use t w' field s + amount t w' field r"
    unfolding in_use_def assms(2)
    using assms(1) amount_nonneg [OF _ assms(3)] by (intro sum_dict_set_le) (auto simp: reservations_wf_def)
  show "in_use t w' field s' \<le> max 0 l"
  proof (cases "t = tenant \<and> w' = w")
    case True
    with l assms(6) have "in_use t w' field s + n \<le> l" using used_quota_in_use [OF assms(1,3)] by auto
    then show ?thesis using le assms(5) True by simp
  next
    case False
    then have "amount t w' field r = 0" using assms(5) by auto
    moreover have "in_use t w' field s \<le> max 0 l" using assms(4) l unfolding within_quota_def by blast
    ultimately show ?thesis using le by linarith
  qed
qed

lemma quota_step_invariant:
  assumes "quota_step config s s'" and inv: "quota_invariant config (qs_store s)"
  shows "quota_invariant config (qs_store s')"
proof -
  have wf: "reservations_wf (qs_store s)" using inv by (simp add: quota_invariant_def)
  have settled: ?thesis if "settle status clock i s = (x, s')" "status \<notin> {''reserved'', ''finalized''} \<or>
      (\<forall>r. (JStr i, r) \<in> set (st_runtime_quota_reservations (qs_store s)) \<longrightarrow> sfield r ''status'' = ''reserved'')" for status clock i x
  proof -
    have f: "''reserved_tokens'' \<in> set quota_fields" "''reserved_tool_calls'' \<in> set quota_fields" by (simp_all add: quota_fields_def)
    note kept = settle_keeps [OF that(1) wf that(2)]
    show ?thesis using inv kept(1) [OF f(1)] in_use_le [OF kept(2) [OF f(1)]] in_use_le [OF kept(2) [OF f(2)]]
      by (simp add: quota_invariant_def)
  qed
  from assms(1) show ?thesis
  proof cases
    case (reserving clock queue_id run_id tenant profile x)
    from reserve_effect [OF reserving(1)] show ?thesis
    proof (elim disjE exE conjE)
      assume "st_runtime_quota_reservations (qs_store s') = st_runtime_quota_reservations (qs_store s)"
      then show ?thesis using inv by (simp add: quota_invariant_def within_quota_def reservations_wf_def in_use_def)
    next
      fix tokens tool_calls r
      assume amounts: "limit_amount profile ''max_tokens'' = Inr tokens" "limit_amount profile ''max_tool_calls'' = Inr tool_calls"
        and adm: "admitted config tenant (quota_window_of (clock 0)) tokens tool_calls (qs_store s)"
        and r: "r = reservation_record (clock 3) queue_id run_id tenant (quota_window_of (clock 0)) tokens tool_calls"
        and d: "st_runtime_quota_reservations (qs_store s') = dict_set (get r ''id'') r (st_runtime_quota_reservations (qs_store s))"
      note facts = reservation_record_facts [OF r]
      have "reservation_wf r" using facts(1) reserving(2) amounts by blast
      then have "reservations_wf (qs_store s')" using wf unfolding reservations_wf_def d by (blast dest: dict_values_set_cases)
      moreover have "within_quota (uc_tenant_token_limits_per_minute config) ''reserved_tokens'' (qs_store s')"
        "within_quota (uc_tenant_tool_call_limits_per_minute config) ''reserved_tool_calls'' (qs_store s')"
        using reserved_within [OF wf d _ _ facts(2)] reserved_within [OF wf d _ _ facts(3)] inv adm
        by (auto simp: quota_invariant_def quota_fields_def admitted_def)
      ultimately show ?thesis by (simp add: quota_invariant_def)
    qed
  next
    case (finalizing clock i x)
    then show ?thesis using settled by (auto simp: finalize_def)
  next
    case (refunding clock i x)
    then show ?thesis using settled by (auto simp: refund_def)
  qed
qed

interpretation quota_limits: invariant_system "\<lambda>s. qs_store s = empty_store" "quota_step config" "\<lambda>s. quota_invariant config (qs_store s)"
  for config
proof
  show "quota_invariant config (qs_store s)" if "qs_store s = empty_store" for s
    using that by (simp add: quota_invariant_def reservations_wf_def within_quota_def in_use_def empty_store_def)
qed (rule quota_step_invariant)


definition sample_quota :: quota_config where
  "sample_quota = \<lparr>uc_tenant_token_limits_per_minute = [(''acme'', 100)], uc_tenant_tool_call_limits_per_minute = []\<rparr>"

definition quota_profile :: obj where
  "quota_profile = [(''limits'', JObj [(''max_tokens'', JInt 60), (''max_tool_calls'', JInt 2)])]"

definition reserve_once :: "string \<Rightarrow> runtime_sys \<Rightarrow> (quota_error, obj) res \<times> runtime_sys" where
  "reserve_once run = reserve (\<lambda>_. seconds 9) ''q-1'' run ''acme'' quota_profile sample_quota"

definition reserved_twice :: runtime_sys where
  "reserved_twice = snd (reserve_once ''run-2'' (snd (reserve_once ''run-1'' empty_system)))"


end
