(* ===== verification/Queue_Worker.thy ===== *)
theory Queue_Worker
  imports Run_Outcome Queue_Lifecycle Quotas
begin

text \<open>
  The worker of \<open>runtime/queue.py\<close>: one claimed item is loaded, started, charged to the tenant's quota, run, and settled.
  An exception of the classes that \<open>process_one\<close> names settles the item as failed; every other one escapes and leaves the
  item to the recovery of stale claims. The control-plane client, the tool adapters and the hash are parameters.
\<close>

subsection \<open>Errors and their texts\<close>

datatype worker_error =
    QueueFailed queue_error
  | QuotaFailed quota_error
  | EntryFailed entry_error
  | RunFailed loop_error

fun access_message :: "tenant_access_error \<Rightarrow> string" where
  "access_message AuthorityRequired = ''Tenant authority is required for tenant-scoped profiles.''"
| "access_message TenantMismatch = ''Tenant authority does not match the analyzed tenant.''"
| "access_message AreaMismatch = ''Tenant authority does not match the analyzed area.''"
| "access_message HostnameAuthorityRequired = ''Tenant hostname authority is required.''"
| "access_message HostnameCrossesTenant = ''Tenant hostname authority crosses tenant boundary.''"
| "access_message HostnameRequired = ''Tenant hostname is required for tenant-scoped profiles.''"
| "access_message HostnameMismatch = ''Tenant hostname authority does not match auth claims.''"
| "access_message TenantNotActive = ''Tenant is not active for runtime composition.''"
| "access_message DirectUserGrants = ''Direct user grants are not allowed for tenant profiles.''"
| "access_message MembershipRequired = ''Tenant membership is required for tenant-scoped profiles.''"
| "access_message MembershipIdRequired = ''Tenant membership id is required for tenant-scoped profiles.''"
| "access_message MembershipMismatch = ''Tenant membership does not match the analyzed task.''"
| "access_message MembershipCrossesTenant = ''Tenant membership crosses tenant boundary.''"
| "access_message PrincipalMismatch = ''Tenant membership principal does not match auth claims.''"
| "access_message MembershipNotActive = ''Tenant membership is not active.''"
| "access_message (RolesNotGranted rs) = ''Tenant roles are not granted by the active membership: '' @ join '', '' rs"
| "access_message RoleBundlesNotList = ''Tenant role bundles must be a list.''"
| "access_message (RolesNotPresent rs) = ''Tenant roles are not present in tenant authority: '' @ join '', '' rs"
| "access_message RoleCrossesTenant = ''Tenant role bundle crosses tenant boundary.''"
| "access_message DataSourcesNotList = ''Tenant data sources must be a list.''"
| "access_message GrantCrossesTenant = ''Tenant role data-source grant crosses tenant boundary.''"
| "access_message (CapabilitiesNotDerived cs) = ''Requested capabilities are not derived from tenant roles: '' @ join '', '' cs"
| "access_message (DataSourcesNotDerived ds) = ''Requested data sources are not derived from tenant roles: '' @ join '', '' ds"
| "access_message DerivationMissing = ''Tenant role bundle is missing runtime module derivation.''"
| "access_message (ModulesNotAllowed field ms) = ''Selected '' @ field @ '' are not allowed by tenant roles: '' @ join '', '' ms"
| "access_message (InstructionsNotAllowed is) = ''Selected instructions are not allowed by tenant runtime baseline: '' @ join '', '' is"

fun composition_message :: "composition_error \<Rightarrow> string" where
  "composition_message (MissingInputs ms) = ''Cannot compose profile; missing required inputs: '' @ join '', '' ms @ ''.''"
| "composition_message (StatusNotReady status) = ''Control Plane composition status is not ready: '' @ py_str status @ ''.''"
| "composition_message GraphValidationMissing = ''Control Plane response is missing graph validation.''"
| "composition_message (GraphValidationFailed es) =
     (if es \<noteq> [] then ''Control Plane graph validation failed: '' @ join ''; '' es else ''Control Plane graph validation failed.'')"
| "composition_message NoCandidates = ''Control Plane returned no candidate modules.''"
| "composition_message MemoryForKnowledge = ''Memory scopes cannot substitute for knowledge scopes on research or retrieval tasks.''"
| "composition_message (CandidateDenied name effect) = ''Candidate module '' @ py_str name @ '' is not policy-allowed: '' @ py_str effect @ ''.''"
| "composition_message (composition_error.ToolDenied name effect) =
     ''Selected tool '' @ py_str name @ '' is not policy-allowed: '' @ py_str (if truthy effect then effect else JStr ''missing'') @ ''.''"
| "composition_message NoPolicies = ''Control Plane returned no applicable policies.''"
| "composition_message (InvalidRuntimeRole name role) =
     ''Invalid runtime_role for skill module '' @ name @ '': '' @ role @ ''. Expected one of: '' @ join '', '' (sort SKILL_RUNTIME_ROLES) @ ''.''"
| "composition_message (NoVersionPin name) = ''No version pin is available for selected module: '' @ name @ ''.''"
| "composition_message BadGeneration = ''profile_generation must be greater than zero.''"
| "composition_message InitialTraceability = ''Initial profiles cannot include recomposition traceability.''"
| "composition_message RecompositionIncomplete = ''Recomposed profiles require parent_profile_id and recomposition_reason.''"
| "composition_message (BadReason reason) =
     ''recomposition_reason must be one of: '' @ join '', '' (sort RECOMPOSITION_REASONS) @ ''. Got: '' @ reason @ ''.''"
| "composition_message (AccessDenied e) = access_message e"
| "composition_message SnapshotAuthorityRequired = ''Tenant authority is required for tenant-scoped profiles.''"

fun status_message :: "tenant_status_error \<Rightarrow> string" where
  "status_message StatusAuthorityRequired = ''Tenant authority is required for runtime execution.''"
| "status_message StatusTenantMismatch = ''Tenant authority does not match the runtime task tenant.''"
| "status_message StatusAreaMismatch = ''Tenant authority does not match the runtime task area.''"
| "status_message StatusNotActive = ''Tenant is not active for runtime execution.''"

fun queue_message :: "queue_error \<Rightarrow> string" where
  "queue_message NeedsTenant = ''Runtime queue items require an explicit tenant_id.''"
| "queue_message TenantDisabled = ''Disabled or archived tenants cannot enqueue runtime work.''"
| "queue_message BacklogExceeded = ''Tenant queued backlog limit exceeded.''"
| "queue_message (ItemNotFound i) = ''Runtime queue item not found: '' @ i"
| "queue_message TerminalCannotCancel = ''Terminal runtime queue items cannot be cancelled.''"
| "queue_message NotRetryable = ''Only failed, cancelled, or dead-lettered runtime queue items can be retried.''"
| "queue_message TaskNotObject = ''Runtime queue task artifact must be a JSON object.''"
| "queue_message ContextNotObject = ''Runtime queue composition context artifact must be a JSON object.''"
| "queue_message (TenantStatus e) = status_message e"

text \<open>The \<open>except\<close> clause of \<open>process_one\<close>: the class name, the text and the stop reason of an error it handles.\<close>

fun handled :: "worker_error \<Rightarrow> (string \<times> string \<times> json) option" where
  "handled (QueueFailed (TenantStatus e)) = Some (''RuntimeTenantStatusError'', status_message e, JStr ''runtime_error'')"
| "handled (QueueFailed e) = Some (''RuntimeQueueError'', queue_message e, JStr ''runtime_error'')"
| "handled (QuotaFailed (QuotaExceeded stop)) = Some (''RuntimeQuotaError'', ''Tenant runtime quota exceeded.'', JStr stop)"
| "handled (EntryFailed (TenantNotStartable e)) = Some (''RuntimeTenantStatusError'', status_message e, JStr ''runtime_error'')"
| "handled (EntryFailed (NotComposable e)) = Some (''CompositionError'', composition_message e, JStr ''runtime_error'')"
| "handled (RunFailed (LoopFailed m stop q)) = Some (''RuntimeLoopError'', m, opt_str stop)"
| "handled e = None"

subsection \<open>The worker\<close>

record 'w worker =
  wk_worker_id :: string
  wk_config :: queue_config
  wk_composition :: "(obj \<Rightarrow> (entry_error, obj) res) option"
  wk_retrieval :: "retrieval_client option"
  wk_adapters :: "(string, 'w adapter) dict"
  wk_clock :: "nat \<Rightarrow> datetime"
  wk_utc :: "nat \<Rightarrow> datetime"
  wk_monotonic :: "nat \<Rightarrow> datetime"
  wk_sha256 :: hash
  wk_randint :: "string \<Rightarrow> int \<Rightarrow> int"

type_synonym ('w, 'a) work = "('w, worker_error, 'a) runner"

record process_result =
  pr_queue_id :: string
  pr_status :: json
  pr_run_id :: string
  pr_stop_reason :: json
  pr_attempt_id :: string

definition worker_entry :: "'w worker \<Rightarrow> entry_config" where
  "worker_entry w = \<lparr>ep_client = wk_composition w, ep_environment = ''dev'', ep_clock = wk_utc w, ep_sha256 = wk_sha256 w\<rparr>"

definition worker_loop :: "'w worker \<Rightarrow> string \<Rightarrow> 'w loop" where
  "worker_loop w queue_id =
     \<lparr>lp_adapters = wk_adapters w, lp_client = wk_retrieval w, lp_handlers = builtin_registry, lp_judge_enabled = False, lp_judge = None,
      lp_cancelled = Some (\<lambda>s _. queue_item_is_cancelled queue_id (store_of s)), lp_clock = wk_utc w, lp_monotonic = wk_monotonic w,
      lp_sha256 = wk_sha256 w\<rparr>"

text \<open>A method of the queue manager or the quota manager, with one reading of the clock.\<close>

definition with_clock :: "'w worker \<Rightarrow> (datetime \<Rightarrow> (worker_error, 'a) sys) \<Rightarrow> ('w, 'a) work" where
  "with_clock w m = bindS (tick (wk_clock w)) (\<lambda>t. on_sys (m t))"

text \<open>\<open>reserve\<close> takes at most five readings; where it ends early the rest are skipped.\<close>

definition reserve_quota :: "'w worker \<Rightarrow> obj \<Rightarrow> start_result \<Rightarrow> ('w, obj) work" where
  "reserve_quota w item sr =
     bindS (liftS (getitem item ''id'')) (\<lambda>i.
     bindS (liftS (getitem item ''tenant_id'')) (\<lambda>tenant s.
     on_sys (raising QuotaFailed (reserve (\<lambda>k. wk_clock w (ru_ticks s + k)) (py_str i) (sr_run_id sr) (py_str tenant) (sr_profile sr)
         \<lparr>uc_tenant_token_limits_per_minute = qc_tenant_token_limits_per_minute (wk_config w),
          uc_tenant_tool_call_limits_per_minute = qc_tenant_tool_call_limits_per_minute (wk_config w)\<rparr>))
       (s\<lparr>ru_ticks := ru_ticks s + 5\<rparr>)))"

text \<open>The statements of the \<open>try\<close> block up to the reservation, and the two after it.\<close>

definition prepare :: "'w worker \<Rightarrow> obj \<Rightarrow> string \<Rightarrow> string \<Rightarrow> ('w, start_result \<times> obj) work" where
  "prepare w item run_id attempt_id =
     bindS (readS (\<lambda>s. catch_as QueueFailed (load_task item (qs_artifacts (ru_sys s))))) (\<lambda>task.
     bindS (readS (\<lambda>s. catch_as QueueFailed (load_composition_context item (qs_artifacts (ru_sys s))))) (\<lambda>context.
     bindS (raising EntryFailed (start (worker_entry w) task
       \<lparr>sq_context = context, sq_run_id = Some run_id, sq_mode = ''initial'', sq_generation = 1, sq_parent = None, sq_reason = None\<rparr>)) (\<lambda>sr.
     bindS (liftS (getitem item ''id'')) (\<lambda>i.
     bindS (with_clock w (\<lambda>t. raising QueueFailed (mark_running t (py_str i) (sr_run_id sr) (Some attempt_id)))) (\<lambda>_.
     bindS (liftS (getitem (sr_profile sr) ''id'')) (\<lambda>profile.
     bindS (on_sys (on_store (update_runtime_run_attempt attempt_id
       [(''run_id'', JStr (sr_run_id sr)), (''profile_id'', profile), (''profile_sha256'', JStr (sr_profile_sha256 sr))]))) (\<lambda>_.
     bindS (reserve_quota w item sr) (\<lambda>reservation.
     retS (sr, reservation)))))))))"

definition execute :: "'w worker \<Rightarrow> obj \<Rightarrow> start_result \<Rightarrow> ('w, loop_result) work" where
  "execute w item sr =
     bindS (liftS (getitem item ''id'')) (\<lambda>i.
     bindS (with_clock w (\<lambda>t. raising QueueFailed (heartbeat t (py_str i) (wk_config w)))) (\<lambda>_.
     raising RunFailed (loop_run (worker_loop w (py_str i)) sr)))"

subsection \<open>Settling an item\<close>

definition close_attempt :: "'w worker \<Rightarrow> string \<Rightarrow> json \<Rightarrow> json \<Rightarrow> ('w, obj) work" where
  "close_attempt w attempt_id status stop =
     with_clock w (\<lambda>t. on_store (update_runtime_run_attempt attempt_id
       [(''status'', status), (''completed_at'', JStr (iso_timestamp t)), (''stop_reason'', stop)]))"

definition close_claim :: "'w worker \<Rightarrow> string \<Rightarrow> json \<Rightarrow> ('w, obj) work" where
  "close_claim w claim_id status =
     with_clock w (\<lambda>t. on_store (update_runtime_run_claim claim_id [(''released_at'', JStr (iso_timestamp t)), (''release_reason'', status)]))"

definition settle_quota :: "'w worker \<Rightarrow> (datetime \<Rightarrow> string \<Rightarrow> obj quo) \<Rightarrow> obj option \<Rightarrow> ('w, unit) work" where
  "settle_quota w f reservation =
     (case reservation of
        None \<Rightarrow> retS ()
      | Some r \<Rightarrow>
          bindS (liftS (getitem r ''id'')) (\<lambda>i. bindS (with_clock w (\<lambda>t. raising QuotaFailed (f t (py_str i)))) (\<lambda>_. retS ())))"

definition fail_open_run :: "'w worker \<Rightarrow> string \<Rightarrow> json \<Rightarrow> ('w, unit) work" where
  "fail_open_run w run_id stop =
     bindS (readS (\<lambda>s. case get_runtime_run run_id (store_of s) of
        None \<Rightarrow> Inr True
      | Some r \<Rightarrow> in_strings (get r ''status'') [''failed'', ''cancelled'', ''succeeded''])) (\<lambda>done_already.
     if done_already then retS ()
     else bindS (with_clock w (\<lambda>t. on_store (update_runtime_run run_id
       [(''status'', JStr ''failed''), (''completed_at'', JStr (iso_timestamp t)), (''stop_reason'', stop)]))) (\<lambda>_. retS ()))"

definition settle_failure ::
  "'w worker \<Rightarrow> obj \<Rightarrow> string \<Rightarrow> string \<Rightarrow> string \<Rightarrow> obj option \<Rightarrow> string \<times> string \<times> json \<Rightarrow> ('w, process_result) work" where
  "settle_failure w item run_id attempt_id claim_id reservation error =
     (let (class, message, stop) = error in
      bindS (fail_open_run w run_id stop) (\<lambda>_.
      bindS (tick (wk_clock w)) (\<lambda>t1.
      bindS (tick (wk_clock w)) (\<lambda>t2.
      bindS (with_clock w (\<lambda>t3. raising QueueFailed
        (mark_failed_or_retry (wk_randint w) t1 t2 t3 item class message (wk_config w) (Some run_id)))) (\<lambda>stored.
      bindS (liftS (getitem stored ''status'')) (\<lambda>status.
      bindS (close_attempt w attempt_id status stop) (\<lambda>_.
      bindS (close_claim w claim_id status) (\<lambda>_.
      bindS (settle_quota w refund reservation) (\<lambda>_.
      bindS (liftS (getitem item ''id'')) (\<lambda>i.
      retS \<lparr>pr_queue_id = py_str i, pr_status = status, pr_run_id = run_id, pr_stop_reason = stop, pr_attempt_id = attempt_id\<rparr>))))))))))"

definition settle_result ::
  "'w worker \<Rightarrow> obj \<Rightarrow> string \<Rightarrow> string \<Rightarrow> obj \<Rightarrow> loop_result \<Rightarrow> ('w, process_result) work" where
  "settle_result w item attempt_id claim_id reservation result =
     (let stop = JStr (lr_stop_reason result) in
      bindS (liftS (getitem item ''id'')) (\<lambda>i.
      if lr_status result = ''cancelled'' then
        bindS (tick (wk_clock w)) (\<lambda>t1.
        bindS (with_clock w (\<lambda>t2. raising QueueFailed (mark_cancelled t1 t2 (py_str i) (Some (lr_run_id result))))) (\<lambda>stored.
        bindS (liftS (getitem stored ''status'')) (\<lambda>status.
        bindS (close_attempt w attempt_id status stop) (\<lambda>_.
        bindS (close_claim w claim_id status) (\<lambda>_.
        bindS (settle_quota w refund (Some reservation)) (\<lambda>_.
        retS \<lparr>pr_queue_id = py_str i, pr_status = status, pr_run_id = lr_run_id result, pr_stop_reason = stop, pr_attempt_id = attempt_id\<rparr>))))))
      else
        bindS (with_clock w (\<lambda>t. raising QueueFailed (mark_succeeded t (py_str i) (lr_run_id result)))) (\<lambda>stored.
        bindS (settle_quota w finalize (Some reservation)) (\<lambda>_.
        bindS (liftS (getitem stored ''status'')) (\<lambda>status.
        bindS (close_attempt w attempt_id status stop) (\<lambda>_.
        bindS (close_claim w claim_id status) (\<lambda>_.
        retS \<lparr>pr_queue_id = py_str i, pr_status = status, pr_run_id = lr_run_id result, pr_stop_reason = stop, pr_attempt_id = attempt_id\<rparr>)))))))"

definition process_claim :: "'w worker \<Rightarrow> obj \<Rightarrow> string \<Rightarrow> string \<Rightarrow> string \<Rightarrow> ('w, process_result) work" where
  "process_claim w item run_id attempt_id claim_id =
     (let fail = (\<lambda>reservation e. case e of
            Py x \<Rightarrow> liftS (Inl (Py x))
          | Raise error \<Rightarrow>
              (case handled error of
                 None \<Rightarrow> liftS (Inl (Raise error))
               | Some text \<Rightarrow> settle_failure w item run_id attempt_id claim_id reservation text)) in
      bindS (outcomeS (prepare w item run_id attempt_id)) (\<lambda>prepared.
      case prepared of
        Inl e \<Rightarrow> fail None e
      | Inr (sr, reservation) \<Rightarrow>
          bindS (outcomeS (execute w item sr)) (\<lambda>outcome.
          case outcome of
            Inl e \<Rightarrow> fail (Some reservation) e
          | Inr result \<Rightarrow> settle_result w item attempt_id claim_id reservation result)))"

definition process_one :: "'w worker \<Rightarrow> ('w, process_result option) work" where
  "process_one w =
     bindS (with_clock w (\<lambda>t. raising QueueFailed (claim_next_attempt t (wk_worker_id w) (wk_config w)))) (\<lambda>bundle.
     case bundle of
       None \<Rightarrow> retS None
     | Some b \<Rightarrow>
         bindS (liftS (getitem (cb_attempt b) ''run_id'')) (\<lambda>run_id.
         bindS (liftS (getitem (cb_attempt b) ''id'')) (\<lambda>attempt_id.
         bindS (liftS (getitem (cb_claim b) ''id'')) (\<lambda>claim_id.
         bindS (process_claim w (cb_queue_item b) (py_str run_id) (py_str attempt_id) (py_str claim_id)) (\<lambda>result.
         retS (Some result))))))"

text \<open>\<open>run_forever\<close>: the callback after an iteration and the sleep between polls have no effect on the state; the request to
  stop is a function of the number of the reading.\<close>

partial_function (option) run_forever ::
  "'w worker \<Rightarrow> (nat \<Rightarrow> bool) \<Rightarrow> 'w run_state \<Rightarrow> ((worker_error, unit) res \<times> 'w run_state) option" where
  "run_forever w should_stop s =
     (if should_stop (ru_ticks s) then Some (Inr (), s\<lparr>ru_ticks := Suc (ru_ticks s)\<rparr>)
      else case process_one w (s\<lparr>ru_ticks := Suc (ru_ticks s)\<rparr>) of
        (Inl e, s') \<Rightarrow> Some (Inl e, s')
      | (Inr (Some x), s') \<Rightarrow> run_forever w should_stop s'
      | (Inr None, s') \<Rightarrow>
          if should_stop (ru_ticks s') then Some (Inr (), s'\<lparr>ru_ticks := Suc (ru_ticks s')\<rparr>)
          else run_forever w should_stop (s'\<lparr>ru_ticks := Suc (ru_ticks s')\<rparr>))"

end
