(* ===== verification/Worker_Frame.thy ===== *)
theory Worker_Frame
  imports Queue_Worker
begin

text \<open>
  What starting and running leaves alone: the tables of the queue, its attempts, claims and dead letters, and the quota
  reservations. The statements of the recorder, the gateway, the loop and the entry point are taken one by one.
\<close>

named_theorems side_intros \<open>statements that leave the tables of the queue alone\<close>

definition side_of :: "store \<Rightarrow> table \<times> table \<times> table \<times> table \<times> table" where
  "side_of st = (st_runtime_queue_items st, st_runtime_run_attempts st, st_runtime_run_claims st, st_runtime_dead_letters st,
     st_runtime_quota_reservations st)"

text \<open>The status of every run is a string.\<close>

definition runs_ok :: "store \<Rightarrow> bool" where
  "runs_ok st \<longleftrightarrow> (\<forall>r \<in> set (dict_values (st_runtime_runs st)). \<exists>v. get r ''status'' = JStr v)"

abbreviation sys_aside :: "table \<times> table \<times> table \<times> table \<times> table \<Rightarrow> runtime_sys \<Rightarrow> bool" where
  "sys_aside R q \<equiv> side_of (qs_store q) = R \<and> runs_ok (qs_store q)"

abbreviation aside :: "table \<times> table \<times> table \<times> table \<times> table \<Rightarrow> 'w run_state \<Rightarrow> bool" where
  "aside R s \<equiv> side_of (store_of s) = R \<and> runs_ok (store_of s)"

declare keepsS_pure [side_intros] keepsS_bind [side_intros]

lemma keepsS_branch [side_intros]:
  "keepsS P m \<Longrightarrow> keepsS P n \<Longrightarrow> keepsS P (if b then m else n)"
  "keepsS P m \<Longrightarrow> (\<And>x. keepsS P (f x)) \<Longrightarrow> keepsS P (case v of None \<Rightarrow> m | Some x \<Rightarrow> f x)"
  "(\<And>x y. keepsS P (h x y)) \<Longrightarrow> keepsS P (case p of (x, y) \<Rightarrow> h x y)"
  by (simp_all split: option.split prod.split)

subsection \<open>The recorder\<close>

lemma aside_store: "(\<And>st. runs_ok st \<Longrightarrow> side_of (snd (m st)) = side_of st \<and> runs_ok (snd (m st))) \<Longrightarrow> keepsS (sys_aside R) (on_store m)"
  by (simp add: keepsS_def on_store_def case_prod_beta)

lemma aside_artifacts [side_intros]: "keepsS (sys_aside R) (on_artifacts m)"
  by (simp add: keepsS_def)

lemma side_tables:
  "runs_ok st \<Longrightarrow> side_of (snd (allocate_runtime_event_index run st)) = side_of st \<and> runs_ok (snd (allocate_runtime_event_index run st))"
  "runs_ok st \<Longrightarrow> side_of (snd (allocate_runtime_checkpoint_index run st)) = side_of st \<and> runs_ok (snd (allocate_runtime_checkpoint_index run st))"
  "runs_ok st \<Longrightarrow> side_of (snd (insert_runtime_event r st)) = side_of st \<and> runs_ok (snd (insert_runtime_event r st))"
  "runs_ok st \<Longrightarrow> side_of (snd (insert_runtime_checkpoint r st)) = side_of st \<and> runs_ok (snd (insert_runtime_checkpoint r st))"
  "runs_ok st \<Longrightarrow> side_of (snd (insert_runtime_step r st)) = side_of st \<and> runs_ok (snd (insert_runtime_step r st))"
  "runs_ok st \<Longrightarrow> side_of (snd (update_runtime_step i fs st)) = side_of st \<and> runs_ok (snd (update_runtime_step i fs st))"
  "runs_ok st \<Longrightarrow> side_of (snd (insert_tool_invocation r st)) = side_of st \<and> runs_ok (snd (insert_tool_invocation r st))"
  "runs_ok st \<Longrightarrow> side_of (snd (insert_validation_result r st)) = side_of st \<and> runs_ok (snd (insert_validation_result r st))"
  by (simp_all add: side_of_def runs_ok_def allocate_runtime_event_index_def allocate_runtime_checkpoint_index_def insert_runtime_event_def
      insert_runtime_checkpoint_def insert_runtime_step_def update_runtime_step_def
      insert_tool_invocation_def insert_validation_result_def insert_into_def update_in_def set_steps_def bindS_def readS_def
      split: sum.splits option.splits prod.splits)

lemma aside_tables [side_intros]:
  "keepsS (sys_aside R) (on_store (allocate_runtime_event_index run))" "keepsS (sys_aside R) (on_store (allocate_runtime_checkpoint_index run))"
  "keepsS (sys_aside R) (on_store (insert_runtime_event r))" "keepsS (sys_aside R) (on_store (insert_runtime_checkpoint r))"
  "keepsS (sys_aside R) (on_store (insert_runtime_step r))" "keepsS (sys_aside R) (on_store (update_runtime_step i fs))"
  "keepsS (sys_aside R) (on_store (insert_tool_invocation r))" "keepsS (sys_aside R) (on_store (insert_validation_result r))"
  by (rule aside_store, erule side_tables)+

lemma side_runs:
  assumes "runs_ok st"
  shows "get r ''status'' = JStr v \<Longrightarrow> side_of (snd (insert_runtime_run r st)) = side_of st \<and> runs_ok (snd (insert_runtime_run r st))"
    "map_of (rev fs) ''status'' = Some (JStr v) \<Longrightarrow> side_of (snd (update_runtime_run i fs st)) = side_of st \<and> runs_ok (snd (update_runtime_run i fs st))"
proof -
  show "side_of (snd (insert_runtime_run r st)) = side_of st \<and> runs_ok (snd (insert_runtime_run r st))" if "get r ''status'' = JStr v"
    using that assms
    by (auto simp: side_of_def runs_ok_def insert_runtime_run_def insert_into_def put_record_def set_runs_def bindR_def
        dest!: subsetD [OF dict_set_subset] split: sum.splits)
  show "side_of (snd (update_runtime_run i fs st)) = side_of st \<and> runs_ok (snd (update_runtime_run i fs st))" if "map_of (rev fs) ''status'' = Some (JStr v)"
    using that assms
    by (auto simp: side_of_def runs_ok_def update_runtime_run_def update_in_def update_record_def set_runs_def dict_mod_def get_update split: option.splits)
qed

lemma aside_payload [side_intros]: "keepsS (sys_aside R) (write_event_payload run i t slot p redact)"
  unfolding write_event_payload_def by (intro side_intros)

lemma aside_event [side_intros]: "keepsS (sys_aside R) (record_event t run c)"
  unfolding record_event_def by (intro side_intros)

lemma aside_recorder [side_intros]:
  "keepsS (sys_aside R) (checkpoint t t' run phase state step tokens redact)" "keepsS (sys_aside R) (start_step t run n kind budget key)"
  "keepsS (sys_aside R) (complete_step t i status stop used)"
  unfolding checkpoint_def start_step_def complete_step_def by (intro side_intros)+

lemma aside_complete_run [side_intros]: "keepsS (sys_aside R) (complete_run t run status why used)"
  unfolding complete_run_def by (intro side_intros aside_store side_runs(2) [where v = status]) simp_all

lemma aside_prefix: "(\<And>p. keepsS (sys_aside R) (m p)) \<Longrightarrow> keepsS (sys_aside R) (\<lambda>q. m (ar_uri_prefix (qs_artifacts q)) q)"
  by (simp add: keepsS_def)

lemma aside_start_run [side_intros]: "keepsS (sys_aside R) (start_run t task profile run opts)"
  unfolding start_run_def [abs_def] by (rule aside_prefix) (intro side_intros aside_store side_runs(1) [where v = "ro_status opts"], simp_all)

subsection \<open>Statements of a run\<close>

lemma aside_sys [side_intros]: "keepsS (sys_aside R) m \<Longrightarrow> keepsS (aside R) (on_sys m)"
  by (simp add: keepsS_def on_sys_def case_prod_beta)

lemma aside_tick [side_intros]: "keepsS (aside R) (tick clock)"
  by (simp add: keepsS_def tick_def)

lemma aside_map [side_intros]: "(\<And>x. keepsS P (f x)) \<Longrightarrow> keepsS P (mapS f xs)"
  by (induction xs) (auto intro!: side_intros)

lemma aside_outcome [side_intros]: "keepsS P m \<Longrightarrow> keepsS P (outcomeS m)"
  by (simp add: keepsS_def outcomeS_def case_prod_beta)

lemma aside_raising [side_intros]: "keepsS P m \<Longrightarrow> keepsS P (raising f m)"
  by (simp add: keepsS_def raising_def case_prod_beta)

lemma aside_run [side_intros]: "keepsS (aside R) (run_event clock run redact c)" "keepsS (aside R) (run_checkpoint clock run redact step phase state)"
  unfolding run_event_def run_checkpoint_def by (intro side_intros)+

lemma aside_enforcer [side_intros]: "keepsS (aside R) (on_enforcer m)"
  by (simp add: keepsS_def on_enforcer_def case_prod_beta)

lemma aside_cancelled [side_intros]: "keepsS (aside R) (raise_if_cancelled cfg run)"
  by (simp add: keepsS_def raise_if_cancelled_def bindS_def readS_def liftS_def split: option.splits)

subsection \<open>The gateway\<close>

lemma aside_gap [side_intros]: "keepsS (sys_aside R) (gap_errors m)"
  by (simp add: keepsS_def gap_errors_def case_prod_beta)

lemma aside_gateway [side_intros]: "keepsS (aside R) (gateway_event g c)" "keepsS (aside R) (gateway_write g name v)"
  "keepsS (aside R) (run_adapter adapter payload)" "keepsS (aside R) (next_invocation g tool)"
  unfolding gateway_event_def gateway_write_def
  by (intro side_intros, intro side_intros) (auto simp: keepsS_def run_adapter_outcome next_invocation_def)

lemma aside_hook [side_intros]: "keepsS (aside R) (evaluate_runtime_after_tool_hook g tool status iu ou rec ev)"
  unfolding evaluate_runtime_after_tool_hook_def by (intro side_intros)

lemma aside_conclude [side_intros]: "keepsS (aside R) (conclude_invocation g tool i iu st out)"
  unfolding conclude_invocation_def Let_def by (intro side_intros)

lemma aside_granted [side_intros]: "keepsS (aside R) (granted_invocation g tool payload)"
  unfolding granted_invocation_def by (intro side_intros)

lemma aside_denied [side_intros]: "keepsS (aside R) (record_denied_access g tool payload error)"
  unfolding record_denied_access_def by (intro side_intros)

lemma aside_invoke [side_intros]: "keepsS (aside R) (invoke g tool payload)"
  unfolding invoke_def
proof (intro keepsS_bind aside_tick)
  fix now
  let ?call = "record_tool_invocation now tool (tool_required_data_scopes tool) (tool_required_policies tool) (tool_risk_level tool)"
  let ?deny = "\<lambda>error. bindS (record_denied_access g tool payload error) (\<lambda>_. liftS (Inl (Raise (run_error.ToolDenied (err_message error) (err_stop_reason error)))))"
  have deny: "aside R (snd (?deny error s))" if "aside R s" for error s
    using that by (rule keepsS_def [THEN iffD1, rule_format, rotated]) (intro side_intros)
  have grant: "aside R (snd (granted_invocation g tool payload s))" if "aside R s" for s
    using that by (rule keepsS_def [THEN iffD1, rule_format, rotated]) (intro side_intros)
  show "keepsS (aside R) (\<lambda>s. case ?call (ru_enforcer s) of
       (Inl (Py x), e) \<Rightarrow> (Inl (Py x), s\<lparr>ru_enforcer := e\<rparr>)
     | (Inl (Raise error), e) \<Rightarrow> ?deny error (s\<lparr>ru_enforcer := e\<rparr>)
     | (Inr _, e) \<Rightarrow> granted_invocation g tool payload (s\<lparr>ru_enforcer := e\<rparr>))" (is "keepsS _ ?m")
    unfolding keepsS_def
  proof (intro allI impI)
    fix s :: "'a run_state" assume s: "aside R s"
    obtain r e where call: "?call (ru_enforcer s) = (r, e)" by fastforce
    have s': "aside R (s\<lparr>ru_enforcer := e\<rparr>)" using s by simp
    show "aside R (snd (?m s))"
    proof (cases r)
      case (Inl x)
      then show ?thesis using s' deny [OF s'] by (cases x) (simp_all only: call prod.case sum.case exn.case snd_conv)
    qed (use grant [OF s'] call in simp)
  qed
qed

subsection \<open>The loop\<close>

lemma aside_step [side_intros]: "keepsS (aside R) (step_guard cfg run)" "keepsS (aside R) (open_step cfg run n kind)"
  "keepsS (aside R) (step_event cfg run redact i t actor p r why)" "keepsS (aside R) (end_step cfg i status stop)"
  unfolding step_guard_def open_step_def step_event_def end_step_def by (intro side_intros)+

lemma aside_ending [side_intros]: "keepsS (aside R) (finish_step cfg run redact i phase actor state)"
  "keepsS (aside R) (fail_step cfg run redact i actor result e)"
  unfolding finish_step_def fail_step_def by (intro side_intros)+

lemma aside_context [side_intros]: "keepsS (aside R) (context_step cfg run profile redact)"
  "keepsS (aside R) (planner_step cfg run profile ctx redact)"
  unfolding context_step_def planner_step_def by (intro side_intros)+

lemma aside_action [side_intros]: "keepsS (aside R) (execute_action cfg run g action)"
  unfolding execute_action_def by (intro side_intros)

lemma aside_new_gateway [side_intros]: "keepsS (aside R) new_gateway"
  by (simp add: keepsS_def new_gateway_def)

lemma aside_actions [side_intros]: "keepsS (aside R) (execute_actions cfg run g plan)"
  unfolding execute_actions_def by (intro side_intros)

lemma aside_executor [side_intros]: "keepsS (aside R) (executor_step cfg run profile plan redact)"
  unfolding executor_step_def Let_def by (auto intro!: side_intros split: sum.split exn.split run_error.split)

lemma aside_verdict [side_intros]: "keepsS (aside R) (record_outcome cfg run redact i v)"
  unfolding record_outcome_def Let_def by (intro side_intros)

lemma aside_validator [side_intros]: "keepsS (aside R) (validator_step cfg run task profile ctx plan execution redact)"
  unfolding validator_step_def by (auto intro!: side_intros split: sum.split exn.split)

lemma aside_steps [side_intros]: "keepsS (aside R) (run_steps cfg sr redact)"
  unfolding run_steps_def Let_def by (intro side_intros)

lemma aside_end [side_intros]: "keepsS (aside R) (end_run cfg run status stop)" "keepsS (aside R) (install_enforcer cfg profile)"
  unfolding end_run_def install_enforcer_def by (auto intro!: side_intros) (simp add: keepsS_def)

lemma aside_closing [side_intros]: "keepsS (aside R) (Loop.cancel_run cfg run redact)" "keepsS (aside R) (fail_run cfg run e redact)"
  "keepsS (aside R) (request_recomposition cfg sr reason redact)"
  unfolding Loop.cancel_run_def fail_run_def request_recomposition_def Let_def by (intro side_intros)+

lemma aside_handle [side_intros]: "keepsS (aside R) (handle_runtime_error cfg sr e redact)"
  unfolding handle_runtime_error_def Let_def by (auto intro!: side_intros split: option.split sum.split exn.split)

lemma aside_succeed [side_intros]: "keepsS (aside R) (succeed_run cfg sr redact x)"
  unfolding succeed_run_def Let_def by (intro side_intros)

lemma run_aside [side_intros]: "keepsS (aside R) (loop_run cfg sr)"
  unfolding loop_run_def Let_def by (auto intro!: side_intros split: sum.split exn.split run_error.split prod.split)

subsection \<open>The entry point\<close>

lemma aside_announce [side_intros]: "keepsS (aside R) (announce cfg run sr)"
  unfolding announce_def Let_def by (intro side_intros)

lemma aside_register [side_intros]: "keepsS (aside R) (register_run cfg q t profile uri digest)"
  unfolding register_run_def by (intro side_intros)

lemma start_aside [side_intros]: "keepsS (aside R) (start cfg task q)"
  unfolding start_def Let_def by (intro side_intros)

end
