(* ===== verification/Settlement.thy ===== *)
theory Settlement
  imports Worker_Frame
begin

text \<open>
  What the worker leaves of a claimed item. The rows of the item, its attempt, its claim and its quota reservation form a
  ledger, together with the frame: the other rows are those of the store before. Every statement of the worker is a triple
  on it, with one condition for its return and one for an exception.
\<close>

subsection \<open>Triples\<close>

definition triple :: "('s \<Rightarrow> bool) \<Rightarrow> ('s, 'e, 'a) st \<Rightarrow> ('a \<Rightarrow> 's \<Rightarrow> bool) \<Rightarrow> ('e exn \<Rightarrow> 's \<Rightarrow> bool) \<Rightarrow> bool" where
  "triple P m Q E \<longleftrightarrow> (\<forall>s. P s \<longrightarrow> (case m s of (Inr x, s') \<Rightarrow> Q x s' | (Inl e, s') \<Rightarrow> E e s'))"

lemma triple_bind: "triple P m Q E \<Longrightarrow> (\<And>x. triple (Q x) (f x) R E) \<Longrightarrow> triple P (bindS m f) R E"
  unfolding triple_def bindS_def by (fastforce split: prod.splits sum.splits)

lemma triple_weaken: "triple P m Q E \<Longrightarrow> (\<And>s. P' s \<Longrightarrow> P s) \<Longrightarrow> (\<And>x s. Q x s \<Longrightarrow> Q' x s) \<Longrightarrow> (\<And>e s. E e s \<Longrightarrow> E' e s) \<Longrightarrow> triple P' m Q' E'"
  unfolding triple_def by (fastforce split: prod.splits sum.splits)

lemma triple_pure: "(\<And>s. P s \<Longrightarrow> Q x s) \<Longrightarrow> triple P (retS x) Q E"
  "(\<And>x s. r = Inr x \<Longrightarrow> P s \<Longrightarrow> Q x s) \<Longrightarrow> (\<And>e s. r = Inl e \<Longrightarrow> P s \<Longrightarrow> E e s) \<Longrightarrow> triple P (liftS r) Q E"
  "(\<And>x s. f s = Inr x \<Longrightarrow> P s \<Longrightarrow> Q x s) \<Longrightarrow> (\<And>e s. f s = Inl e \<Longrightarrow> P s \<Longrightarrow> E e s) \<Longrightarrow> triple P (readS f) Q E"
  by (auto simp: triple_def liftS_def readS_def split: sum.splits)

lemma triple_if: "(b \<Longrightarrow> triple P m Q E) \<Longrightarrow> (\<not> b \<Longrightarrow> triple P n Q E) \<Longrightarrow> triple P (if b then m else n) Q E"
  by simp

lemma map_exn_Raise: "map_exn f e = Raise x \<longleftrightarrow> (\<exists>y. e = Raise y \<and> x = f y)"
  by (cases e) auto

lemma triple_raising: "triple P m Q (\<lambda>e. E (map_exn f e)) \<Longrightarrow> triple P (raising f m) Q E"
  unfolding triple_def raising_def catch_as_def by (fastforce split: prod.splits sum.splits)

lemma triple_outcome:
  assumes "triple P m R X" and "\<And>e. triple (X e) (f (Inl e)) Q E" and "\<And>x. triple (R x) (f (Inr x)) Q E"
  shows "triple P (bindS (outcomeS m) f) Q E"
  unfolding triple_def
proof (intro allI impI)
  fix s assume "P s"
  with assms(1) have m: "case m s of (Inr x, s') \<Rightarrow> R x s' | (Inl e, s') \<Rightarrow> X e s'" by (simp add: triple_def)
  obtain r s' where r: "m s = (r, s')" by fastforce
  have "bindS (outcomeS m) f s = f r s'" by (simp add: bindS_def outcomeS_def r)
  with m assms(2,3) show "case bindS (outcomeS m) f s of (Inr x, s') \<Rightarrow> Q x s' | (Inl e, s') \<Rightarrow> E e s'"
    by (cases r) (simp_all add: r triple_def)
qed

lemma triple_total:
  assumes "triple P m Q (\<lambda>_ _. False)" and "P s"
  obtains x s' where "m s = (Inr x, s')" "Q x s'"
  using assms unfolding triple_def by (cases "m s"; cases "fst (m s)") fastforce+

lemma triple_store: "triple P m Q E \<Longrightarrow> triple (\<lambda>q. P (qs_store q)) (on_store m) (\<lambda>x q. Q x (qs_store q)) (\<lambda>e q. E e (qs_store q))"
  unfolding triple_def on_store_def by (fastforce split: prod.splits sum.splits)

abbreviation on :: "(store \<Rightarrow> bool) \<Rightarrow> 'w run_state \<Rightarrow> bool" where
  "on P s \<equiv> P (store_of s)"

lemma triple_sys: "triple (\<lambda>q. P (qs_store q)) m (\<lambda>x q. Q x (qs_store q)) (\<lambda>e q. E e (qs_store q)) \<Longrightarrow> triple (on P) (on_sys m) (\<lambda>x. on (Q x)) (\<lambda>e. on (E e))"
  unfolding triple_def on_sys_def by (fastforce split: prod.splits sum.splits)

lemma triple_tick: "triple (on P) (tick clock) (\<lambda>_. on P) E"
  by (simp add: triple_def tick_def)

lemma triple_clock:
  assumes "\<And>t. triple (\<lambda>q. P (qs_store q)) (m t) (\<lambda>x q. Q x (qs_store q)) (\<lambda>e q. E e (qs_store q))"
  shows "triple (on P) (with_clock w m) (\<lambda>x. on (Q x)) (\<lambda>e. on (E e))"
  unfolding with_clock_def by (rule triple_bind [OF triple_tick triple_sys [OF assms]])

subsection \<open>The ledger of an item\<close>

definition ledger :: "store \<Rightarrow> string \<Rightarrow> string \<Rightarrow> string \<Rightarrow> json set \<Rightarrow> (obj \<Rightarrow> bool) \<Rightarrow> (obj \<Rightarrow> bool) \<Rightarrow> (obj \<Rightarrow> bool) \<Rightarrow> (obj \<Rightarrow> bool) \<Rightarrow> store \<Rightarrow> bool" where
  "ledger z i a c qs I A C Q st \<longleftrightarrow> runs_ok st \<and>
     (\<exists>r. map_of (st_runtime_queue_items st) (JStr i) = Some r \<and> I r) \<and>
     (\<exists>r. map_of (st_runtime_run_attempts st) (JStr a) = Some r \<and> A r) \<and>
     (\<exists>r. map_of (st_runtime_run_claims st) (JStr c) = Some r \<and> C r) \<and>
     (\<forall>k \<in> qs. \<exists>r. map_of (st_runtime_quota_reservations st) k = Some r \<and> Q r) \<and>
     (\<forall>k. k \<noteq> JStr i \<longrightarrow> map_of (st_runtime_queue_items st) k = map_of (st_runtime_queue_items z) k) \<and>
     (\<forall>k. k \<noteq> JStr a \<longrightarrow> map_of (st_runtime_run_attempts st) k = map_of (st_runtime_run_attempts z) k) \<and>
     (\<forall>k. k \<notin> qs \<longrightarrow> map_of (st_runtime_quota_reservations st) k = map_of (st_runtime_quota_reservations z) k)"

lemma ledger_aside: "side_of st' = side_of st \<Longrightarrow> runs_ok st' \<Longrightarrow> ledger z i a c qs I A C Q st \<Longrightarrow> ledger z i a c qs I A C Q st'"
  by (simp add: ledger_def side_of_def)

lemma ledger_runs: "ledger z i a c qs I A C Q st \<Longrightarrow> runs_ok st"
  by (simp add: ledger_def)

text \<open>Statements that leave the tables alone keep the ledger, however they end.\<close>

lemma triple_aside:
  assumes "\<And>R. keepsS (aside R) m"
  shows "triple (on (ledger z i a c qs I A C Q)) m (\<lambda>_. on (ledger z i a c qs I A C Q)) (\<lambda>_. on (ledger z i a c qs I A C Q))"
  unfolding triple_def
proof (intro allI impI)
  fix s :: "'a run_state" assume l: "ledger z i a c qs I A C Q (store_of s)"
  from assms [of "side_of (store_of s)"] ledger_runs [OF l] have "side_of (store_of (snd (m s))) = side_of (store_of s)" "runs_ok (store_of (snd (m s)))"
    by (simp_all add: keepsS_def)
  then have "ledger z i a c qs I A C Q (store_of (snd (m s)))" using l by (rule ledger_aside)
  then show "case m s of (Inr x, s') \<Rightarrow> on (ledger z i a c qs I A C Q) s' | (Inl e, s') \<Rightarrow> on (ledger z i a c qs I A C Q) s'"
    by (auto split: prod.splits sum.splits)
qed

lemma ledger_update:
  "(\<And>r. A r \<Longrightarrow> A' (update fs r)) \<Longrightarrow>
     triple (ledger z i a c qs I A C Q) (update_runtime_run_attempt a fs) (\<lambda>_. ledger z i a c qs I A' C Q) E"
  "(\<And>r. C r \<Longrightarrow> C' (update fs r)) \<Longrightarrow>
     triple (ledger z i a c qs I A C Q) (update_runtime_run_claim c fs) (\<lambda>_. ledger z i a c qs I A C' Q) E"
  "(\<And>r. I r \<Longrightarrow> I' (update fs r)) \<Longrightarrow>
     triple (ledger z i a c qs I A C Q) (update_runtime_queue_item i fs) (\<lambda>x st. I' x \<and> ledger z i a c qs I' A C Q st) E"
  "(\<And>r. Q r \<Longrightarrow> Q' (update fs r)) \<Longrightarrow>
     triple (ledger z i a c {JStr k} I A C Q) (update_runtime_quota_reservation k fs) (\<lambda>_. ledger z i a c {JStr k} I A C Q') E"
  by (auto simp: triple_def ledger_def runs_ok_def update_runtime_run_attempt_def update_runtime_run_claim_def update_runtime_queue_item_def
      update_runtime_quota_reservation_def update_in_def update_record_def set_attempts_def set_claims_def set_queue_items_def
      set_quota_reservations_def dict_simps)

subsection \<open>Closing the rows\<close>

definition in_status :: "string \<Rightarrow> obj \<Rightarrow> bool" where
  "in_status v r \<longleftrightarrow> map_of r ''status'' = Some (JStr v)"

definition ended :: "string \<Rightarrow> obj \<Rightarrow> bool" where
  "ended v r \<longleftrightarrow> in_status v r \<and> get r ''completed_at'' \<noteq> JNull"

definition released :: "string \<Rightarrow> obj \<Rightarrow> bool" where
  "released v r \<longleftrightarrow> get r ''release_reason'' = JStr v \<and> get r ''released_at'' \<noteq> JNull"

definition quota_keys :: "obj option \<Rightarrow> json set" where
  "quota_keys reservation = (case reservation of None \<Rightarrow> {} | Some r \<Rightarrow> {get r ''id''})"

definition identified :: "obj option \<Rightarrow> bool" where
  "identified reservation \<longleftrightarrow> (\<forall>r. reservation = Some r \<longrightarrow> (\<exists>k. map_of r ''id'' = Some (JStr k)))"

lemma close_attempt_triple:
  "triple (on (ledger z i a c qs I A C Q)) (close_attempt w a (JStr v) stop) (\<lambda>_. on (ledger z i a c qs I (ended v) C Q)) (\<lambda>e. on (E e))"
  unfolding close_attempt_def
  by (rule triple_clock [OF triple_store [OF ledger_update(1)]]) (simp add: ended_def in_status_def map_of_update get_update)

lemma close_claim_triple:
  "triple (on (ledger z i a c qs I A C Q)) (close_claim w c (JStr v)) (\<lambda>_. on (ledger z i a c qs I A (released v) Q)) (\<lambda>e. on (E e))"
  unfolding close_claim_def
  by (rule triple_clock [OF triple_store [OF ledger_update(2)]]) (simp add: released_def get_update)

lemma settle_triple:
  "triple (\<lambda>q. ledger z i a c {JStr k} I A C Q (qs_store q)) (settle v t k) (\<lambda>_ q. ledger z i a c {JStr k} I A C (in_status v) (qs_store q)) (\<lambda>e q. E e (qs_store q))"
  unfolding settle_def by (rule triple_store [OF ledger_update(4)]) (simp add: in_status_def map_of_update)

lemma settle_quota_triple:
  assumes "identified reservation" and "f = settle v"
  shows "triple (on (ledger z i a c (quota_keys reservation) I A C Q)) (settle_quota w f reservation)
     (\<lambda>_. on (ledger z i a c (quota_keys reservation) I A C (in_status v))) (\<lambda>e. on (E e))"
proof (cases reservation)
  case None
  then show ?thesis unfolding settle_quota_def quota_keys_def by (auto intro!: triple_pure simp: ledger_def)
next
  case (Some r)
  with assms(1) obtain k where k: "map_of r ''id'' = Some (JStr k)" by (auto simp: identified_def)
  then have keys: "quota_keys reservation = {JStr k}" by (simp add: quota_keys_def Some get_def get_or_def)
  have id: "getitem r ''id'' = (Inr (JStr k) :: (worker_error, json) res)" using k by (simp add: getitem_def)
  have "triple (on (ledger z i a c {JStr k} I A C Q)) (with_clock w (\<lambda>t. raising QuotaFailed (f t k)))
      (\<lambda>_. on (ledger z i a c {JStr k} I A C (in_status v))) (\<lambda>e. on (E e))"
    unfolding assms(2) by (intro triple_clock triple_raising settle_triple)
  then show ?thesis
    unfolding settle_quota_def Some option.case id bindS_lift_Inr py_str.simps keys [unfolded Some] by (rule triple_bind) (auto intro!: triple_pure)
qed

lemma close_run_triple:
  assumes "map_of (rev fs) ''status'' = Some (JStr v)"
  shows "triple (\<lambda>st. ledger z i a c qs I A C Q st \<and> map_of (st_runtime_runs st) (JStr run) \<noteq> None)
      (update_runtime_run run fs :: (store, 'e, obj) st) (\<lambda>_. ledger z i a c qs I A C Q) E"
  unfolding triple_def
proof (intro allI impI)
  fix st assume st: "ledger z i a c qs I A C Q st \<and> map_of (st_runtime_runs st) (JStr run) \<noteq> None"
  then obtain r where r: "map_of (st_runtime_runs st) (JStr run) = Some r" by blast
  let ?u = "update_runtime_run run fs st :: ('e, obj) res \<times> store"
  have ret: "fst ?u = Inr (update fs r)" by (simp add: update_runtime_run_def update_in_def update_record_def r)
  from side_runs(2) [OF ledger_runs [OF conjunct1 [OF st]] assms]
  have "ledger z i a c qs I A C Q (snd ?u)" by (intro ledger_aside [OF _ _ conjunct1 [OF st]]) blast+
  with ret show "case ?u of (Inr x, s') \<Rightarrow> ledger z i a c qs I A C Q s' | (Inl e, s') \<Rightarrow> E e s'"
    by (cases ?u) (simp only: prod.case fst_conv snd_conv sum.case)
qed

lemma run_status: "runs_ok st \<Longrightarrow> get_runtime_run run st = Some r \<Longrightarrow> \<exists>v. get r ''status'' = JStr v"
  by (force simp: runs_ok_def get_runtime_run_def dest: map_of_SomeD)

lemma fail_open_run_triple:
  "triple (on (ledger z i a c qs I A C Q)) (fail_open_run w run stop) (\<lambda>_. on (ledger z i a c qs I A C Q)) (\<lambda>_. on (\<lambda>_. False))"
  unfolding fail_open_run_def
proof (rule triple_bind [where Q = "\<lambda>b. on (\<lambda>st. ledger z i a c qs I A C Q st \<and> (\<not> b \<longrightarrow> map_of (st_runtime_runs st) (JStr run) \<noteq> None))"])
  let ?read = "\<lambda>s :: 'a run_state. case get_runtime_run run (store_of s) of
      None \<Rightarrow> Inr True | Some r \<Rightarrow> (in_strings (get r ''status'') [''failed'', ''cancelled'', ''succeeded''] :: (worker_error, bool) res)"
  have total: "\<exists>b. ?read s = Inr b" if "ledger z i a c qs I A C Q (store_of s)" for s
    using run_status [OF ledger_runs [OF that], of run] by (auto split: option.splits)
  show "triple (on (ledger z i a c qs I A C Q)) (readS ?read)
     (\<lambda>b. on (\<lambda>st. ledger z i a c qs I A C Q st \<and> (\<not> b \<longrightarrow> map_of (st_runtime_runs st) (JStr run) \<noteq> None))) (\<lambda>_. on (\<lambda>_. False))"
  proof (rule triple_pure(3))
    show "on (\<lambda>_. False) s" if "?read s = Inl e" "on (ledger z i a c qs I A C Q) s" for e and s :: "'a run_state"
      using total [OF that(2)] that(1) by simp
  qed (auto simp: get_runtime_run_def split: option.splits)
next
  fix b
  let ?fs = "\<lambda>t. [(''status'', JStr ''failed''), (''completed_at'', JStr (iso_timestamp t)), (''stop_reason'', stop)]"
  show "triple (on (\<lambda>st. ledger z i a c qs I A C Q st \<and> (\<not> b \<longrightarrow> map_of (st_runtime_runs st) (JStr run) \<noteq> None)))
     (if b then retS () else bindS (with_clock w (\<lambda>t. on_store (update_runtime_run run (?fs t)))) (\<lambda>_. retS ()))
     (\<lambda>_. on (ledger z i a c qs I A C Q)) (\<lambda>_. on (\<lambda>_. False))"
  proof (rule triple_if)
    assume "\<not> b"
    show "triple (on (\<lambda>st. ledger z i a c qs I A C Q st \<and> (\<not> b \<longrightarrow> map_of (st_runtime_runs st) (JStr run) \<noteq> None)))
       (bindS (with_clock w (\<lambda>t. on_store (update_runtime_run run (?fs t)))) (\<lambda>_. retS ()))
       (\<lambda>_. on (ledger z i a c qs I A C Q)) (\<lambda>_. on (\<lambda>_. False))"
      by (rule triple_bind [OF triple_clock [OF triple_store [OF triple_weaken [OF close_run_triple]]] triple_pure(1)])
        (use \<open>\<not> b\<close> in simp_all)
  qed (rule triple_pure(1), blast)
qed

subsection \<open>The methods of the queue manager\<close>

abbreviation at_store :: "(store \<Rightarrow> bool) \<Rightarrow> runtime_sys \<Rightarrow> bool" where
  "at_store P q \<equiv> P (qs_store q)"

abbreviation any_row :: "obj \<Rightarrow> bool" where
  "any_row r \<equiv> True"

lemma readS_const: "readS (\<lambda>_. r) = liftS r"
  by (simp add: readS_def liftS_def fun_eq_iff)

lemma update_status_triple:
  "triple (at_store (ledger z i a c qs I A C Q)) (update_status t i v so)
     (\<lambda>x q. in_status (queue_status_name v) x \<and> ledger z i a c qs (in_status (queue_status_name v)) A C Q (qs_store q)) (\<lambda>e. at_store (E e))"
  unfolding update_status_def by (rule triple_store [OF ledger_update(3)]) (simp add: in_status_def map_of_update status_fields_lookup)

definition failure_status :: "int \<Rightarrow> int \<Rightarrow> string" where
  "failure_status attempts limit = (if attempts < limit then ''retry_scheduled'' else ''dead_lettered'')"

lemma mark_failed_triple:
  assumes "getitem item ''id'' = (Inr (JStr i) :: (queue_error, json) res)"
    and "getitem item ''attempts'' = (Inr (JInt attempts) :: (queue_error, json) res)"
    and "getitem item ''max_attempts'' = (Inr (JInt limit) :: (queue_error, json) res)"
    and "getitem item ''tenant_id'' = (Inr (JStr tenant) :: (queue_error, json) res)"
  shows "triple (at_store (ledger z i a c qs I A C Q)) (mark_failed_or_retry randint t1 t2 t3 item class message config run)
     (\<lambda>x q. in_status (failure_status attempts limit) x \<and> ledger z i a c qs (in_status (failure_status attempts limit)) A C Q (qs_store q))
     (\<lambda>e. at_store (E e))"
proof -
  let ?v = "if attempts < limit then RetryScheduled else DeadLettered"
  let ?L = "ledger z i a c qs (in_status (queue_status_name ?v)) A C Q"
  have status: "queue_status_name ?v = failure_status attempts limit" by (simp add: failure_status_def)
  have letter: "triple (\<lambda>q. in_status (queue_status_name ?v) x \<and> ?L (qs_store q)) (on_store (insert_runtime_dead_letter ((''id'', JStr k) # r)))
      (\<lambda>_ q. in_status (queue_status_name ?v) x \<and> ?L (qs_store q)) (\<lambda>e. at_store (E e))" for x k r
    by (rule triple_weaken [where E = "\<lambda>e. at_store (E e)", OF triple_store [where
        P = "\<lambda>st. in_status (queue_status_name ?v) x \<and> ?L st" and Q = "\<lambda>_ st. in_status (queue_status_name ?v) x \<and> ?L st"]])
      (simp_all add: triple_def insert_runtime_dead_letter_def insert_into_def put_record_def getitem_def set_dead_letters_def ledger_def runs_ok_def)
  show ?thesis
    unfolding status [symmetric] mark_failed_or_retry_def readS_const assms bindR_def sum.case py_int.simps bindS_lift_Inr Let_def py_str.simps
    by (rule triple_bind [OF update_status_triple], rule triple_if; (rule triple_bind [OF letter])?, rule triple_pure(1), assumption)
qed

text \<open>A cancellation releases every active claim of the item and closes its run.\<close>

lemma ledger_release: "ledger z i a c qs I A C Q st \<Longrightarrow> ledger z i a c qs I A any_row Q (snd (release_runtime_queue_claims k t why st))"
  by (auto simp: ledger_def runs_ok_def release_runtime_queue_claims_def Let_def set_claims_def map_of_map)

lemma cancel_run_triple:
  "triple (at_store (ledger z i a c qs I A C Q)) (Queue.cancel_run t r) (\<lambda>_. at_store (ledger z i a c qs I A C Q)) (\<lambda>_. at_store (\<lambda>_. False))"
proof -
  let ?fs = "[(''status'', JStr ''cancelled''), (''stop_reason'', JStr ''cancelled''), (''completed_at'', JStr t)]"
  have close: "triple (at_store (\<lambda>st. ledger z i a c qs I A C Q st \<and> map_of (st_runtime_runs st) (JStr run) \<noteq> None))
      (bindS (on_store (update_runtime_run run ?fs)) (\<lambda>_. retS ()) :: unit qst) (\<lambda>_. at_store (ledger z i a c qs I A C Q)) (\<lambda>_. at_store (\<lambda>_. False))" for run
    by (rule triple_bind [OF triple_store [OF close_run_triple] triple_pure(1)]) simp_all
  show ?thesis
    unfolding triple_def
  proof (intro allI impI)
    fix q :: runtime_sys assume q: "ledger z i a c qs I A C Q (qs_store q)"
    show "case Queue.cancel_run t r q of (Inr x, s') \<Rightarrow> ledger z i a c qs I A C Q (qs_store s') | (Inl e, s') \<Rightarrow> False"
    proof (cases "r = JNull \<or> get_runtime_run (py_str r) (qs_store q) = None")
      case False
      then obtain run where run: "get_runtime_run (py_str r) (qs_store q) = Some run" and r: "r \<noteq> JNull" by blast
      from run_status [OF ledger_runs [OF q] run] obtain v where v: "get run ''status'' = JStr v" by blast
      have "triple (at_store (\<lambda>st. ledger z i a c qs I A C Q st \<and> map_of (st_runtime_runs st) (JStr (py_str r)) \<noteq> None))
          (bindS (readS (\<lambda>_. in_strings (get run ''status'') [''succeeded'', ''failed'', ''cancelled''])) (\<lambda>terminal.
             if terminal then retS () else bindS (on_store (update_runtime_run (py_str r) ?fs)) (\<lambda>_. retS ())) :: unit qst)
          (\<lambda>_. at_store (ledger z i a c qs I A C Q)) (\<lambda>_. at_store (\<lambda>_. False))"
        unfolding v readS_const in_strings.simps bindS_lift_Inr by (rule triple_if [OF triple_pure(1) close]) blast
      from this [unfolded triple_def, rule_format, of q] q run r show ?thesis
        by (simp only: cancel_run_def Let_def option.case if_False get_runtime_run_def) simp
    qed (use q in \<open>auto simp: cancel_run_def Let_def split: option.splits\<close>)
  qed
qed

definition live_row :: "obj \<Rightarrow> bool" where
  "live_row r \<longleftrightarrow> in_status ''running'' r \<or> in_status ''cancelled'' r"

lemma triple_keep: "triple P m (\<lambda>_. P) E \<Longrightarrow> triple (\<lambda>s. b \<and> P s) m (\<lambda>_ s. b \<and> P s) E"
  unfolding triple_def by (fastforce split: prod.splits sum.splits)

lemma ledger_weaken:
  assumes "ledger z i a c qs I A C Q st" and "\<And>r. map_of (st_runtime_queue_items st) (JStr i) = Some r \<Longrightarrow> I r \<Longrightarrow> I' r"
    and "\<And>r. A r \<Longrightarrow> A' r" and "\<And>r. C r \<Longrightarrow> C' r" and "\<And>r. Q r \<Longrightarrow> Q' r"
  shows "ledger z i a c qs I' A' C' Q' st"
  using assms unfolding ledger_def by blast

lemma mark_cancelled_triple:
  "triple (at_store (ledger z i a c qs live_row A C Q)) (mark_cancelled t1 t2 i run)
     (\<lambda>x q. in_status ''cancelled'' x \<and> ledger z i a c qs (in_status ''cancelled'') A any_row Q (qs_store q)) (\<lambda>_. at_store (\<lambda>_. False))"
proof -
  let ?L = "ledger z i a c qs (in_status ''cancelled'') A any_row Q"
  let ?so = "no_status_options\<lparr>so_run_id := run, so_clear_claim := True\<rparr>"
  let ?body = "bindS (update_status t2 i Cancelled ?so) (\<lambda>stored.
      bindS (\<lambda>s. (Inr (), s\<lparr>qs_store := snd (release_runtime_queue_claims i (iso_timestamp t1) ''cancelled'' (qs_store s))\<rparr>)) (\<lambda>_.
      bindS (Queue.cancel_run (iso_timestamp t1) (case run of
         Some r \<Rightarrow> if r = [] then get stored ''run_id'' else JStr r | None \<Rightarrow> get stored ''run_id'')) (\<lambda>_. retS stored))) :: obj qst"
  have rel: "triple (\<lambda>q. in_status ''cancelled'' x \<and> ledger z i a c qs (in_status ''cancelled'') A C Q (qs_store q))
      (\<lambda>s. (Inr () :: (queue_error, unit) res, s\<lparr>qs_store := snd (release_runtime_queue_claims i (iso_timestamp t1) ''cancelled'' (qs_store s))\<rparr>))
      (\<lambda>_ q. in_status ''cancelled'' x \<and> ?L (qs_store q)) (\<lambda>_. at_store (\<lambda>_. False))" for x
    by (auto simp: triple_def intro: ledger_release)
  have body: "triple (at_store (ledger z i a c qs live_row A C Q)) ?body
      (\<lambda>x q. in_status ''cancelled'' x \<and> ?L (qs_store q)) (\<lambda>_. at_store (\<lambda>_. False))"
    by (rule triple_bind [OF update_status_triple], unfold queue_status_name.simps, rule triple_bind [OF rel],
        rule triple_bind [OF triple_keep [OF cancel_run_triple]], rule triple_pure(1))
  show ?thesis
    unfolding triple_def
  proof (intro allI impI)
    fix q :: runtime_sys assume q: "ledger z i a c qs live_row A C Q (qs_store q)"
    then obtain item where item: "map_of (st_runtime_queue_items (qs_store q)) (JStr i) = Some item" and "live_row item"
      by (auto simp: ledger_def)
    then consider (cancelled) "in_status ''cancelled'' item" | (running) "in_status ''running'' item" by (auto simp: live_row_def)
    then show "case mark_cancelled t1 t2 i run q of (Inr x, s') \<Rightarrow> in_status ''cancelled'' x \<and> ?L (qs_store s') | (Inl e, s') \<Rightarrow> False"
    proof cases
      case cancelled
      then have "?L (qs_store q)" using item by (intro ledger_weaken [OF q]) simp_all
      then show ?thesis
        using cancelled item by (simp add: mark_cancelled_def get_runtime_queue_item_def readS_const bindS_lift_Inr getitem_def in_status_def)
    next
      case running
      then have "mark_cancelled t1 t2 i run q = ?body q"
        using item by (simp add: mark_cancelled_def get_runtime_queue_item_def readS_const bindS_lift_Inr getitem_def in_status_def Let_def)
      then show ?thesis using body [unfolded triple_def, rule_format, OF q] by simp
    qed
  qed
qed

lemma heartbeat_triple:
  "triple (at_store (ledger z i a c qs (in_status v) A any_row Q)) (heartbeat t i config) (\<lambda>_. at_store (ledger z i a c qs (in_status v) A any_row Q)) (\<lambda>e. at_store (E e))"
proof -
  have beat: "triple (\<lambda>st. in_status v x \<and> ledger z i a c qs (in_status v) A any_row Q st) (\<lambda>s. (Inr x :: (queue_error, obj) res,
       case active_claim_for_queue (JStr i) s of None \<Rightarrow> s | Some (k, claim) \<Rightarrow> update_claim_at k (f claim) s))
     (\<lambda>_. ledger z i a c qs (in_status v) A any_row Q) E" for x f
    by (auto simp: triple_def ledger_def runs_ok_def update_claim_at_def set_claims_def dict_simps split: option.splits)
  show ?thesis
    unfolding heartbeat_def Let_def heartbeat_runtime_queue_item_def
    by (rule triple_store [OF triple_bind [OF ledger_update(3) beat]]) (simp add: in_status_def map_of_update)
qed

subsection \<open>The quota reservation\<close>

text \<open>Results and statements whose only errors are those of the language.\<close>

definition py_only :: "('e, 'a) res \<Rightarrow> bool" where
  "py_only r \<longleftrightarrow> (\<forall>e. r \<noteq> Inl (Raise e))"

definition no_raise :: "('s, 'e, 'a) st \<Rightarrow> bool" where
  "no_raise m \<longleftrightarrow> (\<forall>s. py_only (fst (m s)))"

abbreviation raised :: "('s \<Rightarrow> bool) \<Rightarrow> 'e exn \<Rightarrow> 's \<Rightarrow> bool" where
  "raised P e s \<equiv> \<forall>x. e = Raise x \<longrightarrow> P s"

lemma py_only_basic: "py_only (Inr x)" "py_only (Inl (Py p))" "py_only (getitem r k)" "py_only (py_int v)"
  by (simp_all add: py_only_def getitem_def split: option.splits) (cases v; simp split: option.splits)

lemma py_only_bind: "py_only m \<Longrightarrow> (\<And>x. py_only (f x)) \<Longrightarrow> py_only (bindR m f)"
  by (auto simp: py_only_def bindR_def split: sum.splits)

lemma py_only_lists:
  "(\<And>x. py_only (g x)) \<Longrightarrow> py_only (mapR g xs)" "(\<And>x. py_only (p x)) \<Longrightarrow> py_only (filterR p xs)" "(\<And>x. py_only (p x)) \<Longrightarrow> py_only (findR p xs)"
  by (induction xs) (auto intro!: py_only_bind simp: py_only_basic)

lemma no_raise_bind: "no_raise m \<Longrightarrow> (\<And>x. no_raise (f x)) \<Longrightarrow> no_raise (bindS m f)"
  by (auto simp: no_raise_def py_only_def bindS_def split: prod.splits sum.splits) (metis fst_conv)+

lemma triple_no_raise:
  assumes "triple P m Q E" and "no_raise m"
  shows "triple P m Q (raised R)"
  unfolding triple_def
proof (intro allI impI)
  fix s assume "P s"
  with assms show "case m s of (Inr x, s') \<Rightarrow> Q x s' | (Inl e, s') \<Rightarrow> raised R e s'"
    by (cases "m s"; cases "fst (m s)") (auto simp: triple_def no_raise_def py_only_def dest!: spec [of _ s])
qed

lemma py_only_lookups: "py_only (next_index d xs f run)" "py_only (find_by_run_idempotency xs run k)"
  by (auto simp: next_index_def find_by_run_idempotency_def andR_def py_only_basic split: option.splits intro!: py_only_bind py_only_lists)

lemma py_only_at: "r = Inl x \<Longrightarrow> py_only r \<Longrightarrow> \<exists>p. x = Py p"
  by (cases x) (auto simp: py_only_def)

lemma no_raise_store: "(\<And>st. py_only (fst (m st))) \<Longrightarrow> no_raise (on_store m)"
  by (simp add: no_raise_def on_store_def case_prod_beta)

lemma record_event_no_raise: "no_raise (record_event t run c)"
proof -
  have "no_raise (write_event_payload run n ty slot p r)" for n ty slot p r
    using payload_written [of run n ty slot p r] unfolding no_raise_def by (metis fst_conv py_only_basic(1))
  moreover have "no_raise (on_store (allocate_runtime_event_index run))"
    by (rule no_raise_store) (auto simp: allocate_runtime_event_index_def bindS_def readS_def py_only_basic dest!: py_only_at [OF _ py_only_lookups(1)] split: sum.splits)
  moreover have "no_raise (on_store (insert_runtime_event r))" for r
    by (rule no_raise_store) (auto simp: insert_runtime_event_def bindS_def readS_def getitem_def py_only_basic
        dest!: py_only_at [OF _ py_only_lookups(2)] split: sum.splits option.splits)
  moreover have "no_raise (liftS (require_choice v xs))" "no_raise (liftS (require_stop_reason k))" for v xs k
    by (auto simp: no_raise_def liftS_def require_choice_def require_stop_reason_def py_only_basic split: option.splits)
  ultimately show ?thesis unfolding record_event_def by (intro no_raise_bind)
qed

lemma triple_sys_aside:
  assumes "\<And>R. keepsS (sys_aside R) m"
  shows "triple (at_store (ledger z i a c qs I A C Q)) m (\<lambda>_. at_store (ledger z i a c qs I A C Q)) (\<lambda>_. at_store (ledger z i a c qs I A C Q))"
  unfolding triple_def
proof (intro allI impI)
  fix q :: runtime_sys assume l: "ledger z i a c qs I A C Q (qs_store q)"
  from assms [of "side_of (qs_store q)"] ledger_runs [OF l] have "side_of (qs_store (snd (m q))) = side_of (qs_store q)" "runs_ok (qs_store (snd (m q)))"
    by (simp_all add: keepsS_def)
  then have "ledger z i a c qs I A C Q (qs_store (snd (m q)))" using l by (rule ledger_aside)
  then show "case m q of (Inr x, s') \<Rightarrow> at_store (ledger z i a c qs I A C Q) s' | (Inl e, s') \<Rightarrow> at_store (ledger z i a c qs I A C Q) s'"
    by (auto split: prod.splits sum.splits)
qed

lemma aside_limit [side_intros]: "keepsS (sys_aside R) (assert_within_limit t tenant win field n limit run why)"
  unfolding assert_within_limit_def by (intro side_intros)

definition charged :: "store \<Rightarrow> string \<Rightarrow> string \<Rightarrow> string \<Rightarrow> (obj \<Rightarrow> bool) \<Rightarrow> obj \<Rightarrow> store \<Rightarrow> bool" where
  "charged z i a c I r st \<longleftrightarrow> identified (Some r) \<and> ledger z i a c (quota_keys (Some r)) I any_row any_row any_row st"

lemma insert_reservation_triple:
  "triple (at_store (ledger z i a c {} I any_row any_row any_row)) (on_store (insert_runtime_quota_reservation (reservation_record t q run tenant win n m)))
     (\<lambda>r. at_store (charged z i a c I r)) (\<lambda>e. at_store (E e))"
  by (rule triple_store) (simp add: triple_def charged_def identified_def quota_keys_def reservation_record_def insert_runtime_quota_reservation_def
      insert_into_def put_record_def getitem_def get_def get_or_def set_quota_reservations_def ledger_def runs_ok_def dict_simps)

lemma reserve_triple:
  "triple (at_store (ledger z i a c {} I any_row any_row any_row)) (reserve clock q run tenant profile config)
     (\<lambda>r. at_store (charged z i a c I r)) (raised (at_store (ledger z i a c {} I any_row any_row any_row)))"
proof -
  let ?L = "at_store (ledger z i a c {} I any_row any_row any_row)"
  have lim: "triple ?L (assert_within_limit t tenant win field n limit run why) (\<lambda>_. ?L) (raised ?L)" for t win field n limit why
    by (rule triple_weaken [OF triple_sys_aside [OF aside_limit]]) blast+
  have ev: "triple (at_store (charged z i a c I r)) (record_event t run e) (\<lambda>_. at_store (charged z i a c I r)) (raised ?L)" for t e r
    unfolding charged_def
    by (rule triple_no_raise [OF triple_keep [OF triple_weaken [OF triple_sys_aside [OF aside_event]]] record_event_no_raise]) simp_all
  show ?thesis
    unfolding reserve_def Let_def
    by (rule triple_bind [OF triple_pure(2)], assumption, blast, rule triple_bind [OF triple_pure(2)], assumption, blast,
        rule triple_bind [OF lim], rule triple_bind [OF lim], rule triple_bind [OF insert_reservation_triple],
        rule triple_bind [OF ev], rule triple_pure(1))
qed

subsection \<open>One claimed item\<close>

definition claimed_row :: "string \<Rightarrow> int \<Rightarrow> int \<Rightarrow> string \<Rightarrow> obj \<Rightarrow> bool" where
  "claimed_row i attempts limit tenant item \<longleftrightarrow> map_of item ''id'' = Some (JStr i) \<and> map_of item ''attempts'' = Some (JInt attempts) \<and>
     map_of item ''max_attempts'' = Some (JInt limit) \<and> map_of item ''tenant_id'' = Some (JStr tenant)"

lemma claimed_row_items:
  assumes "claimed_row i attempts limit tenant item"
  shows "getitem item ''id'' = (Inr (JStr i) :: ('e, json) res)" "getitem item ''attempts'' = (Inr (JInt attempts) :: ('e, json) res)"
    "getitem item ''max_attempts'' = (Inr (JInt limit) :: ('e, json) res)" "getitem item ''tenant_id'' = (Inr (JStr tenant) :: ('e, json) res)"
  using assms by (simp_all add: claimed_row_def getitem_def)

lemma reserve_quota_triple:
  assumes "claimed_row i attempts limit tenant item"
  shows "triple (on (ledger z i a c {} I any_row any_row any_row)) (reserve_quota w item sr) (\<lambda>r. on (charged z i a c I r))
     (raised (on (ledger z i a c {} I any_row any_row any_row)))"
proof -
  have tick: "triple (on P) (\<lambda>s. m s (s\<lparr>ru_ticks := ru_ticks s + 5\<rparr>)) Q E" if "\<And>s. triple (on P) (m s) Q E"
    for P :: "store \<Rightarrow> bool" and m :: "'a run_state \<Rightarrow> ('a, 'b) work" and Q E
    using that unfolding triple_def by simp
  have "triple (at_store (ledger z i a c {} I any_row any_row any_row)) (raising QuotaFailed (reserve clock q run owner profile config))
      (\<lambda>r. at_store (charged z i a c I r)) (\<lambda>e. at_store (raised (ledger z i a c {} I any_row any_row any_row) e))" for clock q run owner profile config
    by (rule triple_raising, rule triple_weaken [OF reserve_triple]) (auto simp: map_exn_Raise)
  from tick [OF triple_sys [OF this]] show ?thesis
    unfolding reserve_quota_def claimed_row_items [OF assms] bindS_lift_Inr by simp
qed

lemma prepare_triple:
  assumes item: "claimed_row i attempts limit tenant item"
  shows "triple (on (ledger z i a c {} any_row any_row any_row any_row)) (prepare w item run a)
     (\<lambda>p. on (charged z i a c (in_status ''running'') (snd p))) (raised (on (ledger z i a c {} any_row any_row any_row any_row)))"
proof -
  let ?L = "ledger z i a c {} any_row any_row any_row any_row" and ?R = "ledger z i a c {} (in_status ''running'') any_row any_row any_row"
  have RL: "?L st" if "?R st" for st using that by (rule ledger_weaken) simp_all
  have load: "triple (on ?L) (readS f) (\<lambda>_. on ?L) (raised (on ?L))" for f :: "'a run_state \<Rightarrow> (worker_error, 'b) res"
    by (rule triple_pure(3)) blast+
  have start: "triple (on ?L) (raising EntryFailed (start cfg task q)) (\<lambda>_. on ?L) (raised (on ?L) :: worker_error exn \<Rightarrow> 'a run_state \<Rightarrow> bool)"
    for cfg task q
    by (rule triple_weaken [OF triple_aside [where qs = "{}" and I = any_row and A = any_row and C = any_row and Q = any_row and z = z and i = i and a = a and c = c]])
      (intro side_intros, blast+)
  have mark: "triple (on ?L) (with_clock w (\<lambda>t. raising QueueFailed (mark_running t i k (Some a)))) (\<lambda>_. on ?R) (raised (on ?L))" for k
    unfolding mark_running_def
    by (rule triple_weaken [OF triple_clock [OF triple_raising [OF update_status_triple [where E = "\<lambda>_ _. False"]]]]) auto
  have key: "triple (on ?R) (liftS (getitem profile ''id'')) (\<lambda>_. on ?R) (raised (on ?L) :: worker_error exn \<Rightarrow> 'a run_state \<Rightarrow> bool)" for profile
    by (rule triple_pure(2)) (use RL in blast)+
  have row: "triple (on ?R) (on_sys (on_store (update_runtime_run_attempt a fs))) (\<lambda>_. on ?R) (raised (on ?L) :: worker_error exn \<Rightarrow> 'a run_state \<Rightarrow> bool)" for fs
    by (rule triple_weaken [OF triple_sys [OF triple_store [OF ledger_update(1) [where E = "\<lambda>_ _. False" and A' = any_row]]]]) auto
  have charge: "triple (on ?R) (reserve_quota w item sr) (\<lambda>r. on (charged z i a c (in_status ''running'') r)) (raised (on ?L))" for sr
    by (rule triple_weaken [OF reserve_quota_triple [OF item, where I = "in_status ''running''"]]) (auto dest: RL)
  show ?thesis
    unfolding prepare_def claimed_row_items [OF item] bindS_lift_Inr py_str.simps
    by (rule triple_bind [OF load], rule triple_bind [OF load], rule triple_bind [OF start], rule triple_bind [OF mark],
        rule triple_bind [OF key], rule triple_bind [OF row], rule triple_bind [OF charge], rule triple_pure(1)) simp
qed

lemma execute_triple:
  assumes item: "claimed_row i attempts limit tenant item"
  shows "triple (on (charged z i a c (in_status ''running'') r)) (execute w item sr)
     (\<lambda>_. on (charged z i a c (in_status ''running'') r)) (\<lambda>_. on (charged z i a c (in_status ''running'') r))"
proof -
  let ?C = "charged z i a c (in_status ''running'') r"
  let ?L = "ledger z i a c (quota_keys (Some r)) (in_status ''running'') any_row any_row any_row"
  have beat: "triple (on ?L) (with_clock w (\<lambda>t. raising QueueFailed (heartbeat t i (wk_config w)))) (\<lambda>_. on ?L) (\<lambda>_. on ?L)"
    by (rule triple_clock [OF triple_raising [OF heartbeat_triple]])
  have loop: "triple (on ?L) (raising RunFailed (loop_run cfg sr)) (\<lambda>_. on ?L) (\<lambda>_. on ?L :: 'a run_state \<Rightarrow> bool)" for cfg
    by (rule triple_aside) (intro side_intros)
  have "triple (on ?L) (execute w item sr) (\<lambda>_. on ?L) (\<lambda>_. on ?L)"
    unfolding execute_def claimed_row_items [OF item] bindS_lift_Inr py_str.simps by (rule triple_bind [OF beat loop])
  then show ?thesis unfolding charged_def triple_def by (fastforce split: prod.splits sum.splits)
qed

text \<open>What a settled item leaves: item, attempt and claim closed under one status, and every reservation of the attempt with the
  verdict on the quota.\<close>

definition settled :: "store \<Rightarrow> string \<Rightarrow> string \<Rightarrow> string \<Rightarrow> json set \<Rightarrow> string \<Rightarrow> string \<Rightarrow> process_result \<Rightarrow> store \<Rightarrow> bool" where
  "settled z i a c qs v verdict p st \<longleftrightarrow> pr_queue_id p = i \<and> pr_status p = JStr v \<and> pr_attempt_id p = a \<and>
     ledger z i a c qs (in_status v) (ended v) (released v) (in_status verdict) st"

lemma status_triple: "triple (\<lambda>s. in_status v x \<and> P s) (liftS (getitem x ''status'')) (\<lambda>status s. status = JStr v \<and> P s) (\<lambda>_ _. False)"
  by (rule triple_pure(2)) (auto simp: in_status_def getitem_def)

lemma triple_given: "(b \<Longrightarrow> triple P m Q E) \<Longrightarrow> triple (\<lambda>s. b \<and> P s) m Q E"
  by (auto simp: triple_def)

text \<open>Closing the attempt and the claim under the status of the stored item.\<close>

lemma closing_triples:
  "triple (on (ledger z i a c qs I A C Q)) (close_attempt w a (JStr v) stop) (\<lambda>_. on (ledger z i a c qs I (ended v) C Q)) (\<lambda>_ _. False)"
  "triple (on (ledger z i a c qs I A C Q)) (close_claim w c (JStr v)) (\<lambda>_. on (ledger z i a c qs I A (released v) Q)) (\<lambda>_ _. False)"
  "identified reservation \<Longrightarrow> triple (on (ledger z i a c (quota_keys reservation) I A C Q)) (settle_quota w (settle u) reservation)
     (\<lambda>_. on (ledger z i a c (quota_keys reservation) I A C (in_status u))) (\<lambda>_ _. False)"
  by (rule close_attempt_triple [where E = "\<lambda>_ _. False"], rule close_claim_triple [where E = "\<lambda>_ _. False"],
      rule settle_quota_triple [OF _ refl, where E = "\<lambda>_ _. False"])

lemma settle_failure_triple:
  assumes item: "claimed_row i attempts limit tenant item" and res: "identified reservation"
  shows "triple (on (ledger z i a c (quota_keys reservation) I A C Q)) (settle_failure w item run a c reservation error)
     (\<lambda>p. on (settled z i a c (quota_keys reservation) (failure_status attempts limit) ''refunded'' p)) (\<lambda>_ _. False)"
proof -
  let ?v = "failure_status attempts limit"
  obtain cl message stop where error: "error = (cl, message, stop)" by (cases error)
  have mark: "triple (on (ledger z i a c qs I A C Q)) (with_clock w (\<lambda>t3. raising QueueFailed
        (mark_failed_or_retry (wk_randint w) t1 t2 t3 item cl message (wk_config w) (Some run))))
      (\<lambda>x s. in_status ?v x \<and> ledger z i a c qs (in_status ?v) A C Q (store_of s)) (\<lambda>_ _. False)" for t1 t2 qs
    by (rule triple_weaken [OF triple_clock [OF triple_raising [OF mark_failed_triple [OF claimed_row_items [OF item], where E = "\<lambda>_ _. False"]]]]) auto
  have run: "triple (on (ledger z i a c qs I A C Q)) (fail_open_run w run stop) (\<lambda>_. on (ledger z i a c qs I A C Q)) (\<lambda>_ _. False)" for qs
    by (rule fail_open_run_triple)
  show ?thesis
    unfolding settle_failure_def error Let_def prod.case claimed_row_items [OF item] bindS_lift_Inr refund_def
    by (rule triple_bind [OF run], rule triple_bind [OF triple_tick], rule triple_bind [OF triple_tick], rule triple_bind [OF mark],
        rule triple_bind [OF status_triple], rule triple_given, hypsubst, rule triple_bind [OF closing_triples(1)],
        rule triple_bind [OF closing_triples(2)], rule triple_bind [OF closing_triples(3) [OF res]], rule triple_pure(1))
      (simp add: settled_def)
qed

definition result_status :: "loop_result \<Rightarrow> string" where
  "result_status result = (if lr_status result = ''cancelled'' then ''cancelled'' else ''succeeded'')"

definition result_verdict :: "loop_result \<Rightarrow> string" where
  "result_verdict result = (if lr_status result = ''cancelled'' then ''refunded'' else ''finalized'')"

lemma settle_result_triple:
  assumes item: "claimed_row i attempts limit tenant item"
  shows "triple (on (charged z i a c (in_status ''running'') r)) (settle_result w item a c r result)
     (\<lambda>p. on (settled z i a c (quota_keys (Some r)) (result_status result) (result_verdict result) p)) (\<lambda>_ _. False)"
proof (cases "identified (Some r)")
  case res: True
  let ?qs = "quota_keys (Some r)" and ?any = any_row
  let ?L = "ledger z i a c ?qs (in_status ''running'') any_row any_row any_row"
  have cancel: "triple (on ?L) (with_clock w (\<lambda>t2. raising QueueFailed (mark_cancelled t1 t2 i k)))
      (\<lambda>x s. in_status ''cancelled'' x \<and> ledger z i a c ?qs (in_status ''cancelled'') any_row any_row any_row (store_of s)) (\<lambda>_ _. False)" for t1 k
    by (rule triple_weaken [OF triple_clock [OF triple_raising [OF mark_cancelled_triple]]]) (auto simp: live_row_def elim!: ledger_weaken)
  have succeed: "triple (on ?L) (with_clock w (\<lambda>t. raising QueueFailed (mark_succeeded t i k)))
      (\<lambda>x s. in_status ''succeeded'' x \<and> ledger z i a c ?qs (in_status ''succeeded'') any_row any_row any_row (store_of s)) (\<lambda>_ _. False)" for k
    unfolding mark_succeeded_def
    by (rule triple_weaken [OF triple_clock [OF triple_raising [OF update_status_triple [where E = "\<lambda>_ _. False"]]]]) auto
  have "triple (on ?L) (settle_result w item a c r result)
     (\<lambda>p. on (settled z i a c ?qs (result_status result) (result_verdict result) p)) (\<lambda>_ _. False)"
  proof (cases "lr_status result = ''cancelled''")
    case True
    show ?thesis
      unfolding settle_result_def Let_def claimed_row_items [OF item] bindS_lift_Inr refund_def py_str.simps if_P [OF True]
      by (rule triple_bind [OF triple_tick], rule triple_bind [OF cancel],
          rule triple_bind [OF status_triple], rule triple_given, hypsubst, rule triple_bind [OF closing_triples(1)],
          rule triple_bind [OF closing_triples(2)], rule triple_bind [OF closing_triples(3) [OF res]], rule triple_pure(1))
        (simp add: settled_def result_status_def result_verdict_def True)
  next
    case False
    show ?thesis
      unfolding settle_result_def Let_def claimed_row_items [OF item] bindS_lift_Inr finalize_def py_str.simps if_not_P [OF False]
      by (rule triple_bind [OF succeed], rule triple_given, rule triple_bind [OF closing_triples(3) [OF res]])
        (simp only: in_status_def getitem_def option.case bindS_lift_Inr, rule triple_bind [OF closing_triples(1)],
          rule triple_bind [OF closing_triples(2)], rule triple_pure(1),
          simp add: settled_def result_status_def result_verdict_def False in_status_def)
  qed
  then show ?thesis unfolding charged_def using res by (auto simp: triple_def)
qed (simp add: charged_def triple_def)

text \<open>The statuses under which a worker settles an item, with the verdict on its quota.\<close>

definition settlements :: "int \<Rightarrow> int \<Rightarrow> (string \<times> string) list" where
  "settlements attempts limit =
     [(failure_status attempts limit, ''refunded''), (''cancelled'', ''refunded''), (''succeeded'', ''finalized'')]"

definition claim_settled :: "store \<Rightarrow> string \<Rightarrow> string \<Rightarrow> string \<Rightarrow> int \<Rightarrow> int \<Rightarrow> process_result \<Rightarrow> store \<Rightarrow> bool" where
  "claim_settled z i a c attempts limit p st \<longleftrightarrow>
     (\<exists>qs v verdict. (v, verdict) \<in> set (settlements attempts limit) \<and> settled z i a c qs v verdict p st)"

lemma claim_settled_ids: "claim_settled z i a c attempts limit p st \<Longrightarrow> i = pr_queue_id p \<and> a = pr_attempt_id p"
  by (auto simp: claim_settled_def settled_def)

lemma process_claim_triple:
  assumes item: "claimed_row i attempts limit tenant item"
  shows "triple (on (ledger z i a c {} any_row any_row any_row any_row)) (process_claim w item run a c)
     (\<lambda>p. on (claim_settled z i a c attempts limit p)) (\<lambda>e _. \<forall>x. e = Raise x \<longrightarrow> handled x = None)"
proof -
  let ?L = "ledger z i a c {} any_row any_row any_row any_row" and ?E = "\<lambda>e (_ :: 'a run_state). \<forall>x. e = Raise x \<longrightarrow> handled x = None"
  have fail: "triple (\<lambda>s. raised (on (ledger z i a c (quota_keys reservation) I any_row any_row any_row)) e s)
      (case e of Py x \<Rightarrow> liftS (Inl (Py x))
       | Raise error \<Rightarrow> (case handled error of None \<Rightarrow> liftS (Inl (Raise error))
           | Some why \<Rightarrow> settle_failure w item run a c reservation why))
      (\<lambda>p. on (claim_settled z i a c attempts limit p)) ?E" if "identified reservation" for reservation e I
  proof (cases e)
    case (Raise error)
    show ?thesis
    proof (cases "handled error")
      case (Some why)
      show ?thesis
        unfolding Raise exn.case Some option.case
        by (rule triple_weaken [OF settle_failure_triple [OF item that]]) (auto simp: claim_settled_def settlements_def)
    qed (simp add: Raise triple_def liftS_def)
  qed (simp add: triple_def liftS_def)
  have finish: "triple (on (charged z i a c (in_status ''running'') r)) (settle_result w item a c r result)
      (\<lambda>p. on (claim_settled z i a c attempts limit p)) ?E" for r result
    by (rule triple_weaken [OF settle_result_triple [OF item]])
      (auto simp: claim_settled_def settlements_def result_status_def result_verdict_def split: if_splits)
  show ?thesis
    unfolding process_claim_def Let_def
  proof (rule triple_outcome [OF prepare_triple [OF item]]; unfold sum.case)
    fix e show "triple (raised (on ?L) e) (case e of Py x \<Rightarrow> liftS (Inl (Py x)) | Raise error \<Rightarrow> (case handled error of
          None \<Rightarrow> liftS (Inl (Raise error)) | Some why \<Rightarrow> settle_failure w item run a c None why))
        (\<lambda>p. on (claim_settled z i a c attempts limit p)) ?E"
      by (rule triple_weaken [OF fail [of None]]) (auto simp: identified_def quota_keys_def)
  next
    fix p :: "start_result \<times> obj"
    obtain sr r where p: "p = (sr, r)" by (cases p)
    show "triple (on (charged z i a c (in_status ''running'') (snd p))) (case p of (sr, reservation) \<Rightarrow>
          bindS (outcomeS (execute w item sr)) (\<lambda>outcome. case outcome of
            Inl e \<Rightarrow> (case e of Py x \<Rightarrow> liftS (Inl (Py x)) | Raise error \<Rightarrow> (case handled error of
              None \<Rightarrow> liftS (Inl (Raise error)) | Some why \<Rightarrow> settle_failure w item run a c (Some reservation) why))
          | Inr result \<Rightarrow> settle_result w item a c reservation result))
        (\<lambda>p. on (claim_settled z i a c attempts limit p)) ?E"
      unfolding p prod.case snd_conv
    proof (rule triple_outcome [OF execute_triple [OF item]]; unfold sum.case)
      fix e
      show "triple (on (charged z i a c (in_status ''running'') r)) (case e of Py x \<Rightarrow> liftS (Inl (Py x)) | Raise error \<Rightarrow> (case handled error of
          None \<Rightarrow> liftS (Inl (Raise error)) | Some why \<Rightarrow> settle_failure w item run a c (Some r) why))
        (\<lambda>p. on (claim_settled z i a c attempts limit p)) ?E"
        unfolding charged_def by (rule triple_given, rule triple_weaken [OF fail [of "Some r"]]) auto
    qed (rule finish)
  qed
qed

subsection \<open>Processing one item\<close>

definition limits_ok :: "store \<Rightarrow> bool" where
  "limits_ok st \<longleftrightarrow> list_all (\<lambda>item. has_int item ''max_attempts'') (dict_values (st_runtime_queue_items st))"

lemma claim_ledger:
  assumes wf: "queue_wf (st_runtime_queue_items st)" and runs: "runs_ok st" and lim: "limits_ok st"
    and claim: "reference_claim q (st_runtime_queue_items st) = Some (k, b)"
  obtains i item a c run tenant where "map_of (st_runtime_queue_items st) (JStr i) = Some item"
    "claimed_row i (ifield item ''attempts'' + 1) (ifield item ''max_attempts'') tenant (cb_queue_item b)"
    "map_of (cb_attempt b) ''run_id'' = Some (JStr run)" "map_of (cb_attempt b) ''id'' = Some (JStr a)" "map_of (cb_claim b) ''id'' = Some (JStr c)"
    "ledger st i a c {} any_row any_row any_row any_row (apply_claim k b st)"
proof -
  from reference_claim_Some [OF claim wf] obtain item where item: "map_of (st_runtime_queue_items st) k = Some item"
    "(k, item) \<in> set (st_runtime_queue_items st)" "b = claim_of q item" by metis
  from item(2) wf have iw: "item_wf k item" by (auto simp: queue_wf_def)
  from item(2) lim have mx: "has_int item ''max_attempts''" by (force simp: limits_ok_def list_all_iff)
  let ?i = "sfield item ''id''"
  obtain run a c where ids: "map_of (cb_attempt b) ''run_id'' = Some (JStr run)" "map_of (cb_attempt b) ''id'' = Some (JStr a)"
    "map_of (cb_claim b) ''id'' = Some (JStr c)"
    unfolding item(3) claim_of_def Let_def by (simp add: attempt_record_def claim_record_def)
  have k: "k = JStr ?i" and texts: "has_text item ''id''" "has_text item ''tenant_id''" using iw by (simp_all add: item_wf_def)
  have row: "claimed_row ?i (ifield item ''attempts'' + 1) (ifield item ''max_attempts'') (sfield item ''tenant_id'') (cb_queue_item b)"
    using texts mx unfolding claimed_row_def item(3) claim_of_item by (simp add: map_of_update claim_fields_def has_text_def has_int_def)
  have "ledger st ?i a c {} any_row any_row any_row any_row (apply_claim k b st)"
    using item(1) ids(2,3) runs by (simp add: ledger_def runs_ok_def apply_claim_def k dict_simps get_def get_or_def)
  with that [of ?i item "sfield item ''tenant_id''" run a c] item(1) k row ids show thesis by blast
qed

abbreviation claim_by :: "'w worker \<Rightarrow> 'w run_state \<Rightarrow> claim_request" where
  "claim_by w s \<equiv> claim_request_of (wk_clock w (ru_ticks s)) (wk_worker_id w) (wk_config w)"

lemma claim_step:
  assumes "queue_wf (st_runtime_queue_items (store_of s))"
  shows "with_clock w (\<lambda>t. raising QueueFailed (claim_next_attempt t (wk_worker_id w) (wk_config w))) s =
     (case reference_claim (claim_by w s) (st_runtime_queue_items (store_of s)) of
        None \<Rightarrow> (Inr None, s\<lparr>ru_ticks := Suc (ru_ticks s)\<rparr>)
      | Some (k, b) \<Rightarrow> (Inr (Some b), s\<lparr>ru_ticks := Suc (ru_ticks s), ru_sys := (ru_sys s)\<lparr>qs_store := apply_claim k b (store_of s)\<rparr>\<rparr>))"
  by (simp add: with_clock_def bindS_def tick_def on_sys_def raising_def catch_as_def claim_next_attempt_def on_store_def claim_next_wf [OF assms]
      split: option.splits prod.splits)

lemma process_one_settles:
  assumes wf: "queue_wf (st_runtime_queue_items (store_of s))" and runs: "runs_ok (store_of s)" and lim: "limits_ok (store_of s)"
  shows "case process_one w s of
     (Inr None, s') \<Rightarrow> reference_claim (claim_by w s) (st_runtime_queue_items (store_of s)) = None \<and> store_of s' = store_of s
   | (Inr (Some p), s') \<Rightarrow> \<exists>item c. map_of (st_runtime_queue_items (store_of s)) (JStr (pr_queue_id p)) = Some item \<and>
       claim_settled (store_of s) (pr_queue_id p) (pr_attempt_id p) c (ifield item ''attempts'' + 1) (ifield item ''max_attempts'') p (store_of s')
   | (Inl e, s') \<Rightarrow> \<forall>x. e = Raise x \<longrightarrow> handled x = None"
proof (cases "reference_claim (claim_by w s) (st_runtime_queue_items (store_of s))")
  case None
  then show ?thesis by (simp add: process_one_def bindS_def claim_step [OF wf])
next
  case (Some kb)
  then obtain k b where claim: "reference_claim (claim_by w s) (st_runtime_queue_items (store_of s)) = Some (k, b)" by (cases kb) simp
  from claim_ledger [OF wf runs lim claim] obtain i item a c run tenant where
    item: "map_of (st_runtime_queue_items (store_of s)) (JStr i) = Some item"
    and row: "claimed_row i (ifield item ''attempts'' + 1) (ifield item ''max_attempts'') tenant (cb_queue_item b)"
    and ids: "map_of (cb_attempt b) ''run_id'' = Some (JStr run)" "map_of (cb_attempt b) ''id'' = Some (JStr a)" "map_of (cb_claim b) ''id'' = Some (JStr c)"
    and led: "ledger (store_of s) i a c {} any_row any_row any_row any_row (apply_claim k b (store_of s))" by metis
  let ?s1 = "s\<lparr>ru_ticks := Suc (ru_ticks s), ru_sys := (ru_sys s)\<lparr>qs_store := apply_claim k b (store_of s)\<rparr>\<rparr>"
  obtain r s' where r: "process_claim w (cb_queue_item b) run a c ?s1 = (r, s')" by fastforce
  have one: "process_one w s = (case r of Inl e \<Rightarrow> (Inl e, s') | Inr p \<Rightarrow> (Inr (Some p), s'))"
    using r ids by (simp add: process_one_def bindS_def claim_step [OF wf] claim getitem_def liftS_def split: sum.splits)
  have "ledger (store_of s) i a c {} any_row any_row any_row any_row (store_of ?s1)" using led by simp
  from process_claim_triple [OF row, of "store_of s" a c w run, unfolded triple_def, rule_format, OF this] r
  have "case r of Inr p \<Rightarrow> claim_settled (store_of s) i a c (ifield item ''attempts'' + 1) (ifield item ''max_attempts'') p (store_of s')
      | Inl e \<Rightarrow> \<forall>x. e = Raise x \<longrightarrow> handled x = None"
    by (cases r) simp_all
  then show ?thesis
    using item unfolding one by (cases r) (auto dest: claim_settled_ids)
qed

text \<open>C7. A worker never drops what it claims: with nothing to claim it changes nothing; a claimed item whose run ends, or fails
  with one of the errors the worker names, has its row, its attempt and its claim closed under one status (\<open>succeeded\<close>,
  \<open>cancelled\<close>, \<open>retry_scheduled\<close> while attempts are left and \<open>dead_lettered\<close> otherwise), every quota reservation it made
  finalised or refunded accordingly, and no other item, attempt or reservation changed; every other exception escapes.\<close>

theorem worker_settles:
  assumes "queue_wf (st_runtime_queue_items (store_of s))" and "runs_ok (store_of s)" and "limits_ok (store_of s)"
  shows "case process_one w s of
     (Inr None, s') \<Rightarrow> reference_claim (claim_by w s) (st_runtime_queue_items (store_of s)) = None \<and> store_of s' = store_of s
   | (Inr (Some p), s') \<Rightarrow> \<exists>item c. map_of (st_runtime_queue_items (store_of s)) (JStr (pr_queue_id p)) = Some item \<and>
       claim_settled (store_of s) (pr_queue_id p) (pr_attempt_id p) c (ifield item ''attempts'' + 1) (ifield item ''max_attempts'') p (store_of s')
   | (Inl e, s') \<Rightarrow> \<forall>x. e = Raise x \<longrightarrow> handled x = None"
  by (rule process_one_settles [OF assms])

text \<open>An item whose task payload is not an object.\<close>

definition waiting_system :: queue_sys where
  "waiting_system = snd (on_artifacts (write_json_raw [''queue'', queued_id, ''task-payload''] (JList [])) queued_system
     :: (queue_error, string) res \<times> queue_sys)"

definition waiting_state :: "nat run_state" where
  "waiting_state = idle_state\<lparr>ru_sys := waiting_system\<rparr>"

definition sample_worker :: "nat worker" where
  "sample_worker = \<lparr>wk_worker_id = ''worker-1'', wk_config = default_queue_config, wk_composition = None, wk_retrieval = None, wk_adapters = [],
     wk_clock = (\<lambda>n. seconds 200), wk_utc = (\<lambda>n. seconds 200), wk_monotonic = (\<lambda>n. seconds 200), wk_sha256 = (\<lambda>x. x), wk_randint = (\<lambda>_ n. n)\<rparr>"

lemma waiting_store: "store_of waiting_state = qs_store waiting_system"
  by (simp add: waiting_state_def)

lemma waiting_facts:
  "queue_wf (st_runtime_queue_items (store_of waiting_state))" "runs_ok (store_of waiting_state)" "limits_ok (store_of waiting_state)"
proof -
  have "list_all (\<lambda>(k, item). item_wf k item) (st_runtime_queue_items (qs_store waiting_system))"
    "distinct (dict_keys (st_runtime_queue_items (qs_store waiting_system)))" "limits_ok (qs_store waiting_system)"
    "st_runtime_runs (qs_store waiting_system) = []" by code_simp+
  then show "queue_wf (st_runtime_queue_items (store_of waiting_state))" "runs_ok (store_of waiting_state)" "limits_ok (store_of waiting_state)"
    unfolding waiting_store by (simp_all add: queue_wf_def list_all_iff runs_ok_def)
qed

text \<open>Loading a payload that is no object is one of the errors the worker settles.\<close>

lemma unloadable_claim:
  assumes "reference_claim (claim_by w s) (st_runtime_queue_items (store_of s)) = Some (k, b)"
    and "load_task (cb_queue_item b) (qs_artifacts (ru_sys s)) = Inl (Raise TaskNotObject)"
    and wf: "queue_wf (st_runtime_queue_items (store_of s))" and runs: "runs_ok (store_of s)" and lim: "limits_ok (store_of s)"
  obtains p s' where "process_one w s = (Inr (Some p), s')"
proof -
  from claim_ledger [OF wf runs lim assms(1)] obtain i item a c run tenant where
    row: "claimed_row i (ifield item ''attempts'' + 1) (ifield item ''max_attempts'') tenant (cb_queue_item b)"
    and ids: "map_of (cb_attempt b) ''run_id'' = Some (JStr run)" "map_of (cb_attempt b) ''id'' = Some (JStr a)" "map_of (cb_claim b) ''id'' = Some (JStr c)"
    and led: "ledger (store_of s) i a c {} any_row any_row any_row any_row (apply_claim k b (store_of s))" by metis
  let ?s1 = "s\<lparr>ru_ticks := Suc (ru_ticks s), ru_sys := (ru_sys s)\<lparr>qs_store := apply_claim k b (store_of s)\<rparr>\<rparr>"
  let ?why = "(''RuntimeQueueError'', queue_message TaskNotObject, JStr ''runtime_error'')"
  have "process_claim w (cb_queue_item b) run a c ?s1 = settle_failure w (cb_queue_item b) run a c None ?why ?s1"
    by (simp add: process_claim_def prepare_def bindS_def outcomeS_def readS_def catch_as_def assms(2))
  moreover have "identified None" "ledger (store_of s) i a c (quota_keys None) any_row any_row any_row any_row (store_of ?s1)"
    using led by (simp_all add: identified_def quota_keys_def)
  then obtain p s' where "settle_failure w (cb_queue_item b) run a c None ?why ?s1 = (Inr p, s')"
    using triple_total [OF settle_failure_triple [OF row]] by metis
  ultimately have "process_one w s = (Inr (Some p), s')"
    using ids by (simp add: process_one_def bindS_def claim_step [OF wf] assms(1) getitem_def liftS_def)
  then show thesis by (rule that)
qed

theorem worker_settles_witness:
  "\<exists>p s' item c. process_one sample_worker waiting_state = (Inr (Some p), s') \<and>
     claim_settled (store_of waiting_state) (pr_queue_id p) (pr_attempt_id p) c (ifield item ''attempts'' + 1) (ifield item ''max_attempts'') p (store_of s')"
proof -
  have "case fst (claim_next_runtime_queue_attempt (claim_request_of (seconds 200) ''worker-1'' default_queue_config) (qs_store waiting_system)
        :: (queue_error, claim_bundle option) res \<times> store) of
      Inr (Some b) \<Rightarrow> load_task (cb_queue_item b) (qs_artifacts waiting_system) = Inl (Raise TaskNotObject) | _ \<Rightarrow> False" by code_simp
  then obtain k b where "reference_claim (claim_by sample_worker waiting_state) (st_runtime_queue_items (store_of waiting_state)) = Some (k, b)"
    "load_task (cb_queue_item b) (qs_artifacts (ru_sys waiting_state)) = Inl (Raise TaskNotObject)"
    unfolding claim_next_wf [OF waiting_facts(1) [unfolded waiting_store]]
    by (auto simp: sample_worker_def waiting_store waiting_state_def split: option.splits)
  from unloadable_claim [OF this waiting_facts] obtain p s' where "process_one sample_worker waiting_state = (Inr (Some p), s')" .
  with worker_settles [OF waiting_facts, of sample_worker] show ?thesis by auto
qed

end
