(* ===== verification/Safety_Compiler.thy ===== *)
theory Safety_Compiler
  imports Py_Json
begin

text \<open>
  \<open>runtime/safety_compiler.py\<close>: the gate between what was learned from runs and what a run may do. A prior that carries a change
  of authority is compared with the contrastive pairs of the guard policy; the outcome is a decision, never a grant.
\<close>

subsection \<open>Guard policies\<close>

definition BLOCKING_GATES :: "string list" where
  "BLOCKING_GATES = [''freeze_prior'', ''needs_human_review'', ''needs_more_evidence'', ''reject'']"

definition AUTHORITY_DELTAS :: "string list" where
  "AUTHORITY_DELTAS =
     [''tool_addition'', ''scope_expansion'', ''budget_increase'', ''validator_removal'', ''failure_mode_relaxation'', ''policy_exception'',
      ''data_access_expansion'', ''memory_scope_expansion'', ''knowledge_scope_expansion'']"

datatype safety_error = InvalidGuard "string list"

text \<open>\<open>any(x not in S for x in xs)\<close>.\<close>

definition any_unknown :: "string list \<Rightarrow> json list \<Rightarrow> ('e, bool) res" where
  "any_unknown S xs = bindR (findR (\<lambda>x. bindR (in_strings x S) (\<lambda>b. Inr (\<not> b))) xs) (\<lambda>r. Inr (r \<noteq> None))"

definition delta_failures :: "string \<Rightarrow> obj \<Rightarrow> ('e, string list) res" where
  "delta_failures name forbidden =
     (case as_list (get forbidden ''authority_delta'') of
        Some (d # ds) \<Rightarrow> bindR (any_unknown AUTHORITY_DELTAS (d # ds)) (\<lambda>u. Inr (if u then [name @ '': unknown authority_delta''] else []))
      | _ \<Rightarrow> Inr [name @ '': authority_delta missing''])"

definition pair_failures :: "json \<Rightarrow> ('e, string list) res" where
  "pair_failures v =
     (case as_obj v of
        None \<Rightarrow> Inr [''each contrastive pair must be an object'']
      | Some pair \<Rightarrow>
          let name = py_str (get_or pair ''pair_id'' (JStr ''<unknown>'')) in
          case as_obj (get pair ''forbidden_generalization'') of
            None \<Rightarrow> Inr [name @ '': forbidden boundary missing'']
          | Some forbidden \<Rightarrow>
              bindR (delta_failures name forbidden) (\<lambda>failures.
              bindR (in_strings (get pair ''expected_gate'') BLOCKING_GATES) (\<lambda>blocking.
              Inr (failures @ (if blocking then [] else [name @ '': non-blocking gate''])))))"

definition validate_guard_policy :: "obj \<Rightarrow> ('e, string list) res" where
  "validate_guard_policy guard =
     bindR (in_strings (get guard ''default_on_match'') BLOCKING_GATES) (\<lambda>blocking.
     let failures =
        (if get guard ''guard_id'' \<noteq> JStr ''semantic-drift-guard'' then [''guard_id must be semantic-drift-guard''] else []) @
        (if get guard ''authority_invariant'' \<noteq> JStr ''learned_context_not_authority''
         then [''authority_invariant must be learned_context_not_authority''] else []) @
        (if blocking then [] else [''default_on_match must be a blocking gate'']) in
     case as_list (get guard ''contrastive_pairs'') of
       Some (p # ps) \<Rightarrow> bindR (mapR pair_failures (p # ps)) (\<lambda>fs. Inr (failures @ concat fs))
     | _ \<Rightarrow> Inr (failures @ [''contrastive_pairs must be a non-empty array'']))"

definition safety_init :: "obj \<Rightarrow> (safety_error, obj) res" where
  "safety_init guard_policy =
     bindR (validate_guard_policy guard_policy) (\<lambda>failures.
     bindR (raise_if (failures \<noteq> []) (InvalidGuard failures)) (\<lambda>_. Inr guard_policy))"

subsection \<open>Decisions\<close>

record safety_decision =
  sd_decision :: string
  sd_automatic_promotion_allowed :: bool
  sd_matched_pair_ids :: "string list"
  sd_authority_delta :: "string list"
  sd_reviewed_policy_artifacts :: "string list"
  sd_reason :: string

definition decision_as_dict :: "safety_decision \<Rightarrow> obj" where
  "decision_as_dict d =
     [(''decision'', JStr (sd_decision d)), (''automatic_promotion_allowed'', JBool (sd_automatic_promotion_allowed d)),
      (''matched_pair_ids'', str_list (sd_matched_pair_ids d)), (''authority_delta'', str_list (sd_authority_delta d)),
      (''reviewed_policy_artifacts'', str_list (sd_reviewed_policy_artifacts d)), (''reason'', JStr (sd_reason d))]"

text \<open>\<open>[str(x) for x in m.get(k, []) if isinstance(x, str)]\<close>.\<close>

definition strings_at :: "obj \<Rightarrow> string \<Rightarrow> ('e, string list) res" where
  "strings_at m k = bindR (py_iter (get_or m k (JList []))) (\<lambda>xs. Inr (List.map_filter as_str xs))"

definition context_contains :: "obj \<Rightarrow> obj \<Rightarrow> bool" where
  "context_contains actual expected \<longleftrightarrow> list_all (\<lambda>(k, v). py_eq (get actual k) v) expected"

definition crosses :: "obj \<Rightarrow> string list \<Rightarrow> obj \<Rightarrow> string list \<Rightarrow> bool" where
  "crosses prior authority_delta pair forbidden_deltas \<longleftrightarrow>
     context_contains (obj_or_empty (get prior ''source_context'')) (obj_or_empty (get pair ''positive_context'')) \<and>
     context_contains (obj_or_empty (get prior ''target_context''))
       (filter (\<lambda>kv. fst kv \<noteq> ''authority_delta'') (obj_or_empty (get pair ''forbidden_generalization''))) \<and>
     (\<exists>d \<in> set authority_delta. d \<in> set forbidden_deltas)"

definition match_pair :: "obj \<Rightarrow> string list \<Rightarrow> obj \<Rightarrow> ('e, (string \<times> string) list) res" where
  "match_pair prior authority_delta pair =
     bindR (strings_at (obj_or_empty (get pair ''forbidden_generalization'')) ''authority_delta'') (\<lambda>forbidden_deltas.
     if crosses prior authority_delta pair forbidden_deltas then
       bindR (getitem pair ''pair_id'') (\<lambda>i. bindR (getitem pair ''expected_gate'') (\<lambda>g. Inr [(py_str i, py_str g)]))
     else Inr [])"

definition matching_pairs :: "obj \<Rightarrow> obj \<Rightarrow> string list \<Rightarrow> ('e, (string \<times> string) list) res" where
  "matching_pairs guard prior authority_delta =
     bindR (mapR (match_pair prior authority_delta) (mappings (get_or guard ''contrastive_pairs'' (JList [])))) (\<lambda>ms. Inr (concat ms))"

definition GATE_PRIORITY :: "(string \<times> int) list" where
  "GATE_PRIORITY = [(''freeze_prior'', 1), (''needs_more_evidence'', 2), (''needs_human_review'', 3), (''reject'', 4)]"

text \<open>\<open>max(gates, key=...)\<close>: the first gate of the highest priority.\<close>

definition strongest_gate :: "string list \<Rightarrow> ('e, string) res" where
  "strongest_gate gates =
     bindR (mapR (\<lambda>g. case map_of GATE_PRIORITY g of None \<Rightarrow> Inl (Py KeyError) | Some p \<Rightarrow> Inr (p, g)) gates) (\<lambda>keyed.
     case keyed of
       [] \<Rightarrow> Inl (Py ValueError)
     | k # ks \<Rightarrow> Inr (snd (fold (\<lambda>x best. if fst x > fst best then x else best) ks k)))"

definition compile_learned_authority_prior :: "obj \<Rightarrow> obj \<Rightarrow> string list \<Rightarrow> ('e, safety_decision) res" where
  "compile_learned_authority_prior guard prior reviewed_policy_artifacts =
     bindR (strings_at prior ''authority_delta'') (\<lambda>deltas.
     let authority_delta = sorted_set deltas;
         reviewed_artifacts = sorted_set (filter (\<lambda>a. a \<noteq> []) (map strip reviewed_policy_artifacts)) in
     if authority_delta = [] then
       Inr \<lparr>sd_decision = ''allow_ranking_only'', sd_automatic_promotion_allowed = True, sd_matched_pair_ids = [], sd_authority_delta = [],
          sd_reviewed_policy_artifacts = reviewed_artifacts,
          sd_reason = ''Learned context changes ranking only and carries no authority delta.''\<rparr>
     else
       bindR (matching_pairs guard prior authority_delta) (\<lambda>matched_pairs.
       if matched_pairs \<noteq> [] then
         bindR (strongest_gate (map snd matched_pairs)) (\<lambda>gate.
         Inr \<lparr>sd_decision = gate, sd_automatic_promotion_allowed = False, sd_matched_pair_ids = map fst matched_pairs,
            sd_authority_delta = authority_delta, sd_reviewed_policy_artifacts = reviewed_artifacts,
            sd_reason = ''Learned authority delta matches a forbidden contrastive boundary.''\<rparr>)
       else if reviewed_artifacts = [] then
         Inr \<lparr>sd_decision = ''reject'', sd_automatic_promotion_allowed = False, sd_matched_pair_ids = [],
            sd_authority_delta = authority_delta, sd_reviewed_policy_artifacts = [],
            sd_reason = ''Learned authority delta has no reviewed policy artifact.''\<rparr>
       else
         Inr \<lparr>sd_decision = ''allow_ranking_only'', sd_automatic_promotion_allowed = True, sd_matched_pair_ids = [],
            sd_authority_delta = authority_delta, sd_reviewed_policy_artifacts = reviewed_artifacts,
            sd_reason = ''Authority delta is bound to reviewed policy artifacts; learned context remains ranking-only.''\<rparr>))"

subsection \<open>Reports\<close>

definition compile_decision_report :: "obj \<Rightarrow> obj \<Rightarrow> string list \<Rightarrow> ('e, obj) res" where
  "compile_decision_report guard prior reviewed_policy_artifacts =
     bindR (compile_learned_authority_prior guard prior reviewed_policy_artifacts) (\<lambda>d.
     bindR (getitem guard ''guard_id'') (\<lambda>guard_id.
     bindR (getitem guard ''authority_invariant'') (\<lambda>authority_invariant.
     Inr [(''contract_version'', JStr ''0.1.0''), (''report_kind'', JStr ''semantic_drift_guard_decision''),
          (''guard_id'', JStr (py_str guard_id)), (''authority_invariant'', JStr (py_str authority_invariant)),
          (''source_context'', JObj (obj_or_empty (get prior ''source_context''))),
          (''target_context'', JObj (obj_or_empty (get prior ''target_context''))),
          (''authority_delta'', str_list (sd_authority_delta d)),
          (''matched_contrastive_pair_ids'', str_list (sd_matched_pair_ids d)), (''final_gate'', JStr (sd_decision d)),
          (''automatic_promotion_allowed'', JBool (sd_automatic_promotion_allowed d)), (''decision'', JObj (decision_as_dict d)),
          (''safe_for_release_evidence'', JBool True), (''raw_runtime_trace_included'', JBool False)])))"

definition add_if_string :: "json \<Rightarrow> string list" where
  "add_if_string v = (case as_str v of Some (c # s) \<Rightarrow> [c # s] | _ \<Rightarrow> [])"

text \<open>One pair's contribution: its identifier, environment, risk level, workflow and deltas.\<close>

definition pair_coverage :: "obj \<Rightarrow> ('e, string \<times> string list \<times> string list \<times> string list \<times> string list) res" where
  "pair_coverage pair =
     bindR (getitem pair ''pair_id'') (\<lambda>i.
     let forbidden = obj_or_empty (get pair ''forbidden_generalization'') in
     bindR (py_iter (get_or forbidden ''authority_delta'' (JList []))) (\<lambda>deltas.
     Inr (py_str i, add_if_string (get forbidden ''environment''), add_if_string (get forbidden ''risk_level''),
          add_if_string (get forbidden ''workflow_id''), concat (map add_if_string deltas))))"

definition contrastive_pair_coverage_report :: "obj \<Rightarrow> ('e, obj) res" where
  "contrastive_pair_coverage_report guard =
     bindR (mapR pair_coverage (mappings (get_or guard ''contrastive_pairs'' (JList [])))) (\<lambda>cs.
     bindR (getitem guard ''guard_id'') (\<lambda>guard_id.
     let deltas = concat (map (\<lambda>(_, _, _, _, d). d) cs) in
     Inr [(''contract_version'', JStr ''0.1.0''), (''report_kind'', JStr ''semantic_drift_guard_coverage''),
          (''guard_id'', JStr (py_str guard_id)), (''covered_pair_ids'', str_list (sort (map fst cs))),
          (''coverage'', JObj
            [(''environments'', str_list (sorted_set (concat (map (\<lambda>(_, e, _, _, _). e) cs)))),
             (''risk_levels'', str_list (sorted_set (concat (map (\<lambda>(_, _, r, _, _). r) cs)))),
             (''workflow_ids'', str_list (sorted_set (concat (map (\<lambda>(_, _, _, w, _). w) cs)))),
             (''authority_delta'', str_list (sorted_set deltas))]),
          (''coverage_gaps'', JObj [(''authority_delta'', str_list (sorted_diff AUTHORITY_DELTAS deltas))]),
          (''safe_for_release_evidence'', JBool True), (''raw_runtime_trace_included'', JBool False)]))"

subsection \<open>What a guard policy blocks\<close>

definition forbidden_of :: "obj \<Rightarrow> string list" where
  "forbidden_of pair = List.map_filter as_str
     (case as_list (get (obj_or_empty (get pair ''forbidden_generalization'')) ''authority_delta'') of None \<Rightarrow> [] | Some xs \<Rightarrow> xs)"

definition gate_of :: "obj \<Rightarrow> string" where
  "gate_of pair = py_str (get pair ''expected_gate'')"

definition contrastive_pairs :: "obj \<Rightarrow> obj list" where
  "contrastive_pairs guard = mappings (get_or guard ''contrastive_pairs'' (JList []))"

definition gate_rank :: "string \<Rightarrow> int" where
  "gate_rank g = (case map_of GATE_PRIORITY g of None \<Rightarrow> 0 | Some p \<Rightarrow> p)"

definition pair_ok :: "obj \<Rightarrow> bool" where
  "pair_ok pair \<longleftrightarrow> (\<exists>f xs. get pair ''forbidden_generalization'' = JObj f \<and> get f ''authority_delta'' = JList xs) \<and>
     (\<exists>gate \<in> set BLOCKING_GATES. get pair ''expected_gate'' = JStr gate)"

lemma pair_failures_none: "pair_failures v = Inr [] \<Longrightarrow> v = JObj pair \<Longrightarrow> pair_ok pair"
  by (auto simp: pair_failures_def pair_ok_def Let_def bindR_Inr_iff in_strings_True delta_failures_def as_obj_iff as_list_iff
      split: option.splits list.splits if_splits)

lemma guard_pairs:
  assumes "safety_init guard = Inr g" and "pair \<in> set (contrastive_pairs g)"
  shows "pair_ok pair"
proof -
  from assms(1) have g: "g = guard" and v: "validate_guard_policy guard = (Inr [] :: (safety_error, string list) res)"
    by (auto simp: safety_init_def bindR_Inr_iff raise_if_Inr)
  obtain p ps where ps: "get guard ''contrastive_pairs'' = JList (p # ps)"
  proof (cases "as_list (get guard ''contrastive_pairs'')")
    case None
    then show ?thesis using v by (simp add: validate_guard_policy_def bindR_Inr_iff)
  next
    case (Some xs)
    then show ?thesis using v that by (cases xs) (auto simp: validate_guard_policy_def bindR_Inr_iff as_list_iff)
  qed
  with v obtain fs where fs: "mapR pair_failures (p # ps) = (Inr fs :: (safety_error, string list list) res)" "concat fs = []"
    by (simp only: validate_guard_policy_def bindR_Inr_iff as_list.simps option.case list.case Let_def sum.inject append_is_Nil_conv) blast
  have "get_or guard ''contrastive_pairs'' (JList []) = JList (p # ps)" using ps by (auto simp: get_def get_or_def split: option.splits)
  with assms(2) g have "JObj pair \<in> set (p # ps)" by (simp only: contrastive_pairs_def set_mappings json.inject) auto
  from mapR_member [OF fs(1) this] fs(2) have "pair_failures (JObj pair) = (Inr [] :: (safety_error, string list) res)" by auto
  then show ?thesis by (rule pair_failures_none) simp
qed

lemma pair_ok_facts:
  assumes "pair_ok pair"
  shows "strings_at (obj_or_empty (get pair ''forbidden_generalization'')) ''authority_delta'' = (Inr (forbidden_of pair) :: ('e, string list) res)"
    and "getitem pair ''expected_gate'' = (Inr (JStr (gate_of pair)) :: ('e, json) res)" and "gate_of pair \<in> set BLOCKING_GATES"
  using assms
  by (auto simp: pair_ok_def strings_at_def forbidden_of_def gate_of_def obj_or_empty_def getitem_def get_def get_or_def split: option.splits)

lemma match_gates:
  "mapR (match_pair prior ds) ps = (Inr ms :: ('e, (string \<times> string) list list) res) \<Longrightarrow> \<forall>pair \<in> set ps. pair_ok pair \<Longrightarrow>
     snd ` set (concat ms) = gate_of ` {pair \<in> set ps. crosses prior ds pair (forbidden_of pair)}"
proof (induction ps arbitrary: ms)
  case (Cons p ps)
  from Cons.prems obtain m ms' where m: "match_pair prior ds p = (Inr m :: ('e, (string \<times> string) list) res)" "mapR (match_pair prior ds) ps = (Inr ms' :: ('e, (string \<times> string) list list) res)"
    "ms = m # ms'" by (auto simp: bindR_Inr_iff)
  have ok: "pair_ok p" using Cons.prems by simp
  have "snd ` set m = gate_of ` {pair \<in> {p}. crosses prior ds pair (forbidden_of pair)}"
    using m(1) by (auto simp: match_pair_def pair_ok_facts [OF ok] bindR_Inr_iff split: if_splits)
  moreover have "{pair \<in> set (p # ps). crosses prior ds pair (forbidden_of pair)} =
      {pair \<in> {p}. crosses prior ds pair (forbidden_of pair)} \<union> {pair \<in> set ps. crosses prior ds pair (forbidden_of pair)}" by auto
  ultimately show ?case using Cons.IH [OF m(2)] Cons.prems(2) m(3) by (simp add: image_Un)
qed simp

lemma fold_best:
  "fold (\<lambda>x best. if fst x > fst best then x else best) ks (k :: int \<times> 'a) \<in> set (k # ks) \<and>
   (\<forall>x \<in> set (k # ks). fst x \<le> fst (fold (\<lambda>x best. if fst x > fst best then x else best) ks k))"
proof (induction ks arbitrary: k)
  case (Cons x ks)
  show ?case
  proof (cases "fst x > fst k")
    case True
    then show ?thesis using Cons.IH [of x] by auto
  next
    case False
    then show ?thesis using Cons.IH [of k] by auto
  qed
qed simp

lemma strongest_gate_max:
  assumes "strongest_gate gates = (Inr g :: ('e, string) res)"
  shows "g \<in> set gates" and "g' \<in> set gates \<Longrightarrow> gate_rank g' \<le> gate_rank g"
proof -
  let ?key = "\<lambda>g. case map_of GATE_PRIORITY g of None \<Rightarrow> Inl (Py KeyError) | Some p \<Rightarrow> (Inr (p, g) :: ('e, int \<times> string) res)"
  from assms obtain ys where ys: "mapR ?key gates = Inr ys"
    "(case ys of [] \<Rightarrow> Inl (Py ValueError) | k # ks \<Rightarrow> Inr (snd (fold (\<lambda>x best. if fst x > fst best then x else best) ks k))) = (Inr g :: ('e, string) res)"
    by (auto simp: strongest_gate_def bindR_Inr_iff)
  then obtain k ks where keyed: "mapR ?key gates = Inr (k # ks)"
    and g: "g = snd (fold (\<lambda>x best. if fst x > fst best then x else best) ks k)" by (cases ys) auto
  have in_keyed: "(gate_rank h, h) \<in> set (k # ks)" if "h \<in> set gates" for h
    using mapR_member [OF keyed that] by (auto simp: gate_rank_def split: option.splits)
  have of_keyed: "snd x \<in> set gates \<and> fst x = gate_rank (snd x)" if "x \<in> set (k # ks)" for x
  proof -
    from keyed have all: "list_all2 (\<lambda>h y. ?key h = Inr y) gates (k # ks)" by (simp add: mapR_Inr_iff)
    from that obtain n where n: "n < length (k # ks)" "(k # ks) ! n = x" unfolding in_set_conv_nth by blast
    from list_all2_nthD2 [OF all n(1)] n(2) have "?key (gates ! n) = Inr x" by simp
    moreover have "gates ! n \<in> set gates" using n(1) list_all2_lengthD [OF all] by simp
    ultimately show ?thesis by (auto simp: gate_rank_def split: option.splits)
  qed
  let ?b = "fold (\<lambda>x best. if fst x > fst best then x else best) ks k"
  have b: "?b \<in> set (k # ks)" and best: "\<And>x. x \<in> set (k # ks) \<Longrightarrow> fst x \<le> fst ?b" using fold_best [of ks k] by blast+
  from of_keyed [OF b] g show "g \<in> set gates" by simp
  show "gate_rank g' \<le> gate_rank g" if "g' \<in> set gates" using best [OF in_keyed [OF that]] of_keyed [OF b] g by simp
qed

lemma crosses_cong: "set a = set b \<Longrightarrow> crosses prior a = crosses prior b"
  by (simp add: crosses_def fun_eq_iff)

text \<open>C22. Learned context is ranked, never promoted past a boundary: under an accepted guard policy a prior is promoted
  automatically exactly when it carries no change of authority, or crosses no forbidden boundary and names a reviewed policy
  artifact; otherwise the decision is a blocking gate, at least as strong as the gate of every boundary that is crossed.\<close>

theorem safety_gate_exact:
  assumes "safety_init guard = Inr g" and "compile_learned_authority_prior g prior artifacts = (Inr d :: (safety_error, safety_decision) res)"
    and "strings_at prior ''authority_delta'' = (Inr ds :: (safety_error, string list) res)"
  shows "(sd_automatic_promotion_allowed d \<longleftrightarrow> ds = [] \<or>
            (\<forall>pair \<in> set (contrastive_pairs g). \<not> crosses prior ds pair (forbidden_of pair)) \<and> (\<exists>a \<in> set artifacts. strip a \<noteq> [])) \<and>
     (if sd_automatic_promotion_allowed d then sd_decision d = ''allow_ranking_only''
      else sd_decision d \<in> set BLOCKING_GATES \<and>
        (\<forall>pair \<in> set (contrastive_pairs g). crosses prior ds pair (forbidden_of pair) \<longrightarrow> gate_rank (gate_of pair) \<le> gate_rank (sd_decision d)))"
proof (cases "ds = []")
  case True
  then show ?thesis using assms(2,3) by (auto simp: compile_learned_authority_prior_def sorted_set_def)
next
  case False
  let ?ds = "sorted_set ds" and ?ps = "contrastive_pairs g"
  let ?crossed = "{pair \<in> set ?ps. crosses prior ds pair (forbidden_of pair)}"
  let ?arts = "sorted_set (filter (\<lambda>a. a \<noteq> []) (map strip artifacts))"
  have ds: "?ds \<noteq> []" "crosses prior ?ds = crosses prior ds" using False by (auto intro: crosses_cong simp flip: set_empty)
  from assms(2,3) ds(1) obtain ms where ms: "mapR (match_pair prior ?ds) ?ps = (Inr ms :: (safety_error, (string \<times> string) list list) res)"
    and d: "if concat ms \<noteq> [] then \<exists>gate. strongest_gate (map snd (concat ms)) = (Inr gate :: (safety_error, string) res) \<and>
          sd_decision d = gate \<and> \<not> sd_automatic_promotion_allowed d
        else if ?arts = [] then sd_decision d = ''reject'' \<and> \<not> sd_automatic_promotion_allowed d
        else sd_decision d = ''allow_ranking_only'' \<and> sd_automatic_promotion_allowed d"
    by (auto simp: compile_learned_authority_prior_def matching_pairs_def contrastive_pairs_def bindR_Inr_iff Let_def split: if_splits)
  have ok: "\<forall>pair \<in> set ?ps. pair_ok pair" using guard_pairs [OF assms(1)] by blast
  from match_gates [OF ms ok] ds(2) have gates: "set (map snd (concat ms)) = gate_of ` ?crossed" by simp
  have "concat ms = [] \<longleftrightarrow> set (map snd (concat ms)) = {}" by (simp only: set_empty map_is_Nil_conv)
  then have none: "concat ms = [] \<longleftrightarrow> ?crossed = {}" unfolding gates by (simp only: image_is_empty)
  have "?arts = [] \<longleftrightarrow> set ?arts = {}" by (simp only: set_empty)
  then have arts: "?arts = [] \<longleftrightarrow> \<not> (\<exists>a \<in> set artifacts. strip a \<noteq> [])" by (auto simp del: set_empty)
  show ?thesis
  proof (cases "concat ms = []")
    case True
    with none have no: "\<forall>pair \<in> set ?ps. \<not> crosses prior ds pair (forbidden_of pair)" by blast
    show ?thesis
    proof (cases "?arts = []")
      case noarts: True
      have "sd_decision d = ''reject'' \<and> \<not> sd_automatic_promotion_allowed d" using d by (simp only: True noarts simp_thms if_True if_False)
      then show ?thesis using no noarts arts False by (simp add: BLOCKING_GATES_def)
    next
      case reviewed: False
      have "sd_decision d = ''allow_ranking_only'' \<and> sd_automatic_promotion_allowed d" using d by (simp only: True reviewed simp_thms if_True if_False)
      then show ?thesis using no reviewed arts by simp
    qed
  next
    case crossed: False
    with d obtain gate where gate: "strongest_gate (map snd (concat ms)) = (Inr gate :: (safety_error, string) res)"
      "sd_decision d = gate" "\<not> sd_automatic_promotion_allowed d" by auto
    from strongest_gate_max(1) [OF gate(1)] gates obtain pair where "pair \<in> set ?ps" "gate = gate_of pair" by auto
    then have "gate \<in> set BLOCKING_GATES" using pair_ok_facts(3) ok by blast
    moreover have "gate_rank (gate_of pair) \<le> gate_rank gate" if "pair \<in> ?crossed" for pair
      using strongest_gate_max(2) [OF gate(1)] gates that by blast
    ultimately show ?thesis using gate crossed none False by auto
  qed
qed

definition sample_guard :: obj where
  "sample_guard =
     [(''guard_id'', JStr ''semantic-drift-guard''), (''authority_invariant'', JStr ''learned_context_not_authority''),
      (''default_on_match'', JStr ''reject''),
      (''contrastive_pairs'', JList [JObj [(''pair_id'', JStr ''dev-to-prod''), (''positive_context'', JObj [(''environment'', JStr ''dev'')]),
         (''forbidden_generalization'', JObj [(''environment'', JStr ''production''), (''authority_delta'', JList [JStr ''tool_addition''])]),
         (''expected_gate'', JStr ''needs_human_review'')]])]"

definition sample_prior :: obj where
  "sample_prior = [(''source_context'', JObj [(''environment'', JStr ''dev'')]), (''target_context'', JObj [(''environment'', JStr ''production'')]),
     (''authority_delta'', JList [JStr ''tool_addition''])]"

theorem safety_gate_exact_witness:
  "\<exists>d. compile_learned_authority_prior sample_guard sample_prior [''policy-1''] = (Inr d :: (safety_error, safety_decision) res) \<and>
     \<not> sd_automatic_promotion_allowed d \<and> sd_decision d \<in> set BLOCKING_GATES"
proof -
  have g: "safety_init sample_guard = Inr sample_guard" by code_simp
  have ds: "strings_at sample_prior ''authority_delta'' = (Inr [''tool_addition''] :: (safety_error, string list) res)" by code_simp
  have "case compile_learned_authority_prior sample_guard sample_prior [''policy-1''] :: (safety_error, safety_decision) res of
      Inr d \<Rightarrow> \<not> sd_automatic_promotion_allowed d | Inl _ \<Rightarrow> False" by code_simp
  then obtain d where d: "compile_learned_authority_prior sample_guard sample_prior [''policy-1''] = (Inr d :: (safety_error, safety_decision) res)"
    "\<not> sd_automatic_promotion_allowed d" by (auto split: sum.splits)
  from safety_gate_exact [OF g d(1) ds] d show ?thesis by auto
qed

end
