(* ===== verification/Memory_Candidates.thy ===== *)
theory Memory_Candidates
  imports Flight_Recorder Safety_Compiler
begin

text \<open>
  \<open>runtime/memory_candidates.py\<close> and \<open>runtime/memory_feedback.py\<close>: what a run may leave in durable memory. A candidate is
  extracted from a completed step, checked against the contract and the allowed scopes and policies, and only then submitted;
  the ingestion client is a parameter.
\<close>

subsection \<open>Vocabulary\<close>

definition SENSITIVITIES :: "string list" where
  "SENSITIVITIES = [''public'', ''internal'', ''confidential'', ''secret'']"

definition PROMOTION_ROUTES :: "(string \<times> string) list" where
  "PROMOTION_ROUTES =
     [(''procedural_lesson'', ''agent_memory''), (''task_subject_fact'', ''scoped_knowledge_record''),
      (''runtime_evidence'', ''runtime_plane_evidence''), (''knowledge_record_proposal'', ''knowledge_record_approval''), (''rejected'', ''none'')]"

definition CANDIDATE_CLASSES :: "string list" where
  "CANDIDATE_CLASSES = [''procedural_lesson'', ''task_subject_fact'', ''runtime_evidence'', ''knowledge_record_proposal'', ''rejected'']"

definition PROMOTABLE_CANDIDATE_CLASS :: string where
  "PROMOTABLE_CANDIDATE_CLASS = ''procedural_lesson''"

definition REFLECTION_REJECTION_KEYS :: "string list" where
  "REFLECTION_REJECTION_KEYS =
     [''raw_tool_output'', ''raw_tool_outputs'', ''source_extract'', ''source_extracts'', ''customer_data'', ''private_data'', ''secret_value'', ''credential'']"

definition SECRET_LIKE_TERMS :: "string list" where
  "SECRET_LIKE_TERMS = [''api key'', ''apikey'', ''password'', ''private key'', ''secret'', ''token'']"

definition PROCEDURAL_ALLOWED_EFFECTS :: "string list" where
  "PROCEDURAL_ALLOWED_EFFECTS = [''planner_hint'', ''retrieval_ranking'', ''composer_candidate_bias'']"

definition PROCEDURAL_REQUIRED_FORBIDDEN_EFFECTS :: "string list" where
  "PROCEDURAL_REQUIRED_FORBIDDEN_EFFECTS =
     [''tool_grant'', ''scope_grant'', ''policy_override'', ''validator_override'', ''profile_mutation'', ''runtime_authority'']"

definition CLASSIFICATION_ENVELOPE_CONTENT_KEYS :: "string list" where
  "CLASSIFICATION_ENVELOPE_CONTENT_KEYS =
     [''summary'', ''evidence_uris'', ''artifact_refs'', ''redaction_status'', ''authoritative'', ''influence_class'', ''allowed_effects'',
      ''forbidden_effects'', ''applicability'']"

definition TASK_SUBJECT_CONTENT_KEYS :: "string list" where
  "TASK_SUBJECT_CONTENT_KEYS =
     [''task_subject_fact'', ''task_subject_facts'', ''factual_claim'', ''factual_claims'', ''subject_data'', ''subject_facts'', ''customer_record'',
      ''customer_records'']"

definition AUTHORITY_LANGUAGE_TERMS :: "string list" where
  "AUTHORITY_LANGUAGE_TERMS =
     [''grant tool'', ''grant tools'', ''allow tool'', ''allow tools'', ''increase budget'', ''raise budget'', ''override policy'', ''override validator'',
      ''disable validator'', ''remove validator'', ''relax policy'', ''ignore policy'', ''expand scope'', ''widen scope'', ''profile mutation'',
      ''runtime authority'']"

definition TASK_SUBJECT_LANGUAGE_TERMS :: "string list" where
  "TASK_SUBJECT_LANGUAGE_TERMS =
     [''customer record'', ''customer-specific'', ''client record'', ''private data'', ''source extract'', ''raw tool output'']"

datatype memory_error = MemoryCandidateError string | MemoryFeedbackError string

subsection \<open>Helpers\<close>

definition json_strings :: "json \<Rightarrow> string list" where
  "json_strings v = (case as_list v of None \<Rightarrow> [] | Some xs \<Rightarrow> List.map_filter as_str xs)"

definition non_empty_string_list :: "json \<Rightarrow> string list" where
  "non_empty_string_list v = filter (\<lambda>s. strip s \<noteq> []) (json_strings v)"

definition mentions :: "string list \<Rightarrow> string \<Rightarrow> bool" where
  "mentions terms s \<longleftrightarrow> list_ex (\<lambda>t. contains t s) terms"

definition runtime_uri :: "string \<Rightarrow> bool" where
  "runtime_uri uri \<longleftrightarrow> startswith ''hetzner://runtime/'' uri"

definition classification_envelope_content :: "obj \<Rightarrow> bool \<Rightarrow> obj" where
  "classification_envelope_content content redact =
     (let envelope = filter (\<lambda>kv. fst kv \<in> set CLASSIFICATION_ENVELOPE_CONTENT_KEYS) content in
      if map_of envelope ''redaction_status'' = None
      then envelope @ [(''redaction_status'', JStr (if redact then ''redacted'' else ''not_required''))] else envelope)"

definition non_promotable_candidate_reason :: "string \<Rightarrow> string" where
  "non_promotable_candidate_reason candidate_class =
     (case map_of
        [(''task_subject_fact'', ''task-subject facts must be proposed through scoped knowledge records, not promoted to Agent Memory''),
         (''runtime_evidence'', ''runtime evidence must remain in the Hetzner Runtime Plane, not promoted to Agent Memory''),
         (''knowledge_record_proposal'', ''knowledge record proposals require the knowledge approval path, not Agent Memory promotion''),
         (''rejected'', ''rejected candidates cannot be promoted to Agent Memory'')] candidate_class of
        Some reason \<Rightarrow> reason | None \<Rightarrow> ''candidate_class is not promotable to Agent Memory'')"

subsection \<open>Extraction\<close>

record extraction =
  ex_run :: obj
  ex_source_step :: obj
  ex_target_memory_scope_id :: string
  ex_content :: obj
  ex_sensitivity :: string
  ex_retention_policy :: string
  ex_policy_id :: string
  ex_candidate_class :: string
  ex_classification_reason :: "string option"
  ex_validator_id :: string
  ex_candidate_id :: "string option"
  ex_redact :: bool

definition validate_extractable_step :: "obj \<Rightarrow> obj \<Rightarrow> (memory_error, unit) res" where
  "validate_extractable_step run source_step =
     bindR (raise_if (\<not> py_eq (get source_step ''run_id'') (get run ''id''))
       (MemoryCandidateError ''Memory candidate source step must belong to the run.'')) (\<lambda>_.
     raise_if (get source_step ''status'' \<noteq> JStr ''succeeded'')
       (MemoryCandidateError ''Memory candidates can only be extracted from completed steps.''))"

definition has_summary :: "obj \<Rightarrow> bool" where
  "has_summary content \<longleftrightarrow> (case as_str (get content ''summary'') of None \<Rightarrow> False | Some s \<Rightarrow> s \<noteq> [])"

definition resolved_reason :: "extraction \<Rightarrow> string" where
  "resolved_reason x =
     text_or (ex_classification_reason x) (''Candidate classified as '' @ ex_candidate_class x @ '' by extraction contract.'')"

definition check_extraction :: "extraction \<Rightarrow> (memory_error, unit) res" where
  "check_extraction x =
     bindR (validate_extractable_step (ex_run x) (ex_source_step x)) (\<lambda>_.
     bindR (raise_if (\<not> has_summary (ex_content x)) (MemoryCandidateError ''Memory candidate content requires a non-empty summary.'')) (\<lambda>_.
     bindR (raise_if (ex_sensitivity x \<notin> set SENSITIVITIES) (MemoryCandidateError ''Memory candidate sensitivity is invalid.'')) (\<lambda>_.
     bindR (raise_if (ex_candidate_class x \<notin> set CANDIDATE_CLASSES) (MemoryCandidateError ''Memory candidate class is invalid.'')) (\<lambda>_.
     let unsupported = sorted_diff (dict_keys (ex_content x)) CLASSIFICATION_ENVELOPE_CONTENT_KEYS in
     bindR (raise_if (unsupported \<noteq> [])
       (MemoryCandidateError (''Memory candidate content includes unsupported envelope fields: '' @ join '', '' unsupported))) (\<lambda>_.
     raise_if (strip (resolved_reason x) = []) (MemoryCandidateError ''Memory candidate classification reason is required.''))))))"

text \<open>The two subscripts that both extractors take, and the identifier: a given one, or the slug of the parts.\<close>

definition source_ids :: "extraction \<Rightarrow> string \<Rightarrow> string \<Rightarrow> (memory_error, json \<times> json \<times> json \<times> string) res" where
  "source_ids x suffix prefix =
     bindR (getitem (ex_run x) ''id'') (\<lambda>run_id.
     bindR (getitem (ex_source_step x) ''id'') (\<lambda>step_id.
     bindR (getitem (ex_run x) ''profile_id'') (\<lambda>profile.
     Inr (run_id, step_id, profile,
       text_or (ex_candidate_id x) (slug_id (py_str run_id @ ''-'' @ py_str step_id @ ''-'' @ ex_target_memory_scope_id x @ suffix) (Some prefix))))))"

definition route_of :: "string \<Rightarrow> string" where
  "route_of candidate_class = (case map_of PROMOTION_ROUTES candidate_class of Some r \<Rightarrow> r | None \<Rightarrow> [])"

definition envelope_of :: "extraction \<Rightarrow> json \<Rightarrow> json \<Rightarrow> json \<Rightarrow> string \<Rightarrow> string \<Rightarrow> obj" where
  "envelope_of x run_id step_id profile candidate_class reason =
     dict_of ((''contract_version'', JStr ''0.1.0'') # classification_envelope_content (ex_content x) (ex_redact x) @
      [(''source_run_id'', run_id), (''source_profile_id'', profile), (''source_step_id'', step_id),
       (''target_memory_scope_id'', JStr (ex_target_memory_scope_id x)), (''candidate_class'', JStr candidate_class),
       (''classification_reason'', JStr reason), (''promotion_route'', JStr (route_of candidate_class)),
       (''sensitivity'', JStr (ex_sensitivity x)), (''retention_policy'', JStr (ex_retention_policy x)), (''policy_id'', JStr (ex_policy_id x)),
       (''validator_id'', JStr (ex_validator_id x))])"

definition candidate_record :: "extraction \<Rightarrow> datetime \<Rightarrow> json \<Rightarrow> json \<Rightarrow> json \<Rightarrow> string \<Rightarrow> string \<Rightarrow> obj" where
  "candidate_record x clock run_id step_id profile identifier uri =
     [(''id'', JStr identifier), (''run_id'', JStr (py_str run_id)), (''profile_id'', JStr (py_str profile)),
      (''source_step_id'', JStr (py_str step_id)), (''target_memory_scope_id'', JStr (ex_target_memory_scope_id x)),
      (''candidate_class'', JStr (ex_candidate_class x)), (''classification_reason'', JStr (resolved_reason x)), (''content_uri'', JStr uri),
      (''sensitivity'', JStr (ex_sensitivity x)), (''retention_policy'', JStr (ex_retention_policy x)),
      (''validator_status'', JStr ''pending''), (''validator_id'', JStr (ex_validator_id x)), (''validation_reason'', JNull),
      (''policy_status'', JStr ''pending''), (''policy_id'', JStr (ex_policy_id x)), (''policy_reason'', JNull),
      (''created_at'', JStr (iso_timestamp clock))]"

definition extract_from_step :: "datetime \<Rightarrow> extraction \<Rightarrow> (memory_error, obj) sys" where
  "extract_from_step clock x =
     bindS (liftS (check_extraction x)) (\<lambda>_.
     bindS (liftS (source_ids x [] ''mc'')) (\<lambda>(run_id, step_id, profile, identifier).
     bindS (on_artifacts (write_json [''artifacts'', py_str run_id, ''memory-candidates'', identifier]
       (JObj (envelope_of x run_id step_id profile (ex_candidate_class x) (resolved_reason x))) (ex_redact x))) (\<lambda>uri.
     on_store (insert_memory_candidate (candidate_record x clock run_id step_id profile identifier uri)))))"

subsection \<open>Reflection\<close>

definition validate_reflection_request :: "extraction \<Rightarrow> string \<Rightarrow> (memory_error, unit) res" where
  "validate_reflection_request x reason =
     (let uris = (case as_list (get (ex_content x) ''evidence_uris'') of None \<Rightarrow> [] | Some xs \<Rightarrow> xs) in
      bindR (raise_if (\<not> has_summary (ex_content x)) (MemoryCandidateError ''Reflection envelope requires a non-empty summary.'')) (\<lambda>_.
      bindR (raise_if (uris = []) (MemoryCandidateError ''Reflection envelope requires evidence_uris.'')) (\<lambda>_.
      bindR (raise_if (list_ex (\<lambda>u. \<not> runtime_uri (py_str u)) uris)
        (MemoryCandidateError ''Reflection envelope evidence_uris must point to Hetzner runtime artifacts.'')) (\<lambda>_.
      bindR (raise_if (ex_sensitivity x \<notin> set SENSITIVITIES) (MemoryCandidateError ''Reflection envelope sensitivity is invalid.'')) (\<lambda>_.
      bindR (raise_if (ex_candidate_class x \<notin> set CANDIDATE_CLASSES) (MemoryCandidateError ''Reflection envelope candidate_class is invalid.'')) (\<lambda>_.
      raise_if (strip reason = []) (MemoryCandidateError ''Reflection envelope classification_reason is required.'')))))))"

definition resolved_candidate_class :: "string \<Rightarrow> obj \<Rightarrow> string \<Rightarrow> string" where
  "resolved_candidate_class requested content sensitivity =
     (if requested = ''rejected'' \<or> sensitivity = ''secret'' then ''rejected''
      else if list_ex (\<lambda>k. k \<in> set REFLECTION_REJECTION_KEYS) (dict_keys content) then ''rejected''
      else if mentions SECRET_LIKE_TERMS (casefold (py_str (get_or content ''summary'' (JStr [])))) then ''rejected''
      else requested)"

definition emit_candidate_envelope :: "datetime \<Rightarrow> extraction \<Rightarrow> string \<Rightarrow> (memory_error, obj) sys" where
  "emit_candidate_envelope clock x reason =
     bindS (liftS (validate_extractable_step (ex_run x) (ex_source_step x))) (\<lambda>_.
     bindS (liftS (validate_reflection_request x reason)) (\<lambda>_.
     let class = resolved_candidate_class (ex_candidate_class x) (ex_content x) (ex_sensitivity x);
         why = (if class = ''rejected'' \<and> ex_candidate_class x \<noteq> ''rejected''
                then reason @ '' Rejected by post-run reflection safety precheck.'' else reason);
         created = JStr (iso_timestamp clock) in
     bindS (liftS (source_ids x ''-reflection'' ''mce'')) (\<lambda>(run_id, step_id, profile, identifier).
     bindS (on_artifacts (write_json [''artifacts'', py_str run_id, ''memory-reflection-candidates'', identifier]
       (JObj (envelope_of x run_id step_id profile class why @ [(''created_at'', created)])) (ex_redact x))) (\<lambda>uri.
     retS [(''id'', JStr identifier), (''run_id'', JStr (py_str run_id)), (''profile_id'', JStr (py_str profile)),
        (''source_step_id'', JStr (py_str step_id)), (''target_memory_scope_id'', JStr (ex_target_memory_scope_id x)),
        (''candidate_class'', JStr class), (''classification_reason'', JStr why), (''promotion_route'', JStr (route_of class)),
        (''envelope_uri'', JStr uri), (''created_at'', created)]))))"

subsection \<open>Validation\<close>

record memory_validator =
  mv_allowed_memory_scope_ids :: "string list"
  mv_allowed_policy_ids :: "string list"
  mv_safety_compiler :: "obj option"

record candidate_result =
  cv_candidate :: obj
  cv_validator_status :: string
  cv_policy_status :: string
  cv_validation_reason :: string
  cv_policy_reason :: string

definition candidate_approved :: "candidate_result \<Rightarrow> bool" where
  "candidate_approved r \<longleftrightarrow> cv_validator_status r = ''approved'' \<and> cv_policy_status r = ''approved''"

definition flag :: "bool \<Rightarrow> string \<Rightarrow> string list" where
  "flag b message = (if b then [message] else [])"

definition summary_of :: "obj \<Rightarrow> string" where
  "summary_of content = strip (py_str (get_or content ''summary'' (JStr [])))"

definition effect_errors :: "obj \<Rightarrow> string list" where
  "effect_errors content =
     (let allowed = non_empty_string_list (get content ''allowed_effects'');
          missing = sorted_diff PROCEDURAL_REQUIRED_FORBIDDEN_EFFECTS (non_empty_string_list (get content ''forbidden_effects'')) in
      (if allowed = [] then [''procedural lessons require allowed_effects'']
       else flag (\<not> set allowed \<subseteq> set PROCEDURAL_ALLOWED_EFFECTS) ''procedural lesson allowed_effects include authority effects'') @
      flag (missing \<noteq> []) (''procedural lessons must forbid authority effects: '' @ join '', '' missing))"

definition wording_errors :: "obj \<Rightarrow> string list" where
  "wording_errors content =
     (let blocked = sorted_set (filter (\<lambda>k. k \<in> set (REFLECTION_REJECTION_KEYS @ TASK_SUBJECT_CONTENT_KEYS)) (dict_keys content));
          summary = casefold (summary_of content) in
      flag (blocked \<noteq> [])
        (''procedural lessons must not contain raw, source, customer, private, secret, or task-subject fields: '' @ join '', '' blocked) @
      flag (mentions SECRET_LIKE_TERMS summary) ''procedural lessons must not contain secret-like values'' @
      flag (mentions TASK_SUBJECT_LANGUAGE_TERMS summary) ''procedural lessons must not contain task-subject content'' @
      flag (mentions AUTHORITY_LANGUAGE_TERMS summary) ''procedural lessons must not contain authority-changing language'' @
      flag (get content ''applies_to_all_tasks'' = JBool True) ''procedural lessons must not generalize to all tasks'' @
      flag (casefold (py_str (get_or content ''generalization_scope'' (JStr []))) \<in> {''global'', ''all''})
        ''procedural lessons must not use unsafe generalization scope'')"

definition procedural_content_errors :: "obj \<Rightarrow> (memory_error, string list) res" where
  "procedural_content_errors content =
     (let uris = non_empty_string_list (get content ''evidence_uris'') in
      bindR (in_strings (get content ''influence_class'') PROCEDURAL_ALLOWED_EFFECTS) (\<lambda>influence_ok.
      Inr (flag (non_empty_string_list (get content ''applicability'') = []) ''procedural lessons require applicability metadata'' @
           flag (uris = [] \<or> list_ex (\<lambda>u. \<not> runtime_uri u) uris) ''procedural lessons require Hetzner evidence_uris'' @
           flag (get content ''authoritative'' \<noteq> JBool False) ''procedural lessons must set authoritative=false'' @
           flag (\<not> influence_ok) ''procedural lesson influence_class is invalid'' @ effect_errors content @ wording_errors content)))"

definition CANDIDATE_FIELDS :: "string list" where
  "CANDIDATE_FIELDS =
     [''candidate_class'', ''classification_reason'', ''content_uri'', ''id'', ''policy_id'', ''profile_id'', ''retention_policy'', ''run_id'',
      ''sensitivity'', ''source_step_id'', ''target_memory_scope_id'', ''validator_id'']"

definition validation_errors :: "obj \<Rightarrow> obj option \<Rightarrow> (memory_error, string list) res" where
  "validation_errors candidate content =
     (let sensitivity = get candidate ''sensitivity''; class = get candidate ''candidate_class'' in
      bindR (in_strings sensitivity SENSITIVITIES) (\<lambda>known.
      bindR (in_strings class CANDIDATE_CLASSES) (\<lambda>classified.
      bindR (case content of
               Some c \<Rightarrow> if class = JStr PROMOTABLE_CANDIDATE_CLASS then procedural_content_errors c else Inr []
             | None \<Rightarrow> Inr []) (\<lambda>content_errors.
      Inr (filter (\<lambda>f. map_of candidate f = None) CANDIDATE_FIELDS @
           flag (sensitivity = JStr ''secret'') ''secret candidates must not be promoted to Cloudflare memory'' @
           flag (\<not> known) ''sensitivity is invalid'' @
           (if \<not> classified then [''candidate_class is invalid'']
            else flag (class \<noteq> JStr PROMOTABLE_CANDIDATE_CLASS) (non_promotable_candidate_reason (py_str class))) @
           flag (strip (py_str (get_or candidate ''classification_reason'' (JStr []))) = []) ''classification_reason is required'' @
           flag (\<not> runtime_uri (py_str (get_or candidate ''content_uri'' (JStr [])))) ''content_uri must point to a Hetzner runtime artifact'' @
           (case content of Some c \<Rightarrow> flag (summary_of c = []) ''content summary is required'' | None \<Rightarrow> []) @ content_errors)))))"

definition policy_errors :: "memory_validator \<Rightarrow> obj \<Rightarrow> obj option \<Rightarrow> (memory_error, string list) res" where
  "policy_errors v candidate content =
     bindR (in_strings (get candidate ''target_memory_scope_id'') (mv_allowed_memory_scope_ids v)) (\<lambda>scope_ok.
     bindR (in_strings (get candidate ''policy_id'') (mv_allowed_policy_ids v)) (\<lambda>policy_ok.
     let errors = flag (\<not> scope_ok) ''target memory scope is not allowed'' @ flag (\<not> policy_ok) ''policy is not allowed'' in
     case (content, mv_safety_compiler v) of
       (Some c, Some guard) \<Rightarrow>
         (case as_obj (get c ''learned_context_authority_prior'') of
            None \<Rightarrow> Inr errors
          | Some prior \<Rightarrow>
              bindR (compile_learned_authority_prior guard prior (json_strings (get c ''reviewed_policy_artifacts''))) (\<lambda>d.
              let ids = join '', '' (sd_matched_pair_ids d) in
              Inr (errors @ flag (\<not> sd_automatic_promotion_allowed d)
                (''semantic drift guard blocked learned authority ('' @ sd_decision d @ ''; matched_pairs='' @ (if ids = [] then ''none'' else ids) @ '')''))))
     | _ \<Rightarrow> Inr errors))"

definition validate_candidate :: "memory_validator \<Rightarrow> obj \<Rightarrow> obj option \<Rightarrow> (store, memory_error, candidate_result) st" where
  "validate_candidate v candidate content =
     bindS (liftS (validation_errors candidate content)) (\<lambda>validation.
     bindS (liftS (policy_errors v candidate content)) (\<lambda>policy.
     let validator_status = (if validation \<noteq> [] then ''rejected'' else ''approved'');
         policy_status = (if policy \<noteq> [] \<or> validation \<noteq> [] then ''rejected'' else ''approved'');
         validation_reason = (if validation \<noteq> [] then join ''; '' validation
           else ''Candidate has provenance, scoped memory target, and acceptable sensitivity.'');
         policy_reason = (if policy \<noteq> [] then join ''; '' policy else ''Policy allows the target memory scope for this candidate.'') in
     bindS (liftS (getitem candidate ''id'')) (\<lambda>i.
     bindS (update_memory_candidate (py_str i)
       [(''validator_status'', JStr validator_status), (''validation_reason'', JStr validation_reason),
        (''policy_status'', JStr policy_status), (''policy_reason'', JStr policy_reason)]) (\<lambda>updated.
     retS \<lparr>cv_candidate = updated, cv_validator_status = validator_status, cv_policy_status = policy_status,
        cv_validation_reason = validation_reason, cv_policy_reason = policy_reason\<rparr>))))"

subsection \<open>Submission\<close>

definition SUBMISSION_FIELDS :: "string list" where
  "SUBMISSION_FIELDS =
     [''candidate_class'', ''content_uri'', ''id'', ''policy_status'', ''profile_id'', ''retention_policy'', ''run_id'', ''sensitivity'',
      ''target_memory_scope_id'', ''validator_status'']"

definition validate_submission :: "obj \<Rightarrow> (memory_error, unit) res" where
  "validate_submission candidate =
     (let missing = filter (\<lambda>f. map_of candidate f = None) SUBMISSION_FIELDS in
      bindR (raise_if (missing \<noteq> []) (MemoryFeedbackError (''Memory candidate is missing fields: '' @ join '', '' missing))) (\<lambda>_.
      bindR (raise_if (get candidate ''validator_status'' \<noteq> JStr ''approved'')
        (MemoryFeedbackError ''Memory candidate validator_status must be approved.'')) (\<lambda>_.
      bindR (raise_if (get candidate ''policy_status'' \<noteq> JStr ''approved'')
        (MemoryFeedbackError ''Memory candidate policy_status must be approved.'')) (\<lambda>_.
      raise_if (get candidate ''candidate_class'' \<noteq> JStr ''procedural_lesson'')
        (MemoryFeedbackError ''Only procedural_lesson candidates can be submitted as Agent Memory.'')))))"

definition ingest_request :: "string \<Rightarrow> obj \<Rightarrow> obj \<Rightarrow> string \<Rightarrow> obj" where
  "ingest_request contract_version candidate consolidated_content version =
     (let field = (\<lambda>k. JStr (py_str (get candidate k))) in
      [(''contract_version'', JStr contract_version),
       (''memory'', JObj
         [(''id'', field ''id''), (''memory_scope_id'', field ''target_memory_scope_id''), (''version'', JStr version),
          (''content'', JObj (dict_set ''source_artifact_uri'' (field ''content_uri'') consolidated_content)),
          (''source_run_id'', field ''run_id''), (''source_profile_id'', field ''profile_id''), (''sensitivity'', field ''sensitivity''),
          (''retention_policy'', field ''retention_policy'')])])"

definition submit_candidate ::
  "(obj \<Rightarrow> (memory_error, obj) res) \<Rightarrow> string \<Rightarrow> obj \<Rightarrow> obj \<Rightarrow> string \<Rightarrow> (memory_error, obj) res" where
  "submit_candidate client contract_version candidate consolidated_content version =
     bindR (validate_submission candidate) (\<lambda>_. client (ingest_request contract_version candidate consolidated_content version))"

subsection \<open>What approval means\<close>

definition lesson_ok :: "obj \<Rightarrow> bool" where
  "lesson_ok candidate \<longleftrightarrow> list_all (\<lambda>f. map_of candidate f \<noteq> None) CANDIDATE_FIELDS \<and>
     get candidate ''candidate_class'' = JStr ''procedural_lesson'' \<and>
     get candidate ''sensitivity'' \<in> {JStr ''public'', JStr ''internal'', JStr ''confidential''} \<and>
     strip (py_str (get candidate ''classification_reason'')) \<noteq> [] \<and> runtime_uri (py_str (get candidate ''content_uri''))"

definition lesson_content_ok :: "obj \<Rightarrow> bool" where
  "lesson_content_ok content \<longleftrightarrow> summary_of content \<noteq> [] \<and> non_empty_string_list (get content ''applicability'') \<noteq> [] \<and>
     non_empty_string_list (get content ''evidence_uris'') \<noteq> [] \<and> list_all runtime_uri (non_empty_string_list (get content ''evidence_uris'')) \<and>
     get content ''authoritative'' = JBool False \<and> (\<exists>e \<in> set PROCEDURAL_ALLOWED_EFFECTS. get content ''influence_class'' = JStr e) \<and>
     non_empty_string_list (get content ''allowed_effects'') \<noteq> [] \<and>
     set (non_empty_string_list (get content ''allowed_effects'')) \<subseteq> set PROCEDURAL_ALLOWED_EFFECTS \<and>
     set PROCEDURAL_REQUIRED_FORBIDDEN_EFFECTS \<subseteq> set (non_empty_string_list (get content ''forbidden_effects'')) \<and>
     set (dict_keys content) \<inter> set (REFLECTION_REJECTION_KEYS @ TASK_SUBJECT_CONTENT_KEYS) = {} \<and>
     \<not> mentions (SECRET_LIKE_TERMS @ TASK_SUBJECT_LANGUAGE_TERMS @ AUTHORITY_LANGUAGE_TERMS) (casefold (summary_of content)) \<and>
     get content ''applies_to_all_tasks'' \<noteq> JBool True \<and>
     casefold (py_str (get_or content ''generalization_scope'' (JStr []))) \<notin> {''global'', ''all''}"

definition scope_admitted :: "memory_validator \<Rightarrow> obj \<Rightarrow> bool" where
  "scope_admitted v candidate \<longleftrightarrow> (\<exists>s \<in> set (mv_allowed_memory_scope_ids v). get candidate ''target_memory_scope_id'' = JStr s) \<and>
     (\<exists>p \<in> set (mv_allowed_policy_ids v). get candidate ''policy_id'' = JStr p)"

definition drift_admitted :: "memory_validator \<Rightarrow> obj \<Rightarrow> bool" where
  "drift_admitted v content \<longleftrightarrow> (\<forall>guard prior d. mv_safety_compiler v = Some guard \<and> get content ''learned_context_authority_prior'' = JObj prior \<and>
     compile_learned_authority_prior guard prior (json_strings (get content ''reviewed_policy_artifacts'')) = (Inr d :: (memory_error, safety_decision) res) \<longrightarrow>
     sd_automatic_promotion_allowed d)"

lemma flag_Nil [simp]: "flag b m = [] \<longleftrightarrow> \<not> b"
  by (simp add: flag_def)

lemma sorted_set_Nil [simp]: "sorted_set xs = [] \<longleftrightarrow> xs = []"
  by (metis set_empty sorted_set_props(1))

lemma content_errors_exact:
  assumes "procedural_content_errors content = Inr es"
  shows "es = [] \<and> summary_of content \<noteq> [] \<longleftrightarrow> lesson_content_ok content"
proof -
  from assms obtain b where b: "in_strings (get content ''influence_class'') PROCEDURAL_ALLOWED_EFFECTS = (Inr b :: (memory_error, bool) res)"
    by (auto simp: procedural_content_errors_def Let_def bindR_Inr_iff)
  then have inf: "b \<longleftrightarrow> (\<exists>e \<in> set PROCEDURAL_ALLOWED_EFFECTS. get content ''influence_class'' = JStr e)"
    by (cases "get content ''influence_class''") auto
  have eff: "effect_errors content = [] \<longleftrightarrow> non_empty_string_list (get content ''allowed_effects'') \<noteq> [] \<and>
      set (non_empty_string_list (get content ''allowed_effects'')) \<subseteq> set PROCEDURAL_ALLOWED_EFFECTS \<and>
      set PROCEDURAL_REQUIRED_FORBIDDEN_EFFECTS \<subseteq> set (non_empty_string_list (get content ''forbidden_effects''))"
    by (simp add: effect_errors_def Let_def)
  have word: "wording_errors content = [] \<longleftrightarrow> set (dict_keys content) \<inter> set (REFLECTION_REJECTION_KEYS @ TASK_SUBJECT_CONTENT_KEYS) = {} \<and>
      \<not> mentions (SECRET_LIKE_TERMS @ TASK_SUBJECT_LANGUAGE_TERMS @ AUTHORITY_LANGUAGE_TERMS) (casefold (summary_of content)) \<and>
      get content ''applies_to_all_tasks'' \<noteq> JBool True \<and> casefold (py_str (get_or content ''generalization_scope'' (JStr []))) \<notin> {''global'', ''all''}"
    by (simp add: wording_errors_def Let_def mentions_def filter_empty_conv disjoint_iff) blast
  have "es = flag (non_empty_string_list (get content ''applicability'') = []) ''procedural lessons require applicability metadata'' @
      flag (non_empty_string_list (get content ''evidence_uris'') = [] \<or> list_ex (\<lambda>u. \<not> runtime_uri u) (non_empty_string_list (get content ''evidence_uris'')))
        ''procedural lessons require Hetzner evidence_uris'' @
      flag (get content ''authoritative'' \<noteq> JBool False) ''procedural lessons must set authoritative=false'' @
      flag (\<not> b) ''procedural lesson influence_class is invalid'' @ effect_errors content @ wording_errors content"
    using assms by (simp add: procedural_content_errors_def b Let_def)
  then show ?thesis
    unfolding lesson_content_ok_def inf [symmetric] by (simp only: append_is_Nil_conv flag_Nil eff word) (auto simp: list_all_iff list_ex_iff)
qed

lemma in_strings_exact: "in_strings v S = Inr b \<Longrightarrow> b \<longleftrightarrow> (\<exists>s \<in> set S. v = JStr s)"
  by (cases v) auto

lemma validation_errors_exact:
  assumes "validation_errors candidate content = Inr es"
  shows "es = [] \<longleftrightarrow> lesson_ok candidate \<and> (\<forall>c. content = Some c \<longrightarrow> lesson_content_ok c)"
proof -
  let ?kind = "get candidate ''candidate_class''" and ?sens = "get candidate ''sensitivity''"
  from assms obtain known classified ces where known: "in_strings ?sens SENSITIVITIES = (Inr known :: (memory_error, bool) res)"
    and classified: "in_strings ?kind CANDIDATE_CLASSES = (Inr classified :: (memory_error, bool) res)"
    and ces: "(case content of Some c \<Rightarrow> if ?kind = JStr PROMOTABLE_CANDIDATE_CLASS then procedural_content_errors c else Inr [] | None \<Rightarrow> Inr []) = Inr ces"
    by (auto simp: validation_errors_def Let_def bindR_Inr_iff)
  have es: "es = filter (\<lambda>f. map_of candidate f = None) CANDIDATE_FIELDS @
      flag (?sens = JStr ''secret'') ''secret candidates must not be promoted to Cloudflare memory'' @
      flag (\<not> known) ''sensitivity is invalid'' @
      (if \<not> classified then [''candidate_class is invalid'']
       else flag (?kind \<noteq> JStr PROMOTABLE_CANDIDATE_CLASS) (non_promotable_candidate_reason (py_str ?kind))) @
      flag (strip (py_str (get_or candidate ''classification_reason'' (JStr []))) = []) ''classification_reason is required'' @
      flag (\<not> runtime_uri (py_str (get_or candidate ''content_uri'' (JStr [])))) ''content_uri must point to a Hetzner runtime artifact'' @
      (case content of Some c \<Rightarrow> flag (summary_of c = []) ''content summary is required'' | None \<Rightarrow> []) @ ces"
    using assms by (simp add: validation_errors_def Let_def known classified ces)
  have present: "filter (\<lambda>f. map_of candidate f = None) CANDIDATE_FIELDS = [] \<longleftrightarrow> list_all (\<lambda>f. map_of candidate f \<noteq> None) CANDIDATE_FIELDS"
    by (simp add: filter_empty_conv list_all_iff)
  have cls: "(if \<not> classified then [''candidate_class is invalid'']
      else flag (?kind \<noteq> JStr PROMOTABLE_CANDIDATE_CLASS) (non_promotable_candidate_reason (py_str ?kind))) = [] \<longleftrightarrow> ?kind = JStr ''procedural_lesson''"
    using in_strings_exact [OF classified] by (auto simp: PROMOTABLE_CANDIDATE_CLASS_def CANDIDATE_CLASSES_def)
  have sens: "?sens \<noteq> JStr ''secret'' \<and> known \<longleftrightarrow> ?sens \<in> {JStr ''public'', JStr ''internal'', JStr ''confidential''}"
    using in_strings_exact [OF known] by (auto simp: SENSITIVITIES_def)
  have fld: "get_or candidate k (JStr []) = get candidate k" if "list_all (\<lambda>f. map_of candidate f \<noteq> None) CANDIDATE_FIELDS" "k \<in> set CANDIDATE_FIELDS" for k
    using that by (auto simp: list_all_iff get_def get_or_def split: option.splits)
  have con: "(case content of Some c \<Rightarrow> flag (summary_of c = []) ''content summary is required'' | None \<Rightarrow> []) = [] \<and> ces = [] \<longleftrightarrow>
      (\<forall>c. content = Some c \<longrightarrow> lesson_content_ok c)" if "?kind = JStr ''procedural_lesson''"
    using ces that content_errors_exact by (cases content) (auto simp: PROMOTABLE_CANDIDATE_CLASS_def)
  have mem: "''classification_reason'' \<in> set CANDIDATE_FIELDS" "''content_uri'' \<in> set CANDIDATE_FIELDS" by (simp_all add: CANDIDATE_FIELDS_def)
  show ?thesis
    unfolding es lesson_ok_def sens [symmetric] append_is_Nil_conv flag_Nil present cls using con fld mem by auto
qed

lemma policy_errors_exact:
  assumes "policy_errors v candidate content = Inr es"
  shows "es = [] \<longleftrightarrow> scope_admitted v candidate \<and> (\<forall>c. content = Some c \<longrightarrow> drift_admitted v c)"
proof -
  from assms obtain s p where s: "in_strings (get candidate ''target_memory_scope_id'') (mv_allowed_memory_scope_ids v) = (Inr s :: (memory_error, bool) res)"
    and p: "in_strings (get candidate ''policy_id'') (mv_allowed_policy_ids v) = (Inr p :: (memory_error, bool) res)"
    by (auto simp: policy_errors_def bindR_Inr_iff)
  have sp: "scope_admitted v candidate \<longleftrightarrow> s \<and> p"
    using in_strings_exact [OF s] in_strings_exact [OF p] by (simp add: scope_admitted_def)
  show ?thesis
    using assms unfolding sp
    by (auto simp: policy_errors_def s p Let_def bindR_Inr_iff drift_admitted_def as_obj_iff split: option.splits prod.splits)
qed

lemma validate_candidate_Inr:
  assumes "validate_candidate v candidate content st = (Inr r, st')"
  obtains i flds where "getitem candidate ''id'' = (Inr i :: (memory_error, json) res)"
    "update_memory_candidate (py_str i) flds st = (Inr (cv_candidate r) :: (memory_error, obj) res, st')"
    "map_of (rev flds) ''validator_status'' = Some (JStr (cv_validator_status r))" "map_of (rev flds) ''policy_status'' = Some (JStr (cv_policy_status r))"
    "dom (map_of flds) = {''validator_status'', ''validation_reason'', ''policy_status'', ''policy_reason''}"
    "candidate_approved r \<longleftrightarrow> lesson_ok candidate \<and> scope_admitted v candidate \<and> (\<forall>c. content = Some c \<longrightarrow> lesson_content_ok c \<and> drift_admitted v c)"
proof -
  from assms obtain es ps i where es: "validation_errors candidate content = Inr es" and ps: "policy_errors v candidate content = Inr ps"
    and i: "getitem candidate ''id'' = (Inr i :: (memory_error, json) res)"
    by (auto simp: validate_candidate_def bindS_cases Let_def)
  let ?v = "if es \<noteq> [] then ''rejected'' else ''approved''" and ?p = "if ps \<noteq> [] \<or> es \<noteq> [] then ''rejected'' else ''approved''"
  let ?f = "[(''validator_status'', JStr ?v), (''validation_reason'', JStr (if es \<noteq> [] then join ''; '' es
        else ''Candidate has provenance, scoped memory target, and acceptable sensitivity.'')), (''policy_status'', JStr ?p),
      (''policy_reason'', JStr (if ps \<noteq> [] then join ''; '' ps else ''Policy allows the target memory scope for this candidate.''))]"
  from assms have u: "update_memory_candidate (py_str i) ?f st = (Inr (cv_candidate r) :: (memory_error, obj) res, st')"
    and r: "cv_validator_status r = ?v" "cv_policy_status r = ?p"
    by (auto simp: validate_candidate_def bindS_cases Let_def es ps i)
  have "candidate_approved r \<longleftrightarrow> es = [] \<and> ps = []" by (auto simp: candidate_approved_def r)
  then have ok: "candidate_approved r \<longleftrightarrow> lesson_ok candidate \<and> scope_admitted v candidate \<and> (\<forall>c. content = Some c \<longrightarrow> lesson_content_ok c \<and> drift_admitted v c)"
    unfolding validation_errors_exact [OF es] policy_errors_exact [OF ps] by blast
  show thesis by (rule that [OF i u _ _ _ ok]) (auto simp: r)
qed

text \<open>The gate to durable memory is exact: a candidate is approved exactly when it is a complete procedural lesson that is not
  secret, with an artifact of the runtime as evidence, for an allowed memory scope and policy, and its content, where given, has
  only non-authoritative effects, forbids the authority effects, names no raw, private or task-subject data, uses no secret-like
  or authority-changing wording, and carries no authority that the semantic drift guard blocks.\<close>

theorem candidate_approval_exact:
  assumes "validate_candidate v candidate content st = (Inr r, st')"
  shows "candidate_approved r \<longleftrightarrow> lesson_ok candidate \<and> scope_admitted v candidate \<and>
     (\<forall>c. content = Some c \<longrightarrow> lesson_content_ok c \<and> drift_admitted v c)"
  using validate_candidate_Inr [OF assms] by metis

subsection \<open>From extraction to submission\<close>

definition row_safe :: "memory_validator \<Rightarrow> obj \<Rightarrow> bool" where
  "row_safe v c \<longleftrightarrow> lesson_ok c \<and> scope_admitted v c"

definition candidates_ok :: "memory_validator \<Rightarrow> store \<Rightarrow> bool" where
  "candidates_ok v st \<longleftrightarrow> distinct (map (\<lambda>c. get c ''id'') (st_memory_candidates st)) \<and>
     (\<forall>c \<in> set (st_memory_candidates st). (\<exists>i. map_of c ''id'' = Some (JStr i)) \<and>
        (get c ''validator_status'' = JStr ''approved'' \<and> get c ''policy_status'' = JStr ''approved'' \<longrightarrow> row_safe v c))"

text \<open>Extractions with new identifiers and validations of stored candidates, whether they succeed or raise.\<close>

inductive memory_step :: "memory_validator \<Rightarrow> runtime_sys \<Rightarrow> runtime_sys \<Rightarrow> bool" for v where
  extracting: "extract_from_step clock x s = (r, s') \<Longrightarrow>
    (\<And>c d. r = Inr c \<Longrightarrow> d \<in> set (st_memory_candidates (qs_store s)) \<Longrightarrow> get d ''id'' \<noteq> get c ''id'') \<Longrightarrow> memory_step v s s'"
| validating: "candidate \<in> set (st_memory_candidates (qs_store s)) \<Longrightarrow> on_store (validate_candidate v candidate content) s = (r, s') \<Longrightarrow> memory_step v s s'"

lemma row_safe_update:
  assumes "dom (map_of flds) = {''validator_status'', ''validation_reason'', ''policy_status'', ''policy_reason''}"
  shows "row_safe v (update flds c) = row_safe v c" and "map_of (update flds c) ''id'' = map_of c ''id''"
proof -
  have none: "map_of (rev flds) k = None" if "k \<notin> {''validator_status'', ''validation_reason'', ''policy_status'', ''policy_reason''}" for k
    using that assms by (metis dom_map_of_conv_image_fst domIff set_rev)
  show "row_safe v (update flds c) = row_safe v c" "map_of (update flds c) ''id'' = map_of c ''id''"
    by (simp_all add: row_safe_def lesson_ok_def scope_admitted_def CANDIDATE_FIELDS_def get_update map_of_update none map_add_def)
qed

lemma update_first_at:
  assumes "\<forall>c \<in> set cs. \<exists>i. map_of c ''id'' = Some (JStr i)" and "distinct (map (\<lambda>c. get c ''id'') cs)" and "candidate \<in> set cs"
    and "map_of candidate ''id'' = Some (JStr i)"
  shows "update_first i flds cs = (Inr (update flds candidate, map (\<lambda>c. if c = candidate then update flds c else c) cs) :: ('e, obj \<times> obj list) res)"
  using assms
proof (induction cs)
  case (Cons c cs)
  show ?case
  proof (cases "c = candidate")
    case True
    then have "candidate \<notin> set cs" using Cons.prems(2) by auto
    then have "map (\<lambda>c. if c = candidate then update flds c else c) cs = cs" by (intro map_idI) auto
    then show ?thesis using True Cons.prems(4) by (simp add: getitem_def)
  next
    case False
    then have "candidate \<in> set cs" using Cons.prems(3) by simp
    with Cons.prems(2,4) obtain j where j: "map_of c ''id'' = Some (JStr j)" "j \<noteq> i"
      using Cons.prems(1) by (force simp: get_def get_or_def image_iff)
    then show ?thesis using Cons.IH \<open>candidate \<in> set cs\<close> Cons.prems False by (simp add: getitem_def)
  qed
qed simp

lemma extract_effect:
  assumes "extract_from_step clock x s = (r, s')"
  shows "case r of Inr c \<Rightarrow> st_memory_candidates (qs_store s') = st_memory_candidates (qs_store s) @ [c] \<and>
       (\<exists>i. map_of c ''id'' = Some (JStr i)) \<and> get c ''validator_status'' = JStr ''pending''
     | Inl _ \<Rightarrow> qs_store s' = qs_store s"
  using assms
  by (auto simp: extract_from_step_def bindS_def liftS_def on_artifacts_def on_store_def insert_memory_candidate_def candidate_record_def
      split: prod.splits sum.splits)

lemma validate_candidate_Inl: "validate_candidate v candidate content st = (Inl e, st') \<Longrightarrow> st' = st"
  by (auto simp: validate_candidate_def bindS_def liftS_def update_memory_candidate_def Let_def split: sum.splits prod.splits)

lemma memory_step_invariant:
  assumes inv: "candidates_ok v (qs_store s)" and "memory_step v s s'"
  shows "candidates_ok v (qs_store s')"
  using assms(2)
proof cases
  case (extracting clock x r)
  then show ?thesis
  proof (cases r)
    case (Inr c)
    have "\<forall>d \<in> set (st_memory_candidates (qs_store s)). get c ''id'' \<noteq> get d ''id''" using extracting(2) [OF Inr] by metis
    with Inr extract_effect [OF extracting(1)] inv show ?thesis by (auto simp: candidates_ok_def image_iff)
  qed (use extract_effect [OF extracting(1)] inv in simp)
next
  case (validating candidate content r)
  obtain r' st' where val: "validate_candidate v candidate content (qs_store s) = (r', st')" by fastforce
  with validating(2) have s': "qs_store s' = st'" by (auto simp: on_store_def)
  show ?thesis
  proof (cases r')
    case (Inl e)
    then show ?thesis using validate_candidate_Inl val inv s' by metis
  next
    case (Inr res)
    let ?cs = "st_memory_candidates (qs_store s)"
    from inv have ids: "\<forall>c \<in> set ?cs. \<exists>i. map_of c ''id'' = Some (JStr i)" and d: "distinct (map (\<lambda>c. get c ''id'') ?cs)"
      by (auto simp: candidates_ok_def)
    from validate_candidate_Inr [OF val [unfolded Inr]] obtain i flds where i: "getitem candidate ''id'' = (Inr i :: (memory_error, json) res)"
      and u: "update_memory_candidate (py_str i) flds (qs_store s) = (Inr (cv_candidate res) :: (memory_error, obj) res, st')"
      and st: "map_of (rev flds) ''validator_status'' = Some (JStr (cv_validator_status res))" "map_of (rev flds) ''policy_status'' = Some (JStr (cv_policy_status res))"
      and dom: "dom (map_of flds) = {''validator_status'', ''validation_reason'', ''policy_status'', ''policy_reason''}"
      and ok: "candidate_approved res \<Longrightarrow> lesson_ok candidate \<and> scope_admitted v candidate" by metis
    from ids validating(1) obtain k where k: "map_of candidate ''id'' = Some (JStr k)" by blast
    then have "i = JStr k" using i by (simp add: getitem_def)
    with u update_first_at [OF ids d validating(1) k, of flds, where 'e = memory_error]
    have st': "st_memory_candidates st' = map (\<lambda>c. if c = candidate then update flds c else c) ?cs"
      by (auto simp: update_memory_candidate_def)
    have same: "get (if c = candidate then update flds c else c) ''id'' = get c ''id''" for c
      using row_safe_update(2) [OF dom] by (simp add: get_def get_or_def)
    have upd: "row_safe v (update flds candidate)"
      if "get (update flds candidate) ''validator_status'' = JStr ''approved''" "get (update flds candidate) ''policy_status'' = JStr ''approved''"
      using that ok unfolding row_safe_update(1) [OF dom] by (simp add: row_safe_def candidate_approved_def get_update st)
    have "distinct (map (\<lambda>c. get c ''id'') (st_memory_candidates st'))" unfolding st' map_map comp_def same using d .
    then show ?thesis
      unfolding s' candidates_ok_def using inv upd by (auto simp: st' candidates_ok_def row_safe_update(2) [OF dom])
  qed
qed

interpretation memory_gate: invariant_system "\<lambda>s. st_memory_candidates (qs_store s) = []" "memory_step v" "\<lambda>s. candidates_ok v (qs_store s)" for v
  by unfold_locales (simp add: candidates_ok_def, rule memory_step_invariant)

lemma submission_safe:
  assumes "candidates_ok v st" and "c \<in> set (st_memory_candidates st)" and "validate_submission c = Inr ()"
  shows "row_safe v c"
  using assms by (auto simp: candidates_ok_def validate_submission_def Let_def bindR_Inr_iff raise_if_Inr)


subsection \<open>Samples\<close>

definition sample_lesson :: obj where
  "sample_lesson =
     [(''summary'', JStr ''Lint''), (''evidence_uris'', JList [JStr ''hetzner://runtime/e'']),
      (''authoritative'', JBool False), (''influence_class'', JStr ''planner_hint''), (''allowed_effects'', JList [JStr ''planner_hint'']),
      (''forbidden_effects'', str_list PROCEDURAL_REQUIRED_FORBIDDEN_EFFECTS), (''applicability'', JList [JStr ''code''])]"

definition sample_extraction :: "string \<Rightarrow> extraction" where
  "sample_extraction sensitivity =
     \<lparr>ex_run = [(''id'', JStr ''r1''), (''profile_id'', JStr ''p1'')],
      ex_source_step = [(''id'', JStr ''s1''), (''run_id'', JStr ''r1''), (''status'', JStr ''succeeded'')],
      ex_target_memory_scope_id = ''m1'', ex_content = sample_lesson, ex_sensitivity = sensitivity, ex_retention_policy = ''standard'',
      ex_policy_id = ''memory-policy'', ex_candidate_class = ''procedural_lesson'', ex_classification_reason = None,
      ex_validator_id = ''memory-candidate-contract'', ex_candidate_id = None, ex_redact = False\<rparr>"

definition sample_validator :: memory_validator where
  "sample_validator = \<lparr>mv_allowed_memory_scope_ids = [''m1''], mv_allowed_policy_ids = [''memory-policy''], mv_safety_compiler = Some sample_guard\<rparr>"

definition blank_system :: runtime_sys where
  "blank_system = \<lparr>qs_store = empty_store, qs_artifacts = artifact_store_init [''srv''] ''hetzner://runtime'' 4096 512\<rparr>"

definition extracted :: "string \<Rightarrow> runtime_sys \<Rightarrow> runtime_sys" where
  "extracted sensitivity s = snd (extract_from_step (seconds 9) (sample_extraction sensitivity) s)"

definition latest :: "runtime_sys \<Rightarrow> obj" where
  "latest s = (case rev (st_memory_candidates (qs_store s)) of c # _ \<Rightarrow> c | [] \<Rightarrow> [])"

definition reviewed :: "runtime_sys \<Rightarrow> runtime_sys" where
  "reviewed s = snd (on_store (validate_candidate sample_validator (latest s) (Some sample_lesson)) s)"

abbreviation noted :: runtime_sys where
  "noted \<equiv> extracted ''internal'' blank_system"

theorem candidate_approval_exact_witness: "lesson_ok (latest noted) \<and> lesson_content_ok sample_lesson"
proof -
  let ?m = "validate_candidate sample_validator (latest noted) (Some sample_lesson) (qs_store noted)"
  have "case fst ?m of Inr r \<Rightarrow> candidate_approved r | Inl _ \<Rightarrow> False" by code_simp
  then obtain r where r: "fst ?m = Inr r" "candidate_approved r" by (auto split: sum.splits)
  then have "?m = (Inr r, snd ?m)" by (simp add: prod_eq_iff)
  from candidate_approval_exact [OF this] r(2) show ?thesis by blast
qed


text \<open>The store updates the first candidate with the identifier. A second extraction from the same step shares the identifier of
  the first, so the approval of a public lesson lands on the secret one before it, which is then accepted for submission.\<close>

theorem duplicate_candidate_admits_secret:
  "let s = reviewed (extracted ''public'' (extracted ''secret'' blank_system)); c = hd (st_memory_candidates (qs_store s)) in
     get c ''sensitivity'' = JStr ''secret'' \<and> validate_submission c = Inr () \<and> \<not> row_safe sample_validator c"
  by code_simp

end
