(* ===== verification/Policy_Denials.thy ===== *)
theory Policy_Denials
  imports Profile_Seal
begin

text \<open>
  \<open>runtime/policy_denials.py\<close>: the ledger of refused authority. A request is refused again when an active record has its
  fingerprint, or denies a scope that covers the requested one in the closure table; records and closure entries only ever deny.
  The hash is a parameter.
\<close>

subsection \<open>Records\<close>

definition DENIABLE_AUTHORITY_KINDS :: "string list" where
  "DENIABLE_AUTHORITY_KINDS =
     [''tool'', ''policy'', ''data_scope'', ''knowledge_scope'', ''memory_scope'', ''validator'', ''budget'', ''failure_policy'']"

definition DENIAL_STATUSES :: "string list" where
  "DENIAL_STATUSES = [''active'', ''expired'', ''superseded'']"

definition SCOPE_KINDS :: "string list" where
  "SCOPE_KINDS = [''data_scope'', ''knowledge_scope'', ''memory_scope'']"

datatype denial_error = PolicyDenialLedgerError string

definition missing_fields :: "string list \<Rightarrow> obj \<Rightarrow> string list" where
  "missing_fields required m = sort (filter (\<lambda>f. map_of m f = None) required)"

definition DENIAL_FIELDS :: "string list" where
  "DENIAL_FIELDS =
     [''contract_version'', ''id'', ''profile_id'', ''principal_id'', ''denial_predicate'', ''requested_authority'', ''policy_id'',
      ''closure_version'', ''denial_fingerprint'', ''status'', ''non_authoritative'', ''authority_effect'']"

definition FORBIDDEN_DENIAL_FIELDS :: "string list" where
  "FORBIDDEN_DENIAL_FIELDS =
     [''authority_grant'', ''granted_authority'', ''profile_patch'', ''runtime_profile_patch'', ''scope_grant'', ''policy_override'']"

definition check_requested :: "json \<Rightarrow> (denial_error, unit) res" where
  "check_requested v =
     (case as_obj v of
        None \<Rightarrow> Inl (Raise (PolicyDenialLedgerError ''requested_authority must be an object''))
      | Some requested \<Rightarrow>
          bindR (in_strings (get requested ''kind'') DENIABLE_AUTHORITY_KINDS) (\<lambda>known.
          bindR (raise_if (\<not> known) (PolicyDenialLedgerError ''requested_authority.kind is invalid'')) (\<lambda>_.
          raise_if (strip (py_str (get_or requested ''id'' (JStr []))) = []) (PolicyDenialLedgerError ''requested_authority.id is required''))))"

definition validate_policy_denial_record :: "obj \<Rightarrow> (denial_error, obj) res" where
  "validate_policy_denial_record r =
     (let missing = missing_fields DENIAL_FIELDS r in
      bindR (raise_if (missing \<noteq> []) (PolicyDenialLedgerError (''missing fields: '' @ join '', '' missing))) (\<lambda>_.
      bindR (raise_if (get r ''contract_version'' \<noteq> JStr ''0.1.0'') (PolicyDenialLedgerError ''contract_version must be 0.1.0'')) (\<lambda>_.
      bindR (check_requested (get r ''requested_authority'')) (\<lambda>_.
      bindR (in_strings (get r ''status'') DENIAL_STATUSES) (\<lambda>known.
      bindR (raise_if (\<not> known) (PolicyDenialLedgerError ''status is invalid'')) (\<lambda>_.
      bindR (raise_if (get r ''non_authoritative'' \<noteq> JBool True) (PolicyDenialLedgerError ''denial records must be non_authoritative'')) (\<lambda>_.
      bindR (raise_if (get r ''authority_effect'' \<noteq> JStr ''deny_only'') (PolicyDenialLedgerError ''denial records must be deny_only'')) (\<lambda>_.
      case find (\<lambda>f. map_of r f \<noteq> None) FORBIDDEN_DENIAL_FIELDS of
        Some f \<Rightarrow> Inl (Raise (PolicyDenialLedgerError (''denial records must not contain '' @ f)))
      | None \<Rightarrow> Inr r))))))))"

definition CLOSURE_FIELDS :: "string list" where
  "CLOSURE_FIELDS =
     [''closure_version'', ''scope_kind'', ''ancestor_scope_id'', ''descendant_scope_id'', ''policy_id'', ''non_authoritative'', ''authority_effect'']"

definition validate_closure_entry :: "obj \<Rightarrow> (denial_error, obj) res" where
  "validate_closure_entry entry =
     (let missing = missing_fields CLOSURE_FIELDS entry in
      bindR (raise_if (missing \<noteq> []) (PolicyDenialLedgerError (''closure entry missing fields: '' @ join '', '' missing))) (\<lambda>_.
      bindR (in_strings (get entry ''scope_kind'') SCOPE_KINDS) (\<lambda>known.
      bindR (raise_if (\<not> known) (PolicyDenialLedgerError ''closure scope_kind is invalid'')) (\<lambda>_.
      bindR (raise_if (get entry ''non_authoritative'' \<noteq> JBool True) (PolicyDenialLedgerError ''closure entries must be non_authoritative'')) (\<lambda>_.
      bindR (raise_if (get entry ''authority_effect'' \<noteq> JStr ''reachability_only'')
        (PolicyDenialLedgerError ''closure entries must be reachability_only'')) (\<lambda>_.
      Inr entry))))))"

subsection \<open>The closure table\<close>

definition closure_init :: "obj list \<Rightarrow> (denial_error, obj list) res" where
  "closure_init closure = mapR validate_closure_entry closure"

definition descendants_for :: "obj list \<Rightarrow> string \<Rightarrow> string \<Rightarrow> string \<Rightarrow> string \<Rightarrow> string list" where
  "descendants_for closure scope_kind ancestor_scope_id policy_id closure_version =
     map (\<lambda>e. py_str (get e ''descendant_scope_id''))
       (filter (\<lambda>e. get e ''scope_kind'' = JStr scope_kind \<and> get e ''ancestor_scope_id'' = JStr ancestor_scope_id \<and>
          get e ''policy_id'' = JStr policy_id \<and> get e ''closure_version'' = JStr closure_version) closure)"

definition is_descendant :: "obj list \<Rightarrow> string \<Rightarrow> string \<Rightarrow> string \<Rightarrow> string \<Rightarrow> string \<Rightarrow> bool" where
  "is_descendant closure scope_kind ancestor_scope_id requested_scope_id policy_id closure_version \<longleftrightarrow>
     ancestor_scope_id = requested_scope_id \<or>
     requested_scope_id \<in> set (descendants_for closure scope_kind ancestor_scope_id policy_id closure_version)"

subsection \<open>Requests\<close>

record denial_request =
  dr_record_id :: string
  dr_profile_id :: string
  dr_principal_id :: string
  dr_denial_predicate :: string
  dr_kind :: string
  dr_id :: string
  dr_policy_id :: string
  dr_closure_version :: string
  dr_status :: string
  dr_ttl_expires_at :: "string option"

definition fingerprint_payload :: "denial_request \<Rightarrow> json" where
  "fingerprint_payload q =
     JObj [(''closure_version'', JStr (dr_closure_version q)), (''denial_predicate'', JStr (dr_denial_predicate q)),
       (''policy_id'', JStr (dr_policy_id q)), (''principal_id'', JStr (dr_principal_id q)), (''profile_id'', JStr (dr_profile_id q)),
       (''requested_authority'', JObj [(''id'', JStr (dr_id q)), (''kind'', JStr (dr_kind q))])]"

definition denial_fingerprint :: "hash \<Rightarrow> denial_request \<Rightarrow> string" where
  "denial_fingerprint sha256 q = ''sha256:'' @ sha256 (dumps (fingerprint_payload q))"

definition denial_record :: "hash \<Rightarrow> denial_request \<Rightarrow> obj" where
  "denial_record sha256 q =
     [(''contract_version'', JStr ''0.1.0''), (''id'', JStr (dr_record_id q)), (''profile_id'', JStr (dr_profile_id q)),
      (''principal_id'', JStr (dr_principal_id q)), (''denial_predicate'', JStr (dr_denial_predicate q)),
      (''requested_authority'', JObj [(''kind'', JStr (dr_kind q)), (''id'', JStr (dr_id q))]), (''policy_id'', JStr (dr_policy_id q)),
      (''closure_version'', JStr (dr_closure_version q)), (''denial_fingerprint'', JStr (denial_fingerprint sha256 q)),
      (''status'', JStr (dr_status q)), (''ttl_expires_at'', opt_str (dr_ttl_expires_at q)), (''non_authoritative'', JBool True),
      (''authority_effect'', JStr ''deny_only'')]"

definition build_policy_denial_record :: "hash \<Rightarrow> denial_request \<Rightarrow> (denial_error, obj) res" where
  "build_policy_denial_record sha256 q = validate_policy_denial_record (denial_record sha256 q)"

subsection \<open>Lookup\<close>

record denial_lookup =
  dl_denied :: bool
  dl_reason :: string
  dl_matched_record_id :: "string option"
  dl_matched_by :: "string option"

record denial_ledger =
  le_records :: "obj list"
  le_closure :: "obj list"

definition ledger_init :: "obj list \<Rightarrow> obj list \<Rightarrow> (denial_error, denial_ledger) res" where
  "ledger_init records closure =
     bindR (mapR validate_policy_denial_record records) (\<lambda>rs.
     bindR (closure_init closure) (\<lambda>cs. Inr \<lparr>le_records = rs, le_closure = cs\<rparr>))"

definition scope_denial_subsumes :: "obj \<Rightarrow> obj \<Rightarrow> obj list \<Rightarrow> (denial_error, bool) res" where
  "scope_denial_subsumes r request closure =
     (case (as_obj (get r ''requested_authority''), as_obj (get request ''requested_authority'')) of
        (Some denied, Some requested) \<Rightarrow>
          if \<not> py_eq (get denied ''kind'') (get requested ''kind'') then Inr False
          else bindR (in_strings (get denied ''kind'') SCOPE_KINDS) (\<lambda>scope.
            if \<not> scope \<or> \<not> py_eq (get r ''profile_id'') (get request ''profile_id'') \<or>
               \<not> py_eq (get r ''principal_id'') (get request ''principal_id'') \<or> \<not> py_eq (get r ''policy_id'') (get request ''policy_id'')
            then Inr False
            else
              bindR (getitem denied ''id'') (\<lambda>denied_id.
              bindR (getitem requested ''id'') (\<lambda>requested_id.
              Inr (is_descendant closure (py_str (get denied ''kind'')) (py_str denied_id) (py_str requested_id)
                     (py_str (get r ''policy_id'')) (py_str (get r ''closure_version''))))))
      | _ \<Rightarrow> Inr False)"

fun lookup_in :: "obj list \<Rightarrow> obj \<Rightarrow> obj list \<Rightarrow> (denial_error, denial_lookup) res" where
  "lookup_in closure request [] =
     Inr \<lparr>dl_denied = False, dl_reason = ''no matching denial'', dl_matched_record_id = None, dl_matched_by = None\<rparr>"
| "lookup_in closure request (r # rs) =
     (if get r ''status'' \<noteq> JStr ''active'' then lookup_in closure request rs
      else if get r ''denial_fingerprint'' = JStr (py_str (get request ''denial_fingerprint'')) then
        Inr \<lparr>dl_denied = True, dl_reason = ''exact denial fingerprint already exists'', dl_matched_record_id = Some (py_str (get r ''id'')),
          dl_matched_by = Some ''fingerprint''\<rparr>
      else bindR (scope_denial_subsumes r request closure) (\<lambda>covered.
        if covered then
          Inr \<lparr>dl_denied = True, dl_reason = ''requested scope is subsumed by an existing denied scope'',
            dl_matched_record_id = Some (py_str (get r ''id'')), dl_matched_by = Some ''scope_closure''\<rparr>
        else lookup_in closure request rs))"

definition lookup :: "hash \<Rightarrow> denial_ledger \<Rightarrow> denial_request \<Rightarrow> (denial_error, denial_lookup) res" where
  "lookup sha256 ledger q =
     bindR (build_policy_denial_record sha256 q) (\<lambda>request. lookup_in (le_closure ledger) request (le_records ledger))"

subsection \<open>Exactness\<close>

text \<open>The same request, and a scope below a denied one.\<close>

definition same_request :: "denial_request \<Rightarrow> denial_request \<Rightarrow> bool" where
  "same_request d q \<longleftrightarrow> dr_profile_id d = dr_profile_id q \<and> dr_principal_id d = dr_principal_id q \<and>
     dr_denial_predicate d = dr_denial_predicate q \<and> dr_kind d = dr_kind q \<and> dr_id d = dr_id q \<and> dr_policy_id d = dr_policy_id q \<and>
     dr_closure_version d = dr_closure_version q"

definition covers :: "obj list \<Rightarrow> denial_request \<Rightarrow> denial_request \<Rightarrow> bool" where
  "covers closure d q \<longleftrightarrow> dr_kind d = dr_kind q \<and> dr_kind d \<in> set SCOPE_KINDS \<and> dr_profile_id d = dr_profile_id q \<and>
     dr_principal_id d = dr_principal_id q \<and> dr_policy_id d = dr_policy_id q \<and>
     is_descendant closure (dr_kind d) (dr_id d) (dr_id q) (dr_policy_id d) (dr_closure_version d)"

definition denies :: "obj list \<Rightarrow> denial_request \<Rightarrow> denial_request \<Rightarrow> bool" where
  "denies closure q d \<longleftrightarrow> dr_status d = ''active'' \<and> (same_request d q \<or> covers closure d q)"

definition collision_free :: "hash \<Rightarrow> denial_request list \<Rightarrow> denial_request \<Rightarrow> bool" where
  "collision_free sha256 ds q \<longleftrightarrow> (\<forall>d\<in>set ds.
     sha256 (dumps (fingerprint_payload d)) = sha256 (dumps (fingerprint_payload q)) \<longrightarrow>
     dumps (fingerprint_payload d) = dumps (fingerprint_payload q))"

text \<open>The payload is written with its keys in order, so its text is read back as it is.\<close>

lemma sorted_payload_keys:
  "sorted [''closure_version'', ''denial_predicate'', ''policy_id'', ''principal_id'', ''profile_id'', ''requested_authority'']"
  "sorted [''id'', ''kind'']"
  by code_simp+

lemma sort_fingerprint_payload: "sort_keys (fingerprint_payload q) = fingerprint_payload q"
  by (simp add: fingerprint_payload_def sort_key_id_if_sorted sorted_payload_keys del: sorted_simps)

lemma payload_same: "dumps (fingerprint_payload d) = dumps (fingerprint_payload q) \<longleftrightarrow> same_request d q"
  by (simp only: dumps_unique sort_fingerprint_payload) (auto simp: fingerprint_payload_def same_request_def)

lemma fingerprint_same:
  assumes "sha256 (dumps (fingerprint_payload d)) = sha256 (dumps (fingerprint_payload q)) \<Longrightarrow> dumps (fingerprint_payload d) = dumps (fingerprint_payload q)"
  shows "denial_fingerprint sha256 d = denial_fingerprint sha256 q \<longleftrightarrow> same_request d q"
proof -
  have "denial_fingerprint sha256 d = denial_fingerprint sha256 q \<longleftrightarrow> dumps (fingerprint_payload d) = dumps (fingerprint_payload q)"
    using assms by (auto simp: denial_fingerprint_def)
  then show ?thesis by (simp only: payload_same)
qed

lemma denial_record_fields:
  "get (denial_record sha256 q) ''status'' = JStr (dr_status q)"
  "get (denial_record sha256 q) ''id'' = JStr (dr_record_id q)"
  "get (denial_record sha256 q) ''denial_fingerprint'' = JStr (denial_fingerprint sha256 q)"
  "get (denial_record sha256 q) ''profile_id'' = JStr (dr_profile_id q)"
  "get (denial_record sha256 q) ''principal_id'' = JStr (dr_principal_id q)"
  "get (denial_record sha256 q) ''policy_id'' = JStr (dr_policy_id q)"
  "get (denial_record sha256 q) ''closure_version'' = JStr (dr_closure_version q)"
  "get (denial_record sha256 q) ''requested_authority'' = JObj [(''kind'', JStr (dr_kind q)), (''id'', JStr (dr_id q))]"
  by (simp_all add: denial_record_def get_def get_or_def)

lemma authority_fields:
  "get [(''kind'', JStr k), (''id'', JStr i)] ''kind'' = JStr k"
  "getitem [(''kind'', JStr k), (''id'', JStr i)] ''id'' = (Inr (JStr i) :: ('e, json) res)"
  by (simp_all add: get_def get_or_def getitem_def)

lemma subsumes_covers:
  "scope_denial_subsumes (denial_record sha256 d) (denial_record sha256 q) closure = (Inr (covers closure d q) :: (denial_error, bool) res)"
  by (auto simp: scope_denial_subsumes_def denial_record_fields authority_fields covers_def)

lemma lookup_in_exact:
  assumes "collision_free sha256 ds q"
  shows "\<exists>l. lookup_in closure (denial_record sha256 q) (map (denial_record sha256) ds) = Inr l \<and>
    dl_matched_record_id l = map_option dr_record_id (find (denies closure q) ds) \<and> (dl_denied l \<longleftrightarrow> find (denies closure q) ds \<noteq> None)"
  using assms
proof (induction ds)
  case (Cons d ds)
  have same: "denial_fingerprint sha256 d = denial_fingerprint sha256 q \<longleftrightarrow> same_request d q"
    by (rule fingerprint_same) (use Cons.prems in \<open>simp add: collision_free_def\<close>)
  from Cons.prems have "collision_free sha256 ds q" by (simp add: collision_free_def)
  then obtain l where "lookup_in closure (denial_record sha256 q) (map (denial_record sha256) ds) = Inr l"
    "dl_matched_record_id l = map_option dr_record_id (find (denies closure q) ds)" "dl_denied l \<longleftrightarrow> find (denies closure q) ds \<noteq> None"
    using Cons.IH by blast
  then show ?case using same denies_def [of closure q d] by (auto simp: denial_record_fields subsumes_covers)
qed simp

subsection \<open>What the constructors keep\<close>

lemma validated_same: "validate_policy_denial_record r = Inr r' \<Longrightarrow> r' = r"
  by (auto simp: validate_policy_denial_record_def Let_def bindR_Inr_iff split: option.splits)

lemma closure_entry_same: "validate_closure_entry e = Inr e' \<Longrightarrow> e' = e"
  by (auto simp: validate_closure_entry_def Let_def bindR_Inr_iff)

lemma mapR_same: "mapR f xs = Inr ys \<Longrightarrow> (\<And>x y. f x = Inr y \<Longrightarrow> y = g x) \<Longrightarrow> ys = map g xs"
  by (induction xs arbitrary: ys) (auto simp: bindR_Inr_iff)

lemma built_same: "build_policy_denial_record sha256 q = Inr r \<Longrightarrow> r = denial_record sha256 q"
  by (auto simp: build_policy_denial_record_def dest: validated_same)

lemma ledger_contents:
  assumes "ledger_init records closure = Inr ledger"
  shows "ledger = \<lparr>le_records = records, le_closure = closure\<rparr>"
proof -
  obtain rs cs where rs: "mapR validate_policy_denial_record records = Inr rs" and cs: "mapR validate_closure_entry closure = Inr cs"
    and "ledger = \<lparr>le_records = rs, le_closure = cs\<rparr>"
    using assms by (auto simp: ledger_init_def closure_init_def bindR_Inr_iff)
  moreover have "rs = records" using mapR_same [OF rs, of id] validated_same by simp
  moreover have "cs = closure" using mapR_same [OF cs, of id] closure_entry_same by simp
  ultimately show ?thesis by simp
qed


definition sample_denial :: "string \<Rightarrow> string \<Rightarrow> denial_request" where
  "sample_denial ident scope =
     \<lparr>dr_record_id = ident, dr_profile_id = ''p1'', dr_principal_id = ''u1'', dr_denial_predicate = ''scope'', dr_kind = ''data_scope'',
      dr_id = scope, dr_policy_id = ''policy'', dr_closure_version = ''v1'', dr_status = ''active'', dr_ttl_expires_at = None\<rparr>"

definition sample_closure :: "obj list" where
  "sample_closure = [[(''closure_version'', JStr ''v1''), (''scope_kind'', JStr ''data_scope''), (''ancestor_scope_id'', JStr ''all''),
     (''descendant_scope_id'', JStr ''sales''), (''policy_id'', JStr ''policy''), (''non_authoritative'', JBool True),
     (''authority_effect'', JStr ''reachability_only'')]]"


end
