(* ===== verification/Invariant_Assertions.thy ===== *)
theory Invariant_Assertions
  imports Composer Registry "HOL-Library.Sublist"
begin

text \<open>
  \<open>runtime/invariant_assertions.py\<close> and \<open>runtime/invariant_replay.py\<close>: the executable safety invariants of sealed profiles and
  the replay of fixture cases against them. The files of fixtures are a parameter, a map from names to documents.
  The main result ties the invariants to the composer: which of them every emitted profile satisfies, and which not.
\<close>

subsection \<open>Findings\<close>

definition PROFILE_SELECTION_FIELDS :: "string list" where
  "PROFILE_SELECTION_FIELDS =
     [''instructions'', ''skills'', ''tools'', ''knowledge_scopes'', ''data_scopes'', ''memory_scopes'', ''policies'', ''validators'']"

definition TASK_TYPE_VALIDATOR_REQUIREMENTS :: "(string \<times> string) list" where
  "TASK_TYPE_VALIDATOR_REQUIREMENTS =
     [(''code-review'', ''review-findings-contract''), (''research'', ''research-output-contract''),
      (''task-execution'', ''task-execution-output-contract''), (''general-task'', ''general-output-contract'')]"

datatype invariant_finding = InvariantFinding (invariant_id: string) (message: string)

text \<open>\<open>_string_set\<close> and \<open>_selected_modules\<close>: the strings of a list, and those of all selection fields.\<close>

definition strings_of :: "json \<Rightarrow> string list" where
  "strings_of v = (case as_list v of None \<Rightarrow> [] | Some xs \<Rightarrow> List.map_filter as_str xs)"

definition modules_of :: "obj \<Rightarrow> string list" where
  "modules_of profile = concat (map (\<lambda>f. strings_of (get profile f)) PROFILE_SELECTION_FIELDS)"

definition finding_if :: "bool \<Rightarrow> string \<Rightarrow> string \<Rightarrow> invariant_finding list" where
  "finding_if b i m = (if b then [InvariantFinding i m] else [])"

definition assert_fail_closed_on_unknowns :: "obj \<Rightarrow> invariant_finding list" where
  "assert_fail_closed_on_unknowns profile =
     (case as_obj (get profile ''module_versions'') of
        None \<Rightarrow> [InvariantFinding ''fail_closed_on_unknowns'' ''module_versions must be an object with explicit pins.'']
      | Some pins \<Rightarrow>
          (let selected = modules_of profile; version_keys = dict_keys pins;
               missing = sorted_diff selected version_keys; extras = sorted_diff version_keys selected in
           finding_if (missing \<noteq> []) ''fail_closed_on_unknowns'' (''missing module version pins for selected modules: '' @ join '', '' missing) @
           finding_if (extras \<noteq> []) ''fail_closed_on_unknowns'' (''unexpected module version pins without selection: '' @ join '', '' extras)))"

definition review_required :: "obj \<Rightarrow> bool" where
  "review_required profile \<longleftrightarrow>
     (case as_obj (get profile ''human_review'') of None \<Rightarrow> False | Some review \<Rightarrow> get review ''required'' = JBool True)"

definition assert_no_self_granting :: "obj \<Rightarrow> invariant_finding list" where
  "assert_no_self_granting profile =
     (case as_obj (get profile ''skill_execution_roles'') of
        None \<Rightarrow> [InvariantFinding ''no_self_granting'' ''skill_execution_roles must be present for runtime skill enforcement.'']
      | Some role_map \<Rightarrow>
          (let unknown = sorted_diff (strings_of (get role_map ''runtime_skills'') @ strings_of (get role_map ''shared_skills''))
                 (strings_of (get profile ''skills'')) in
           finding_if (unknown \<noteq> []) ''no_self_granting'' (''skill_execution_roles references unselected skills: '' @ join '', '' unknown) @
           (if review_required profile then
              concat (map (\<lambda>f. finding_if (strings_of (get profile f) \<noteq> []) ''no_self_granting''
                  (''human-review-required profile must not select '' @ f @ ''.''))
                [''skills'', ''tools'', ''knowledge_scopes'', ''data_scopes'', ''memory_scopes''])
            else [])))"

definition missing_validator :: "string \<Rightarrow> string \<Rightarrow> invariant_finding" where
  "missing_validator task_type required =
     InvariantFinding ''mandatory_validators_per_change_type'' (''missing task-type validator for '' @ task_type @ '': '' @ required)"

definition assert_mandatory_validators_per_change_type :: "obj \<Rightarrow> invariant_finding list" where
  "assert_mandatory_validators_per_change_type profile =
     (let validators = strings_of (get profile ''validators''); task_type = py_str (get_or profile ''task_type'' (JStr [])) in
      finding_if (''runtime-profile-schema'' \<notin> set validators) ''mandatory_validators_per_change_type''
        ''runtime-profile-schema validator must always be selected.'' @
      (case map_of TASK_TYPE_VALIDATOR_REQUIREMENTS task_type of
         None \<Rightarrow> []
       | Some required \<Rightarrow>
           if required \<notin> set validators \<and> \<not> review_required profile then [missing_validator task_type required] else []))"

text \<open>\<open>isinstance(v, int)\<close>: a Boolean is an integer.\<close>

fun int_value :: "json \<Rightarrow> int option" where
  "int_value (JInt i) = Some i"
| "int_value (JBool b) = Some (if b then 1 else 0)"
| "int_value v = None"

definition untraceable :: invariant_finding where
  "untraceable = InvariantFinding ''immutable_profile_after_seal'' ''recomposed profiles must set parent_profile_id and recomposition_reason.''"

definition assert_immutable_profile_after_seal :: "obj \<Rightarrow> invariant_finding list" where
  "assert_immutable_profile_after_seal profile =
     (let parent = get profile ''parent_profile_id''; reason = get profile ''recomposition_reason'';
          bad = [InvariantFinding ''immutable_profile_after_seal'' ''profile_generation must be an integer >= 1.''] in
      case int_value (get profile ''profile_generation'') of
        None \<Rightarrow> bad
      | Some generation \<Rightarrow>
          if generation < 1 then bad
          else if generation = 1 then
            finding_if (parent \<noteq> JNull \<or> reason \<noteq> JNull) ''immutable_profile_after_seal''
              ''profile_generation 1 must not set parent_profile_id or recomposition_reason.''
          else if \<not> truthy parent \<or> \<not> truthy reason then [untraceable] else [])"

definition assert_profile_sealing_invariants :: "obj \<Rightarrow> invariant_finding list" where
  "assert_profile_sealing_invariants profile =
     assert_fail_closed_on_unknowns profile @ assert_no_self_granting profile @
     assert_mandatory_validators_per_change_type profile @ assert_immutable_profile_after_seal profile"

definition assert_scope_monotonicity :: "obj \<Rightarrow> obj \<Rightarrow> invariant_finding list" where
  "assert_scope_monotonicity parent_profile current_profile =
     concat (map (\<lambda>f.
       let widened = sorted_diff (strings_of (get current_profile f)) (strings_of (get parent_profile f)) in
       finding_if (widened \<noteq> []) ''scope_monotonicity'' (f @ '' widened compared to parent profile: '' @ join '', '' widened))
       [''tools'', ''knowledge_scopes'', ''data_scopes'', ''memory_scopes''])"

subsection \<open>Composed profiles\<close>

lemma finding_if_Nil [simp]: "finding_if b i m = [] \<longleftrightarrow> \<not> b"
  by (simp add: finding_if_def)

lemma strings_of_str_list [simp]: "strings_of (str_list xs) = xs"
  by (induction xs) (auto simp: strings_of_def str_list_def List.map_filter_simps)

lemma modules_of_profile: "modules_of (profile_object t g pa re a rv ms ex vs li fp) = all_selected ms"
  by (simp add: modules_of_def PROFILE_SELECTION_FIELDS_def profile_object_fields all_selected_def selected_by_field_def)

lemma sorted_diff_same: "set a = set b \<Longrightarrow> sorted_diff a b = []"
  by (auto simp: sorted_diff_def filter_empty_conv)

lemma composed_pins_closed:
  assumes "module_versions (all_selected ms) pins tt = Inr vs"
  shows "assert_fail_closed_on_unknowns (profile_object t g pa re a rv ms ex vs li fp) = []"
  using module_versions_keys [OF assms]
  by (simp add: assert_fail_closed_on_unknowns_def profile_object_fields modules_of_profile sorted_diff_same Let_def)

lemma composed_generation:
  assumes "assert_recomposition_traceability gen parent reason = Inr ()"
  shows "assert_immutable_profile_after_seal (profile_object t gen parent reason a rv ms ex vs li fp) =
     (if gen \<noteq> 1 \<and> parent = Some [] then [untraceable] else [])"
  using assms
  by (auto simp: assert_immutable_profile_after_seal_def profile_object_fields assert_recomposition_traceability_def raise_if_Inr
      RECOMPOSITION_REASONS_def Let_def finding_if_def split: if_splits option.splits)

lemma execution_roles_selected:
  assumes "skill_execution_roles candidates selected = Inr m"
  shows "set (strings_of (get m ''runtime_skills'')) \<subseteq> set selected" and "set (strings_of (get m ''shared_skills'')) \<subseteq> set selected"
proof -
  from assms obtain declared where "m = (let role = (\<lambda>s. case map_of declared s of None \<Rightarrow> ''runtime'' | Some r \<Rightarrow> r) in
      [(''runtime_skills'', str_list (filter (\<lambda>s. role s = ''runtime'') selected)),
       (''non_runtime_skills'', str_list (filter (\<lambda>s. role s = ''non-runtime'') selected)),
       (''shared_skills'', str_list (filter (\<lambda>s. role s \<noteq> ''runtime'' \<and> role s \<noteq> ''non-runtime'') selected))])"
    by (auto simp: skill_execution_roles_def bindR_Inr_iff)
  then show "set (strings_of (get m ''runtime_skills'')) \<subseteq> set selected" "set (strings_of (get m ''shared_skills'')) \<subseteq> set selected"
    by (auto simp: Let_def)
qed

lemma review_flag:
  "review_required (profile_object t g pa re a (human_review_required t) ms ex vs li fp)"
  "\<not> review_required (profile_object t g pa re a (human_review_not_required t) ms ex vs li fp)"
  by (simp_all add: review_required_def profile_object_fields human_review_required_def human_review_not_required_def human_review_def)

lemma roles_of_profile: "get (profile_object t g pa re a rv ms ex vs li fp) ''skill_execution_roles'' = JObj ex"
  "get_or (profile_object t g pa re a rv ms ex vs li fp) ''task_type'' d = JStr (at_task_type t)"
  by (simp_all add: profile_object_def)

lemma runtime_no_self_granting:
  assumes "skill_execution_roles candidates (ms_skills ms) = Inr ex"
  shows "assert_no_self_granting (profile_object t g pa re a (human_review_not_required t) ms ex vs li fp) = []"
  using execution_roles_selected [OF assms] by (simp add: assert_no_self_granting_def roles_of_profile profile_object_fields review_flag)

lemma review_no_self_granting:
  "assert_no_self_granting (profile_object t g pa re a (human_review_required t) (human_review_selection ctx) empty_execution_roles vs li fp) = []"
  by (simp add: assert_no_self_granting_def roles_of_profile profile_object_fields review_flag human_review_selection_def empty_execution_roles_def)

text \<open>The validator the invariants require for the type of a task, unless the context asks for it.\<close>

definition unmet_validator :: "analyzed_task \<Rightarrow> obj \<Rightarrow> invariant_finding list" where
  "unmet_validator t ctx =
     (case map_of TASK_TYPE_VALIDATOR_REQUIREMENTS (at_task_type t) of
        None \<Rightarrow> []
      | Some required \<Rightarrow>
          if required \<in> set (names (references ctx ''validation_requirements'') None) \<or> at_requires_human_review t then []
          else [missing_validator (at_task_type t) required])"

lemma required_validators:
  "map_of TASK_TYPE_VALIDATOR_REQUIREMENTS tt = Some required \<Longrightarrow> required \<noteq> ''runtime-profile-schema''"
  by (auto simp: TASK_TYPE_VALIDATOR_REQUIREMENTS_def split: if_splits)

lemma runtime_validators:
  assumes "\<not> at_requires_human_review t"
  shows "assert_mandatory_validators_per_change_type
    (profile_object t g pa re a (human_review_not_required t) (runtime_selection t ctx) ex vs li fp) = unmet_validator t ctx"
  using assms required_validators [of "at_task_type t"]
  by (auto simp: assert_mandatory_validators_per_change_type_def roles_of_profile profile_object_fields review_flag unmet_validator_def
      runtime_selection_def Let_def finding_if_def split: option.splits)

lemma review_validators:
  assumes "at_requires_human_review t"
  shows "assert_mandatory_validators_per_change_type
    (profile_object t g pa re a (human_review_required t) (human_review_selection ctx) ex vs li fp) = unmet_validator t ctx"
  using assms by (auto simp: assert_mandatory_validators_per_change_type_def roles_of_profile profile_object_fields review_flag unmet_validator_def
      human_review_selection_def Let_def finding_if_def split: option.splits)

text \<open>C24. 
  C0. The composer against the executable safety invariants: for every profile it emits the invariants on pins, self-granting
  and the immutability of the first generation hold; the only findings there can be are the validator of the task's type,
  when the composition context does not require it and the task needs no review, and a recomposed profile whose parent is the
  empty string.
\<close>

theorem composed_profile_invariants:
  assumes "compose t ctx gen parent reason = Inr p"
  shows "assert_profile_sealing_invariants p = unmet_validator t ctx @ (if gen \<noteq> 1 \<and> parent = Some [] then [untraceable] else [])"
proof (cases "at_requires_human_review t")
  case True
  from assms True obtain a vs where tr: "assert_recomposition_traceability gen parent reason = Inr ()"
    and vs: "module_versions (all_selected (human_review_selection ctx)) (version_pins ctx) (at_task_type t) = Inr vs"
    and p: "p = profile_object t gen parent reason a (human_review_required t) (human_review_selection ctx)
        empty_execution_roles vs HUMAN_REVIEW_LIMITS HUMAN_REVIEW_FAILURE_POLICY"
    by (rule compose_review)
  show ?thesis unfolding p assert_profile_sealing_invariants_def
    by (simp add: composed_pins_closed [OF vs] review_no_self_granting review_validators [OF True] composed_generation [OF tr])
next
  case False
  from assms False obtain ex a vs where tr: "assert_recomposition_traceability gen parent reason = Inr ()"
    and ex: "skill_execution_roles (references ctx ''candidate_modules'') (ms_skills (runtime_selection t ctx)) = Inr ex"
    and vs: "module_versions (all_selected (runtime_selection t ctx)) (version_pins ctx) (at_task_type t) = Inr vs"
    and p: "p = profile_object t gen parent reason a (human_review_not_required t) (runtime_selection t ctx) ex vs DEFAULT_LIMITS DEFAULT_FAILURE_POLICY"
    by (rule compose_runtime)
  show ?thesis unfolding p assert_profile_sealing_invariants_def
    by (simp add: composed_pins_closed [OF vs] runtime_no_self_granting [OF ex] runtime_validators [OF False] composed_generation [OF tr])
qed

theorem composed_profile_invariants_witness:
  "assert_profile_sealing_invariants sample_profile = unmet_validator sample_analyzed sample_context"
  using composed_profile_invariants [OF compose_sample] by simp

subsection \<open>Replay of fixture cases\<close>

definition EXPECTED_INVARIANTS :: "string list" where
  "EXPECTED_INVARIANTS =
     [''fail_closed_on_unknowns'', ''no_self_granting'', ''mandatory_validators_per_change_type'', ''scope_monotonicity'',
      ''immutable_profile_after_seal'']"

definition CASE_TYPES :: "string list" where
  "CASE_TYPES = [''positive'', ''near-miss'', ''violation'']"

record replay_case_result =
  rc_name :: string
  rc_invariant_id :: string
  rc_case_type :: string
  rc_expected_violation :: bool
  rc_actual_violation :: bool

definition replay_passed :: "replay_case_result \<Rightarrow> bool" where
  "replay_passed r \<longleftrightarrow> rc_expected_violation r = rc_actual_violation r"

datatype replay_error = ReplayError string

text \<open>The loop of \<open>apply_mutations\<close> over the keys of a path: a child that is no dictionary is replaced by an empty one.\<close>

fun set_path :: "string list \<Rightarrow> json \<Rightarrow> obj \<Rightarrow> obj" where
  "set_path [] v m = m"
| "set_path [k] v m = dict_set k v m"
| "set_path (k # k' # ks) v m = dict_set k (JObj (set_path (k' # ks) v (obj_or_empty (get m k)))) m"

definition apply_mutation :: "json \<Rightarrow> obj \<Rightarrow> (replay_error, obj) res" where
  "apply_mutation mutation m =
     (case as_obj mutation of
        None \<Rightarrow> Inl (Py AttributeError)
      | Some mu \<Rightarrow>
          bindR (raise_if (get mu ''op'' \<noteq> JStr ''set'') (ReplayError (''only mutation op='' @ [CHR 39] @ ''set'' @ [CHR 39] @ '' is supported''))) (\<lambda>_.
          bindR (getitem mu ''path'') (\<lambda>path.
          bindR (getitem mu ''value'') (\<lambda>v.
          Inr (set_path (split_char (CHR ''.'') (py_str path)) v m)))))"

definition apply_mutations :: "obj \<Rightarrow> json list \<Rightarrow> (replay_error, obj) res" where
  "apply_mutations payload mutations = foldR apply_mutation mutations payload"

text \<open>\<open>validate_replay_corpus_shape\<close>. The last loop of the source runs over a set, in no particular order.\<close>

definition case_id :: "obj \<Rightarrow> string" where
  "case_id c = py_str (get_or c ''invariant_id'' (JStr []))"

definition case_type :: "obj \<Rightarrow> string" where
  "case_type c = py_str (get_or c ''case_type'' (JStr []))"

definition case_failures :: "obj \<Rightarrow> string list" where
  "case_failures c =
     (if case_id c = [] then [''case is missing invariant_id'']
      else if case_type c \<notin> set CASE_TYPES then [case_id c @ '': unsupported case_type '' @ [CHR 39] @ case_type c @ [CHR 39]] else [])"

definition types_of :: "obj list \<Rightarrow> string \<Rightarrow> string list" where
  "types_of cases i = map case_type (filter (\<lambda>c. case_id c = i) cases)"

definition validate_replay_corpus_shape :: "obj list \<Rightarrow> string list" where
  "validate_replay_corpus_shape cases =
     (let seen = filter (\<lambda>i. i \<noteq> []) (map case_id cases);
          missing = sorted_diff EXPECTED_INVARIANTS seen; extras = sorted_diff seen EXPECTED_INVARIANTS in
      concat (map case_failures cases) @
      (if set seen \<noteq> set EXPECTED_INVARIANTS then
         (if missing \<noteq> [] then [''missing invariants in replay corpus: '' @ join '', '' missing] else []) @
         (if extras \<noteq> [] then [''unknown invariants in replay corpus: '' @ join '', '' extras] else [])
       else []) @
      concat (map (\<lambda>i.
        if set (types_of cases i) \<noteq> set CASE_TYPES then
          [i @ '': expected case types '' @ py_repr (str_list (sorted_set CASE_TYPES)) @ '' but got '' @ py_repr (str_list (sorted_set (types_of cases i)))]
        else []) (filter (\<lambda>i. i \<in> set seen) EXPECTED_INVARIANTS)))"

definition load_profile_fixture :: "(string \<Rightarrow> (replay_error, json) res) \<Rightarrow> string \<Rightarrow> (replay_error, obj) res" where
  "load_profile_fixture files name =
     bindR (files name) (\<lambda>payload.
     case as_obj payload of
       None \<Rightarrow> Inl (Raise (ReplayError (''profile fixture '' @ name @ '' must contain a JSON object'')))
     | Some m \<Rightarrow> Inr m)"

definition mutated_fixture :: "(string \<Rightarrow> (replay_error, json) res) \<Rightarrow> obj \<Rightarrow> string \<Rightarrow> string \<Rightarrow> (replay_error, obj) res" where
  "mutated_fixture files c fixture mutations =
     bindR (getitem c fixture) (\<lambda>name.
     bindR (load_profile_fixture files (py_str name)) (\<lambda>profile.
     bindR (getitem c mutations) (\<lambda>ms.
     bindR (py_iter ms) (\<lambda>xs.
     apply_mutations profile xs))))"

definition single_findings :: "string \<Rightarrow> obj \<Rightarrow> (replay_error, invariant_finding list) res" where
  "single_findings i profile =
     (if i = ''fail_closed_on_unknowns'' then Inr (assert_fail_closed_on_unknowns profile)
      else if i = ''no_self_granting'' then Inr (assert_no_self_granting profile)
      else if i = ''mandatory_validators_per_change_type'' then Inr (assert_mandatory_validators_per_change_type profile)
      else if i = ''immutable_profile_after_seal'' then Inr (assert_immutable_profile_after_seal profile)
      else Inl (Raise (ReplayError (''Unsupported invariant for single-profile mode: '' @ i))))"

definition case_findings :: "(string \<Rightarrow> (replay_error, json) res) \<Rightarrow> obj \<Rightarrow> string \<Rightarrow> string \<Rightarrow> (replay_error, invariant_finding list) res" where
  "case_findings files c i mode =
     (if mode = ''single-profile'' then
        bindR (mutated_fixture files c ''profile_fixture'' ''mutations'') (single_findings i)
      else if mode = ''profile-pair'' then
        bindR (mutated_fixture files c ''parent_profile_fixture'' ''parent_mutations'') (\<lambda>parent.
        bindR (mutated_fixture files c ''current_profile_fixture'' ''current_mutations'') (\<lambda>current.
        Inr (assert_scope_monotonicity parent current)))
      else Inl (Raise (ReplayError (''Unsupported replay case mode: '' @ mode))))"

definition evaluate_case :: "(string \<Rightarrow> (replay_error, json) res) \<Rightarrow> obj \<Rightarrow> (replay_error, replay_case_result) res" where
  "evaluate_case files c =
     bindR (getitem c ''invariant_id'') (\<lambda>i.
     bindR (getitem c ''case_type'') (\<lambda>ct.
     bindR (getitem c ''expected_violation'') (\<lambda>expected.
     bindR (getitem c ''mode'') (\<lambda>mode.
     bindR (case_findings files c (py_str i) (py_str mode)) (\<lambda>findings.
     bindR (getitem c ''name'') (\<lambda>name.
     Inr \<lparr>rc_name = py_str name, rc_invariant_id = py_str i, rc_case_type = py_str ct, rc_expected_violation = truthy expected,
        rc_actual_violation = findings \<noteq> []\<rparr>))))))"

definition run_replay_cases :: "(string \<Rightarrow> (replay_error, json) res) \<Rightarrow> obj list \<Rightarrow> (replay_error, replay_case_result list) res" where
  "run_replay_cases files cases = mapR (evaluate_case files) cases"

text \<open>Reading a path, and what a mutation changes of a document.\<close>

fun get_path :: "string list \<Rightarrow> json \<Rightarrow> json option" where
  "get_path [] v = Some v"
| "get_path (k # ks) v = (case as_obj v of None \<Rightarrow> None | Some m \<Rightarrow> (case map_of m k of None \<Rightarrow> None | Some w \<Rightarrow> get_path ks w))"

lemma get_path_set_path: "ks \<noteq> [] \<Longrightarrow> get_path ks (JObj (set_path ks v m)) = Some v"
  by (induction ks v m rule: set_path.induct) (simp_all add: map_of_dict_set)

lemma get_path_other:
  "ks \<noteq> [] \<Longrightarrow> \<not> prefix ks qs \<Longrightarrow> \<not> prefix qs ks \<Longrightarrow> get_path qs (JObj (set_path ks v m)) = get_path qs (JObj m)"
proof (induction ks v m arbitrary: qs rule: set_path.induct)
  case (2 k v m)
  then show ?case by (cases qs) (auto simp: map_of_dict_set)
next
  case (3 k k' ks v m)
  show ?case
  proof (cases qs)
    case (Cons q qs')
    show ?thesis
    proof (cases "q = k")
      case True
      with "3.prems" Cons have "\<not> prefix (k' # ks) qs'" "\<not> prefix qs' (k' # ks)" by auto
      with "3.IH" have "get_path qs' (JObj (set_path (k' # ks) v (obj_or_empty (get m k)))) = get_path qs' (JObj (obj_or_empty (get m k)))" by simp
      moreover from \<open>\<not> prefix qs' (k' # ks)\<close> have "qs' \<noteq> []" by auto
      ultimately show ?thesis using Cons True
        by (cases qs') (auto simp: map_of_dict_set get_def get_or_def obj_or_empty_def split: option.splits)
    qed (simp add: Cons map_of_dict_set)
  next
    case Nil
    with 3 show ?thesis by simp
  qed
qed simp

lemma apply_mutation_exact:
  assumes "apply_mutation (JObj [(''op'', JStr ''set''), (''path'', JStr path), (''value'', v)]) m = Inr m'"
  shows "get_path (split_char (CHR ''.'') path) (JObj m') = Some v \<and>
     (\<forall>qs. \<not> prefix (split_char (CHR ''.'') path) qs \<and> \<not> prefix qs (split_char (CHR ''.'') path) \<longrightarrow> get_path qs (JObj m') = get_path qs (JObj m))"
proof -
  have "split_char d s \<noteq> []" for d s by (cases s) (auto split: list.splits)
  moreover have "m' = set_path (split_char (CHR ''.'') path) v m" using assms by (simp add: apply_mutation_def)
  ultimately show ?thesis by (simp add: get_path_set_path get_path_other)
qed

lemma types_of_iff: "ty \<in> set (types_of cases i) \<longleftrightarrow> (\<exists>c \<in> set cases. case_id c = i \<and> case_type c = ty)"
  by (auto simp: types_of_def)

lemma case_failures_Nil: "case_failures c = [] \<longleftrightarrow> case_id c \<noteq> [] \<and> case_type c \<in> set CASE_TYPES"
  by (simp add: case_failures_def)

lemma difference_report:
  "(if set seen \<noteq> set ex then (if sorted_diff ex seen \<noteq> [] then [x] else []) @ (if sorted_diff seen ex \<noteq> [] then [y] else []) else []) = [] \<longleftrightarrow>
     set seen = set ex"
  by auto

lemma report_each: "concat (map (\<lambda>i. if P i then [f i] else []) xs) = [] \<longleftrightarrow> (\<forall>i \<in> set xs. \<not> P i)"
  by auto

text \<open>
  C0. The shape check of the replay corpus is exact: it reports nothing precisely when every case names one of the five
  invariants and one of the three case types, and every invariant has a positive, a near-miss and a violation case.
\<close>

theorem corpus_shape_exact:
  "validate_replay_corpus_shape cases = [] \<longleftrightarrow>
     (\<forall>c \<in> set cases. case_id c \<in> set EXPECTED_INVARIANTS \<and> case_type c \<in> set CASE_TYPES) \<and>
     (\<forall>i \<in> set EXPECTED_INVARIANTS. \<forall>ty \<in> set CASE_TYPES. \<exists>c \<in> set cases. case_id c = i \<and> case_type c = ty)"
proof -
  let ?seen = "filter (\<lambda>i. i \<noteq> []) (map case_id cases)"
  have split: "validate_replay_corpus_shape cases = [] \<longleftrightarrow> (\<forall>c \<in> set cases. case_failures c = []) \<and> set ?seen = set EXPECTED_INVARIANTS \<and>
      (\<forall>i \<in> set EXPECTED_INVARIANTS. i \<in> set ?seen \<longrightarrow> set (types_of cases i) = set CASE_TYPES)"
    unfolding validate_replay_corpus_shape_def Let_def append_is_Nil_conv difference_report report_each by auto
  have non_empty: "[] \<notin> set EXPECTED_INVARIANTS" by (simp add: EXPECTED_INVARIANTS_def)
  have types: "''positive'' \<in> set CASE_TYPES" by (simp add: CASE_TYPES_def)
  show ?thesis
  proof
    assume "validate_replay_corpus_shape cases = []"
    then have f: "\<forall>c \<in> set cases. case_failures c = []" and s: "set ?seen = set EXPECTED_INVARIANTS"
      and ty: "\<forall>i \<in> set EXPECTED_INVARIANTS. set (types_of cases i) = set CASE_TYPES" by (auto simp: split)
    from f s have "\<forall>c \<in> set cases. case_id c \<in> set EXPECTED_INVARIANTS \<and> case_type c \<in> set CASE_TYPES" by (auto simp: case_failures_Nil)
    with ty show "(\<forall>c \<in> set cases. case_id c \<in> set EXPECTED_INVARIANTS \<and> case_type c \<in> set CASE_TYPES) \<and>
       (\<forall>i \<in> set EXPECTED_INVARIANTS. \<forall>ty \<in> set CASE_TYPES. \<exists>c \<in> set cases. case_id c = i \<and> case_type c = ty)"
      by (auto simp flip: types_of_iff)
  next
    assume r: "(\<forall>c \<in> set cases. case_id c \<in> set EXPECTED_INVARIANTS \<and> case_type c \<in> set CASE_TYPES) \<and>
       (\<forall>i \<in> set EXPECTED_INVARIANTS. \<forall>ty \<in> set CASE_TYPES. \<exists>c \<in> set cases. case_id c = i \<and> case_type c = ty)"
    then have "\<forall>c \<in> set cases. case_failures c = []" using non_empty by (auto simp: case_failures_Nil)
    moreover have "\<forall>i \<in> set EXPECTED_INVARIANTS. set (types_of cases i) = set CASE_TYPES" using r by (auto simp: types_of_iff)
    moreover have "set ?seen = set EXPECTED_INVARIANTS"
    proof (intro equalityI subsetI)
      show "i \<in> set EXPECTED_INVARIANTS" if "i \<in> set ?seen" for i using that r by auto
      show "i \<in> set ?seen" if i: "i \<in> set EXPECTED_INVARIANTS" for i
      proof -
        from r i types obtain c where "c \<in> set cases" "case_id c = i" by blast
        then show ?thesis using i non_empty by auto
      qed
    qed
    ultimately show "validate_replay_corpus_shape cases = []" by (simp add: split)
  qed
qed

end
