(* ===== verification/Iso_Time.thy ===== *)
theory Iso_Time
  imports Models Decimal
begin

text \<open>
  Reading timestamps: \<open>datetime.fromisoformat\<close> on the format that \<open>iso_timestamp\<close> of \<open>runtime/models.py\<close> writes, a calendar
  date, a time with seconds and an optional fraction of six digits, in UTC. Other formats of the library function do
  not occur in the records of the runtime and are refused here. Reading inverts writing.
\<close>

subsection \<open>Calendar dates\<close>

definition is_leap :: "int \<Rightarrow> bool" where
  "is_leap y \<longleftrightarrow> y mod 4 = 0 \<and> (y mod 100 \<noteq> 0 \<or> y mod 400 = 0)"

definition days_before_year :: "int \<Rightarrow> int" where
  "days_before_year y = (let p = y - 1 in p * 365 + p div 4 - p div 100 + p div 400)"

definition ymd2ord :: "int \<times> int \<times> int \<Rightarrow> int" where
  "ymd2ord ymd = (case ymd of (y, m, d) \<Rightarrow> days_before_year y + days_before_month (is_leap y) ! nat (m - 1) + d - 1)"

lemma succ_mod:
  assumes "p = b * q + (s :: int)" "0 \<le> s" "s < b"
  shows "(p + 1) mod b = 0 \<longleftrightarrow> s = b - 1"
proof (cases "s = b - 1")
  case True
  then have "p + 1 = b * (q + 1) + 0" using assms(1) by (simp add: algebra_simps)
  then show ?thesis using True by simp
next
  case False
  then have "(p + 1) mod b = s + 1" using assms by (intro int_mod_pos_eq [of _ _ q]) auto
  then show ?thesis using False assms(2) by simp
qed

lemma year_parts:
  assumes p: "p = a * 400 + b * 100 + c * 4 + (e :: int)" and bounds: "0 \<le> b" "b < 4" "0 \<le> c" "c < 25" "0 \<le> e" "e < 4"
  shows "p div 4 = a * 100 + b * 25 + c" and "p div 100 = a * 4 + b" and "p div 400 = a"
    and "is_leap (p + 1) \<longleftrightarrow> e = 3 \<and> (c \<noteq> 24 \<or> b = 3)"
proof -
  have p4: "p = 4 * (a * 100 + b * 25 + c) + e" and p100: "p = 100 * (a * 4 + b) + (c * 4 + e)" and p400: "p = 400 * a + (b * 100 + c * 4 + e)"
    using p by simp_all
  have bd: "0 \<le> e" "e < 4" "0 \<le> c * 4 + e" "c * 4 + e < 100" "0 \<le> b * 100 + c * 4 + e" "b * 100 + c * 4 + e < 400" using bounds by simp_all
  show "p div 4 = a * 100 + b * 25 + c" "p div 100 = a * 4 + b" "p div 400 = a"
    using int_div_pos_eq [OF p4 bd(1,2)] int_div_pos_eq [OF p100 bd(3,4)] int_div_pos_eq [OF p400 bd(5,6)] by simp_all
  have "c * 4 + e = 99 \<longleftrightarrow> e = 3 \<and> c = 24" "b * 100 + c * 4 + e = 399 \<longleftrightarrow> e = 3 \<and> c = 24 \<and> b = 3" using bounds by presburger+
  then show "is_leap (p + 1) \<longleftrightarrow> e = 3 \<and> (c \<noteq> 24 \<or> b = 3)"
    unfolding is_leap_def using succ_mod [OF p4 bd(1,2)] succ_mod [OF p100 bd(3,4)] succ_mod [OF p400 bd(5,6)] by auto
qed

lemma month_day_inverse:
  assumes "month_day leap n = (m, d)" and "0 \<le> n"
  shows "1 \<le> m" and "m \<le> 12" and "days_before_month leap ! nat (m - 1) + d - 1 = n"
proof -
  let ?l = "days_before_month leap" and ?b = "filter (\<lambda>d. d \<le> n) (days_before_month leap)"
  have sorted: "sorted ?l" and len: "length ?l = 12" and first: "?l ! 0 = 0" by (simp_all add: days_before_month_def)
  have b: "?b = takeWhile (\<lambda>d. d \<le> n) ?l" by (simp add: days_before_month_def)
  have md: "m = int (length ?b)" "d = n - last ?b + 1" using assms(1) by (simp_all add: month_day_def Let_def)
  have ne: "?b \<noteq> []" using assms(2) by (simp add: days_before_month_def)
  then show m1: "1 \<le> m" using md by (cases ?b) auto
  show "m \<le> 12" using md length_filter_le [of "\<lambda>d. d \<le> n" ?l] len by simp
  have "last ?b = ?l ! (length ?b - 1)"
    by (metis b ne last_conv_nth takeWhile_nth diff_less length_greater_0_conv zero_less_one)
  moreover have "nat (m - 1) = length ?b - 1" using md by simp
  ultimately show "?l ! nat (m - 1) + d - 1 = n" using md by simp
qed

lemma days_before_parts:
  assumes "0 \<le> b" "b < 4" "0 \<le> c" "c < 25" "0 \<le> e" "e < 4"
  shows "days_before_year (a * 400 + b * 100 + c * 4 + e + 1) = a * 146097 + b * 36524 + c * 1461 + e * 365"
  unfolding days_before_year_def Let_def using year_parts [OF refl assms, of a] by simp

lemma last_day_ord:
  assumes "0 \<le> b" "b < 4" "0 \<le> c" "c < 25" "c \<noteq> 24 \<or> b = 3"
  shows "ymd2ord (a * 400 + b * 100 + c * 4 + 4, 12, 31) = a * 146097 + b * 36524 + c * 1461 + 1460"
proof -
  have e: "a * 400 + b * 100 + c * 4 + 4 = a * 400 + b * 100 + c * 4 + 3 + (1::int)" by simp
  have "is_leap (a * 400 + b * 100 + c * 4 + 3 + 1)" using year_parts(4) [OF refl assms(1-4), of 3 a] assms(5) by simp
  moreover have "days_before_year (a * 400 + b * 100 + c * 4 + 3 + 1) = a * 146097 + b * 36524 + c * 1461 + 3 * 365"
    using days_before_parts [OF assms(1-4), of 3 a] by simp
  ultimately show ?thesis unfolding e ymd2ord_def by (simp add: days_before_month_def)
qed

text \<open>A day number is the last day of a leap year or a day of a year given by its position in the Gregorian cycles.\<close>

lemma ord2ymd_cases:
  assumes "0 \<le> n"
  obtains (last_day) a b c where "0 \<le> a" "0 \<le> b" "b < 4" "0 \<le> c" "c < 25" "c \<noteq> 24 \<or> b = 3"
      "n = a * 146097 + b * 36524 + c * 1461 + 1460" "ord2ymd n = (a * 400 + b * 100 + c * 4 + 4, 12, 31)"
  | (day) a b c e v m d where "0 \<le> a" "0 \<le> b" "b < 4" "0 \<le> c" "c < 25" "0 \<le> e" "e < 4" "0 \<le> v" "v < 365"
      "n = a * 146097 + b * 36524 + c * 1461 + e * 365 + v" "month_day (e = 3 \<and> (c \<noteq> 24 \<or> b = 3)) v = (m, d)"
      "ord2ymd n = (a * 400 + b * 100 + c * 4 + e + 1, m, d)"
proof -
  define a r where "a = n div 146097" and "r = n mod 146097"
  define b s where "b = r div 36524" and "s = r mod 36524"
  define c u where "c = s div 1461" and "u = s mod 1461"
  define e v where "e = u div 365" and "v = u mod 365"
  have n: "n = a * 146097 + r" "0 \<le> r" "r < 146097" and a: "0 \<le> a" using assms by (auto simp: a_def r_def)
  have r: "r = b * 36524 + s" "0 \<le> s" "s < 36524" by (auto simp: b_def s_def)
  have s: "s = c * 1461 + u" "0 \<le> u" "u < 1461" by (auto simp: c_def u_def)
  have u: "u = e * 365 + v" "0 \<le> v" "v < 365" by (auto simp: e_def v_def)
  have bounds: "0 \<le> b" "b \<le> 4" "0 \<le> c" "c < 25" "0 \<le> e" "e \<le> 4" using n r s u by linarith+
  have sum: "n = a * 146097 + b * 36524 + c * 1461 + e * 365 + v" using n r s u by simp
  have ord: "ord2ymd n = (let year = a * 400 + b * 100 + c * 4 + e + 1 in
      if e = 4 \<or> b = 4 then (year - 1, 12, 31)
      else (let leap = (e = 3 \<and> (c \<noteq> 24 \<or> b = 3)); md = month_day leap v in (year, fst md, snd md)))"
    unfolding ord2ymd_def Let_def a_def r_def b_def s_def c_def u_def e_def v_def by simp
  consider "b = 4" | "b < 4" "e = 4" | "b < 4" "e < 4" using bounds by linarith
  then show thesis
  proof cases
    case 1
    then have z: "s = 0" "c = 0" "e = 0" "v = 0" using n r s u bounds by linarith+
    have "ord2ymd n = (a * 400 + 3 * 100 + 24 * 4 + 4, 12, 31)" using 1 z by (simp add: ord)
    then show thesis using a sum 1 z by (intro last_day [of a 3 24]) simp_all
  next
    case 2
    then have "v = 0" "c \<noteq> 24" using n r s u bounds by auto
    moreover have "ord2ymd n = (a * 400 + b * 100 + c * 4 + 4, 12, 31)" using 2 by (simp add: ord)
    ultimately show thesis using a bounds sum 2 by (intro last_day [of a b c]) simp_all
  next
    case 3
    let ?leap = "e = 3 \<and> (c \<noteq> 24 \<or> b = 3)"
    obtain m d where md: "month_day ?leap v = (m, d)" by (cases "month_day ?leap v")
    then have "ord2ymd n = (a * 400 + b * 100 + c * 4 + e + 1, m, d)" using 3 by (simp add: ord)
    then show thesis by (rule day [OF a bounds(1) 3(1) bounds(3,4,5) 3(2) u(2,3) sum md])
  qed
qed

lemma ymd2ord_ord2ymd:
  assumes "0 \<le> n"
  shows "ymd2ord (ord2ymd n) = n"
  using assms
proof (cases rule: ord2ymd_cases)
  case (last_day a b c)
  show ?thesis unfolding last_day(8) last_day_ord [OF last_day(2-6)] using last_day(7) by simp
next
  case (day a b c e v m d)
  have "is_leap (a * 400 + b * 100 + c * 4 + e + 1) = (e = 3 \<and> (c \<noteq> 24 \<or> b = 3))" using year_parts(4) [OF refl day(2-7)] by simp
  then show ?thesis unfolding day(12) ymd2ord_def
    using month_day_inverse(3) [OF day(11,8)] days_before_parts [OF day(2-7), of a] day(10) by simp
qed

lemma month_day_small:
  assumes "0 \<le> v" "v < 365" "month_day leap v = (m, d)"
  shows "1 \<le> d" "d \<le> 31"
proof -
  have "list_all (\<lambda>v. 1 \<le> snd (month_day leap v) \<and> snd (month_day leap v) \<le> 31) [0..364]"
    by (cases leap; simp only: HOL.simp_thms) code_simp+
  then have "1 \<le> snd (month_day leap v) \<and> snd (month_day leap v) \<le> 31" using assms(1,2) by (simp add: list_all_iff)
  then show "1 \<le> d" "d \<le> 31" using assms(3) by simp_all
qed

lemma ord2ymd_bounds:
  assumes "0 \<le> n" "ord2ymd n = (y, m, d)"
  shows "1 \<le> y \<and> 1 \<le> m \<and> m \<le> 12 \<and> 1 \<le> d \<and> d \<le> 31"
  using assms(1)
proof (cases rule: ord2ymd_cases)
  case (last_day a b c)
  then show ?thesis using assms(2) by simp
next
  case (day a b c e v m' d')
  then have eq: "y = a * 400 + b * 100 + c * 4 + e + 1" "m = m'" "d = d'" using assms(2) by simp_all
  have "1 \<le> y" using eq day(1,2,4,6) by simp
  then show ?thesis using eq month_day_inverse(1,2) [OF day(11,8)] month_day_small [OF day(8,9,11)] by simp
qed

subsection \<open>The format\<close>

definition number_at :: "nat \<Rightarrow> nat \<Rightarrow> string \<Rightarrow> int option" where
  "number_at i w s = (let d = take w (drop i s) in if length d = w \<and> list_all is_digit d then Some (digits_val d) else None)"

text \<open>A date is valid when it is the date of its own day number.\<close>

definition valid_date :: "int \<times> int \<times> int \<Rightarrow> bool" where
  "valid_date ymd \<longleftrightarrow> (case ymd of (y, m, d) \<Rightarrow> 1 \<le> y \<and> 1 \<le> m \<and> m \<le> 12 \<and> ord2ymd (ymd2ord ymd) = ymd)"

definition fraction :: "string \<Rightarrow> (int \<times> string) option" where
  "fraction s = (case s of c # cs \<Rightarrow> if c = CHR ''.'' then map_option (\<lambda>us. (us, drop 6 cs)) (number_at 0 6 cs) else Some (0, s) | [] \<Rightarrow> Some (0, []))"

definition fromisoformat :: "string \<Rightarrow> datetime option" where
  "fromisoformat s =
     (case (number_at 0 4 s, number_at 5 2 s, number_at 8 2 s, number_at 11 2 s, number_at 14 2 s, number_at 17 2 s, fraction (drop 19 s)) of
        (Some y, Some m, Some d, Some h, Some mi, Some se, Some (us, zone)) \<Rightarrow>
          if [s ! 4, s ! 7, s ! 10, s ! 13, s ! 16] = ''--T::'' \<and> zone = ''+00:00'' \<and> valid_date (y, m, d) \<and> h < 24 \<and> mi < 60 \<and> se < 60
          then Some (((ymd2ord (y, m, d) * 86400 + h * 3600 + mi * 60 + se) * 1000000) + us) else None
      | _ \<Rightarrow> None)"

definition parse_datetime :: "string \<Rightarrow> ('e, datetime) res" where
  "parse_datetime s =
     (case fromisoformat (concat (map (\<lambda>c. if c = CHR ''Z'' then ''+00:00'' else [c]) s)) of None \<Rightarrow> Inl (Py ValueError) | Some t \<Rightarrow> Inr t)"

subsection \<open>Reading inverts writing\<close>

lemma length_dec_str: "0 \<le> n \<Longrightarrow> n < 10 ^ w \<Longrightarrow> 0 < w \<Longrightarrow> length (dec_str n) \<le> w"
proof (induction n arbitrary: w rule: dec_str.induct)
  case (1 n)
  show ?case
  proof (cases "n < 10")
    case False
    obtain k where w: "w = Suc k" using "1.prems"(3) by (cases w) auto
    have k: "0 < k" using False "1.prems"(2) w by (cases k) auto
    have "n div 10 < 10 ^ k" using "1.prems"(2) w by (simp add: div_less_iff_less_mult mult.commute)
    with "1.IH" False "1.prems"(1) k have "length (dec_str (n div 10)) \<le> k" by simp
    then show ?thesis using False w by (simp add: dec_str.simps [of n])
  qed (use "1.prems"(3) in \<open>simp add: dec_str.simps [of n]\<close>)
qed

lemma digits_val_zeros: "digits_val (replicate k (CHR ''0'') @ s) = digits_val s"
proof (induction k)
  case (Suc k)
  have "digits_val (CHR ''0'' # xs) = digits_val xs" for xs by (simp add: digits_val_def)
  with Suc show ?case by simp
qed simp

lemma dec_str_is_digit: "0 \<le> n \<Longrightarrow> list_all is_digit (dec_str n)"
  using dec_str_digits [of n] by (auto simp: list_all_iff digit_chars is_digit_def)

lemma pad_int_field:
  assumes "0 \<le> n" "n < 10 ^ w" "0 < w"
  shows "length (pad_int w n) = w" "list_all is_digit (pad_int w n)" "digits_val (pad_int w n) = n"
  using length_dec_str [OF assms] dec_str_is_digit [OF assms(1)] digits_val_dec [OF assms(1)]
  by (auto simp: pad_int_def Let_def digits_val_zeros is_digit_def list_all_iff)

lemma number_at_field:
  assumes "length p = i" "length d = w" "list_all is_digit d"
  shows "number_at i w (p @ d @ q) = Some (digits_val d)"
  using assms by (simp add: number_at_def)

lemma digits_keep: "list_all is_digit s \<Longrightarrow> concat (map (\<lambda>c. if c = CHR ''Z'' then ''+00:00'' else [c]) s) = s"
  by (induction s) (auto simp: is_digit_def)

lemma fromisoformat_fields:
  fixes Y M D H I S F :: string
  assumes len: "length Y = 4" "length M = 2" "length D = 2" "length H = 2" "length I = 2" "length S = 2"
    and dig: "list_all is_digit Y" "list_all is_digit M" "list_all is_digit D" "list_all is_digit H" "list_all is_digit I" "list_all is_digit S"
    and frac: "fraction (F @ ''+00:00'') = Some (us, ''+00:00'')"
    and date: "valid_date (digits_val Y, digits_val M, digits_val D)" and time: "digits_val H < 24" "digits_val I < 60" "digits_val S < 60"
  shows "fromisoformat (Y @ ''-'' @ M @ ''-'' @ D @ ''T'' @ H @ '':'' @ I @ '':'' @ S @ F @ ''+00:00'') =
     Some (((ymd2ord (digits_val Y, digits_val M, digits_val D) * 86400 + digits_val H * 3600 + digits_val I * 60 + digits_val S) * 1000000) + us)"
proof -
  let ?s = "Y @ ''-'' @ M @ ''-'' @ D @ ''T'' @ H @ '':'' @ I @ '':'' @ S @ F @ ''+00:00''"
  have y: "number_at 0 4 ?s = Some (digits_val Y)" using number_at_field [of "[]" 0 Y 4] len dig by simp
  have m: "number_at 5 2 ?s = Some (digits_val M)" using number_at_field [of "Y @ ''-''" 5 M 2] len dig by simp
  have d: "number_at 8 2 ?s = Some (digits_val D)" using number_at_field [of "Y @ ''-'' @ M @ ''-''" 8 D 2] len dig by simp
  have h: "number_at 11 2 ?s = Some (digits_val H)" using number_at_field [of "Y @ ''-'' @ M @ ''-'' @ D @ ''T''" 11 H 2] len dig by simp
  have i: "number_at 14 2 ?s = Some (digits_val I)" using number_at_field [of "Y @ ''-'' @ M @ ''-'' @ D @ ''T'' @ H @ '':''" 14 I 2] len dig by simp
  have s: "number_at 17 2 ?s = Some (digits_val S)" using number_at_field [of "Y @ ''-'' @ M @ ''-'' @ D @ ''T'' @ H @ '':'' @ I @ '':''" 17 S 2] len dig by simp
  have r: "drop 19 ?s = F @ ''+00:00''" using len by simp
  have seps: "[?s ! 4, ?s ! 7, ?s ! 10, ?s ! 13, ?s ! 16] = ''--T::''" using len by (simp add: nth_append)
  show ?thesis unfolding fromisoformat_def y m d h i s r frac using seps date time by simp
qed

text \<open>The times of the calendar, the years up to 9999.\<close>

definition in_calendar :: "datetime \<Rightarrow> bool" where
  "in_calendar t \<longleftrightarrow> 0 \<le> t \<and> fst (ord2ymd (t div 1000000 div 86400)) \<le> 9999"

lemma replace_zone:
  "concat (map (\<lambda>c. if c = CHR ''Z'' then ''+00:00'' else [c]) (s @ t)) =
     concat (map (\<lambda>c. if c = CHR ''Z'' then ''+00:00'' else [c]) s) @ concat (map (\<lambda>c. if c = CHR ''Z'' then ''+00:00'' else [c]) t)"
  by simp

lemma fraction_written:
  assumes "0 \<le> us" "us < 1000000"
  shows "fraction ((if us = 0 then [] else ''.'' @ pad_int 6 us) @ ''+00:00'') = Some (us, ''+00:00'')"
proof (cases "us = 0")
  case False
  have f: "length (pad_int 6 us) = 6" "list_all is_digit (pad_int 6 us)" "digits_val (pad_int 6 us) = us"
    using pad_int_field [of us 6] assms by simp_all
  have "number_at 0 6 (pad_int 6 us @ ''+00:00'') = Some us" using number_at_field [of "[]" 0 "pad_int 6 us" 6 "''+00:00''"] f by simp
  then show ?thesis using False f(1) by (simp add: fraction_def)
qed (simp add: fraction_def)

lemma time_of_day:
  fixes s :: int
  assumes "sod = s mod 86400"
  shows "s = s div 86400 * 86400 + sod div 3600 * 3600 + sod div 60 mod 60 * 60 + sod mod 60" and "sod div 3600 < 24"
    and "0 \<le> sod div 3600"
proof -
  have sod: "0 \<le> sod" "sod < 86400" using assms by auto
  have "sod div 60 div 60 = sod div 3600" using zdiv_zmult2_eq [of 60 sod 60] by simp
  then have "sod = sod div 3600 * 3600 + sod div 60 mod 60 * 60 + sod mod 60"
    using div_mult_mod_eq [of sod 60] div_mult_mod_eq [of "sod div 60" 60] by linarith
  then show "s = s div 86400 * 86400 + sod div 3600 * 3600 + sod div 60 mod 60 * 60 + sod mod 60"
    using div_mult_mod_eq [of s 86400] assms by linarith
  show "sod div 3600 < 24" "0 \<le> sod div 3600" using sod by auto
qed

lemma parse_iso_timestamp:
  assumes "in_calendar t"
  shows "parse_datetime (iso_timestamp t) = (Inr t :: ('e, datetime) res)"
proof -
  define us s where "us = t mod 1000000" and "s = t div 1000000"
  define sod where "sod = s mod 86400"
  obtain y m d where ymd: "ord2ymd (s div 86400) = (y, m, d)" by (cases "ord2ymd (s div 86400)")
  have pos: "0 \<le> s div 86400" and y: "y \<le> 9999" using assms ymd by (simp_all add: in_calendar_def s_def pos_imp_zdiv_nonneg_iff)
  note b = ord2ymd_bounds [OF pos ymd]
  have us: "0 \<le> us" "us < 1000000" by (simp_all add: us_def)
  note time = time_of_day [OF sod_def]
  have Y: "length (pad_int 4 y) = 4" "list_all is_digit (pad_int 4 y)" "digits_val (pad_int 4 y) = y" using pad_int_field [of y 4] b y by simp_all
  have two: "length (pad_int 2 k) = 2 \<and> list_all is_digit (pad_int 2 k) \<and> digits_val (pad_int 2 k) = k" if "0 \<le> k" "k < 100" for k
    using pad_int_field [of k 2] that by simp
  have M: "length (pad_int 2 m) = 2" "list_all is_digit (pad_int 2 m)" "digits_val (pad_int 2 m) = m" using two [of m] b by simp_all
  have D: "length (pad_int 2 d) = 2" "list_all is_digit (pad_int 2 d)" "digits_val (pad_int 2 d) = d" using two [of d] b by simp_all
  let ?h = "sod div 3600" and ?i = "sod div 60 mod 60" and ?s = "sod mod 60"
  have lim: "0 \<le> ?i" "?i < 60" "0 \<le> ?s" "?s < 60" by simp_all
  have H: "length (pad_int 2 ?h) = 2" "list_all is_digit (pad_int 2 ?h)" "digits_val (pad_int 2 ?h) = ?h" using two [of ?h] time(2,3) by simp_all
  have I: "length (pad_int 2 ?i) = 2" "list_all is_digit (pad_int 2 ?i)" "digits_val (pad_int 2 ?i) = ?i" using two [of ?i] lim by simp_all
  have S: "length (pad_int 2 ?s) = 2" "list_all is_digit (pad_int 2 ?s)" "digits_val (pad_int 2 ?s) = ?s" using two [of ?s] lim by simp_all
  let ?F = "if us = 0 then [] else ''.'' @ pad_int 6 us"
  have F: "concat (map (\<lambda>c. if c = CHR ''Z'' then ''+00:00'' else [c]) ?F) = ?F"
  proof (cases "us = 0")
    case False
    have "list_all is_digit (pad_int 6 us)" using pad_int_field(2) [of us 6] us by simp
    from digits_keep [OF this] show ?thesis unfolding if_not_P [OF False] replace_zone by (simp only:) simp
  qed simp
  have date: "valid_date (y, m, d)" using b ymd2ord_ord2ymd [OF pos] ymd by (simp add: valid_date_def)
  have written: "iso_timestamp t = pad_int 4 y @ ''-'' @ pad_int 2 m @ ''-'' @ pad_int 2 d @ ''T'' @ pad_int 2 ?h @ '':'' @ pad_int 2 ?i @ '':'' @ pad_int 2 ?s @ ?F @ ''Z''"
    using ymd by (simp add: iso_timestamp_def Let_def us_def s_def sod_def)
  have replaced: "concat (map (\<lambda>c. if c = CHR ''Z'' then ''+00:00'' else [c]) (iso_timestamp t)) =
      pad_int 4 y @ ''-'' @ pad_int 2 m @ ''-'' @ pad_int 2 d @ ''T'' @ pad_int 2 ?h @ '':'' @ pad_int 2 ?i @ '':'' @ pad_int 2 ?s @ ?F @ ''+00:00''"
    unfolding written replace_zone F digits_keep [OF Y(2)] digits_keep [OF M(2)] digits_keep [OF D(2)] digits_keep [OF H(2)] digits_keep [OF I(2)] digits_keep [OF S(2)]
    by simp
  have "fromisoformat (concat (map (\<lambda>c. if c = CHR ''Z'' then ''+00:00'' else [c]) (iso_timestamp t))) =
      Some ((ymd2ord (y, m, d) * 86400 + ?h * 3600 + ?i * 60 + ?s) * 1000000 + us)"
    unfolding replaced using fromisoformat_fields [OF Y(1) M(1) D(1) H(1) I(1) S(1) Y(2) M(2) D(2) H(2) I(2) S(2) fraction_written [OF us]]
      Y(3) M(3) D(3) H(3) I(3) S(3) date time(2) lim by simp
  moreover have "ymd2ord (y, m, d) = s div 86400" using ymd2ord_ord2ymd [OF pos] ymd by simp
  moreover have "(s div 86400 * 86400 + ?h * 3600 + ?i * 60 + ?s) * 1000000 + us = t"
    using time(1) div_mult_mod_eq [of t 1000000] unfolding us_def s_def [symmetric] by (simp only:)
  ultimately show ?thesis by (simp add: parse_datetime_def)
qed

text \<open>C27. 
  C0. Timestamps survive: a time of the calendar that is written by \<open>iso_timestamp\<close> is read back by \<open>fromisoformat\<close> as the same
  microsecond, in leap years and at the ends of months, years and Gregorian cycles alike.
\<close>

theorem timestamp_roundtrip:
  assumes "in_calendar t"
  shows "parse_datetime (iso_timestamp t) = (Inr t :: ('e, datetime) res)"
  by (rule parse_iso_timestamp [OF assms])

theorem timestamp_roundtrip_witness:
  "iso_timestamp 63113817600000001 = ''2000-12-31T00:00:00.000001Z'' \<and>
   parse_datetime ''2000-12-31T00:00:00.000001Z'' = (Inr 63113817600000001 :: (unit, datetime) res)"
proof -
  have "in_calendar 63113817600000001" and w: "iso_timestamp 63113817600000001 = ''2000-12-31T00:00:00.000001Z''" by code_simp+
  from timestamp_roundtrip [OF this(1), where 'e = unit] w show ?thesis by simp
qed

end
