(* ===== verification/Retention.thy ===== *)
theory Retention
  imports Redaction Runtime_Store Iso_Time
begin

text \<open>
  \<open>runtime/retention.py\<close>: the plan of which artifacts of finished runs have outlived their retention, and the executor that
  deletes them. The executor works on the artifact store whose root and prefix its resolver has, as the command line
  builds it. Which directories exist and why an \<open>unlink\<close> fails are facts of the file system and arguments here.
\<close>

subsection \<open>Planning\<close>

datatype retention_error = RuntimeRetentionError string | RecordsError string

record retention_policy =
  rp_succeeded_run_artifact_days :: int
  rp_failed_run_artifact_days :: int
  rp_cancelled_run_artifact_days :: int
  rp_cleanup_report_artifact_days :: int

definition default_retention_policy :: retention_policy where
  "default_retention_policy =
     \<lparr>rp_succeeded_run_artifact_days = 30, rp_failed_run_artifact_days = 90, rp_cancelled_run_artifact_days = 30,
      rp_cleanup_report_artifact_days = 180\<rparr>"

record retention_plan =
  pl_expired_run_ids :: "string list"
  pl_expired_artifact_uris :: "string list"
  pl_retained_run_ids :: "string list"
  pl_retained_artifact_uris :: "string list"

definition days :: "int \<Rightarrow> datetime" where
  "days n = seconds (n * 86400)"

definition retention_days :: "retention_policy \<Rightarrow> string \<Rightarrow> int" where
  "retention_days policy status =
     (if status = ''failed'' then rp_failed_run_artifact_days policy
      else if status = ''cancelled'' then rp_cancelled_run_artifact_days policy
      else rp_succeeded_run_artifact_days policy)"

definition run_status :: "obj \<Rightarrow> string" where
  "run_status run = (if truthy (get run ''status'') then py_str (get run ''status'') else [])"

definition run_is_expired :: "obj \<Rightarrow> datetime \<Rightarrow> retention_policy \<Rightarrow> (retention_error, bool) res" where
  "run_is_expired run now policy =
     (let status = run_status run; completed_at = get run ''completed_at'' in
      if status \<in> {''queued'', ''running''} \<or> completed_at = JNull then Inr False
      else bindR (parse_datetime (py_str completed_at)) (\<lambda>completed.
        Inr (completed + days (retention_days policy status) \<le> now)))"

definition records_by_id :: "json \<Rightarrow> (string, obj) dict" where
  "records_by_id raw_records =
     dict_of (map (\<lambda>r. (py_str (get r ''id''), r)) (filter (\<lambda>r. map_of r ''id'' \<noteq> None) (mappings raw_records)))"

definition list_records :: "obj \<Rightarrow> string \<Rightarrow> obj list" where
  "list_records records field = mappings (get_or records field (JList []))"

text \<open>\<open>_iter_runtime_artifact_uris\<close>: events and invocations read their run before they look at their URIs, the other
  records only for a URI.\<close>

definition uris_at :: "string list \<Rightarrow> obj \<Rightarrow> (retention_error, (string \<times> string) list) res" where
  "uris_at uri_fields r =
     bindR (getitem r ''run_id'') (\<lambda>run_id.
     Inr (map (\<lambda>uri. (py_str run_id, uri)) (List.map_filter (\<lambda>f. as_str (get r f)) uri_fields)))"

definition uri_at :: "string \<Rightarrow> obj \<Rightarrow> (retention_error, (string \<times> string) list) res" where
  "uri_at uri_field r =
     (case as_str (get r uri_field) of
        None \<Rightarrow> Inr []
      | Some uri \<Rightarrow> bindR (getitem r ''run_id'') (\<lambda>run_id. Inr [(py_str run_id, uri)]))"

definition iter_runtime_artifact_uris :: "obj \<Rightarrow> (retention_error, (string \<times> string) list) res" where
  "iter_runtime_artifact_uris records =
     bindR (mapR (uris_at [''planned_action_uri'', ''execution_uri'', ''result_uri'']) (list_records records ''runtime_events'')) (\<lambda>es.
     bindR (mapR (uri_at ''state_uri'') (list_records records ''runtime_checkpoints'')) (\<lambda>cs.
     bindR (mapR (uris_at [''input_uri'', ''output_uri'']) (list_records records ''tool_invocations'')) (\<lambda>ts.
     bindR (mapR (uri_at ''findings_uri'') (list_records records ''validation_results'')) (\<lambda>vs.
     bindR (mapR (uri_at ''content_uri'') (list_records records ''memory_candidates'')) (\<lambda>ms.
     Inr (concat (es @ cs @ ts @ vs @ ms)))))))"

definition plan_retention :: "retention_policy \<Rightarrow> datetime \<Rightarrow> obj \<Rightarrow> (retention_error, retention_plan) res" where
  "plan_retention policy now recordset =
     (case as_obj (get_or recordset ''records'' (JObj [])) of
        None \<Rightarrow> Inl (Raise (RecordsError ''runtime_plane_recordset.records must be an object.''))
      | Some records \<Rightarrow>
          bindR (mapR (\<lambda>kv. bindR (run_is_expired (snd kv) now policy) (\<lambda>b. Inr (fst kv, b)))
            (records_by_id (get_or records ''runtime_runs'' (JList [])))) (\<lambda>judged.
          let expired = map fst (filter snd judged); retained = map fst (filter (\<lambda>p. \<not> snd p) judged) in
          bindR (iter_runtime_artifact_uris records) (\<lambda>uris.
          Inr \<lparr>pl_expired_run_ids = sort expired,
               pl_expired_artifact_uris = sorted_set (map snd (filter (\<lambda>p. fst p \<in> set expired) uris)),
               pl_retained_run_ids = sort retained,
               pl_retained_artifact_uris = sorted_set (map snd (filter (\<lambda>p. fst p \<notin> set expired) uris))\<rparr>)))"

subsection \<open>Resolving URIs\<close>

text \<open>\<open>PurePosixPath(raw).parts\<close> of a relative path: empty and dot components vanish.\<close>

definition posix_parts :: "string \<Rightarrow> string list" where
  "posix_parts raw = filter (\<lambda>p. p \<noteq> [] \<and> p \<noteq> ''.'') (split_slash raw)"

definition relative_uri_path :: "artifact_store \<Rightarrow> string \<Rightarrow> (retention_error, string list) res" where
  "relative_uri_path a uri =
     (let prefix = rstrip is_slash (ar_uri_prefix a) @ ''/'' in
      bindR (raise_if (\<not> startswith prefix uri) (RuntimeRetentionError (''Unsupported runtime artifact URI: '' @ uri))) (\<lambda>_.
      let raw = removeprefix prefix uri; parts = posix_parts raw in
      bindR (raise_if (startswith ''/'' raw) (RuntimeRetentionError (''Absolute artifact paths are not allowed: '' @ uri))) (\<lambda>_.
      bindR (raise_if (parts = []) (RuntimeRetentionError (''Artifact URI has no relative path: '' @ uri))) (\<lambda>_.
      bindR (raise_if (list_ex (\<lambda>p. p \<in> {[], ''.'', ''..''}) parts) (RuntimeRetentionError (''Unsafe artifact URI path segment: '' @ uri))) (\<lambda>_.
      bindR (raise_if (list_ex (\<lambda>p. CHR 92 \<in> set p \<or> CHR '':'' \<in> set p) parts)
        (RuntimeRetentionError (''Platform-specific artifact path segment: '' @ uri))) (\<lambda>_.
      Inr parts))))))"

definition resolve_uri :: "artifact_store \<Rightarrow> string \<Rightarrow> (retention_error, string list) res" where
  "resolve_uri a uri =
     bindR (relative_uri_path a uri) (\<lambda>relative.
     let target = resolve_from (ar_root a) relative in
     bindR (raise_if (take (length (ar_root a)) target \<noteq> ar_root a) (RuntimeRetentionError (''Artifact URI escapes runtime root: '' @ uri))) (\<lambda>_.
     Inr (drop (length (ar_root a)) target)))"

subsection \<open>Execution\<close>

record cleanup =
  cu_deleted :: "string list"
  cu_dry_run :: "string list"
  cu_missing :: "string list"
  cu_unsafe :: "string list"
  cu_failed :: "string list"
  cu_errors :: "(string \<times> string) list"

record file_system =
  fs_is_dir :: "string list \<Rightarrow> bool"
  fs_unlink_error :: "string list \<Rightarrow> string option"

definition file_exists :: "artifact_store \<Rightarrow> string list \<Rightarrow> bool" where
  "file_exists a path \<longleftrightarrow> path \<in> set (dict_keys (ar_json a)) \<union> set (dict_keys (ar_text a))"

definition unlink :: "string list \<Rightarrow> artifact_store \<Rightarrow> artifact_store" where
  "unlink path a = a\<lparr>ar_json := filter (\<lambda>kv. fst kv \<noteq> path) (ar_json a), ar_text := filter (\<lambda>kv. fst kv \<noteq> path) (ar_text a)\<rparr>"

definition unsafe_uri :: "string \<Rightarrow> string \<Rightarrow> cleanup \<Rightarrow> cleanup" where
  "unsafe_uri uri reason c = c\<lparr>cu_unsafe := cu_unsafe c @ [uri], cu_errors := cu_errors c @ [(uri, reason)]\<rparr>"

definition error_text :: "retention_error exn \<Rightarrow> string" where
  "error_text e = (case e of Raise (RuntimeRetentionError m) \<Rightarrow> m | Raise (RecordsError m) \<Rightarrow> m | Py x \<Rightarrow> [])"

definition clean_uri :: "file_system \<Rightarrow> bool \<Rightarrow> bool \<Rightarrow> string list \<Rightarrow> string \<Rightarrow> cleanup \<times> artifact_store \<Rightarrow> cleanup \<times> artifact_store" where
  "clean_uri fs dry_run strict_missing retained uri ca =
     (case ca of (c, a) \<Rightarrow>
        if uri \<in> set retained then (unsafe_uri uri ''artifact_uri_is_also_retained'' c, a)
        else case resolve_uri a uri of
          Inl e \<Rightarrow> (unsafe_uri uri (error_text e) c, a)
        | Inr path \<Rightarrow>
            if fs_is_dir fs path then (unsafe_uri uri ''artifact_uri_resolves_to_directory'' c, a)
            else if \<not> file_exists a path then
              (c\<lparr>cu_missing := cu_missing c @ [uri],
                 cu_errors := cu_errors c @ (if strict_missing then [(uri, ''artifact_file_missing'')] else [])\<rparr>, a)
            else if dry_run then (c\<lparr>cu_dry_run := cu_dry_run c @ [uri]\<rparr>, a)
            else case fs_unlink_error fs path of
              Some reason \<Rightarrow> (c\<lparr>cu_failed := cu_failed c @ [uri], cu_errors := cu_errors c @ [(uri, reason)]\<rparr>, a)
            | None \<Rightarrow> (c\<lparr>cu_deleted := cu_deleted c @ [uri]\<rparr>, unlink path a))"

definition clean_all :: "file_system \<Rightarrow> bool \<Rightarrow> bool \<Rightarrow> retention_plan \<Rightarrow> artifact_store \<Rightarrow> cleanup \<times> artifact_store" where
  "clean_all fs dry_run strict_missing p a =
     fold (clean_uri fs dry_run strict_missing (pl_retained_artifact_uris p)) (pl_expired_artifact_uris p)
       (\<lparr>cu_deleted = [], cu_dry_run = [], cu_missing = [], cu_unsafe = [], cu_failed = [], cu_errors = []\<rparr>, a)"

record cleanup_report =
  re_created_at :: string
  re_dry_run :: bool
  re_strict_missing :: bool
  re_report_days :: int
  re_expired_run_ids :: "string list"
  re_retained_run_ids :: "string list"
  re_deleted :: "string list"
  re_dry_run_uris :: "string list"
  re_missing :: "string list"
  re_unsafe :: "string list"
  re_failed :: "string list"
  re_retained :: "string list"
  re_errors :: "(string \<times> string) list"
  re_report_uri :: "string option"

definition has_errors :: "cleanup_report \<Rightarrow> bool" where
  "has_errors r \<longleftrightarrow> re_unsafe r \<noteq> [] \<or> re_failed r \<noteq> [] \<or> re_errors r \<noteq> []"

definition report_dict :: "cleanup_report \<Rightarrow> obj" where
  "report_dict r =
     [(''created_at'', JStr (re_created_at r)), (''dry_run'', JBool (re_dry_run r)), (''strict_missing'', JBool (re_strict_missing r)),
      (''cleanup_report_artifact_days'', JInt (re_report_days r)), (''expired_run_ids'', str_list (re_expired_run_ids r)),
      (''retained_run_ids'', str_list (re_retained_run_ids r)), (''deleted_artifact_uris'', str_list (re_deleted r)),
      (''dry_run_artifact_uris'', str_list (re_dry_run_uris r)), (''missing_artifact_uris'', str_list (re_missing r)),
      (''unsafe_artifact_uris'', str_list (re_unsafe r)), (''failed_artifact_uris'', str_list (re_failed r)),
      (''retained_artifact_uris'', str_list (re_retained r)),
      (''errors'', JList (map (\<lambda>(uri, reason). JObj [(''uri'', JStr uri), (''reason'', JStr reason)]) (re_errors r))),
      (''report_uri'', opt_str (re_report_uri r))]"

definition report_of :: "retention_policy \<Rightarrow> retention_plan \<Rightarrow> datetime \<Rightarrow> bool \<Rightarrow> bool \<Rightarrow> cleanup \<Rightarrow> cleanup_report" where
  "report_of policy p clock dry_run strict_missing c =
     \<lparr>re_created_at = iso_timestamp clock, re_dry_run = dry_run, re_strict_missing = strict_missing,
      re_report_days = rp_cleanup_report_artifact_days policy, re_expired_run_ids = pl_expired_run_ids p,
      re_retained_run_ids = pl_retained_run_ids p, re_deleted = sort (cu_deleted c), re_dry_run_uris = sort (cu_dry_run c),
      re_missing = sort (cu_missing c), re_unsafe = sort (cu_unsafe c), re_failed = sort (cu_failed c),
      re_retained = pl_retained_artifact_uris p, re_errors = cu_errors c, re_report_uri = None\<rparr>"

definition write_report :: "cleanup_report \<Rightarrow> (artifact_store, retention_error, string) st" where
  "write_report r = write_json [''retention-reports'', re_created_at r, ''runtime-retention-cleanup-report''] (JObj (report_dict r)) True"

definition apply_retention ::
  "file_system \<Rightarrow> retention_policy \<Rightarrow> datetime \<Rightarrow> bool \<Rightarrow> bool \<Rightarrow> bool \<Rightarrow> retention_plan \<Rightarrow> (artifact_store, retention_error, cleanup_report) st" where
  "apply_retention fs policy clock dry_run strict_missing persist_report p a =
     (case clean_all fs dry_run strict_missing p a of (c, a') \<Rightarrow>
        let report = report_of policy p clock dry_run strict_missing c in
        if persist_report then bindS (write_report report) (\<lambda>uri. retS (report\<lparr>re_report_uri := Some uri\<rparr>)) a' else (Inr report, a'))"

subsection \<open>What a clean-up deletes\<close>

text \<open>The URIs that the store hands out for what it writes.\<close>

definition written_uri :: "artifact_store \<Rightarrow> string \<Rightarrow> bool" where
  "written_uri a uri \<longleftrightarrow> (\<exists>path. relative_path path \<noteq> [] \<and> uri = uri_for a path)"

definition same_store :: "artifact_store \<Rightarrow> artifact_store \<Rightarrow> bool" where
  "same_store a b \<longleftrightarrow> ar_root b = ar_root a \<and> ar_uri_prefix b = ar_uri_prefix a"

lemma resolve_same: "same_store a b \<Longrightarrow> resolve_uri b = resolve_uri a"
  by (rule ext) (simp add: same_store_def resolve_uri_def relative_uri_path_def)

lemma resolve_written:
  assumes "relative_path path \<noteq> []" and "rstrip is_slash (ar_uri_prefix a) = ar_uri_prefix a"
  shows "resolve_uri a (uri_for a path) = Inr (relative_path path)"
proof -
  let ?r = "relative_path path"
  have u: "uri_for a path = (ar_uri_prefix a @ ''/'') @ join ''/'' ?r" using assms(1) by (simp add: uri_for_def as_posix_def)
  have parts: "posix_parts (join ''/'' ?r) = ?r"
    unfolding posix_parts_def written_path(1) [OF assms(1)] using written_path(3) [OF assms(1)] by (intro filter_True) blast
  have "resolve_from (ar_root a) ?r = ar_root a @ ?r" using written_path(3) [OF assms(1)] by (intro resolve_plain) blast
  moreover have "relative_uri_path a (uri_for a path) = Inr ?r"
    unfolding relative_uri_path_def u assms(2) using written_path(2,3) [OF assms(1)] assms(1) parts startswith_append [of "ar_uri_prefix a @ ''/''"]
    by (simp add: removeprefix_def raise_if_def list_ex_iff Let_def del: startswith_append append_assoc)
  ultimately show ?thesis by (simp add: resolve_uri_def Let_def raise_if_def)
qed

text \<open>One URI: either no file changes, or the file of an expired, not retained URI is deleted outside a dry run.\<close>

definition cleaned :: "string list \<Rightarrow> string list \<Rightarrow> artifact_store \<Rightarrow> string list \<Rightarrow> bool" where
  "cleaned uris retained a path \<longleftrightarrow> (\<exists>uri \<in> set uris. uri \<notin> set retained \<and> resolve_uri a uri = Inr path)"

lemma map_of_remove: "map_of (filter (\<lambda>kv. fst kv \<noteq> k) d) q = (if q = k then None else map_of d q)"
  by (induction d) auto

lemma map_of_unlink: "map_of (ar_json (unlink path a)) q = (if q = path then None else map_of (ar_json a) q)"
  "map_of (ar_text (unlink path a)) q = (if q = path then None else map_of (ar_text a) q)"
  by (simp_all add: unlink_def map_of_remove)

lemma unlink_same: "same_store a (unlink path a)"
  by (simp add: same_store_def unlink_def)

lemma file_exists_map: "file_exists a path \<longleftrightarrow> map_of (ar_json a) path \<noteq> None \<or> map_of (ar_text a) path \<noteq> None"
  by (auto simp: file_exists_def map_of_eq_None_iff)

lemma clean_uri_cases:
  obtains (kept) c' where "clean_uri fs dry strict retained uri (c, a) = (c', a)" "cu_deleted c' = cu_deleted c"
      "dry \<or> uri \<in> set retained \<or> (\<forall>path. resolve_uri a uri = Inr path \<longrightarrow> fs_is_dir fs path \<or> \<not> file_exists a path \<or> fs_unlink_error fs path \<noteq> None)"
  | (unlinked) c' path where "clean_uri fs dry strict retained uri (c, a) = (c', unlink path a)" "cu_deleted c' = cu_deleted c @ [uri]"
      "\<not> dry" "uri \<notin> set retained" "resolve_uri a uri = Inr path" "file_exists a path"
proof (cases "\<not> dry \<and> uri \<notin> set retained \<and> (\<exists>path. resolve_uri a uri = Inr path \<and> \<not> fs_is_dir fs path \<and> file_exists a path \<and> fs_unlink_error fs path = None)")
  case True
  then obtain path where "\<not> dry" "uri \<notin> set retained" "resolve_uri a uri = Inr path" "\<not> fs_is_dir fs path" "file_exists a path" "fs_unlink_error fs path = None"
    by blast
  then show thesis by (intro unlinked [of "c\<lparr>cu_deleted := cu_deleted c @ [uri]\<rparr>" path]) (simp_all add: clean_uri_def)
next
  case False
  then have "snd (clean_uri fs dry strict retained uri (c, a)) = a" "cu_deleted (fst (clean_uri fs dry strict retained uri (c, a))) = cu_deleted c"
    by (auto simp: clean_uri_def unsafe_uri_def split: sum.splits option.splits)
  then show thesis using False by (intro kept [of "fst (clean_uri fs dry strict retained uri (c, a))"]) (auto simp: prod_eq_iff)
qed

lemma clean_fold:
  assumes "fold (clean_uri fs dry strict retained) uris (c, a) = (c', a')"
  shows "same_store a a' \<and> (dry \<longrightarrow> a' = a) \<and>
     (\<forall>path. \<not> (map_of (ar_json a') path = map_of (ar_json a) path \<and> map_of (ar_text a') path = map_of (ar_text a) path) \<longrightarrow>
        cleaned uris retained a path \<and> \<not> file_exists a' path) \<and>
     (\<exists>ds. cu_deleted c' = cu_deleted c @ ds \<and> set ds \<subseteq> set uris - set retained \<and> (\<forall>uri \<in> set ds. \<exists>path. resolve_uri a uri = Inr path \<and> \<not> file_exists a' path))"
  using assms
proof (induction uris arbitrary: c a)
  case (Cons uri uris)
  show ?case
  proof (cases rule: clean_uri_cases [of fs dry strict retained uri c a])
    case (kept c1)
    with Cons show ?thesis by (fastforce simp: cleaned_def)
  next
    case (unlinked c1 path)
    let ?b = "unlink path a"
    from Cons.prems unlinked(1) have "fold (clean_uri fs dry strict retained) uris (c1, ?b) = (c', a')" by simp
    from Cons.IH [OF this] obtain ds where ih: "same_store ?b a'" "dry \<longrightarrow> a' = ?b"
      "\<And>q. \<not> (map_of (ar_json a') q = map_of (ar_json ?b) q \<and> map_of (ar_text a') q = map_of (ar_text ?b) q) \<Longrightarrow> cleaned uris retained ?b q \<and> \<not> file_exists a' q"
      "cu_deleted c' = cu_deleted c1 @ ds" "set ds \<subseteq> set uris - set retained" "\<forall>uri \<in> set ds. \<exists>path. resolve_uri ?b uri = Inr path \<and> \<not> file_exists a' path"
      by blast
    have rs: "resolve_uri ?b = resolve_uri a" by (rule resolve_same [OF unlink_same])
    have gone: "\<not> file_exists a' path"
    proof
      assume f: "file_exists a' path"
      then have "\<not> (map_of (ar_json a') path = map_of (ar_json ?b) path \<and> map_of (ar_text a') path = map_of (ar_text ?b) path)"
        by (auto simp: map_of_unlink file_exists_map)
      with ih(3) f show False by blast
    qed
    have "same_store a a'" using ih(1) unlink_same [of a path] by (simp add: same_store_def)
    moreover have "dry \<longrightarrow> a' = a" using unlinked(3) by simp
    moreover have "cleaned (uri # uris) retained a q \<and> \<not> file_exists a' q"
      if "\<not> (map_of (ar_json a') q = map_of (ar_json a) q \<and> map_of (ar_text a') q = map_of (ar_text a) q)" for q
    proof (cases "q = path")
      case True
      then show ?thesis using gone unlinked(4,5) by (auto simp: cleaned_def)
    next
      case False
      then show ?thesis using that ih(3) [of q] rs by (auto simp: cleaned_def map_of_unlink)
    qed
    moreover have "cu_deleted c' = cu_deleted c @ (uri # ds)" using ih(4) unlinked(2) by simp
    moreover have "set (uri # ds) \<subseteq> set (uri # uris) - set retained" using ih(5) unlinked(4) by auto
    moreover have "\<forall>u \<in> set (uri # ds). \<exists>path. resolve_uri a u = Inr path \<and> \<not> file_exists a' path" using ih(6) rs unlinked(5) gone by auto
    ultimately show ?thesis by blast
  qed
qed (simp add: same_store_def)

lemma clean_complete:
  assumes "fold (clean_uri fs False strict retained) uris (c, a) = (c', a')" and "uri \<in> set uris" "uri \<notin> set retained"
    and "resolve_uri a uri = Inr path" "\<not> fs_is_dir fs path" "fs_unlink_error fs path = None"
  shows "\<not> file_exists a' path"
  using assms
proof (induction uris arbitrary: c a)
  case (Cons u uris)
  obtain c1 b where step: "clean_uri fs False strict retained u (c, a) = (c1, b)" by (cases "clean_uri fs False strict retained u (c, a)")
  with Cons.prems(1) have rest: "fold (clean_uri fs False strict retained) uris (c1, b) = (c', a')" by simp
  have b: "same_store a b"
    using step by (cases rule: clean_uri_cases [of fs False strict retained u c a]) (auto simp: same_store_def unlink_def)
  have shrinks: "file_exists b path" if f: "file_exists a' path"
  proof -
    from f have "map_of (ar_json a') path = map_of (ar_json b) path \<and> map_of (ar_text a') path = map_of (ar_text b) path"
      using clean_fold [OF rest] by blast
    with f show ?thesis by (simp add: file_exists_map)
  qed
  show ?case
  proof (cases "u = uri")
    case True
    have "\<not> file_exists b path"
      using step by (cases rule: clean_uri_cases [of fs False strict retained u c a]) (use True Cons.prems(3-6) in \<open>auto simp: file_exists_map map_of_unlink\<close>)
    then show ?thesis using shrinks by blast
  next
    case False
    with Cons.prems have "uri \<in> set uris" "resolve_uri b uri = Inr path" using resolve_same [OF b] by auto
    with Cons.IH [OF rest] Cons.prems show ?thesis by blast
  qed
qed simp

lemma read_written:
  assumes "relative_path path \<noteq> []" and "same_store a b"
  shows "read_json (uri_for a path) b = ((case map_of (ar_json b) (relative_path path) of None \<Rightarrow> Inl (Py OSError) | Some v \<Rightarrow> Inr v) :: ('e, json) res)"
proof -
  let ?r = "relative_path path"
  have u: "uri_for a path = (ar_uri_prefix b @ ''/'') @ join ''/'' ?r" using assms by (simp add: uri_for_def as_posix_def same_store_def)
  have "resolve_from (ar_root b) ?r = ar_root b @ ?r" using written_path(3) [OF assms(1)] by (intro resolve_plain) blast
  then show ?thesis unfolding read_json_def u
    using written_path(1,2) [OF assms(1)] startswith_append [of "ar_uri_prefix b @ ''/''"]
    by (simp add: removeprefix_def Let_def del: startswith_append append_assoc)
qed

lemma clean_exact:
  assumes prefix: "rstrip is_slash (ar_uri_prefix a) = ar_uri_prefix a"
    and written: "\<forall>uri \<in> set (pl_expired_artifact_uris p) \<union> set (pl_retained_artifact_uris p). written_uri a uri"
    and run: "apply_retention fs policy clock dry strict False p a = (Inr r, a')"
  shows "(\<forall>uri \<in> set (pl_retained_artifact_uris p). read_json uri a' = (read_json uri a :: ('e, json) res)) \<and>
     (dry \<longrightarrow> a' = a) \<and>
     (\<forall>path. map_of (ar_json a') path \<noteq> map_of (ar_json a) path \<longrightarrow>
        (\<exists>uri \<in> set (pl_expired_artifact_uris p) - set (pl_retained_artifact_uris p). resolve_uri a uri = Inr path)) \<and>
     (\<forall>uri \<in> set (re_deleted r). uri \<in> set (pl_expired_artifact_uris p) - set (pl_retained_artifact_uris p) \<and>
        read_json uri a' = (Inl (Py OSError) :: ('e, json) res)) \<and>
     (\<not> dry \<and> (\<forall>path. \<not> fs_is_dir fs path \<and> fs_unlink_error fs path = None) \<longrightarrow>
        (\<forall>uri \<in> set (pl_expired_artifact_uris p) - set (pl_retained_artifact_uris p). read_json uri a' = (Inl (Py OSError) :: ('e, json) res)))"
proof -
  let ?ex = "pl_expired_artifact_uris p" and ?re = "pl_retained_artifact_uris p"
  let ?c0 = "\<lparr>cu_deleted = [], cu_dry_run = [], cu_missing = [], cu_unsafe = [], cu_failed = [], cu_errors = []\<rparr>"
  obtain c where fold: "fold (clean_uri fs dry strict ?re) ?ex (?c0, a) = (c, a')" and r: "re_deleted r = sort (cu_deleted c)"
    using run by (auto simp: apply_retention_def clean_all_def report_of_def Let_def split: prod.splits)
  note f = clean_fold [OF fold]
  have same: "same_store a a'" using f by blast
  have path: "resolve_uri a (uri_for a q) = Inr (relative_path q)" if "relative_path q \<noteq> []" for q
    using resolve_written [OF that prefix] .
  have gone: "read_json uri a' = (Inl (Py OSError) :: ('e, json) res)" if "written_uri a uri" "resolve_uri a uri = Inr q" "\<not> file_exists a' q" for uri q
  proof -
    from that(1) obtain q' where q': "relative_path q' \<noteq> []" "uri = uri_for a q'" by (auto simp: written_uri_def)
    with that(2) path have "q = relative_path q'" by simp
    then show ?thesis using that(3) read_written [OF q'(1) same, where 'e = 'e] q'(2) by (simp add: file_exists_map)
  qed
  have keep: "read_json uri a' = (read_json uri a :: ('e, json) res)" if uri: "uri \<in> set ?re" for uri
  proof -
    obtain q where q: "relative_path q \<noteq> []" "uri = uri_for a q" using uri written by (auto simp: written_uri_def)
    have "\<not> cleaned ?ex ?re a (relative_path q)"
    proof
      assume "cleaned ?ex ?re a (relative_path q)"
      then obtain u where u: "u \<in> set ?ex" "u \<notin> set ?re" "resolve_uri a u = Inr (relative_path q)" by (auto simp: cleaned_def)
      from u(1) written obtain q' where q': "relative_path q' \<noteq> []" "u = uri_for a q'" by (auto simp: written_uri_def)
      with u(3) path have "relative_path q' = relative_path q" by simp
      then have "u = uri" using q q' by (simp add: uri_for_def)
      with u(2) uri show False by simp
    qed
    with f have "map_of (ar_json a') (relative_path q) = map_of (ar_json a) (relative_path q)" by blast
    then show ?thesis
      using read_written [OF q(1) same, where 'e = 'e] read_written [OF q(1), of a a, where 'e = 'e] q(2) by (simp add: same_store_def)
  qed
  have only: "\<exists>uri \<in> set ?ex - set ?re. resolve_uri a uri = Inr q" if "map_of (ar_json a') q \<noteq> map_of (ar_json a) q" for q
    using f that by (auto simp: cleaned_def)
  have deleted: "uri \<in> set ?ex - set ?re \<and> read_json uri a' = (Inl (Py OSError) :: ('e, json) res)" if "uri \<in> set (re_deleted r)" for uri
  proof -
    from f have "set (cu_deleted c) \<subseteq> set ?ex - set ?re" "\<forall>uri \<in> set (cu_deleted c). \<exists>path. resolve_uri a uri = Inr path \<and> \<not> file_exists a' path"
      by auto
    moreover have "uri \<in> set (cu_deleted c)" using that r by simp
    ultimately obtain q where "uri \<in> set ?ex - set ?re" "resolve_uri a uri = Inr q" "\<not> file_exists a' q" by blast
    then show ?thesis using gone [of uri q] written by blast
  qed
  have all: "read_json uri a' = (Inl (Py OSError) :: ('e, json) res)"
    if nd: "\<not> dry" "\<forall>path. \<not> fs_is_dir fs path \<and> fs_unlink_error fs path = None" and u: "uri \<in> set ?ex - set ?re" for uri
  proof -
    obtain q where q: "relative_path q \<noteq> []" "uri = uri_for a q" using u written by (auto simp: written_uri_def)
    with path have rs: "resolve_uri a uri = Inr (relative_path q)" by simp
    have "\<not> file_exists a' (relative_path q)" using clean_complete [of fs strict ?re ?ex ?c0 a c a' uri] fold nd u rs by simp
    then show ?thesis using gone [OF _ rs] u written by blast
  qed
  show ?thesis using keep only deleted all f by blast
qed

subsection \<open>What a plan expires\<close>

lemma judged_keys:
  "mapR (\<lambda>kv. bindR (run_is_expired (snd kv) now policy) (\<lambda>b. Inr (fst kv, b))) d = Inr judged \<Longrightarrow> map fst judged = map fst d"
  by (induction d arbitrary: judged) (auto simp: bindR_Inr_iff)

lemma judged_once:
  assumes "mapR (\<lambda>kv. bindR (run_is_expired (snd kv) now policy) (\<lambda>b. Inr (fst kv, b))) d = Inr judged"
    and "distinct (dict_keys d)" and "map_of d i = Some run"
  shows "\<exists>b. run_is_expired run now policy = Inr b \<and> (i, b) \<in> set judged \<and> (\<forall>b'. (i, b') \<in> set judged \<longrightarrow> b' = b)"
  using assms
proof (induction d arbitrary: judged)
  case (Cons kv d)
  from Cons.prems(1) obtain b js where j: "run_is_expired (snd kv) now policy = Inr b" "judged = (fst kv, b) # js"
    "mapR (\<lambda>kv. bindR (run_is_expired (snd kv) now policy) (\<lambda>b. Inr (fst kv, b))) d = Inr js"
    by (auto simp: bindR_Inr_iff)
  have keys: "fst ` set js = fst ` set d" using judged_keys [OF j(3)] by (metis set_map)
  show ?case
  proof (cases "fst kv = i")
    case True
    then have "snd kv = run" using Cons.prems(3) by (cases kv) simp
    moreover have "i \<notin> fst ` set js" using keys Cons.prems(2) True by simp
    ultimately show ?thesis using j True by force
  next
    case False
    then have "map_of d i = Some run" using Cons.prems(3) by (cases kv) simp
    with Cons.IH [OF j(3)] Cons.prems(2) False j(2) show ?thesis by auto
  qed
qed simp

lemma mappings_objects: "mappings (JList (map JObj xs)) = xs"
  by (induction xs) (simp_all add: mappings_def List.map_filter_simps)

lemma dict_of_distinct: "distinct (dict_keys d) \<Longrightarrow> dict_of d = d"
proof (induction d rule: rev_induct)
  case (snoc kv d)
  then have "dict_of d = d" and "map_of d (fst kv) = None" by (auto simp: map_of_eq_None_iff)
  moreover have "dict_set k v d = d @ [(k, v)]" if "map_of d k = None" for k v using that by (induction d) (auto split: if_splits)
  ultimately show ?case by (simp add: dict_of_def)
qed (simp add: dict_of_def)

text \<open>A table of the store whose rows stand under their identifiers.\<close>

definition keyed :: "table \<Rightarrow> bool" where
  "keyed t \<longleftrightarrow> distinct (dict_keys t) \<and> (\<forall>kv \<in> set t. \<exists>i. fst kv = JStr i \<and> map_of (snd kv) ''id'' = Some (JStr i))"

lemma keyed_distinct:
  assumes "keyed t"
  shows "distinct (dict_keys (map (\<lambda>kv. (py_str (fst kv), snd kv)) t))"
proof -
  have str: "\<exists>i. k = JStr i" if "k \<in> set (dict_keys t)" for k using assms that by (auto simp: keyed_def)
  have "inj_on py_str (set (dict_keys t))"
  proof (rule inj_onI)
    show "k = k'" if "k \<in> set (dict_keys t)" "k' \<in> set (dict_keys t)" "py_str k = py_str k'" for k k'
      using str [OF that(1)] str [OF that(2)] that(3) by auto
  qed
  moreover have "distinct (dict_keys t)" using assms by (simp add: keyed_def)
  ultimately have "distinct (map py_str (dict_keys t))" unfolding distinct_map [of py_str "dict_keys t"] by blast
  then show ?thesis by (simp add: comp_def)
qed

lemma records_by_id_table:
  assumes "keyed t"
  shows "records_by_id (table_json t) = map (\<lambda>kv. (py_str (fst kv), snd kv)) t"
proof -
  let ?m = "map (\<lambda>kv. (py_str (fst kv), snd kv)) t"
  have rows: "\<forall>kv \<in> set t. \<exists>i. fst kv = JStr i \<and> map_of (snd kv) ''id'' = Some (JStr i)" using assms by (simp add: keyed_def)
  have f: "filter (\<lambda>r. map_of r ''id'' \<noteq> None) (dict_values t) = dict_values t" using rows by (intro filter_True) force
  have m: "map (\<lambda>r. (py_str (get r ''id''), r)) (dict_values t) = ?m" using rows by (induction t) (auto simp: get_def get_or_def)
  show ?thesis unfolding records_by_id_def table_json_def mappings_objects f m by (rule dict_of_distinct [OF keyed_distinct [OF assms]])
qed

lemma keyed_lookup:
  assumes "keyed t" and "map_of t (JStr i) = Some run"
  shows "map_of (map (\<lambda>kv. (py_str (fst kv), snd kv)) t) i = Some run"
proof -
  have rows: "\<forall>kv \<in> set t. \<exists>i. fst kv = JStr i \<and> map_of (snd kv) ''id'' = Some (JStr i)" using assms(1) by (simp add: keyed_def)
  then show ?thesis using assms(2) by (induction t) (force split: if_splits)+
qed

lemma store_records:
  obtains records where "as_obj (get_or (as_runtime_plane_recordset cv env st) ''records'' (JObj [])) = Some records"
    "get_or records ''runtime_runs'' (JList []) = table_json (st_runtime_runs st)"
    "list_records records ''runtime_events'' = st_runtime_events st"
  by (rule that [of "obj_or_empty (get_or (as_runtime_plane_recordset cv env st) ''records'' (JObj []))"])
    (simp_all add: as_runtime_plane_recordset_def obj_or_empty_def list_records_def log_json_def mappings_objects)

lemma mapR_mem: "mapR f xs = Inr ys \<Longrightarrow> x \<in> set xs \<Longrightarrow> \<exists>y \<in> set ys. f x = Inr y"
  by (induction xs arbitrary: ys) (auto simp: bindR_Inr_iff)

lemma judged_sides:
  "i \<in> set (map fst (filter snd js)) \<longleftrightarrow> (i, True) \<in> set js" "i \<in> set (map fst (filter (\<lambda>p. \<not> snd p) js)) \<longleftrightarrow> (i, False) \<in> set js"
  by (induction js) auto

lemma map_filter_mem: "x \<in> set xs \<Longrightarrow> f x = Some y \<Longrightarrow> y \<in> set (List.map_filter f xs)"
  by (force simp: List.map_filter_def)

lemma event_uris:
  assumes "iter_runtime_artifact_uris records = Inr uris" and "e \<in> set (list_records records ''runtime_events'')"
    and "get e ''run_id'' = JStr i" and "f \<in> {''planned_action_uri'', ''execution_uri'', ''result_uri''}" and "get e f = JStr uri"
  shows "(i, uri) \<in> set uris"
proof -
  from assms(1) obtain es cs ts vs ms where
    es: "mapR (uris_at [''planned_action_uri'', ''execution_uri'', ''result_uri'']) (list_records records ''runtime_events'') = Inr es"
    and "Inr (concat (es @ cs @ ts @ vs @ ms)) = (Inr uris :: (retention_error, (string \<times> string) list) res)"
    unfolding iter_runtime_artifact_uris_def bindR_Inr_iff by blast
  then have u: "uris = concat es @ concat (cs @ ts @ vs @ ms)" by simp
  obtain x where x: "uris_at [''planned_action_uri'', ''execution_uri'', ''result_uri''] e = Inr x" "x \<in> set es"
    using mapR_mem [OF es assms(2)] by (elim bexE)
  have "getitem e ''run_id'' = (Inr (JStr i) :: (retention_error, json) res)"
    using assms(3) by (auto simp: getitem_def get_def get_or_def split: option.splits)
  with x(1) have "x = map (\<lambda>uri. (i, uri)) (List.map_filter (\<lambda>f. as_str (get e f)) [''planned_action_uri'', ''execution_uri'', ''result_uri''])"
    unfolding uris_at_def by (simp only: bindR_simps py_str.simps sum.inject)
  moreover have "uri \<in> set (List.map_filter (\<lambda>f. as_str (get e f)) [''planned_action_uri'', ''execution_uri'', ''result_uri''])"
    using assms(4,5) by (intro map_filter_mem [of f]) (simp_all only: set_simps insert_iff empty_iff as_str.simps)
  ultimately have "(i, uri) \<in> set x" by (simp only: set_map image_eqI)
  then show ?thesis using x(2) u by auto
qed

text \<open>When a run of a known status and completion time is due for clean-up.\<close>

definition run_due :: "retention_policy \<Rightarrow> datetime \<Rightarrow> string \<Rightarrow> datetime \<Rightarrow> bool" where
  "run_due policy now status completed \<longleftrightarrow>
     status \<notin> {''queued'', ''running''} \<and> completed + days (retention_days policy status) \<le> now"

lemma run_is_expired_due:
  assumes "get run ''status'' = JStr status" "get run ''completed_at'' = JStr (iso_timestamp completed)" "in_calendar completed"
  shows "run_is_expired run now policy = Inr (run_due policy now status completed)"
proof -
  have "run_status run = status" using assms(1) by (simp add: run_status_def)
  then show ?thesis using assms(2) parse_iso_timestamp [OF assms(3), where 'e = retention_error]
    by (simp add: run_is_expired_def run_due_def Let_def)
qed

lemma plan_of_run:
  assumes plan: "plan_retention policy now (as_runtime_plane_recordset cv env st) = Inr p" and keyed: "keyed (st_runtime_runs st)"
    and row: "map_of (st_runtime_runs st) (JStr i) = Some run" and status: "get run ''status'' = JStr status"
    and completed: "get run ''completed_at'' = JStr (iso_timestamp completed)" "in_calendar completed"
  shows "(i \<in> set (pl_expired_run_ids p) \<longleftrightarrow> run_due policy now status completed) \<and>
     (i \<in> set (pl_retained_run_ids p) \<longleftrightarrow> \<not> run_due policy now status completed) \<and>
     (\<forall>e \<in> set (st_runtime_events st). \<forall>f \<in> {''planned_action_uri'', ''execution_uri'', ''result_uri''}. \<forall>uri.
        get e ''run_id'' = JStr i \<and> get e f = JStr uri \<longrightarrow>
          uri \<in> set (if run_due policy now status completed then pl_expired_artifact_uris p else pl_retained_artifact_uris p))"
proof -
  obtain records where rec: "as_obj (get_or (as_runtime_plane_recordset cv env st) ''records'' (JObj [])) = Some records"
    "get_or records ''runtime_runs'' (JList []) = table_json (st_runtime_runs st)" "list_records records ''runtime_events'' = st_runtime_events st"
    by (rule store_records)
  let ?d = "map (\<lambda>kv. (py_str (fst kv), snd kv)) (st_runtime_runs st)"
  obtain judged uris where j: "mapR (\<lambda>kv. bindR (run_is_expired (snd kv) now policy) (\<lambda>b. Inr (fst kv, b))) ?d = Inr judged"
    and u: "iter_runtime_artifact_uris records = Inr uris"
    and p: "pl_expired_run_ids p = sort (map fst (filter snd judged))" "pl_retained_run_ids p = sort (map fst (filter (\<lambda>p. \<not> snd p) judged))"
      "pl_expired_artifact_uris p = sorted_set (map snd (filter (\<lambda>p. fst p \<in> set (map fst (filter snd judged))) uris))"
      "pl_retained_artifact_uris p = sorted_set (map snd (filter (\<lambda>p. fst p \<notin> set (map fst (filter snd judged))) uris))"
    using plan unfolding plan_retention_def rec(1) option.case rec(2) records_by_id_table [OF keyed] by (auto simp: bindR_Inr_iff Let_def)
  obtain b where b: "run_is_expired run now policy = Inr b" "(i, b) \<in> set judged" "\<forall>b'. (i, b') \<in> set judged \<longrightarrow> b' = b"
    using judged_once [OF j keyed_distinct [OF keyed] keyed_lookup [OF keyed row]] by blast
  have bd: "b = run_due policy now status completed" using b(1) run_is_expired_due [OF status completed, of now policy] by simp
  have ex: "i \<in> set (map fst (filter snd judged)) \<longleftrightarrow> b" and re: "i \<in> set (map fst (filter (\<lambda>p. \<not> snd p) judged)) \<longleftrightarrow> \<not> b"
    unfolding judged_sides using b(2,3) by (cases b; auto)+
  have uri: "uri \<in> set (if b then pl_expired_artifact_uris p else pl_retained_artifact_uris p)"
    if "e \<in> set (st_runtime_events st)" "f \<in> {''planned_action_uri'', ''execution_uri'', ''result_uri''}" "get e ''run_id'' = JStr i" "get e f = JStr uri" for e f uri
  proof -
    have "(i, uri) \<in> set uris" using event_uris [OF u, of e i f uri] that rec(3) by simp
    then show ?thesis using ex by (auto simp: p(3,4) sorted_set_props image_iff)
  qed
  have "i \<in> set (pl_expired_run_ids p) \<longleftrightarrow> b" "i \<in> set (pl_retained_run_ids p) \<longleftrightarrow> \<not> b" using ex re unfolding p(1,2) set_sort by blast+
  with uri show ?thesis unfolding bd [symmetric] by blast
qed



subsection \<open>Concrete runs\<close>

abbreviation sample_done :: datetime where
  "sample_done \<equiv> 63113817600000001"

definition sample_run :: "string \<Rightarrow> datetime \<Rightarrow> obj" where
  "sample_run i t = [(''id'', JStr i), (''status'', JStr ''succeeded''), (''completed_at'', JStr (iso_timestamp t))]"

definition sample_uri :: "string \<Rightarrow> string" where
  "sample_uri i = uri_for sample_artifacts [''traces'', i, ''result'']"

definition sample_records :: store where
  "sample_records = empty_store
     \<lparr>st_runtime_runs := [(JStr ''r1'', sample_run ''r1'' sample_done), (JStr ''r2'', sample_run ''r2'' (sample_done + days 40))],
      st_runtime_events := [[(''run_id'', JStr ''r1''), (''result_uri'', JStr (sample_uri ''r1''))], [(''run_id'', JStr ''r2''), (''result_uri'', JStr (sample_uri ''r2''))]]\<rparr>"

definition sample_files :: artifact_store where
  "sample_files = sample_artifacts\<lparr>ar_json := [(relative_path [''traces'', ''r1'', ''result''], JInt 1), (relative_path [''traces'', ''r2'', ''result''], JInt 2)]\<rparr>"

definition sample_plan :: retention_plan where
  "sample_plan = \<lparr>pl_expired_run_ids = [''r1''], pl_expired_artifact_uris = [sample_uri ''r1''], pl_retained_run_ids = [''r2''],
     pl_retained_artifact_uris = [sample_uri ''r2'']\<rparr>"

definition plain_files :: file_system where
  "plain_files = \<lparr>fs_is_dir = (\<lambda>_. False), fs_unlink_error = (\<lambda>_. None)\<rparr>"

lemma sample_planned: "plan_retention default_retention_policy (sample_done + days 40) (as_runtime_plane_recordset ''0.2.0'' ''dev'' sample_records) = Inr sample_plan"
  by code_simp

lemma sample_written: "\<forall>uri \<in> set (pl_expired_artifact_uris sample_plan) \<union> set (pl_retained_artifact_uris sample_plan). written_uri sample_files uri"
proof -
  have "uri_for sample_files [''traces'', i, ''result''] = sample_uri i" for i by (simp add: sample_uri_def sample_files_def uri_for_def)
  moreover have "relative_path [''traces'', ''r1'', ''result''] \<noteq> []" "relative_path [''traces'', ''r2'', ''result''] \<noteq> []" by code_simp+
  ultimately show ?thesis unfolding sample_plan_def written_uri_def by (auto intro: exI [of _ "[''traces'', ''r1'', ''result'']"] exI [of _ "[''traces'', ''r2'', ''result'']"])
qed

lemma sample_prefix: "rstrip is_slash (ar_uri_prefix sample_files) = ar_uri_prefix sample_files"
  by code_simp

definition sample_cleaned :: artifact_store where
  "sample_cleaned = snd (apply_retention plain_files default_retention_policy sample_done False False False sample_plan sample_files)"

lemma sample_applied:
  obtains r where "apply_retention plain_files default_retention_policy sample_done False False False sample_plan sample_files = (Inr r, sample_cleaned)"
proof -
  let ?m = "apply_retention plain_files default_retention_policy sample_done False False False sample_plan sample_files"
  have "\<exists>r. fst ?m = Inr r" by (simp add: apply_retention_def Let_def split: prod.splits)
  then show thesis using that by (auto simp: sample_cleaned_def prod_eq_iff)
qed



text \<open>The comparison with the retained URIs is on their text. Two spellings of one path are two URIs, so a record of an expired run that
  names a retained artifact with a doubled slash has it deleted.\<close>

theorem alias_deletes_retained:
  "let uri = sample_uri ''r2''; alias = ''hetzner://runtime/traces//r2/result.json'';
       p = \<lparr>pl_expired_run_ids = [''r1''], pl_expired_artifact_uris = [alias], pl_retained_run_ids = [''r2''], pl_retained_artifact_uris = [uri]\<rparr>;
       a' = snd (apply_retention plain_files default_retention_policy sample_done False False False p sample_files) in
   alias \<noteq> uri \<and> read_json uri sample_files = (Inr (JInt 2) :: (unit, json) res) \<and> read_json uri a' = (Inl (Py OSError) :: (unit, json) res)"
  by code_simp

end
