(* ===== verification/Spec2Isabelle.thy ===== *)
theory Spec2Isabelle
  imports Registry_Graph Tenant_Resolution Settlement Memory_Candidates Policy_Denials Invariant_Assertions Retention
begin

text \<open>
  A verification library for the skill-centric agent system.

  \<^bold>\<open>The program.\<close> A task that arrives at the system is analysed (\<open>composition/task_analyzer.py\<close>) and composed into a
  runtime profile (\<open>composition/profile_composer.py\<close>): the skills, tools, policies, scopes and budgets one run may
  use, chosen from the module registry (\<open>registries/modules.py\<close>) and, for tenant tasks, checked against the tenant's
  access authority (\<open>composition/tenant_access.py\<close>). The runtime plane queues the task (\<open>runtime/queue.py\<close>) in the
  runtime store (\<open>runtime/storage_memory.py\<close>), a worker claims it, reserves quota (\<open>runtime/quotas.py\<close>), starts a run
  under a sealed profile (\<open>runtime/entrypoint.py\<close>) and executes it in four steps (\<open>runtime/loop.py\<close>) under the enforcer
  (\<open>runtime/enforcement.py\<close>), while the flight recorder (\<open>runtime/flight_recorder.py\<close>) writes every event to the store and its payload, redacted, to the artifact store
  (\<open>runtime/artifacts.py\<close>). All paths here are relative to \<open>src/src/skill_centric_agent_system\<close>.

  \<^bold>\<open>The theories.\<close>
  \<^item> \<open>Prelude\<close>, \<open>Py_Strings\<close>, \<open>Py_Json\<close>: results (\<open>res\<close>: a Python exception of the language or of the component, or a
    value) and their sequencing, state transformers (\<open>st\<close>: a raising operation keeps what it wrote before), insertion
    ordered dictionaries, the string functions and the JSON values the source uses; reachability and the locale
    \<open>invariant_system\<close> that every state machine below interprets.
  \<^item> \<open>Models\<close>: the enumerations, timestamps, slugs and recomposition requests of \<open>runtime/models.py\<close>.
  \<^item> \<open>Task_Analyzer\<close>, \<open>Tenant_Access\<close>, \<open>Composer\<close>: the composition plane, one definition per method, with the errors
    each raises; the registry, the scores and the policy engine of a composition are read as the records that the
    composition context carries.
  \<^item> \<open>Registry\<close>, \<open>Registry_Graph\<close>: the module registry and its dependency graph; the two recursive traversals of the
    source are total functions here, with termination by the number of names not yet seen.
  \<^item> \<open>Enforcement\<close>: the run state and every guard and budget of the enforcer, on composed profiles.
  \<^item> \<open>Runtime_Store\<close>, \<open>Artifacts\<close>, \<open>Redaction\<close>, \<open>Flight_Recorder\<close>: the store, a map of files with the path rules of
    the artifact store, the redaction of payloads (the four regular expressions as backtracking matchers) and the
    recorder on both.
  \<^item> \<open>Quotas\<close>, \<open>Queue\<close>, \<open>Queue_Lifecycle\<close>: quota reservations, the queue manager, and the life of a queue item.
  \<^item> \<open>Validation\<close>, \<open>Planning\<close>, \<open>Runtime_Context\<close>: the stages of a run: the context that is retrieved for it
    (\<open>runtime/context.py\<close>, with the retrieval client as a parameter), the plan its skill handlers make
    (\<open>runtime/skill_handlers.py\<close>, \<open>runtime/planning.py\<close>), its response and the validators of it
    (\<open>runtime/response.py\<close>, \<open>runtime/validation.py\<close>).
  \<^item> \<open>Decimal\<close>, \<open>Audit_Log\<close>, \<open>Capability_Gaps\<close>, \<open>Tool_Gateway\<close>: decimal numerals are injective, hence event keys are
    fresh and recording never fails; refused accesses as learning candidates (\<open>runtime/capability_gaps.py\<close>); the
    gateway through which a run calls tools (\<open>runtime/tool_gateway.py\<close>), with adapters as functions on a world parameter.
  \<^item> \<open>Artifact_Frame\<close>, \<open>Run_Trail\<close>: what recording leaves alone, the state of a run, and the predicates \<open>leaves\<close> and \<open>ends\<close>
    on the events a statement appends; the locale \<open>run_frame\<close> collects the invariants that recording keeps and is
    interpreted for a quiet, a registered and a sealed run.
  \<^item> \<open>Canonical_Json\<close>, \<open>Profile_Seal\<close>, \<open>Entrypoint\<close>: the canonical text of a JSON value, the seal of a profile and the
    start of a run; the hash function and the control-plane client are parameters.
  \<^item> \<open>Error_Taxonomy\<close>, \<open>Loop\<close>, \<open>Run_Outcome\<close>: the classification of outcomes, the runtime loop statement by statement,
    and what it leaves behind on every way out.
  \<^item> \<open>Queue_Worker\<close>, \<open>Worker_Frame\<close>, \<open>Settlement\<close>: the worker of the queue (\<open>runtime/queue.py\<close>), statement by statement,
    what a run leaves alone in the queue, and the ledger of a claimed item in Hoare triples: which item, attempt, claim
    and quota records each way out of \<open>process_one\<close> closes.
  \<^item> \<open>Safety_Compiler\<close>, \<open>Memory_Candidates\<close>, \<open>Policy_Denials\<close>: learning under control: the semantic drift guard
    (\<open>runtime/safety_compiler.py\<close>), memory candidates from extraction to submission (\<open>runtime/memory_candidates.py\<close>,
    \<open>runtime/memory_feedback.py\<close>), and the ledger of refused authority (\<open>runtime/policy_denials.py\<close>).
  \<^item> \<open>Invariant_Assertions\<close>: the executable safety invariants of profiles (\<open>runtime/invariant_assertions.py\<close>) and the replay of
    fixture cases against them (\<open>runtime/invariant_replay.py\<close>).
  \<^item> \<open>Iso_Time\<close>, \<open>Retention\<close>: reading the timestamps the runtime writes, with the calendar of \<open>datetime\<close>, and the retention of
    artifacts (\<open>runtime/retention.py\<close>) from the records of the store to the files.
  \<^item> \<open>Tenant_Runtime\<close>, \<open>Tenant_Resolution\<close>: the tenant start check, the data-source connector and the resolution of
    hostnames to tenants.

  \<^bold>\<open>What is shown.\<close> Composition: analysed tasks are well formed and classified as documented, a profile lists only
  what the registry, the policies and the tenant authority admit, and is exactly what the enforcer accepts. Registry:
  resolution yields the newest version and graph validation accepts exactly the closed, well-kinded, permitted and
  acyclic selections. Enforcement: no counter exceeds its limit in any reachable state, and a tool call is recorded
  exactly under its conditions. Queue and store: running limits hold under every interleaving, claims are exclusive,
  fair to due items and leave other items alone, retries are bounded, tasks come back as they were enqueued. Recorder
  and quota: the event log is append-only and ordered, quota limits hold, redacted artifacts leak no keyed secret.
  Runs: a started run is announced and sealed, the seal detects every change of the stored profile, each tool call is
  accounted for, a run is closed exactly once with the event and the status of its outcome, and recomposition ends.
  Worker: a claimed item is closed together with its attempt, claim and quota on every way out the source handles.
  Learning: the drift guard, the memory gate and the denial ledger decide exactly by their declared conditions, and
  only reviewed lessons reach durable memory. Retention: artifacts of runs that are not due survive every clean-up.
  Invariants: which of the executable safety invariants every composed profile satisfies.
  Where the code does less than its documentation says, the theorem states what it does.

  \<^bold>\<open>Conventions.\<close> Python's integers are \<open>int\<close>, dictionaries are association lists in insertion order, exceptions are
  values. A reading of the clock is an argument, one for each call. Operations of the store are single steps, since the
  source runs each under one lock; interleaving is the order of the steps. Strings are sequences of the characters up
  to code point 255; case folding is the ASCII one. There is no fuel: every loop and recursion of the modelled source
  is a total function, except the loop over recompositions, a partial function that is shown to return, and the polling loop of the worker, which
  returns only when it is stopped. Back-off multipliers are whole numbers, as in the default configuration.

  \<^bold>\<open>Not modelled.\<close> The Postgres store (SQL executed elsewhere; the in-memory store has the same protocol), the HTTP
  interface and command line, reading files and environment, the tool adapters,
  the memory and evaluation pipelines, the control-plane seed, and the scripts that check or deploy the repository.
\<close>



end
